(* ===== verification/DZ_Prelude.thy ===== *)
theory DZ_Prelude
  imports Main "HOL-Library.Word" "HOL-Library.Monad_Syntax"
begin

text \<open>
  What every theory of the development shares.

  Conventions of the model.
  \<^item> A C function whose every run is defined is a total function on its arguments and the
    state. A C function that can run into undefined behaviour (a read outside an object, a
    write past a buffer, a null dereference, a double free) returns an \<open>option\<close>:
    \<open>None\<close> says that the C standard gives this run no meaning. The \<open>do\<close> notation of
    \<open>Monad_Syntax\<close> on \<open>option\<close> sequences such steps.
  \<^item> A C error return stays a value: the \<open>int\<close> (or the null pointer, as an inner
    \<open>None\<close>) that the code returns, with \<open>errno\<close> in the state.
  \<^item> \<open>int\<close>, \<open>ssize_t\<close> and \<open>off_t\<close> are unbounded \<open>int\<close>s where the code cannot
    overflow them, and words where the width matters.
\<close>

named_theorems frame_simps \<open>what an operation leaves unchanged\<close>
named_theorems call_simps \<open>the value of a call on the environment's normal outcome\<close>

type_synonym byte = "8 word"
type_synonym bytes = "byte list"

section \<open>Lists\<close>

lemma take_drop_slice_Suc:
  "n \<le> length (drop i xs) \<Longrightarrow> length (take n (drop i xs)) = n"
  by simp

lemma take_drop_append_slices:
  "take m (drop i xs) @ take n (drop (i + m) xs) = take (m + n) (drop i xs)"
  by (simp add: take_add add.commute)

lemma takeWhile_neq_id: "c \<notin> set s \<Longrightarrow> takeWhile (\<lambda>x. x \<noteq> c) s = s"
  by (induction s) auto

lemma takeWhile_neq_append [simp]:
  "c \<notin> set s \<Longrightarrow> takeWhile (\<lambda>x. x \<noteq> c) (s @ c # t) = s"
  by (induction s) auto

lemma drop_append_exact [simp]: "drop (length xs) (xs @ ys) = ys"
  by simp

lemma drop_length_add: "drop (length xs + k) (xs @ ys) = drop k ys"
  by simp

lemma length_eq_append_neq: "length xs \<noteq> length ys \<Longrightarrow> xs \<noteq> ys"
  by auto

section \<open>Undefined behaviour as \<open>None\<close>\<close>

lemma bind_eq_Some_iff:
  "Option.bind m f = Some y \<longleftrightarrow> (\<exists>x. m = Some x \<and> f x = Some y)"
  by (cases m) auto

definition guard_ub :: "bool \<Rightarrow> unit option" where
  \<comment> \<open>a check that the C abstract machine makes and the code does not\<close>
  "guard_ub b = (if b then Some () else None)"

lemma guard_ub_simps [simp]: "guard_ub True = Some ()" "guard_ub False = None"
  by (simp_all add: guard_ub_def)

lemma guard_ub_eq_Some [simp]: "guard_ub b = Some u \<longleftrightarrow> b"
  by (simp add: guard_ub_def)

end
