(* ===== verification/CStrings.thy ===== *)
theory CStrings
  imports DZ_Prelude
begin

text \<open>
  The functions of \<^verbatim>\<open>string.h\<close> and \<^verbatim>\<open>libgen.h\<close> the code uses. A C string is the
  character list before its terminating null byte; \<open>cstring\<close> says that the list holds no
  null byte itself. A buffer is the list of its bytes, so that a write past its end is seen.
\<close>

abbreviation NUL :: char where "NUL \<equiv> CHR 0x00"
abbreviation SLASH :: char where "SLASH \<equiv> CHR ''/''"

definition cstring :: "string \<Rightarrow> bool" where
  "cstring s \<longleftrightarrow> NUL \<notin> set s"

lemma cstring_simps [simp]:
  "cstring []" "cstring (c # s) \<longleftrightarrow> c \<noteq> NUL \<and> cstring s"
  "cstring (s @ t) \<longleftrightarrow> cstring s \<and> cstring t"
  by (auto simp: cstring_def)

lemma cstring_drop [simp]: "cstring s \<Longrightarrow> cstring (drop n s)"
  by (auto simp: cstring_def dest: in_set_dropD)

lemma cstring_take [simp]: "cstring s \<Longrightarrow> cstring (take n s)"
  by (auto simp: cstring_def dest: in_set_takeD)

section \<open>Searching\<close>

text \<open>\<^verbatim>\<open>strrchr\<close>: the index of the last occurrence, \<open>None\<close> for the null pointer.\<close>

primrec strrchr :: "string \<Rightarrow> char \<Rightarrow> nat option" where
  "strrchr [] c = None"
| "strrchr (x # xs) c =
     (case strrchr xs c of
        Some i \<Rightarrow> Some (Suc i)
      | None \<Rightarrow> if x = c then Some 0 else None)"

lemma strrchr_eq_None: "strrchr s c = None \<longleftrightarrow> c \<notin> set s"
  by (induction s) (auto split: option.splits)

lemma strrchr_absent [simp]: "c \<notin> set s \<Longrightarrow> strrchr s c = None"
  by (simp add: strrchr_eq_None)

lemma strrchr_append_last:
  "c \<notin> set t \<Longrightarrow> strrchr (s @ c # t) c = Some (length s)"
proof (induction s)
  case Nil
  then show ?case by simp
next
  case (Cons a s)
  then show ?case by simp
qed

lemma strrchr_Some_decomp:
  assumes "strrchr s c = Some i"
  shows "i < length s \<and> s ! i = c \<and> c \<notin> set (drop (Suc i) s)"
  using assms
proof (induction s arbitrary: i)
  case Nil
  then show ?case by simp
next
  case (Cons a s)
  show ?case
  proof (cases "strrchr s c")
    case None
    then have "c \<notin> set s" by (simp add: strrchr_eq_None)
    with Cons.prems None show ?thesis by (auto split: if_splits)
  next
    case (Some j)
    with Cons show ?thesis by auto
  qed
qed

lemma strrchr_split:
  assumes "strrchr s c = Some i"
  obtains t u where "s = t @ c # u" "c \<notin> set u" "i = length t"
proof
  from strrchr_Some_decomp [OF assms] have i: "i < length s" "s ! i = c" "c \<notin> set (drop (Suc i) s)"
    by auto
  show "s = take i s @ c # drop (Suc i) s"
    using i(1,2) id_take_nth_drop by fastforce
  show "c \<notin> set (drop (Suc i) s)" by (rule i(3))
  show "i = length (take i s)" using i(1) by simp
qed

text \<open>
  A pointer into a string is an index of type \<open>int\<close>; comparing the string that starts
  there is defined only inside the object.
\<close>

definition str_at :: "string \<Rightarrow> int \<Rightarrow> string option" where
  "str_at s i = (if 0 \<le> i \<and> i \<le> int (length s) then Some (drop (nat i) s) else None)"

definition strcmp_at :: "string \<Rightarrow> int \<Rightarrow> string \<Rightarrow> bool option" where
  \<comment> \<open>\<^verbatim>\<open>strcmp(s + i, lit) == 0\<close>\<close>
  "strcmp_at s i lit = map_option (\<lambda>t. t = lit) (str_at s i)"

lemma str_at_nat [simp]: "i \<le> length s \<Longrightarrow> str_at s (int i) = Some (drop i s)"
  by (simp add: str_at_def)

lemma str_at_neg [simp]: "i < 0 \<Longrightarrow> str_at s i = None"
  by (simp add: str_at_def)

section \<open>\<^verbatim>\<open>strtok\<close>\<close>

text \<open>
  The tokens that repeated calls of \<^verbatim>\<open>strtok\<close> with a one-character delimiter return:
  the maximal non-empty runs without the delimiter. \<open>acc\<close> is the token being read.
\<close>

fun strtok_run :: "char \<Rightarrow> string \<Rightarrow> string \<Rightarrow> string list" where
  "strtok_run c acc [] = (if acc = [] then [] else [acc])"
| "strtok_run c acc (x # xs) =
     (if x = c then (if acc = [] then strtok_run c [] xs else acc # strtok_run c [] xs)
      else strtok_run c (acc @ [x]) xs)"

definition tokens :: "char \<Rightarrow> string \<Rightarrow> string list" where
  "tokens c s = strtok_run c [] s"

lemma strtok_run_delim:
  "strtok_run c acc (s @ c # t) = strtok_run c acc s @ strtok_run c [] t"
  by (induction c acc s rule: strtok_run.induct) auto

lemma strtok_run_plain:
  "c \<notin> set s \<Longrightarrow> strtok_run c acc s = (if acc @ s = [] then [] else [acc @ s])"
  by (induction c acc s rule: strtok_run.induct) auto

lemma tokens_delim: "tokens c (s @ c # t) = tokens c s @ tokens c t"
  by (simp add: tokens_def strtok_run_delim)

lemma tokens_plain: "c \<notin> set s \<Longrightarrow> tokens c s = (if s = [] then [] else [s])"
  by (simp add: tokens_def strtok_run_plain)

lemma tokens_Nil [simp]: "tokens c [] = []"
  by (simp add: tokens_def)

lemma tokens_lead [simp]: "tokens c (c # s) = tokens c s"
  using tokens_delim [of c "[]" s] by simp

lemma strtok_run_wf:
  "t \<in> set (strtok_run c acc s) \<Longrightarrow> c \<notin> set acc \<Longrightarrow> t \<noteq> [] \<and> c \<notin> set t"
proof (induction c acc s rule: strtok_run.induct)
  case (1 c acc)
  then show ?case by (auto split: if_splits)
next
  case (2 c acc x xs)
  then show ?case by (auto split: if_splits)
qed

lemma tokens_wf: "t \<in> set (tokens c s) \<Longrightarrow> t \<noteq> [] \<and> c \<notin> set t"
  by (auto simp: tokens_def dest: strtok_run_wf)

section \<open>Buffers\<close>

definition mem_write :: "nat \<Rightarrow> char list \<Rightarrow> char list \<Rightarrow> char list option" where
  "mem_write off bs m =
     (if off + length bs \<le> length m
      then Some (take off m @ bs @ drop (off + length bs) m) else None)"

definition mem_str :: "char list \<Rightarrow> nat \<Rightarrow> string option" where
  \<comment> \<open>the C string that starts at an offset; undefined without a terminator\<close>
  "mem_str m off =
     (if NUL \<in> set (drop off m) then Some (takeWhile (\<lambda>x. x \<noteq> NUL) (drop off m)) else None)"

definition mem_strcpy :: "nat \<Rightarrow> string \<Rightarrow> char list \<Rightarrow> char list option" where
  "mem_strcpy off s m = mem_write off (s @ [NUL]) m"

definition mem_memmove :: "nat \<Rightarrow> nat \<Rightarrow> nat \<Rightarrow> char list \<Rightarrow> char list option" where
  "mem_memmove dst src n m =
     (if src + n \<le> length m then mem_write dst (take n (drop src m)) m else None)"

definition mem_strcat :: "string \<Rightarrow> char list \<Rightarrow> char list option" where
  "mem_strcat s m = do { t \<leftarrow> mem_str m 0; mem_strcpy (length t) s m }"

text \<open>A buffer that holds a terminated string and then bytes nobody has written.\<close>

lemma mem_write_split:
  "length m1 = off \<Longrightarrow> length m2 = length bs \<Longrightarrow>
   mem_write off bs (m1 @ m2 @ m3) = Some (m1 @ bs @ m3)"
  by (simp add: mem_write_def)

lemma mem_str_terminated:
  "length m1 = off \<Longrightarrow> cstring s \<Longrightarrow> mem_str (m1 @ s @ NUL # m2) off = Some s"
  by (simp add: mem_str_def cstring_def)

section \<open>Decimal numbers, as \<^verbatim>\<open>%d\<close> and \<^verbatim>\<open>%llu\<close> print them\<close>

definition digit :: "nat \<Rightarrow> char" where
  "digit n = char_of (48 + n)"

fun dec :: "nat \<Rightarrow> string" where
  "dec n = (if n < 10 then [digit n] else dec (n div 10) @ [digit (n mod 10)])"

declare dec.simps [simp del]

definition undec :: "string \<Rightarrow> nat" where
  "undec = foldl (\<lambda>a c. 10 * a + (of_char c - 48)) 0"

lemma of_char_digit: "n < 10 \<Longrightarrow> of_char (digit n) = 48 + n"
  by (simp add: digit_def)

lemma undec_dec [simp]: "undec (dec n) = n"
proof (induction n rule: dec.induct)
  case (1 n)
  show ?case
  proof (cases "n < 10")
    case True
    then show ?thesis by (subst dec.simps) (simp add: undec_def of_char_digit)
  next
    case False
    with 1 have "undec (dec (n div 10)) = n div 10" by simp
    then show ?thesis using False
      by (subst dec.simps) (simp add: undec_def of_char_digit)
  qed
qed

lemma dec_3: "dec 3 = ''3''"
  by code_simp

lemma dec_inj: "dec m = dec n \<Longrightarrow> m = n"
  by (metis undec_dec)

lemma length_dec: "n < 10 ^ Suc k \<Longrightarrow> length (dec n) \<le> Suc k"
proof (induction k arbitrary: n)
  case 0
  then show ?case by (subst dec.simps) simp
next
  case (Suc k)
  show ?case
  proof (cases "n < 10")
    case True
    then show ?thesis by (subst dec.simps) simp
  next
    case False
    from Suc.prems have "n div 10 < 10 ^ Suc k" by (simp add: less_mult_imp_div_less mult.commute)
    then have "length (dec (n div 10)) \<le> Suc k" by (rule Suc.IH)
    with False show ?thesis by (subst dec.simps) simp
  qed
qed

lemma digit_ord: "n < 10 \<Longrightarrow> c = digit n \<Longrightarrow> 48 \<le> (of_char c :: nat) \<and> (of_char c :: nat) \<le> 57"
  by (simp add: of_char_digit)

lemma dec_digits: "c \<in> set (dec n) \<Longrightarrow> 48 \<le> (of_char c :: nat) \<and> (of_char c :: nat) \<le> 57"
proof (induction n arbitrary: c rule: dec.induct)
  case (1 n)
  show ?case
  proof (cases "n < 10")
    case True
    with "1.prems" have "c = digit n" by (subst (asm) dec.simps) simp
    with True show ?thesis by (rule digit_ord)
  next
    case False
    with "1.prems" have "c \<in> set (dec (n div 10)) \<or> c = digit (n mod 10)"
      by (subst (asm) dec.simps) auto
    with "1.IH" False digit_ord [of "n mod 10" c] show ?thesis by auto
  qed
qed

lemma cstring_dec [simp]: "cstring (dec n)"
  using dec_digits [of NUL n] by (auto simp: cstring_def)

end
