(* ===== verification/Posix.thy ===== *)
theory Posix
  imports CStrings "HOL-Library.AList"
begin

text \<open>
  The operating system as the code sees it: the calls of the C library that
  \<^verbatim>\<open>dzfile-api.c\<close>, \<^verbatim>\<open>dz-common.c\<close> and \<^verbatim>\<open>dzfile-intern.cc\<close> make. Names are resolved to
  inodes, so that an open descriptor survives a rename or an unlink of its name.

  The record \<open>os\<close> holds the name table (a path is the list of its components), the inodes,
  the descriptor table, \<open>errno\<close>, the clock, and \<open>env\<close>: the outcomes the environment has in
  store, one consumed by each call. \<open>Normal\<close> lets the call run, \<open>Fail e\<close> makes it fail
  with \<open>errno = e\<close> (no permission, no space, an input error, no memory), \<open>Short k\<close> lets a
  transfer move at most \<open>k + 1\<close> bytes; an exhausted list stands for \<open>Normal\<close> outcomes.
  A theorem with no hypothesis on \<open>env\<close> so holds for every failure of every call.

  Not modelled: symbolic and hard links (\<open>lstat\<close> is \<open>stat\<close>), permission bits as the cause
  of a failure (they come as \<open>Fail EACCES\<close>), renaming of directories; relative paths are
  taken from the root.
\<close>

section \<open>Constants\<close>

abbreviation (input) EPERM :: int where "EPERM \<equiv> 1"
abbreviation (input) ENOENT :: int where "ENOENT \<equiv> 2"
abbreviation (input) EBADF :: int where "EBADF \<equiv> 9"
abbreviation (input) ENOMEM :: int where "ENOMEM \<equiv> 12"
abbreviation (input) EACCES :: int where "EACCES \<equiv> 13"
abbreviation (input) ENOSPC :: int where "ENOSPC \<equiv> 28"
abbreviation (input) EEXIST :: int where "EEXIST \<equiv> 17"
abbreviation (input) ENOTDIR :: int where "ENOTDIR \<equiv> 20"
abbreviation (input) EISDIR :: int where "EISDIR \<equiv> 21"
abbreviation (input) EINVAL :: int where "EINVAL \<equiv> 22"
abbreviation (input) ENOTSUP :: int where "ENOTSUP \<equiv> 95"

abbreviation (input) O_RDONLY :: "32 word" where "O_RDONLY \<equiv> 0x0"
abbreviation (input) O_WRONLY :: "32 word" where "O_WRONLY \<equiv> 0x1"
abbreviation (input) O_RDWR :: "32 word" where "O_RDWR \<equiv> 0x2"
abbreviation (input) O_ACCMODE :: "32 word" where "O_ACCMODE \<equiv> 0x3"
abbreviation (input) O_CREAT :: "32 word" where "O_CREAT \<equiv> 0x40"
abbreviation (input) O_TRUNC :: "32 word" where "O_TRUNC \<equiv> 0x200"
abbreviation (input) O_APPEND :: "32 word" where "O_APPEND \<equiv> 0x400"

abbreviation (input) S_IFMT :: "32 word" where "S_IFMT \<equiv> 0xF000"
abbreviation (input) S_IFDIR :: "32 word" where "S_IFDIR \<equiv> 0x4000"
abbreviation (input) S_IFREG :: "32 word" where "S_IFREG \<equiv> 0x8000"

section \<open>State\<close>

datatype outcome = Normal | Fail int | Short nat

record inode =
  i_dir :: bool
  i_perm :: "32 word"
  i_data :: bytes
  i_mtime :: int

record ofile =
  of_ino :: nat
  of_off :: nat
  of_flags :: "32 word"

record fsinfo =
  f_bsize :: "64 word"
  f_blocks :: "64 word"
  f_bfree :: "64 word"
  f_files :: "64 word"

record os =
  names :: "(string list \<times> nat) list"
  inodes :: "nat \<Rightarrow> inode option"
  nextino :: nat
  fds :: "ofile option list"
  errno :: int
  env :: "outcome list"
  now :: int
  vfs :: fsinfo

record stat =
  st_ino :: nat
  st_mode :: "32 word"
  st_size :: int
  st_mtime :: int

section \<open>Paths\<close>

text \<open>
  Resolution of a path: empty components and \<^verbatim>\<open>.\<close> are skipped, \<^verbatim>\<open>..\<close> goes to the parent
  (there are no symbolic links).
\<close>

fun norm_step :: "string list \<Rightarrow> string \<Rightarrow> string list" where
  "norm_step acc c =
     (if c = ''.'' then acc else if c = ''..'' then butlast acc else acc @ [c])"

definition comps :: "string \<Rightarrow> string list" where
  "comps p = foldl norm_step [] (tokens SLASH p)"

lemma comps_snoc:
  assumes "SLASH \<notin> set b" "b \<noteq> []" "b \<noteq> ''.''" "b \<noteq> ''..''"
  shows "comps (d @ SLASH # b) = comps d @ [b]"
  using assms by (simp add: comps_def tokens_delim tokens_plain)

lemma comps_child:
  assumes "SLASH \<notin> set b"
  shows "comps (d @ SLASH # b) = (if b = [] then comps d else norm_step (comps d) b)"
  using assms by (simp add: comps_def tokens_delim tokens_plain)

definition node_at :: "os \<Rightarrow> string list \<Rightarrow> (nat \<times> inode) option" where
  "node_at s cs =
     (case map_of (names s) cs of
        None \<Rightarrow> None
      | Some i \<Rightarrow> (case inodes s i of None \<Rightarrow> None | Some n \<Rightarrow> Some (i, n)))"

definition dir_at :: "os \<Rightarrow> string list \<Rightarrow> bool" where
  "dir_at s cs = (case node_at s cs of None \<Rightarrow> False | Some (i, n) \<Rightarrow> i_dir n)"

definition missing_errno :: "os \<Rightarrow> string list \<Rightarrow> int" where
  \<comment> \<open>why a name cannot be resolved\<close>
  "missing_errno s cs =
     (case node_at s (butlast cs) of
        None \<Rightarrow> ENOENT
      | Some (i, n) \<Rightarrow> if i_dir n then ENOENT else ENOTDIR)"

section \<open>The environment's outcome\<close>

definition attempt :: "'a \<Rightarrow> (os \<Rightarrow> 'a \<times> os) \<Rightarrow> os \<Rightarrow> 'a \<times> os" where
  "attempt fl act s =
     (case env s of
        [] \<Rightarrow> act s
      | Fail e # r \<Rightarrow> (fl, s\<lparr>env := r, errno := e\<rparr>)
      | _ # r \<Rightarrow> act (s\<lparr>env := r\<rparr>))"

definition transfer_limit :: "os \<Rightarrow> nat \<Rightarrow> nat" where
  "transfer_limit s n =
     (case env s of Short k # r \<Rightarrow> min n (Suc k) | _ \<Rightarrow> n)"

lemma attempt_normal [simp]: "env s = [] \<Longrightarrow> attempt fl act s = act s"
  by (simp add: attempt_def)

lemma transfer_limit_normal [simp]: "env s = [] \<Longrightarrow> transfer_limit s n = n"
  by (simp add: transfer_limit_def)

lemma transfer_limit_le: "transfer_limit s n \<le> n"
  by (auto simp: transfer_limit_def split: list.splits outcome.splits)

lemma transfer_limit_pos: "0 < n \<Longrightarrow> 0 < transfer_limit s n"
  by (auto simp: transfer_limit_def split: list.splits outcome.splits)

text \<open>What holds of the body and of a failure holds of the call.\<close>

lemma attempt_induct:
  assumes "\<And>s'. s' = s\<lparr>env := env s'\<rparr> \<Longrightarrow> P (act s')"
    and "\<And>e r. P (fl, s\<lparr>env := r, errno := e\<rparr>)"
  shows "P (attempt fl act s)"
  unfolding attempt_def
  by (auto split: list.splits outcome.splits intro!: assms)

definition fail_with :: "int \<Rightarrow> 'a \<Rightarrow> os \<Rightarrow> 'a \<times> os" where
  "fail_with e r s = (r, s\<lparr>errno := e\<rparr>)"

section \<open>File contents\<close>

definition splice :: "bytes \<Rightarrow> nat \<Rightarrow> bytes \<Rightarrow> bytes" where
  \<comment> \<open>bytes written at an offset; a gap reads as zeros\<close>
  "splice d off bs =
     (let d' = d @ replicate (off - length d) 0
      in take off d' @ bs @ drop (off + length bs) d')"

definition resize :: "nat \<Rightarrow> bytes \<Rightarrow> bytes" where
  "resize n d = take n d @ replicate (n - length d) 0"

lemma length_resize [simp]: "length (resize n d) = n"
  by (simp add: resize_def)

lemma resize_0 [simp]: "resize 0 d = []"
  by (simp add: resize_def)

lemma resize_Nil [simp]: "resize n [] = replicate n 0"
  by (simp add: resize_def)

lemma splice_end: "splice d (length d) bs = d @ bs"
  by (simp add: splice_def)

lemma length_splice: "length (splice d off bs) = max (length d) (off + length bs)"
  by (auto simp: splice_def Let_def max_def min_def)

lemma splice_read_back: "take (length bs) (drop off (splice d off bs)) = bs"
  by (simp add: splice_def Let_def)

section \<open>\<^verbatim>\<open>stat\<close>\<close>

definition stat_of :: "nat \<Rightarrow> inode \<Rightarrow> stat" where
  "stat_of i n =
     \<lparr>st_ino = i,
      st_mode = or (if i_dir n then S_IFDIR else S_IFREG) (and (i_perm n) 0xFFF),
      st_size = (if i_dir n then 4096 else int (length (i_data n))),
      st_mtime = i_mtime n\<rparr>"

definition S_ISDIR :: "32 word \<Rightarrow> bool" where
  "S_ISDIR m \<longleftrightarrow> and m S_IFMT = S_IFDIR"

lemma S_ISDIR_stat_of [simp]: "S_ISDIR (st_mode (stat_of i n)) = i_dir n"
proof -
  have "and (or t (and p 0xFFF)) S_IFMT = and t S_IFMT" for t p :: "32 word"
    by (simp add: bit.conj_disj_distrib2 and.assoc)
  then show ?thesis by (simp add: S_ISDIR_def stat_of_def)
qed

definition sys_stat :: "string \<Rightarrow> os \<Rightarrow> stat option \<times> os" where
  \<comment> \<open>\<open>None\<close> is the return value \<open>-1\<close>\<close>
  "sys_stat p = attempt None (\<lambda>s.
     case node_at s (comps p) of
       None \<Rightarrow> fail_with (missing_errno s (comps p)) None s
     | Some (i, n) \<Rightarrow> (Some (stat_of i n), s))"

definition fd_get :: "os \<Rightarrow> int \<Rightarrow> ofile option" where
  "fd_get s fd = (if 0 \<le> fd \<and> nat fd < length (fds s) then fds s ! nat fd else None)"

definition sys_fstat :: "int \<Rightarrow> os \<Rightarrow> stat option \<times> os" where
  "sys_fstat fd = attempt None (\<lambda>s.
     case fd_get s fd of
       None \<Rightarrow> fail_with EBADF None s
     | Some f \<Rightarrow> (case inodes s (of_ino f) of
         None \<Rightarrow> fail_with EBADF None s
       | Some n \<Rightarrow> (Some (stat_of (of_ino f) n), s)))"

section \<open>Opening and closing\<close>

fun first_free :: "'a option list \<Rightarrow> nat" where
  "first_free [] = 0"
| "first_free (None # r) = 0"
| "first_free (Some a # r) = Suc (first_free r)"

definition alloc_fd :: "nat \<Rightarrow> 32 word \<Rightarrow> os \<Rightarrow> int \<times> os" where
  \<comment> \<open>the lowest free descriptor\<close>
  "alloc_fd i fl s =
     (let n = first_free (fds s); f = \<lparr>of_ino = i, of_off = 0, of_flags = fl\<rparr>
      in (int n, s\<lparr>fds := (if n < length (fds s) then (fds s)[n := Some f]
                          else fds s @ [Some f])\<rparr>))"

definition set_data :: "nat \<Rightarrow> inode \<Rightarrow> bytes \<Rightarrow> os \<Rightarrow> os" where
  "set_data i n d s =
     s\<lparr>inodes := (inodes s)(i := Some (n\<lparr>i_data := d, i_mtime := now s\<rparr>))\<rparr>"

definition new_file :: "string list \<Rightarrow> bool \<Rightarrow> 32 word \<Rightarrow> os \<Rightarrow> os" where
  "new_file cs isdir mode s =
     s\<lparr>names := AList.update cs (nextino s) (names s),
       inodes := (inodes s)(nextino s :=
         Some \<lparr>i_dir = isdir, i_perm = mode, i_data = [], i_mtime = now s\<rparr>),
       nextino := Suc (nextino s)\<rparr>"

definition sys_open :: "string \<Rightarrow> 32 word \<Rightarrow> 32 word \<Rightarrow> os \<Rightarrow> int \<times> os" where
  "sys_open p fl mode = attempt (-1) (\<lambda>s.
     case node_at s (comps p) of
       Some (i, n) \<Rightarrow>
         (if i_dir n \<and> (and fl O_ACCMODE \<noteq> O_RDONLY \<or> and fl O_CREAT \<noteq> 0)
          then fail_with EISDIR (-1) s
          else alloc_fd i fl
                 (if and fl O_TRUNC \<noteq> 0 \<and> \<not> i_dir n then set_data i n [] s else s))
     | None \<Rightarrow>
         (if and fl O_CREAT = 0 \<or> \<not> dir_at s (butlast (comps p))
          then fail_with (missing_errno s (comps p)) (-1) s
          else alloc_fd (nextino s) fl (new_file (comps p) False mode s)))"

definition sys_creat :: "string \<Rightarrow> 32 word \<Rightarrow> os \<Rightarrow> int \<times> os" where
  "sys_creat p mode = sys_open p (or O_CREAT (or O_WRONLY O_TRUNC)) mode"

definition sys_close :: "int \<Rightarrow> os \<Rightarrow> int \<times> os" where
  "sys_close fd s =
     (case fd_get s fd of
        None \<Rightarrow> fail_with EBADF (-1) s
      | Some f \<Rightarrow> attempt (-1) (\<lambda>s. (0, s)) (s\<lparr>fds := (fds s)[nat fd := None]\<rparr>))"

section \<open>Reading and writing\<close>

definition fd_file :: "os \<Rightarrow> int \<Rightarrow> (ofile \<times> inode) option" where
  "fd_file s fd =
     (case fd_get s fd of
        None \<Rightarrow> None
      | Some f \<Rightarrow> map_option (Pair f) (inodes s (of_ino f)))"

definition fd_seek :: "int \<Rightarrow> ofile \<Rightarrow> nat \<Rightarrow> os \<Rightarrow> os" where
  "fd_seek fd f off s = s\<lparr>fds := (fds s)[nat fd := Some (f\<lparr>of_off := off\<rparr>)]\<rparr>"

definition readable :: "32 word \<Rightarrow> bool" where
  "readable fl \<longleftrightarrow> and fl O_ACCMODE \<noteq> O_WRONLY"

definition writable :: "32 word \<Rightarrow> bool" where
  "writable fl \<longleftrightarrow> and fl O_ACCMODE \<noteq> O_RDONLY"

definition sys_pread :: "int \<Rightarrow> nat \<Rightarrow> int \<Rightarrow> os \<Rightarrow> (int \<times> bytes) \<times> os" where
  \<comment> \<open>the return value and the bytes put into the buffer\<close>
  "sys_pread fd count off s = (let k = transfer_limit s count in
     attempt (-1, []) (\<lambda>s.
       case fd_file s fd of
         None \<Rightarrow> fail_with EBADF (-1, []) s
       | Some (f, n) \<Rightarrow>
           if \<not> readable (of_flags f) then fail_with EBADF (-1, []) s
           else if i_dir n then fail_with EISDIR (-1, []) s
           else if off < 0 then fail_with EINVAL (-1, []) s
           else (let bs = take k (drop (nat off) (i_data n)) in ((int (length bs), bs), s))) s)"

definition sys_read :: "int \<Rightarrow> nat \<Rightarrow> os \<Rightarrow> (int \<times> bytes) \<times> os" where
  "sys_read fd count s = (let k = transfer_limit s count in
     attempt (-1, []) (\<lambda>s.
       case fd_file s fd of
         None \<Rightarrow> fail_with EBADF (-1, []) s
       | Some (f, n) \<Rightarrow>
           if \<not> readable (of_flags f) then fail_with EBADF (-1, []) s
           else if i_dir n then fail_with EISDIR (-1, []) s
           else (let bs = take k (drop (of_off f) (i_data n))
                 in ((int (length bs), bs), fd_seek fd f (of_off f + length bs) s))) s)"

definition sys_write :: "int \<Rightarrow> bytes \<Rightarrow> os \<Rightarrow> int \<times> os" where
  "sys_write fd buf s = (let k = transfer_limit s (length buf) in
     attempt (-1) (\<lambda>s.
       case fd_file s fd of
         None \<Rightarrow> fail_with EBADF (-1) s
       | Some (f, n) \<Rightarrow>
           if \<not> writable (of_flags f) then fail_with EBADF (-1) s
           else (let off = (if and (of_flags f) O_APPEND \<noteq> 0 then length (i_data n)
                            else of_off f)
                 in (int k, fd_seek fd f (off + k)
                              (set_data (of_ino f) n (splice (i_data n) off (take k buf)) s)))) s)"

definition sys_pwrite :: "int \<Rightarrow> bytes \<Rightarrow> int \<Rightarrow> os \<Rightarrow> int \<times> os" where
  \<comment> \<open>on Linux a descriptor opened with \<^verbatim>\<open>O_APPEND\<close> appends whatever the offset\<close>
  "sys_pwrite fd buf off s = (let k = transfer_limit s (length buf) in
     attempt (-1) (\<lambda>s.
       case fd_file s fd of
         None \<Rightarrow> fail_with EBADF (-1) s
       | Some (f, n) \<Rightarrow>
           if \<not> writable (of_flags f) then fail_with EBADF (-1) s
           else if off < 0 then fail_with EINVAL (-1) s
           else (let o' = (if and (of_flags f) O_APPEND \<noteq> 0 then length (i_data n) else nat off)
                 in (int k, set_data (of_ino f) n (splice (i_data n) o' (take k buf)) s))) s)"

section \<open>Changing names and sizes\<close>

definition sys_truncate :: "string \<Rightarrow> int \<Rightarrow> os \<Rightarrow> int \<times> os" where
  "sys_truncate p len = attempt (-1) (\<lambda>s.
     case node_at s (comps p) of
       None \<Rightarrow> fail_with (missing_errno s (comps p)) (-1) s
     | Some (i, n) \<Rightarrow>
         if len < 0 then fail_with EINVAL (-1) s
         else if i_dir n then fail_with EISDIR (-1) s
         else (0, set_data i n (resize (nat len) (i_data n)) s))"

definition sys_ftruncate :: "int \<Rightarrow> int \<Rightarrow> os \<Rightarrow> int \<times> os" where
  "sys_ftruncate fd len = attempt (-1) (\<lambda>s.
     case fd_file s fd of
       None \<Rightarrow> fail_with EBADF (-1) s
     | Some (f, n) \<Rightarrow>
         if len < 0 \<or> \<not> writable (of_flags f) then fail_with EINVAL (-1) s
         else (0, set_data (of_ino f) n (resize (nat len) (i_data n)) s))"

definition sys_unlink :: "string \<Rightarrow> os \<Rightarrow> int \<times> os" where
  "sys_unlink p = attempt (-1) (\<lambda>s.
     case node_at s (comps p) of
       None \<Rightarrow> fail_with (missing_errno s (comps p)) (-1) s
     | Some (i, n) \<Rightarrow>
         if i_dir n then fail_with EISDIR (-1) s
         else (0, s\<lparr>names := AList.delete (comps p) (names s)\<rparr>))"

definition sys_rename :: "string \<Rightarrow> string \<Rightarrow> os \<Rightarrow> int \<times> os" where
  "sys_rename p q = attempt (-1) (\<lambda>s.
     case node_at s (comps p) of
       None \<Rightarrow> fail_with (missing_errno s (comps p)) (-1) s
     | Some (i, n) \<Rightarrow>
         if i_dir n \<or> dir_at s (comps q) then fail_with EISDIR (-1) s
         else if \<not> dir_at s (butlast (comps q)) then fail_with (missing_errno s (comps q)) (-1) s
         else if comps p = comps q then (0, s)
         else (0, s\<lparr>names := AList.delete (comps p) (AList.update (comps q) i (names s))\<rparr>))"

definition sys_mkdir :: "string \<Rightarrow> 32 word \<Rightarrow> os \<Rightarrow> int \<times> os" where
  "sys_mkdir p mode = attempt (-1) (\<lambda>s.
     case node_at s (comps p) of
       Some x \<Rightarrow> fail_with EEXIST (-1) s
     | None \<Rightarrow>
         if dir_at s (butlast (comps p)) then (0, new_file (comps p) True mode s)
         else fail_with (missing_errno s (comps p)) (-1) s)"

definition sys_malloc :: "os \<Rightarrow> bool \<times> os" where
  \<comment> \<open>whether the allocation succeeds; the contents are the caller's matter\<close>
  "sys_malloc = attempt False (\<lambda>s. (True, s))"

definition dir_entries :: "os \<Rightarrow> string list \<Rightarrow> string list" where
  "dir_entries s cs =
     [''.'', ''..''] @ map last (filter (\<lambda>q. q \<noteq> [] \<and> butlast q = cs) (map fst (names s)))"

definition sys_opendir :: "string \<Rightarrow> os \<Rightarrow> string list option \<times> os" where
  \<comment> \<open>a directory stream is the list of the names still to be read\<close>
  "sys_opendir p = attempt None (\<lambda>s.
     case node_at s (comps p) of
       None \<Rightarrow> fail_with (missing_errno s (comps p)) None s
     | Some (i, n) \<Rightarrow>
         if i_dir n then (Some (dir_entries s (comps p)), s) else fail_with ENOTDIR None s)"

definition sys_lseek :: "int \<Rightarrow> int \<Rightarrow> nat \<Rightarrow> os \<Rightarrow> int \<times> os" where
  \<comment> \<open>\<^verbatim>\<open>SEEK_SET\<close>, \<^verbatim>\<open>SEEK_CUR\<close>, \<^verbatim>\<open>SEEK_END\<close> are 0, 1, 2\<close>
  "sys_lseek fd offset whence = attempt (-1) (\<lambda>s.
     case fd_file s fd of
       None \<Rightarrow> fail_with EBADF (-1) s
     | Some (f, n) \<Rightarrow>
         (let base = (if whence = 0 then 0 else if whence = 1 then int (of_off f)
                      else int (length (i_data n)));
              pos = base + offset
          in if 2 < whence \<or> pos < 0 then fail_with EINVAL (-1) s
             else (pos, fd_seek fd f (nat pos) s)))"

definition sys_fsync :: "int \<Rightarrow> os \<Rightarrow> int \<times> os" where
  \<comment> \<open>also \<^verbatim>\<open>fdatasync\<close>: the model has no cache\<close>
  "sys_fsync fd = attempt (-1) (\<lambda>s.
     case fd_get s fd of None \<Rightarrow> fail_with EBADF (-1) s | Some f \<Rightarrow> (0, s))"

definition sys_statfs :: "string \<Rightarrow> os \<Rightarrow> fsinfo option \<times> os" where
  \<comment> \<open>also \<^verbatim>\<open>statvfs\<close>; there is one file system\<close>
  "sys_statfs p = attempt None (\<lambda>s.
     case node_at s (comps p) of
       None \<Rightarrow> fail_with (missing_errno s (comps p)) None s
     | Some x \<Rightarrow> (Some (vfs s), s))"

definition sys_fstatfs :: "int \<Rightarrow> os \<Rightarrow> fsinfo option \<times> os" where
  "sys_fstatfs fd = attempt None (\<lambda>s.
     case fd_get s fd of None \<Rightarrow> fail_with EBADF None s | Some f \<Rightarrow> (Some (vfs s), s))"

definition sys_posix_fallocate :: "int \<Rightarrow> int \<Rightarrow> int \<Rightarrow> os \<Rightarrow> int \<times> os" where
  \<comment> \<open>returns the error number, and leaves \<^verbatim>\<open>errno\<close> alone\<close>
  "sys_posix_fallocate fd offset len s =
     (case env s of
        Fail e # r \<Rightarrow> (e, s\<lparr>env := r\<rparr>)
      | _ \<Rightarrow>
          (let s = s\<lparr>env := tl (env s)\<rparr> in
           case fd_file s fd of
             None \<Rightarrow> (EBADF, s)
           | Some (f, n) \<Rightarrow>
               if offset < 0 \<or> len \<le> 0 then (EINVAL, s)
               else if \<not> writable (of_flags f) then (EBADF, s)
               else if offset + len \<le> int (length (i_data n)) then (0, s)
               else (0, set_data (of_ino f) n (resize (nat (offset + len)) (i_data n)) s)))"

section \<open>Calls that change nothing but \<open>errno\<close>\<close>

definition quiet :: "os \<Rightarrow> os \<Rightarrow> bool" where
  "quiet s s' \<longleftrightarrow>
     names s' = names s \<and> inodes s' = inodes s \<and> nextino s' = nextino s \<and> fds s' = fds s \<and>
     now s' = now s \<and> vfs s' = vfs s \<and> length (env s') \<le> length (env s)"

lemma quiet_refl [simp, intro]: "quiet s s"
  by (simp add: quiet_def)

lemma quiet_errno [simp]: "quiet s (s\<lparr>errno := e\<rparr>)"
  by (simp add: quiet_def)

lemma quiet_trans [trans]: "quiet s t \<Longrightarrow> quiet t u \<Longrightarrow> quiet s u"
  by (auto simp: quiet_def)

lemma quietD:
  assumes "quiet s s'"
  shows "names s' = names s" "inodes s' = inodes s" "nextino s' = nextino s"
    "fds s' = fds s" "now s' = now s" "vfs s' = vfs s"
    "length (env s') \<le> length (env s)" "env s = [] \<Longrightarrow> env s' = []"
  using assms by (auto simp: quiet_def)

lemma node_at_Some:
  "node_at s cs = Some (i, n) \<longleftrightarrow> map_of (names s) cs = Some i \<and> inodes s i = Some n"
  by (auto simp: node_at_def split: option.splits)

lemma node_at_cong:
  "names s' = names s \<Longrightarrow> inodes s' = inodes s \<Longrightarrow> node_at s' = node_at s"
  by (rule ext) (simp add: node_at_def split: option.split)

lemma state_upd_simps [simp]:
  "node_at (s\<lparr>errno := e\<rparr>) = node_at s" "node_at (s\<lparr>env := x\<rparr>) = node_at s"
  "node_at (s\<lparr>fds := f\<rparr>) = node_at s"
  "fd_get (s\<lparr>errno := e\<rparr>) = fd_get s" "fd_get (s\<lparr>env := x\<rparr>) = fd_get s"
  "fd_file (s\<lparr>errno := e\<rparr>) = fd_file s" "fd_file (s\<lparr>env := x\<rparr>) = fd_file s"
  "dir_at (s\<lparr>errno := e\<rparr>) = dir_at s" "dir_at (s\<lparr>env := x\<rparr>) = dir_at s"
  by (rule ext, simp add: node_at_def fd_get_def fd_file_def dir_at_def split: option.split)+

lemma quiet_node_at: "quiet s s' \<Longrightarrow> node_at s' = node_at s"
  by (rule node_at_cong) (simp_all add: quiet_def)

lemma quiet_dir_at: "quiet s s' \<Longrightarrow> dir_at s' = dir_at s"
  by (rule ext) (simp add: dir_at_def quiet_node_at)

lemma quiet_fd_file: "quiet s s' \<Longrightarrow> fd_file s' = fd_file s"
  by (rule ext) (simp add: fd_file_def fd_get_def quiet_def split: option.split)

lemma attempt_cases:
  obtains e r where "env s = Fail e # r" "attempt fl act s = (fl, s\<lparr>env := r, errno := e\<rparr>)"
  | s1 where "quiet s s1" "errno s1 = errno s" "attempt fl act s = act s1"
      "env s = [] \<and> s1 = s \<or> (\<exists>x r. env s = x # r \<and> s1 = s\<lparr>env := r\<rparr>)"
proof (cases "env s")
  case Nil
  then show ?thesis by (intro that(2) [of s]) (simp_all add: attempt_def)
next
  case (Cons x r)
  show ?thesis
  proof (cases x)
    case (Fail e)
    with Cons show ?thesis by (intro that(1) [of e r]) (simp_all add: attempt_def)
  next
    case Normal
    with Cons show ?thesis
      by (intro that(2) [of "s\<lparr>env := r\<rparr>"]) (simp_all add: attempt_def quiet_def)
  next
    case (Short k)
    with Cons show ?thesis
      by (intro that(2) [of "s\<lparr>env := r\<rparr>"]) (simp_all add: attempt_def quiet_def)
  qed
qed

lemma quiet_fail: "env s = Fail e # r \<Longrightarrow> quiet s (s\<lparr>env := r, errno := e\<rparr>)"
  by (simp add: quiet_def)

lemma quiet_attempt:
  assumes "attempt fl act s = (r, s')"
    and "\<And>s1. quiet s s1 \<Longrightarrow> act s1 = (r, s') \<Longrightarrow> quiet s1 s'"
  shows "quiet s s'"
  by (rule attempt_cases [of s fl act]) (use assms in \<open>auto intro: quiet_fail quiet_trans\<close>)

lemma quiet_sys_stat: "sys_stat p s = (r, s') \<Longrightarrow> quiet s s'"
  unfolding sys_stat_def
  by (erule quiet_attempt) (auto simp: fail_with_def split: option.splits)

lemma quiet_sys_malloc: "sys_malloc s = (r, s') \<Longrightarrow> quiet s s'"
  unfolding sys_malloc_def by (erule quiet_attempt) simp

lemma quiet_sys_fstat: "sys_fstat fd s = (r, s') \<Longrightarrow> quiet s s'"
  unfolding sys_fstat_def
  by (erule quiet_attempt) (auto simp: fail_with_def split: option.splits)

lemma quiet_sys_pread: "sys_pread fd n off s = (r, s') \<Longrightarrow> quiet s s'"
  unfolding sys_pread_def Let_def
  by (erule quiet_attempt) (auto simp: fail_with_def split: option.splits if_splits)

text \<open>A failed call, other than \<^verbatim>\<open>close\<close>, has changed nothing.\<close>

lemma quiet_sys_mkdir: "sys_mkdir p m s = (r, s') \<Longrightarrow> r < 0 \<Longrightarrow> quiet s s'"
  unfolding sys_mkdir_def
  by (erule quiet_attempt) (auto simp: fail_with_def split: option.splits if_splits)

lemma quiet_sys_open: "sys_open p fl m s = (r, s') \<Longrightarrow> r < 0 \<Longrightarrow> quiet s s'"
  unfolding sys_open_def
  by (erule quiet_attempt)
    (auto simp: fail_with_def alloc_fd_def Let_def split: option.splits if_splits)

lemma quiet_sys_unlink: "sys_unlink p s = (r, s') \<Longrightarrow> r < 0 \<Longrightarrow> quiet s s'"
  unfolding sys_unlink_def
  by (erule quiet_attempt) (auto simp: fail_with_def split: option.splits if_splits)

lemma quiet_sys_rename: "sys_rename p q s = (r, s') \<Longrightarrow> r < 0 \<Longrightarrow> quiet s s'"
  unfolding sys_rename_def
  by (erule quiet_attempt) (auto simp: fail_with_def split: option.splits if_splits)

lemma quiet_sys_truncate: "sys_truncate p n s = (r, s') \<Longrightarrow> r < 0 \<Longrightarrow> quiet s s'"
  unfolding sys_truncate_def
  by (erule quiet_attempt) (auto simp: fail_with_def split: option.splits if_splits)

lemma quiet_sys_write: "sys_write fd b s = (r, s') \<Longrightarrow> r < 0 \<Longrightarrow> quiet s s'"
  unfolding sys_write_def Let_def
  by (erule quiet_attempt) (auto simp: fail_with_def split: option.splits if_splits)

lemma quiet_sys_pwrite: "sys_pwrite fd b off s = (r, s') \<Longrightarrow> r < 0 \<Longrightarrow> quiet s s'"
  unfolding sys_pwrite_def Let_def
  by (erule quiet_attempt) (auto simp: fail_with_def split: option.splits if_splits)

text \<open>A call that fails on a name that resolves has spent an outcome.\<close>

lemma sys_stat_None_env:
  assumes "sys_stat p s = (None, s')" "node_at s (comps p) \<noteq> None"
  shows "length (env s') < length (env s)"
proof (rule attempt_cases [of s None "\<lambda>s. case node_at s (comps p) of
       None \<Rightarrow> fail_with (missing_errno s (comps p)) None s
     | Some (i, n) \<Rightarrow> (Some (stat_of i n), s)"])
  fix e r
  assume "env s = Fail e # r"
  with assms(1) show ?thesis by (auto simp: sys_stat_def attempt_def)
next
  fix s1
  assume "quiet s s1"
  then have "node_at s1 = node_at s" by (rule quiet_node_at)
  moreover assume "attempt None (\<lambda>s. case node_at s (comps p) of
       None \<Rightarrow> fail_with (missing_errno s (comps p)) None s
     | Some (i, n) \<Rightarrow> (Some (stat_of i n), s)) s = (case node_at s1 (comps p) of
       None \<Rightarrow> fail_with (missing_errno s1 (comps p)) None s1
     | Some (i, n) \<Rightarrow> (Some (stat_of i n), s1))"
  ultimately show ?thesis using assms by (auto simp: sys_stat_def)
qed

section \<open>Descriptors\<close>

lemma fd_get_seek:
  assumes "fd_get s fd = Some f"
  shows "fd_get (fd_seek fd g off s) fd' =
    (if fd' = fd then Some (g\<lparr>of_off := off\<rparr>) else fd_get s fd')"
  using assms by (auto simp: fd_get_def fd_seek_def nth_list_update split: if_splits)

lemma fd_seek_simps [simp]:
  "names (fd_seek fd f o' s) = names s" "inodes (fd_seek fd f o' s) = inodes s"
  "nextino (fd_seek fd f o' s) = nextino s" "env (fd_seek fd f o' s) = env s"
  "now (fd_seek fd f o' s) = now s" "vfs (fd_seek fd f o' s) = vfs s"
  "errno (fd_seek fd f o' s) = errno s" "length (fds (fd_seek fd f o' s)) = length (fds s)"
  by (simp_all add: fd_seek_def)

lemma fd_file_Some:
  "fd_file s fd = Some (f, n) \<longleftrightarrow> fd_get s fd = Some f \<and> inodes s (of_ino f) = Some n"
  by (auto simp: fd_file_def split: option.splits)

lemma quiet_fd_get: "quiet s s' \<Longrightarrow> fd_get s' = fd_get s"
  by (rule ext) (simp add: fd_get_def quiet_def)

text \<open>A write fails without an effect, or transfers some bytes.\<close>

lemma sys_write_cases:
  assumes "sys_write fd buf s = (r, s')" "fd_file s fd = Some (f, n)"
    and off: "off = (if and (of_flags f) O_APPEND \<noteq> 0 then length (i_data n) else of_off f)"
  obtains "r = -1" "quiet s s'"
  | k s0 where "quiet s s0" "k \<le> length buf" "env s = [] \<Longrightarrow> k = length buf \<and> s0 = s"
      "writable (of_flags f)" "r = int k"
      "s' = fd_seek fd f (off + k) (set_data (of_ino f) n (splice (i_data n) off (take k buf)) s0)"
proof -
  let ?k = "transfer_limit s (length buf)"
  let ?act = "\<lambda>s. case fd_file s fd of
         None \<Rightarrow> fail_with EBADF (-1) s
       | Some (f, n) \<Rightarrow>
           if \<not> writable (of_flags f) then fail_with EBADF (-1) s
           else (let off = (if and (of_flags f) O_APPEND \<noteq> 0 then length (i_data n)
                            else of_off f)
                 in (int ?k, fd_seek fd f (off + ?k)
                              (set_data (of_ino f) n (splice (i_data n) off (take ?k buf)) s)))"
  have r: "attempt (-1) ?act s = (r, s')"
    using assms(1) by (simp add: sys_write_def Let_def)
  show ?thesis
  proof (rule attempt_cases [of s "-1" ?act])
    fix e x
    assume "env s = Fail e # x" "attempt (-1) ?act s = (-1, s\<lparr>env := x, errno := e\<rparr>)"
    then show ?thesis using r that(1) by (auto intro: quiet_fail)
  next
    fix s1
    assume q: "quiet s s1" and a: "attempt (-1) ?act s = ?act s1"
      and d: "env s = [] \<and> s1 = s \<or> (\<exists>x r. env s = x # r \<and> s1 = s\<lparr>env := r\<rparr>)"
    have f: "fd_file s1 fd = Some (f, n)" using q assms(2) by (simp add: quiet_fd_file)
    from a r have e: "?act s1 = (r, s')" by simp
    show ?thesis
    proof (cases "writable (of_flags f)")
      case True
      with e f show ?thesis
        using q d transfer_limit_le [of s "length buf"]
        by (intro that(2) [of s1 ?k]) (auto simp: Let_def off)
    next
      case False
      with e f q show ?thesis by (intro that(1)) (auto simp: fail_with_def intro: quiet_trans)
    qed
  qed
qed

text \<open>A read fails without an effect, or transfers at least a byte unless it is at the end.\<close>

lemma sys_read_cases:
  assumes "sys_read fd c s = ((r, bs), s')" "fd_file s fd = Some (f, n)" "0 < c"
  obtains "r = -1" "quiet s s'"
  | k s0 where "quiet s s0" "0 < k" "k \<le> c" "env s = [] \<Longrightarrow> k = c \<and> s0 = s"
      "bs = take k (drop (of_off f) (i_data n))" "r = int (length bs)"
      "s' = fd_seek fd f (of_off f + length bs) s0"
proof -
  let ?k = "transfer_limit s c"
  let ?act = "\<lambda>s. case fd_file s fd of
         None \<Rightarrow> fail_with EBADF (-1, []) s
       | Some (f, n) \<Rightarrow>
           if \<not> readable (of_flags f) then fail_with EBADF (-1, []) s
           else if i_dir n then fail_with EISDIR (-1, []) s
           else (let bs = take ?k (drop (of_off f) (i_data n))
                 in ((int (length bs), bs), fd_seek fd f (of_off f + length bs) s))"
  have r: "attempt (-1, []) ?act s = ((r, bs), s')"
    using assms(1) by (simp add: sys_read_def Let_def)
  show ?thesis
  proof (rule attempt_cases [of s "(-1, [])" ?act])
    fix e x
    assume "env s = Fail e # x" "attempt (-1, []) ?act s = ((-1, []), s\<lparr>env := x, errno := e\<rparr>)"
    then show ?thesis using r that(1) by (auto intro: quiet_fail)
  next
    fix s1
    assume q: "quiet s s1" and a: "attempt (-1, []) ?act s = ?act s1"
      and d: "env s = [] \<and> s1 = s \<or> (\<exists>x r. env s = x # r \<and> s1 = s\<lparr>env := r\<rparr>)"
    have f: "fd_file s1 fd = Some (f, n)" using q assms(2) by (simp add: quiet_fd_file)
    from a r have e: "?act s1 = ((r, bs), s')" by simp
    show ?thesis
    proof (cases "readable (of_flags f) \<and> \<not> i_dir n")
      case True
      with e f show ?thesis
        using q d assms(3) transfer_limit_pos [of c s] transfer_limit_le [of s c]
        by (intro that(2) [of s1 ?k]) (auto simp: Let_def)
    next
      case False
      with e f q show ?thesis
        by (intro that(1)) (auto simp: fail_with_def intro: quiet_trans split: if_splits)
    qed
  qed
qed

text \<open>Descriptors.\<close>

lemma first_free_None: "first_free xs < length xs \<Longrightarrow> xs ! first_free xs = None"
  by (induction xs rule: first_free.induct) auto

lemma sys_close_others: "sys_close fd s = (r, s') \<Longrightarrow> fd' \<noteq> fd \<Longrightarrow> fd_get s' fd' = fd_get s fd'"
  by (auto simp: sys_close_def attempt_def fail_with_def fd_get_def nth_list_update
      split: option.splits list.splits outcome.splits if_splits)

end
