(* ===== verification/Codec.thy ===== *)
theory Codec
  imports Posix
begin

text \<open>
  The compressors: \<^verbatim>\<open>src/compress-zlib.c\<close>, \<^verbatim>\<open>src/compress-zstd.c\<close>, and the dispatch
  \<open>compress_data\<close> / \<open>decompress_data\<close> of \<^verbatim>\<open>src/dzfile-intern.cc\<close>.

  The zlib and zstd libraries are not part of the repository: their functions are the fields of
  the record \<open>codec_lib\<close>, an argument of every definition here, and what is documented of them
  is collected in \<open>zstd_contract\<close> and \<open>zlib_contract\<close>.

  The pair of out-parameters \<^verbatim>\<open>char **dstdata, int *dstlen\<close> is the record \<open>outp\<close>: the buffer
  that \<^verbatim>\<open>*dstdata\<close> points to (\<open>None\<close>: the null pointer) and the length (\<open>None\<close>: a variable
  that nobody has initialised, whose value must not be read).
\<close>

datatype dz_alg = DZ_ALG_ZLIB | DZ_ALG_ZSTD | DZ_ALG_ISAL | DZ_ALG_FPGA | DZ_ALG_UNKOWN

record codec_lib =
  zlibVersion :: string
  zlib_compressBound :: "nat \<Rightarrow> nat"
  zlib_compress :: "nat \<Rightarrow> bytes \<Rightarrow> int \<times> bytes"
  zlib_uncompress :: "nat \<Rightarrow> bytes \<Rightarrow> int \<times> bytes"
  ZSTD_versionString :: string
  ZSTD_compressBound :: "nat \<Rightarrow> nat"
  ZSTD_compress :: "nat \<Rightarrow> bytes \<Rightarrow> nat \<Rightarrow> 64 word \<times> bytes"
  ZSTD_isError :: "64 word \<Rightarrow> bool"
  ZSTD_getFrameContentSize :: "bytes \<Rightarrow> 64 word"
  ZSTD_decompress :: "nat \<Rightarrow> bytes \<Rightarrow> 64 word \<times> bytes"

record outp =
  dstdata :: "bytes option"
  dstlen :: "int option"

definition uninit_out :: outp where
  \<comment> \<open>\<^verbatim>\<open>char *dstdata = NULL; int dstlen;\<close>\<close>
  "uninit_out = \<lparr>dstdata = None, dstlen = None\<rparr>"

abbreviation (input) Z_OK :: int where "Z_OK \<equiv> 0"
abbreviation (input) Z_DATA_ERROR :: int where "Z_DATA_ERROR \<equiv> -3"
abbreviation (input) Z_MEM_ERROR :: int where "Z_MEM_ERROR \<equiv> -4"
abbreviation (input) Z_BUF_ERROR :: int where "Z_BUF_ERROR \<equiv> -5"

abbreviation (input) ZSTD_CONTENTSIZE_UNKNOWN :: "64 word" where "ZSTD_CONTENTSIZE_UNKNOWN \<equiv> -1"
abbreviation (input) ZSTD_CONTENTSIZE_ERROR :: "64 word" where "ZSTD_CONTENTSIZE_ERROR \<equiv> -2"

section \<open>zlib\<close>

definition compressdata_zlib :: "codec_lib \<Rightarrow> outp \<Rightarrow> bytes \<Rightarrow> os \<Rightarrow> (int \<times> outp) \<times> os" where
  "compressdata_zlib L out srcdata s =
     (let destLen = zlib_compressBound L (length srcdata) in
      case sys_malloc s of
        (False, s1) \<Rightarrow> ((-1, out), s1)
      | (True, s1) \<Rightarrow>
          (case zlib_compress L destLen srcdata of
             (ret, ostream) \<Rightarrow>
               if ret = Z_BUF_ERROR then ((-1, out), s1\<lparr>errno := ENOMEM\<rparr>)
               else if ret = Z_MEM_ERROR then ((-1, out), s1\<lparr>errno := ENOMEM\<rparr>)
               else if ret \<noteq> Z_OK then ((-1, out), s1)
               else ((0, \<lparr>dstdata = Some ostream, dstlen = Some (int (length ostream))\<rparr>), s1)))"

text \<open>
  The decompressor takes the capacity from \<^verbatim>\<open>*dstlen\<close> and copies the result to the buffer the
  caller has put into \<^verbatim>\<open>*dstdata\<close>.
\<close>

definition decompressdata_zlib ::
    "codec_lib \<Rightarrow> outp \<Rightarrow> bytes \<Rightarrow> os \<Rightarrow> ((int \<times> outp) \<times> os) option" where
  "decompressdata_zlib L out zipdata s = do {
     ilen \<leftarrow> dstlen out;
     (if ilen \<le> 0 then Some ((-1, out), s\<lparr>errno := EINVAL\<rparr>)
      else (case sys_malloc s of
          (False, s1) \<Rightarrow> Some ((-1, out), s1)
        | (True, s1) \<Rightarrow>
            (case zlib_uncompress L (nat ilen) zipdata of
               (ret, destdata) \<Rightarrow>
                 if ret = Z_MEM_ERROR \<or> ret = Z_BUF_ERROR
                 then Some ((-1, out), s1\<lparr>errno := ENOMEM\<rparr>)
                 else if ret = Z_DATA_ERROR then Some ((-1, out), s1\<lparr>errno := EINVAL\<rparr>)
                 else if ret \<noteq> Z_OK then Some ((-1, out), s1)
                 else do {
                   dst \<leftarrow> dstdata out;
                   guard_ub (length destdata \<le> length dst);
                   Some ((0, \<lparr>dstdata = Some (destdata @ drop (length destdata) dst),
                              dstlen = Some (int (length destdata))\<rparr>), s1) }))) }"

section \<open>zstd\<close>

text \<open>The return value of \<^verbatim>\<open>ZSTD_compress\<close>, a \<^verbatim>\<open>size_t\<close>, is stored in an \<^verbatim>\<open>int\<close>, which is widened
  again for \<^verbatim>\<open>ZSTD_isError\<close>.\<close>

definition as_int :: "64 word \<Rightarrow> 32 word" where
  "as_int r = ucast r"

definition compressdata_zstd ::
    "codec_lib \<Rightarrow> outp \<Rightarrow> bytes option \<Rightarrow> os \<Rightarrow> (int \<times> outp) \<times> os" where
  "compressdata_zstd L out srcdata s =
     (case srcdata of
        None \<Rightarrow> ((-1, out), s)
      | Some src \<Rightarrow>
          if length src = 0 then ((-1, out), s)
          else (let destLen = ZSTD_compressBound L (length src) in
            case sys_malloc s of
              (False, s1) \<Rightarrow> ((-1, out), s1)
            | (True, s1) \<Rightarrow>
                (case ZSTD_compress L destLen src 6 of
                   (r, ostream) \<Rightarrow>
                     (let ret = as_int r in
                      if ZSTD_isError L (scast ret) then ((-1, out), s1\<lparr>errno := ENOMEM\<rparr>)
                      else ((0, \<lparr>dstdata = Some ostream, dstlen = Some (sint ret)\<rparr>), s1)))))"

definition decompressdata_zstd ::
    "codec_lib \<Rightarrow> outp \<Rightarrow> bytes option \<Rightarrow> os \<Rightarrow> (int \<times> outp) \<times> os" where
  "decompressdata_zstd L out zipdata s =
     (case zipdata of
        None \<Rightarrow> ((-1, out), s)
      | Some zsrc \<Rightarrow>
          if length zsrc = 0 then ((-1, out), s)
          else (let dSize = ZSTD_getFrameContentSize L zsrc in
            if dSize = ZSTD_CONTENTSIZE_ERROR \<or> dSize = ZSTD_CONTENTSIZE_UNKNOWN
            then ((-1, out), s)
            else (case sys_malloc s of
                (False, s1) \<Rightarrow> ((-1, out), s1)
              | (True, s1) \<Rightarrow>
                  (case ZSTD_decompress L (unat dSize) zsrc of
                     (ret, destdata) \<Rightarrow>
                       if ZSTD_isError L ret then ((-1, out), s1\<lparr>errno := ENOMEM\<rparr>)
                       else ((0, \<lparr>dstdata = Some destdata,
                                  dstlen = Some (sint (as_int ret))\<rparr>), s1)))))"

section \<open>Dispatch\<close>

definition compress_data ::
    "codec_lib \<Rightarrow> dz_alg \<Rightarrow> outp \<Rightarrow> bytes \<Rightarrow> os \<Rightarrow> (int \<times> outp) \<times> os" where
  "compress_data L m out srcdata s =
     (case m of
        DZ_ALG_ZLIB \<Rightarrow> compressdata_zlib L out srcdata s
      | DZ_ALG_ZSTD \<Rightarrow> compressdata_zstd L out (Some srcdata) s
      | _ \<Rightarrow> ((-1, out), s))"

definition decompress_data ::
    "codec_lib \<Rightarrow> dz_alg \<Rightarrow> outp \<Rightarrow> bytes \<Rightarrow> os \<Rightarrow> ((int \<times> outp) \<times> os) option" where
  "decompress_data L m out zipdata s =
     (case m of
        DZ_ALG_ZLIB \<Rightarrow> decompressdata_zlib L out zipdata s
      | DZ_ALG_ZSTD \<Rightarrow> Some (decompressdata_zstd L out (Some zipdata) s)
      | _ \<Rightarrow> Some ((-1, out), s))"

section \<open>What is documented of the libraries\<close>

text \<open>
  zstd: an error code is one of the 119 largest values of \<^verbatim>\<open>size_t\<close>; a successful compression
  returns the length of its output, at most the capacity given; the bound is the documented
  formula; a frame is never empty, carries the size of its content, and decompresses to it.
\<close>

definition zstd_contract :: "codec_lib \<Rightarrow> bool" where
  "zstd_contract L \<longleftrightarrow>
     (\<forall>c. ZSTD_isError L c \<longleftrightarrow> (-120 :: 64 word) < c) \<and>
     (\<forall>n. ZSTD_compressBound L n =
        n + n div 256 + (if n < 131072 then (131072 - n) div 2048 else 0)) \<and>
     (\<forall>cap src lvl r z. ZSTD_compress L cap src lvl = (r, z) \<longrightarrow> \<not> ZSTD_isError L r \<longrightarrow>
        length src < 2 ^ 62 \<longrightarrow>
        unat r = length z \<and> 0 < length z \<and> length z \<le> cap \<and>
        ZSTD_getFrameContentSize L z = of_nat (length src) \<and>
        ZSTD_decompress L (length src) z = (of_nat (length src), src))"

text \<open>zlib: on success the output fits the capacity, and decompresses into any buffer that can
  hold the source.\<close>

definition zlib_contract :: "codec_lib \<Rightarrow> bool" where
  "zlib_contract L \<longleftrightarrow>
     (\<forall>cap src z. zlib_compress L cap src = (Z_OK, z) \<longrightarrow>
        length z \<le> cap \<and> (\<forall>c\<ge>length src. zlib_uncompress L c z = (Z_OK, src)))"

section \<open>The narrow return value\<close>

lemma as_int_word_of_int: "as_int (word_of_int k) = word_of_int k"
  by (simp add: as_int_def unsigned_of_int word_of_int_eq_iff)

lemma sint_as_int:
  "- (2 ^ 31) \<le> k \<Longrightarrow> k < 2 ^ 31 \<Longrightarrow> sint (as_int (word_of_int k)) = k"
  by (simp add: as_int_word_of_int sint_sbintrunc' signed_take_bit_int_eq_self)

lemma sint_as_int_small:
  assumes "unat r < 2 ^ 31"
  shows "sint (as_int r) = int (unat r)"
proof -
  have "int (unat r) < int (2 ^ 31)" using assms by (simp only: of_nat_less_iff)
  then have "uint r < 2 ^ 31" by simp
  moreover have "0 \<le> uint r" by simp
  then have "- (2 ^ 31) \<le> uint r" by (rule order_trans [rotated]) simp
  ultimately have "sint (as_int (word_of_int (uint r))) = uint r" by (intro sint_as_int)
  then show ?thesis by simp
qed

text \<open>An error code survives the truncation to \<^verbatim>\<open>int\<close> and the sign extension back.\<close>

lemma error_code_survives:
  assumes "(-120 :: 64 word) < r"
  shows "(scast (as_int r) :: 64 word) = r"
proof -
  define k where "k = uint r - 2 ^ 64"
  have "uint (-120 :: 64 word) < uint r" using assms by (simp add: word_less_def)
  then have lo: "-120 < k" by (simp add: k_def)
  have hi: "k < 0" using unsigned_less [of r, where 'a = int] by (simp add: k_def)
  have r: "r = word_of_int k" by (simp add: k_def)
  have "sint (as_int r) = k" unfolding r by (rule sint_as_int) (use lo hi in simp_all)
  then show ?thesis using r by (simp add: scast_eq)
qed

section \<open>Round trip\<close>

lemma compressBound_small:
  assumes "zstd_contract L" "n \<le> 2 ^ 29"
  shows "ZSTD_compressBound L n < 2 ^ 31"
proof -
  have "ZSTD_compressBound L n =
      n + n div 256 + (if n < 131072 then (131072 - n) div 2048 else 0)"
    using assms(1) unfolding zstd_contract_def by blast
  also have "\<dots> \<le> n + n + 131072"
  proof -
    have "(131072 - n) div 2048 \<le> 131072 - n" by (rule div_le_dividend)
    then have "(if n < 131072 then (131072 - n) div 2048 else 0) \<le> 131072" by auto
    moreover have "n div 256 \<le> n" by (rule div_le_dividend)
    ultimately show ?thesis by linarith
  qed
  also have "\<dots> < 2 ^ 31" using assms(2) by simp
  finally show ?thesis .
qed

text \<open>A successful compression puts out exactly a frame of its source.\<close>

lemma compressdata_zstd_ok:
  assumes Z: "zstd_contract L" and n: "length src \<le> 2 ^ 29"
    and ok: "compressdata_zstd L out (Some src) s = ((ret, out'), s')" "0 \<le> ret"
  obtains z where "out' = \<lparr>dstdata = Some z, dstlen = Some (int (length z))\<rparr>" "0 < length z"
    "ZSTD_getFrameContentSize L z = of_nat (length src)"
    "ZSTD_decompress L (length src) z = (of_nat (length src), src)"
proof -
  let ?cap = "ZSTD_compressBound L (length src)"
  obtain r z where c: "ZSTD_compress L ?cap src 6 = (r, z)" by fastforce
  from ok c have ne: "\<not> ZSTD_isError L (scast (as_int r))"
    and out: "out' = \<lparr>dstdata = Some z, dstlen = Some (sint (as_int r))\<rparr>"
    by (auto simp: compressdata_zstd_def Let_def split: if_splits prod.splits bool.splits)
  have "\<not> ZSTD_isError L r"
  proof
    assume "ZSTD_isError L r"
    then have "(-120 :: 64 word) < r" using Z by (simp add: zstd_contract_def)
    then have "scast (as_int r) = r" by (rule error_code_survives)
    with ne \<open>ZSTD_isError L r\<close> show False by simp
  qed
  with Z c n have z: "unat r = length z" "0 < length z" "length z \<le> ?cap"
    "ZSTD_getFrameContentSize L z = of_nat (length src)"
    "ZSTD_decompress L (length src) z = (of_nat (length src), src)"
    unfolding zstd_contract_def by auto
  have "unat r < 2 ^ 31" using z(1,3) compressBound_small [OF Z n] by simp
  then have "sint (as_int r) = int (length z)" using z(1) by (simp add: sint_as_int_small)
  with out z show ?thesis by (intro that) simp_all
qed

lemma not_zstd_code:
  assumes "(x :: 64 word) < 2 ^ 30"
  shows "x \<noteq> -2" "x \<noteq> -1" "\<not> -120 < x"
proof -
  have u: "uint x < 2 ^ 30" using assms by (simp add: word_less_def)
  have c: "uint (-2 :: 64 word) = 2 ^ 64 - 2" "uint (-1 :: 64 word) = 2 ^ 64 - 1"
    "uint (-120 :: 64 word) = 2 ^ 64 - 120" by (simp_all add: unsigned_minus_1_eq_mask mask_eq_exp_minus_1)
  show "x \<noteq> -2" using u c(1) by auto
  show "x \<noteq> -1" using u c(2) by auto
  show "\<not> -120 < x" using u c(3) by (simp add: word_less_def)
qed

lemma decompressdata_zstd_frame:
  assumes Z: "zstd_contract L" and n: "length src \<le> 2 ^ 29" and z: "0 < length z"
    "ZSTD_getFrameContentSize L z = of_nat (length src)"
    "ZSTD_decompress L (length src) z = (of_nat (length src), src)"
    and s: "env s = []"
  shows "decompressdata_zstd L out (Some z) s =
    ((0, \<lparr>dstdata = Some src, dstlen = Some (int (length src))\<rparr>), s)"
proof -
  have u: "unat (of_nat (length src) :: 64 word) = length src"
    using n by (simp add: unat_of_nat take_bit_nat_eq_self)
  have w: "(of_nat (length src) :: 64 word) < 2 ^ 30"
    using n u by (simp add: word_less_nat_alt)
  note ne = not_zstd_code [OF w]
  have "sint (as_int (of_nat (length src))) = int (length src)"
    using sint_as_int_small [of "of_nat (length src)"] n u by simp
  with z ne u s Z show ?thesis
    by (simp add: decompressdata_zstd_def Let_def sys_malloc_def zstd_contract_def)
qed

lemma quiet_compress_data: "compress_data L m out src s = (r, s') \<Longrightarrow> quiet s s'"
  by (cases m)
    (auto simp: compress_data_def compressdata_zlib_def compressdata_zstd_def Let_def
      split: if_splits prod.splits bool.splits
      dest!: quiet_sys_malloc intro: quiet_trans)

lemma quiet_decompressdata_zstd: "decompressdata_zstd L out src s = (r, s') \<Longrightarrow> quiet s s'"
  by (auto simp: decompressdata_zstd_def Let_def
      split: if_splits prod.splits bool.splits option.splits
      dest!: quiet_sys_malloc intro: quiet_trans)

text \<open>A frame of a piece of data, and its decompression through the dispatch.\<close>

definition frame_of :: "codec_lib \<Rightarrow> bytes \<Rightarrow> bytes \<Rightarrow> bool" where
  "frame_of L z src \<longleftrightarrow>
     0 < length z \<and> ZSTD_getFrameContentSize L z = of_nat (length src) \<and>
     ZSTD_decompress L (length src) z = (of_nat (length src), src)"

lemma compress_data_frame:
  assumes "zstd_contract L" "length src \<le> 2 ^ 29"
    "compress_data L DZ_ALG_ZSTD out src s = ((ret, out'), s')" "0 \<le> ret"
  obtains z where "dstdata out' = Some z" "dstlen out' = Some (int (length z))" "frame_of L z src"
proof -
  from assms(3) have "compressdata_zstd L out (Some src) s = ((ret, out'), s')"
    by (simp add: compress_data_def)
  from compressdata_zstd_ok [OF assms(1,2) this assms(4)] show ?thesis
    by (metis frame_of_def outp.select_convs(1) outp.select_convs(2) that)
qed

lemma decompress_data_frame:
  assumes "zstd_contract L" "length src \<le> 2 ^ 29" "frame_of L z src" "env s = []"
  shows "decompress_data L DZ_ALG_ZSTD out z s =
    Some ((0, \<lparr>dstdata = Some src, dstlen = Some (int (length src))\<rparr>), s)"
  using assms by (simp add: decompress_data_def frame_of_def decompressdata_zstd_frame)

end
