(* ===== verification/Common.thy ===== *)
theory Common
  imports Posix
begin

text \<open>
  \<^verbatim>\<open>src/dz-common.c\<close>, but for the logger: the names of compressed files
  (\<open>buildHiddenFile\<close>, \<open>match_hiddenfile\<close>, \<open>match_sysdir\<close>), the look-ups of hidden files
  (\<open>findhiddenFile\<close>, \<open>findTempH5File\<close>) and \<open>make_parent_dir\<close>.
\<close>

section \<open>The hidden file of a path\<close>

definition after_slash :: "string \<Rightarrow> string" where
  \<comment> \<open>the file name: what follows the last slash\<close>
  "after_slash p = (case strrchr p SLASH of None \<Rightarrow> p | Some i \<Rightarrow> drop (Suc i) p)"

definition hidden_name :: "string \<Rightarrow> string" where
  \<comment> \<open>specification: \<open>dir/name\<close> becomes \<open>dir/.name.DZF\<close>\<close>
  "hidden_name p =
     (case strrchr p SLASH of
        None \<Rightarrow> p
      | Some i \<Rightarrow> take (Suc i) p @ ''.'' @ drop (Suc i) p @ ''.DZF'')"

lemma after_slash_simps [simp]:
  "SLASH \<notin> set b \<Longrightarrow> after_slash (d @ SLASH # b) = b"
  "SLASH \<notin> set b \<Longrightarrow> after_slash b = b"
  by (simp_all add: after_slash_def strrchr_append_last)

lemma hidden_name_slash:
  "SLASH \<notin> set b \<Longrightarrow> hidden_name (d @ SLASH # b) = d @ SLASH # ''.'' @ b @ ''.DZF''"
  by (simp add: hidden_name_def strrchr_append_last)

lemma slash_split:
  assumes "SLASH \<in> set p"
  obtains d b where "p = d @ SLASH # b" "SLASH \<notin> set b"
proof -
  from assms obtain i where "strrchr p SLASH = Some i"
    by (cases "strrchr p SLASH") (auto simp: strrchr_eq_None)
  then show ?thesis by (rule strrchr_split) (use that in blast)
qed

lemma after_slash_no_slash: "SLASH \<notin> set (after_slash p)"
proof (cases "SLASH \<in> set p")
  case True
  then obtain d b where "p = d @ SLASH # b" "SLASH \<notin> set b" by (rule slash_split)
  then show ?thesis by simp
next
  case False
  then show ?thesis by simp
qed

text \<open>The allocation and the moves inside the buffer, byte by byte.\<close>

definition hidden_fill :: "char list \<Rightarrow> string \<Rightarrow> string option" where
  \<comment> \<open>\<open>junk\<close> is what \<^verbatim>\<open>malloc\<close> returned; the result is the string in the buffer\<close>
  "hidden_fill junk filepath = do {
     m1 \<leftarrow> mem_strcpy 0 filepath junk;
     new_filepath \<leftarrow> mem_str m1 0;
     i \<leftarrow> strrchr new_filepath SLASH;
     filename \<leftarrow> mem_str m1 (i + 1);
     m2 \<leftarrow> mem_memmove (i + 1 + length ''.'') (i + 1) (length filename + 1) m1;
     m3 \<leftarrow> mem_write (i + 1) ''.'' m2;
     m4 \<leftarrow> mem_strcat ''.DZF'' m3;
     mem_str m4 0
   }"

definition buildHiddenFile :: "string \<Rightarrow> os \<Rightarrow> (string option \<times> os) option" where
  "buildHiddenFile filepath s =
     (case strrchr filepath SLASH of
        None \<Rightarrow> Some (None, s)
      | Some _ \<Rightarrow>
          (case sys_malloc s of
             (False, s1) \<Rightarrow> Some (None, s1)
           | (True, s1) \<Rightarrow> do {
               h \<leftarrow> hidden_fill (replicate (length filepath + 6) (CHR 0xFF)) filepath;
               Some (Some h, s1) }))"

text \<open>
  The buffer is exactly large enough, nothing outside it is touched, no byte of it is read
  before it is written, and it ends up holding the specified name.
\<close>

lemma hidden_fill_correct:
  assumes "cstring p" "SLASH \<in> set p" "length junk = length p + 6"
  shows "hidden_fill junk p = Some (hidden_name p)"
proof -
  from assms(2) obtain d b where p: "p = d @ SLASH # b" and b: "SLASH \<notin> set b"
    by (rule slash_split)
  let ?d = "d @ [SLASH]"
  from assms(3) p obtain j5 where junk: "drop (length p + 1) junk = j5" "length j5 = 5"
    by simp
  have cs: "cstring d" "cstring b" using assms(1) p by simp_all
  have m1: "mem_strcpy 0 p junk = Some (?d @ b @ NUL # j5)"
    using junk assms(3) p by (simp add: mem_strcpy_def mem_write_def)
  obtain x0 x1 x2 x3 x4 where j5: "j5 = [x0, x1, x2, x3, x4]"
    using junk(2) by (auto simp: length_Suc_conv eval_nat_numeral)
  have s1: "mem_str (?d @ b @ NUL # j5) 0 = Some p"
    using mem_str_terminated [of "[]" 0 p j5] cs p by simp
  have r1: "strrchr p SLASH = Some (length d)"
    using b p by (simp add: strrchr_append_last)
  have f1: "mem_str (?d @ b @ NUL # j5) (length d + 1) = Some b"
    using mem_str_terminated [of ?d "length d + 1" b j5] cs by simp
  have "take (length b + 1) (drop (length d + 1) (?d @ b @ NUL # j5)) = b @ [NUL]"
    by simp
  then have m2: "mem_memmove (length d + 1 + length ''.'') (length d + 1) (length b + 1)
        (?d @ b @ NUL # j5) = Some (?d @ take 1 (b @ [NUL]) @ b @ [NUL] @ [x1, x2, x3, x4])"
    using j5 by (cases b) (simp_all add: mem_memmove_def mem_write_def eval_nat_numeral)
  have m3: "mem_write (length d + 1) ''.'' (?d @ take 1 (b @ [NUL]) @ b @ [NUL] @ [x1, x2, x3, x4])
      = Some (?d @ ''.'' @ b @ [NUL] @ [x1, x2, x3, x4])"
    by (simp add: mem_write_def)
  have s3: "mem_str (?d @ ''.'' @ b @ [NUL] @ [x1, x2, x3, x4]) 0 = Some (?d @ ''.'' @ b)"
    using mem_str_terminated [of "[]" 0 "?d @ ''.'' @ b" "[x1, x2, x3, x4]"] cs by simp
  have m4: "mem_strcat ''.DZF'' (?d @ ''.'' @ b @ [NUL] @ [x1, x2, x3, x4])
      = Some (?d @ ''.'' @ b @ ''.DZF'' @ [NUL])"
    unfolding mem_strcat_def s3 by (simp add: mem_strcpy_def mem_write_def)
  have s4: "mem_str (?d @ ''.'' @ b @ ''.DZF'' @ [NUL]) 0 = Some (?d @ ''.'' @ b @ ''.DZF'')"
    using mem_str_terminated [of "[]" 0 "?d @ ''.'' @ b @ ''.DZF''" "[]"] cs by simp
  have h: "hidden_name p = ?d @ ''.'' @ b @ ''.DZF''"
    using b p by (simp add: hidden_name_slash)
  show ?thesis
    unfolding hidden_fill_def
    by (simp only: m1 s1 r1 f1 m2 m3 m4 s4 h bind.bind_lunit)
qed

lemma buildHiddenFile_normal [call_simps]:
  assumes "cstring p" "env s = []"
  shows "buildHiddenFile p s =
    Some (if SLASH \<in> set p then Some (hidden_name p) else None, s)"
proof (cases "SLASH \<in> set p")
  case True
  then obtain i where "strrchr p SLASH = Some i"
    by (cases "strrchr p SLASH") (auto simp: strrchr_eq_None)
  with True assms show ?thesis
    by (simp add: buildHiddenFile_def sys_malloc_def hidden_fill_correct)
next
  case False
  then show ?thesis by (simp add: buildHiddenFile_def)
qed

text \<open>In any environment: defined, and either the null pointer or the specified name.\<close>

lemma buildHiddenFile_cases:
  assumes "cstring p"
  obtains s' where "buildHiddenFile p s = Some (None, s')"
    "s' = s\<lparr>env := env s', errno := errno s'\<rparr>"
  | s' where "buildHiddenFile p s = Some (Some (hidden_name p), s')" "SLASH \<in> set p"
    "s' = s\<lparr>env := env s'\<rparr>"
proof (cases "strrchr p SLASH")
  case None
  with that(1) show ?thesis by (simp add: buildHiddenFile_def)
next
  case (Some i)
  then have "SLASH \<in> set p" by (metis strrchr_absent option.distinct(1))
  with assms have f: "hidden_fill (replicate (length p + 6) (CHR 0xFF)) p = Some (hidden_name p)"
    by (simp add: hidden_fill_correct)
  obtain b s1 where m: "sys_malloc s = (b, s1)" by (cases "sys_malloc s")
  then have s1: "s1 = s\<lparr>env := env s1, errno := errno s1\<rparr> \<and> (b \<longrightarrow> s1 = s\<lparr>env := env s1\<rparr>)"
    by (auto simp: sys_malloc_def attempt_def split: list.splits outcome.splits)
  show ?thesis
  proof (cases b)
    case True
    with Some m f s1 \<open>SLASH \<in> set p\<close> show ?thesis
      by (intro that(2) [of s1]) (simp_all add: buildHiddenFile_def)
  next
    case False
    with Some m s1 show ?thesis
      by (intro that(1) [of s1]) (simp_all add: buildHiddenFile_def)
  qed
qed

text \<open>The name is injective, and never the path itself.\<close>

lemma length_hidden_name: "SLASH \<in> set p \<Longrightarrow> length (hidden_name p) = length p + 5"
  by (erule slash_split) (simp add: hidden_name_slash)

lemma hidden_name_inj:
  assumes "SLASH \<in> set p" "SLASH \<in> set q" "hidden_name p = hidden_name q"
  shows "p = q"
proof -
  from assms(1) obtain d b where p: "p = d @ SLASH # b" "SLASH \<notin> set b" by (rule slash_split)
  from assms(2) obtain e c where q: "q = e @ SLASH # c" "SLASH \<notin> set c" by (rule slash_split)
  from assms(3) p q have eq: "d @ SLASH # ''.'' @ b @ ''.DZF'' = e @ SLASH # ''.'' @ c @ ''.DZF''"
    by (simp add: hidden_name_slash)
  have "strrchr (d @ SLASH # ''.'' @ b @ ''.DZF'') SLASH = Some (length d)"
    using p(2) by (intro strrchr_append_last) simp
  moreover have "strrchr (e @ SLASH # ''.'' @ c @ ''.DZF'') SLASH = Some (length e)"
    using q(2) by (intro strrchr_append_last) simp
  ultimately have "length d = length e" using eq by (metis option.inject)
  with eq p q show ?thesis by simp
qed

lemma comps_hidden:
  assumes "p = d @ SLASH # b" "SLASH \<notin> set b"
  shows "comps (hidden_name p) = comps d @ [''.'' @ b @ ''.DZF'']"
proof -
  have "SLASH \<notin> set (''.'' @ b @ ''.DZF'')" using assms(2) by simp
  then show ?thesis
    using assms by (simp add: hidden_name_slash comps_snoc)
qed

definition tmp_name :: "string \<Rightarrow> string" where
  \<comment> \<open>\<^verbatim>\<open>sprintf(tmp_h5name, "%s.tmp", h5name)\<close>\<close>
  "tmp_name h = h @ ''.tmp''"

lemma comps_tmp_hidden:
  assumes "p = d @ SLASH # b" "SLASH \<notin> set b"
  shows "comps (tmp_name (hidden_name p)) = comps d @ [''.'' @ b @ ''.DZF.tmp'']"
proof -
  have "SLASH \<notin> set (''.'' @ b @ ''.DZF.tmp'')" using assms(2) by simp
  moreover have "tmp_name (hidden_name p) = d @ SLASH # ''.'' @ b @ ''.DZF.tmp''"
    using assms by (simp add: tmp_name_def hidden_name_slash)
  ultimately show ?thesis by (simp add: comps_snoc)
qed

lemma append_snoc_neq_butlast: "xs @ [x] \<noteq> xs" "xs @ [x] \<noteq> butlast xs"
proof -
  have "length (butlast xs) < length (xs @ [x])" by simp
  then show "xs @ [x] \<noteq> butlast xs" by (metis less_irrefl)
qed simp

lemma comps_child_neq:
  assumes "SLASH \<notin> set b" "x \<noteq> b"
  shows "comps d @ [x] \<noteq> comps (d @ SLASH # b)"
  using assms append_snoc_neq_butlast(2) [of "comps d" x] by (simp add: comps_child)

lemma names_distinct:
  assumes "SLASH \<in> set p"
  shows "comps (hidden_name p) \<noteq> comps p"
    and "comps (tmp_name (hidden_name p)) \<noteq> comps p"
    and "comps (tmp_name (hidden_name p)) \<noteq> comps (hidden_name p)"
proof -
  from assms obtain d b where p: "p = d @ SLASH # b" and b: "SLASH \<notin> set b" by (rule slash_split)
  have n1: "''.'' @ b @ ''.DZF'' \<noteq> b" and n2: "''.'' @ b @ ''.DZF.tmp'' \<noteq> b"
    by (rule length_eq_append_neq, simp)+
  show "comps (hidden_name p) \<noteq> comps p"
    unfolding comps_hidden [OF p b] unfolding p by (rule comps_child_neq [OF b n1])
  show "comps (tmp_name (hidden_name p)) \<noteq> comps p"
    unfolding comps_tmp_hidden [OF p b] unfolding p by (rule comps_child_neq [OF b n2])
  show "comps (tmp_name (hidden_name p)) \<noteq> comps (hidden_name p)"
    by (simp add: comps_hidden [OF p b] comps_tmp_hidden [OF p b])
qed

section \<open>Names the API refuses\<close>

text \<open>C26. \<open>buildHiddenFile\<close> never leaves its buffer; what it returns is the null pointer or
  \<open>dir/.name.DZF\<close> for \<open>dir/name\<close>, and two paths never share a hidden file.\<close>

theorem buildHiddenFile_spec:
  assumes "cstring p"
  shows "\<exists>r s'. buildHiddenFile p s = Some (r, s') \<and>
    (\<forall>h. r = Some h \<longrightarrow> h = hidden_name p \<and>
      (\<forall>q t t'. cstring q \<longrightarrow> buildHiddenFile q t = Some (Some h, t') \<longrightarrow> q = p))"
proof (rule buildHiddenFile_cases [OF assms, of s])
  fix s'
  assume p: "buildHiddenFile p s = Some (Some (hidden_name p), s')" "SLASH \<in> set p"
  have "q = p" if "cstring q" "buildHiddenFile q t = Some (Some (hidden_name p), t')" for q t t'
  proof (rule buildHiddenFile_cases [OF that(1), of t])
    fix t1
    assume "buildHiddenFile q t = Some (Some (hidden_name q), t1)" "SLASH \<in> set q"
    with that(2) p(2) show ?thesis by (auto intro: hidden_name_inj)
  qed (use that(2) in simp)
  with p(1) show ?thesis by blast
qed simp

lemma buildHiddenFile_spec_witness:
  "\<exists>r s'. buildHiddenFile ''/d/a''
     \<lparr>names = [([], 0)], inodes = (\<lambda>_. None), nextino = 1, fds = [], errno = 0, env = [],
      now = 0, vfs = \<lparr>f_bsize = 0, f_blocks = 0, f_bfree = 0, f_files = 0\<rparr>\<rparr> = Some (r, s') \<and>
    (\<forall>h. r = Some h \<longrightarrow> h = hidden_name ''/d/a'' \<and>
      (\<forall>q t t'. cstring q \<longrightarrow> buildHiddenFile q t = Some (Some h, t') \<longrightarrow> q = ''/d/a''))"
  by (rule buildHiddenFile_spec) simp

text \<open>
  \<open>match_sysdir\<close>: does a component of the path name the directory of the metadata? (The copy
  of the path that \<^verbatim>\<open>strdup\<close> makes is taken to succeed.)
\<close>

fun sysdir_loop :: "string list \<Rightarrow> bool" where
  "sysdir_loop [] = False"
| "sysdir_loop (dir_token # rest) = (if dir_token = ''.dzs'' then True else sysdir_loop rest)"

definition match_sysdir :: "string option \<Rightarrow> os \<Rightarrow> int \<times> os" where
  "match_sysdir path s =
     (case path of
        None \<Rightarrow> (-1, s)
      | Some p \<Rightarrow>
          if sysdir_loop (tokens SLASH p) then (1, s\<lparr>errno := EPERM\<rparr>) else (0, s))"

lemma sysdir_loop_iff: "sysdir_loop ts \<longleftrightarrow> ''.dzs'' \<in> set ts"
  by (induction ts) auto

text \<open>
  \<open>match_hiddenfile\<close> compares the string that starts eight characters before the end of the
  name, although it has checked for four only: on a short name the pointer is before the
  beginning of the string, which \<open>strcmp_at\<close> makes undefined.
\<close>

definition match_hiddenfile :: "string option \<Rightarrow> int option" where
  "match_hiddenfile path =
     (case path of
        None \<Rightarrow> Some (-1)
      | Some p \<Rightarrow>
          (let filename = (case strrchr p SLASH of None \<Rightarrow> 0 | Some i \<Rightarrow> Suc i);
               name = drop filename p;
               namelen = length name
           in if name = ''.'' \<or> name = ''..'' then Some 1
              else if 4 \<le> namelen \<and> p ! filename = CHR ''.'' then do {
                dzf \<leftarrow> strcmp_at p (int filename + int namelen - 4) ''.DZF'';
                if dzf then Some 1 else do {
                  tmp \<leftarrow> strcmp_at p (int filename + int namelen - 8) ''.DZF.tmp'';
                  Some (if tmp then 1 else 0) } }
              else Some 0))"

text \<open>What the function is for, over the file name alone.\<close>

definition ends_with :: "string \<Rightarrow> string \<Rightarrow> bool" where
  "ends_with suf s \<longleftrightarrow> length suf \<le> length s \<and> drop (length s - length suf) s = suf"

definition is_hidden_base :: "string \<Rightarrow> bool" where
  "is_hidden_base b \<longleftrightarrow>
     b = ''.'' \<or> b = ''..'' \<or>
     (b \<noteq> [] \<and> hd b = CHR ''.'' \<and> (ends_with ''.DZF'' b \<or> ends_with ''.DZF.tmp'' b))"

definition reads_before_start :: "string \<Rightarrow> bool" where
  \<comment> \<open>the paths on which the comparison starts before the string\<close>
  "reads_before_start p \<longleftrightarrow>
     length p < 8 \<and> 4 \<le> length (after_slash p) \<and> hd (after_slash p) = CHR ''.'' \<and>
     \<not> ends_with ''.DZF'' (after_slash p)"

lemma ends_with_append_no_slash:
  assumes "SLASH \<notin> set suf"
  shows "ends_with suf (d @ SLASH # b) \<longleftrightarrow> ends_with suf b"
proof (cases "length suf \<le> length b")
  case True
  then have "length (d @ SLASH # b) - length suf = length (d @ [SLASH]) + (length b - length suf)"
    by simp
  then have "drop (length (d @ SLASH # b) - length suf) (d @ SLASH # b)
      = drop (length b - length suf) b"
    using drop_length_add [of "d @ [SLASH]" "length b - length suf" b] by simp
  with True show ?thesis by (simp add: ends_with_def)
next
  case False
  let ?n = "length (d @ SLASH # b) - length suf"
  from False have "?n \<le> length d" by simp
  then have "SLASH \<in> set (drop ?n (d @ SLASH # b))" by simp
  with assms have "drop ?n (d @ SLASH # b) \<noteq> suf" by metis
  with False show ?thesis by (auto simp: ends_with_def)
qed

lemma strcmp_at_end:
  "length suf \<le> length p \<Longrightarrow>
   strcmp_at p (int (length p) - int (length suf)) suf = Some (ends_with suf p)"
  by (simp add: strcmp_at_def str_at_def ends_with_def nat_diff_distrib)

lemma strcmp_at_before: "length p < n \<Longrightarrow> strcmp_at p (int (length p) - int n) suf = None"
  by (simp add: strcmp_at_def)

lemma match_hiddenfile_base:
  assumes "p = d @ b" "strrchr p SLASH = (if d = [] then None else Some (length d - 1))"
  shows "match_hiddenfile (Some p) =
    (if b = ''.'' \<or> b = ''..'' then Some 1
     else if 4 \<le> length b \<and> hd b = CHR ''.'' then
       (if ends_with ''.DZF'' p then Some 1
        else if length p < 8 then None else Some (if ends_with ''.DZF.tmp'' p then 1 else 0))
     else Some 0)"
proof -
  have f: "(case strrchr p SLASH of None \<Rightarrow> 0 | Some i \<Rightarrow> Suc i) = length d"
    using assms(2) by simp
  have n: "drop (length d) p = b" using assms(1) by simp
  have h: "4 \<le> length b \<Longrightarrow> p ! length d = hd b"
    using assms(1) by (cases b) (simp_all add: nth_append)
  have l: "int (length d) + int (length b) = int (length p)" using assms(1) by simp
  have z: "4 \<le> length b \<Longrightarrow> strcmp_at p (int (length p) - 4) ''.DZF'' = Some (ends_with ''.DZF'' p)"
    using strcmp_at_end [of "''.DZF''" p] assms(1) by simp
  have t: "strcmp_at p (int (length p) - 8) ''.DZF.tmp'' =
      (if length p < 8 then None else Some (ends_with ''.DZF.tmp'' p))"
    using strcmp_at_end [of "''.DZF.tmp''" p] strcmp_at_before [of p 8 "''.DZF.tmp''"]
    by (simp add: not_less)
  show ?thesis
    unfolding match_hiddenfile_def option.case f Let_def n l
    using h by (cases "4 \<le> length b") (simp_all add: z t)
qed

lemma after_slash_decomp:
  obtains d where "p = d @ after_slash p"
    "strrchr p SLASH = (if d = [] then None else Some (length d - 1))"
    "d = [] \<or> (\<exists>e. d = e @ [SLASH])"
proof (cases "SLASH \<in> set p")
  case True
  then obtain d b where "p = d @ SLASH # b" "SLASH \<notin> set b" by (rule slash_split)
  then show ?thesis by (intro that [of "d @ [SLASH]"]) (simp_all add: strrchr_append_last)
next
  case False
  then show ?thesis by (intro that [of "[]"]) simp_all
qed

lemma ends_with_after_slash:
  assumes "SLASH \<notin> set suf"
  shows "ends_with suf p \<longleftrightarrow> ends_with suf (after_slash p)"
proof -
  obtain d where d: "p = d @ after_slash p" "d = [] \<or> (\<exists>e. d = e @ [SLASH])"
    by (rule after_slash_decomp)
  from d(2) show ?thesis
  proof
    assume "d = []"
    with d(1) show ?thesis by simp
  next
    assume "\<exists>e. d = e @ [SLASH]"
    then obtain e where "p = e @ SLASH # after_slash p" using d(1) by auto
    then show ?thesis using ends_with_append_no_slash [OF assms] by metis
  qed
qed

lemma match_hiddenfile_eq:
  "match_hiddenfile (Some p) =
     (if reads_before_start p then None
      else Some (if is_hidden_base (after_slash p) then 1 else 0))"
proof -
  obtain d where d: "p = d @ after_slash p"
    "strrchr p SLASH = (if d = [] then None else Some (length d - 1))"
    by (rule after_slash_decomp)
  have e: "ends_with ''.DZF'' p = ends_with ''.DZF'' (after_slash p)"
    "ends_with ''.DZF.tmp'' p = ends_with ''.DZF.tmp'' (after_slash p)"
    by (rule ends_with_after_slash, simp)+
  have l: "ends_with ''.DZF'' (after_slash p) \<Longrightarrow> 4 \<le> length (after_slash p)"
    "ends_with ''.DZF.tmp'' (after_slash p) \<Longrightarrow> 8 \<le> length (after_slash p)"
    by (simp_all add: ends_with_def)
  have n: "length (after_slash p) \<le> length p" by (subst (2) d(1)) simp
  show ?thesis
    unfolding match_hiddenfile_base [OF d] e
    using l n by (auto simp: reads_before_start_def is_hidden_base_def)
qed

text \<open>C27. The recogniser of hidden names is right wherever it is defined, and it is undefined
  exactly on the short dotted names (\<open>.ssh\<close>, \<open>.bash\<close>): there it reads before the string.\<close>

theorem match_hiddenfile_spec:
  "match_hiddenfile (Some p) =
     (if reads_before_start p then None
      else Some (if is_hidden_base (after_slash p) then 1 else 0))"
  by (rule match_hiddenfile_eq)

text \<open>The hidden file of a path, and its temporary file, are always recognised.\<close>

lemma ends_with_append [simp]: "ends_with suf (xs @ suf)"
  by (simp add: ends_with_def)

lemma match_hiddenfile_hidden_name:
  assumes "SLASH \<in> set p"
  shows "match_hiddenfile (Some (hidden_name p)) = Some 1"
    and "match_hiddenfile (Some (tmp_name (hidden_name p))) = Some 1"
proof -
  from assms obtain d b where p: "p = d @ SLASH # b" "SLASH \<notin> set b" by (rule slash_split)
  have h: "after_slash (hidden_name p) = ''.'' @ b @ ''.DZF''"
    using p after_slash_simps(1) [of "''.'' @ b @ ''.DZF''" d] by (simp add: hidden_name_slash)
  have t: "after_slash (tmp_name (hidden_name p)) = ''.'' @ b @ ''.DZF.tmp''"
    using p after_slash_simps(1) [of "''.'' @ b @ ''.DZF.tmp''" d]
    by (simp add: hidden_name_slash tmp_name_def)
  have eh: "ends_with ''.DZF'' (''.'' @ b @ ''.DZF'')"
    using ends_with_append [of "''.DZF''" "''.'' @ b"] by simp
  have et: "ends_with ''.DZF.tmp'' (''.'' @ b @ ''.DZF.tmp'')"
    using ends_with_append [of "''.DZF.tmp''" "''.'' @ b"] by simp
  have lt: "8 \<le> length (tmp_name (hidden_name p))"
    using p by (simp add: hidden_name_slash tmp_name_def)
  show "match_hiddenfile (Some (hidden_name p)) = Some 1"
    unfolding match_hiddenfile_eq using h eh
    by (auto simp: reads_before_start_def is_hidden_base_def)
  show "match_hiddenfile (Some (tmp_name (hidden_name p))) = Some 1"
    unfolding match_hiddenfile_eq using t et lt
    by (auto simp: reads_before_start_def is_hidden_base_def)
qed

text \<open>A path is refused as a system path exactly when \<open>.dzs\<close> is one of its components;
  \<open>errno\<close> is set then and only then, and nothing else changes.\<close>

theorem match_sysdir_spec:
  "match_sysdir (Some p) s =
     (if ''.dzs'' \<in> set (tokens SLASH p) then (1, s\<lparr>errno := EPERM\<rparr>) else (0, s))"
  by (simp add: match_sysdir_def sysdir_loop_iff)

section \<open>Looking hidden files up\<close>

definition findhiddenFile :: "string \<Rightarrow> os \<Rightarrow> (int \<times> os) option" where
  "findhiddenFile filename s = do {
     (hiddenFile, s1) \<leftarrow> buildHiddenFile filename s;
     (case hiddenFile of
        None \<Rightarrow> Some (-1, s1)
      | Some hf \<Rightarrow>
          (case sys_stat hf s1 of
             (None, s2) \<Rightarrow> Some (if errno s2 = ENOENT then 0 else -1, s2)
           | (Some stbuf, s2) \<Rightarrow> Some (if S_ISDIR (st_mode stbuf) then 2 else 1, s2)))
   }"

text \<open>
  \<open>findTempH5File\<close> ends with two calls of \<^verbatim>\<open>free\<close> on the same pointer; freeing a block twice is
  undefined. The two blocks it allocates are numbered 0 (\<open>h5name\<close>) and 1 (\<open>tmp_h5name\<close>).
\<close>

definition free_blocks :: "nat list \<Rightarrow> unit option" where
  "free_blocks ps = guard_ub (distinct ps)"

definition findTempH5File :: "string option \<Rightarrow> os \<Rightarrow> (int \<times> os) option" where
  "findTempH5File path s =
     (case path of
        None \<Rightarrow> Some (-1, s\<lparr>errno := EINVAL\<rparr>)
      | Some p \<Rightarrow> do {
          (h5name, s1) \<leftarrow> buildHiddenFile p s;
          (case h5name of
             None \<Rightarrow> Some (-1, s1)
           | Some h \<Rightarrow>
               (case sys_malloc s1 of
                  (False, s2) \<Rightarrow> do { free_blocks [0]; Some (-1, s2) }
                | (True, s2) \<Rightarrow>
                    (case sys_stat (tmp_name h) s2 of
                       (st, s3) \<Rightarrow> do {
                         free_blocks [0, 0];
                         Some (if st \<noteq> None then 1 else -1, s3) }))) })"

lemma findhiddenFile_normal [call_simps]:
  assumes "cstring p" "env s = []" "SLASH \<in> set p"
  shows "findhiddenFile p s =
    Some (case node_at s (comps (hidden_name p)) of
       Some (i, n) \<Rightarrow> (if i_dir n then 2 else 1, s)
     | None \<Rightarrow> let e = missing_errno s (comps (hidden_name p))
               in (if e = ENOENT then 0 else -1, s\<lparr>errno := e\<rparr>))"
  using assms
  by (simp add: findhiddenFile_def buildHiddenFile_normal sys_stat_def fail_with_def Let_def
      split: option.splits)

text \<open>\<open>findTempH5File\<close> never returns on a path whose hidden name it can build and store: it
  frees \<open>h5name\<close> twice, so a temporary file is never reported, present or not.\<close>

theorem findTempH5File_double_free:
  assumes "cstring p" "SLASH \<in> set p" "env s = []"
  shows "findTempH5File (Some p) s = None"
  using assms
  by (simp add: findTempH5File_def buildHiddenFile_normal sys_malloc_def free_blocks_def
      split: prod.splits)

lemma findTempH5File_double_free_witness:
  "findTempH5File (Some ''/d/a'')
     \<lparr>names = [([], 0)], inodes = (\<lambda>_. None), nextino = 1, fds = [], errno = 0, env = [],
      now = 0, vfs = \<lparr>f_bsize = 0, f_blocks = 0, f_bfree = 0, f_files = 0\<rparr>\<rparr> = None"
  by (rule findTempH5File_double_free) simp_all

section \<open>\<open>make_parent_dir\<close>\<close>

text \<open>The C library's \<^verbatim>\<open>dirname\<close>.\<close>

definition strip_slashes :: "string \<Rightarrow> string" where
  "strip_slashes p = rev (dropWhile (\<lambda>c. c = SLASH) (rev p))"

definition dirname :: "string \<Rightarrow> string" where
  "dirname p =
     (if p = [] then ''.''
      else (let q = strip_slashes p in
        if q = [] then ''/''
        else (case strrchr q SLASH of
            None \<Rightarrow> ''.''
          | Some i \<Rightarrow> (let d = strip_slashes (take i q) in if d = [] then ''/'' else d))))"

text \<open>
  The recursion stops at \<^verbatim>\<open>/\<close> or \<^verbatim>\<open>.\<close>, which exist, unless the environment keeps failing the
  calls on them; fuel stands for the stack, and running out of it is \<open>None\<close>.
\<close>

fun make_parent_dir :: "nat \<Rightarrow> string \<Rightarrow> os \<Rightarrow> (int \<times> os) option" where
  "make_parent_dir 0 path s = None"
| "make_parent_dir (Suc fuel) path s =
     (case sys_malloc s of
        (False, s1) \<Rightarrow> Some (-1, s1\<lparr>errno := EINVAL\<rparr>)
      | (True, s1) \<Rightarrow>
          (let pardir = dirname path in
           case sys_stat pardir s1 of
             (Some stbuf, s2) \<Rightarrow> Some (0, s2)
           | (None, s2) \<Rightarrow>
               if errno s2 \<noteq> ENOENT then Some (-1, s2)
               else (case sys_mkdir pardir 0x1A4 s2 of
                   (ret, s3) \<Rightarrow>
                     if ret < 0 \<and> errno s3 = ENOENT then do {
                       (rc, s4) \<leftarrow> make_parent_dir fuel pardir s3;
                       Some (if rc = 0 then sys_mkdir pardir 0x1A4 s4 else (ret, s4)) }
                     else if ret < 0 \<and> errno s3 = EEXIST then Some (0, s3)
                     else Some (ret, s3))))"

lemma length_strip_slashes: "length (strip_slashes p) \<le> length p"
  by (simp add: strip_slashes_def) (metis length_dropWhile_le length_rev)

lemma dirname_shorter:
  assumes "dirname p \<noteq> ''.''" "dirname p \<noteq> ''/''"
  shows "length (dirname p) < length p"
proof -
  let ?q = "strip_slashes p"
  from assms obtain i where i: "strrchr ?q SLASH = Some i" and d: "dirname p = strip_slashes (take i ?q)"
    by (auto simp: dirname_def Let_def split: if_splits option.splits)
  have "i < length ?q" using strrchr_Some_decomp [OF i] by simp
  with d length_strip_slashes [of "take i ?q"] length_strip_slashes [of p] show ?thesis by simp
qed

lemma comps_root [simp]: "comps ''/'' = []" "comps ''.'' = []" "comps [] = []"
  by (simp_all add: comps_def tokens_plain)

lemma sys_stat_root:
  assumes "dir_at s []" "p = ''/'' \<or> p = ''.''" "env s = []"
  shows "fst (sys_stat p s) \<noteq> None"
  using assms by (auto simp: sys_stat_def dir_at_def split: option.splits prod.splits)

lemma sys_stat_exists_fails_env:
  assumes "sys_stat q s = (None, s')" "dir_at s []" "q = ''/'' \<or> q = ''.''"
  shows "length (env s') < length (env s)"
proof -
  from assms(2) have "node_at s [] \<noteq> None" by (auto simp: dir_at_def split: option.splits)
  with assms(3) have "node_at s (comps q) \<noteq> None" by auto
  with assms(1) show ?thesis by (rule sys_stat_None_env)
qed

text \<open>C32. \<open>make_parent_dir\<close> terminates: where the root directory exists, a recursion depth linear
  in the path and in the number of pending failures is enough, whatever the failures are.\<close>

theorem make_parent_dir_terminates:
  assumes "dir_at s []" "length path + 2 * length (env s) < fuel"
  shows "\<exists>ret s'. make_parent_dir fuel path s = Some (ret, s')"
  using assms
proof (induction fuel arbitrary: path s)
  case 0
  then show ?case by simp
next
  case (Suc fuel)
  let ?d = "dirname path"
  obtain ok s1 where m: "sys_malloc s = (ok, s1)" by (cases "sys_malloc s")
  obtain st s2 where st: "sys_stat ?d s1 = (st, s2)" by (cases "sys_stat ?d s1")
  obtain ret s3 where mk: "sys_mkdir ?d 0x1A4 s2 = (ret, s3)" by (cases "sys_mkdir ?d 0x1A4 s2")
  show ?case
  proof (cases "ok \<and> st = None \<and> errno s2 = ENOENT \<and> ret < 0 \<and> errno s3 = ENOENT")
    case False
    with m st mk show ?thesis by (cases ok; cases st) (auto simp: Let_def)
  next
    case True
    have q1: "quiet s s1" using m by (rule quiet_sys_malloc)
    have q2: "quiet s1 s2" using st by (rule quiet_sys_stat)
    have q3: "quiet s2 s3" using mk True by (simp add: quiet_sys_mkdir)
    have q: "quiet s s3" using q1 q2 q3 by (blast intro: quiet_trans)
    have d: "dir_at s3 []" "dir_at s1 []" using Suc.prems(1) q q1 by (simp_all add: quiet_dir_at)
    have le: "length (env s1) \<le> length (env s)" "length (env s2) \<le> length (env s1)"
      "length (env s3) \<le> length (env s2)" using q1 q2 q3 by (simp_all add: quiet_def)
    have "length ?d + 2 * length (env s3) < fuel"
    proof (cases "?d = ''/'' \<or> ?d = ''.''")
      case r: True
      have "length (env s2) < length (env s1)"
        using sys_stat_exists_fails_env [of ?d s1 s2] st True d(2) r by blast
      moreover have "length ?d = 1" using r by auto
      ultimately show ?thesis using Suc.prems(2) le by linarith
    next
      case False
      then show ?thesis using dirname_shorter [of path] Suc.prems(2) le by simp
    qed
    from Suc.IH [OF d(1) this] obtain rc s4 where "make_parent_dir fuel ?d s3 = Some (rc, s4)"
      by blast
    with m st mk True show ?thesis by (simp add: Let_def)
  qed
qed

lemma make_parent_dir_terminates_witness:
  "\<exists>ret s'. make_parent_dir 9 ''/d/a''
     \<lparr>names = [([], 0)],
      inodes = [0 \<mapsto> \<lparr>i_dir = True, i_perm = 0, i_data = [], i_mtime = 0\<rparr>],
      nextino = 1, fds = [], errno = 0, env = [Fail EACCES], now = 0,
      vfs = \<lparr>f_bsize = 0, f_blocks = 0, f_bfree = 0, f_files = 0\<rparr>\<rparr> = Some (ret, s')"
  by (rule make_parent_dir_terminates) (simp_all add: dir_at_def node_at_def)

text \<open>What it is for: when it returns 0 the parent exists, and no name has been lost.\<close>

lemma sys_mkdir_normal:
  "env s = [] \<Longrightarrow> sys_mkdir p m s =
     (case node_at s (comps p) of
       Some x \<Rightarrow> (-1, s\<lparr>errno := EEXIST\<rparr>)
     | None \<Rightarrow> if dir_at s (butlast (comps p)) then (0, new_file (comps p) True m s)
         else (-1, s\<lparr>errno := missing_errno s (comps p)\<rparr>))"
  by (simp add: sys_mkdir_def fail_with_def split: option.split)

lemma new_file_node_at: "node_at (new_file cs b m s) cs \<noteq> None"
  by (simp add: node_at_def new_file_def update_conv')

text \<open>After \<open>make_parent_dir\<close> has returned 0 the parent of the path exists.\<close>

theorem make_parent_dir_parent_exists:
  assumes "make_parent_dir fuel path s = Some (0, s')" "env s = []"
  shows "node_at s' (comps (dirname path)) \<noteq> None \<and> env s' = []"
  using assms
proof (induction fuel arbitrary: path s s')
  case 0
  then show ?case by simp
next
  case (Suc fuel)
  let ?d = "dirname path"
  have m: "sys_malloc s = (True, s)" using Suc.prems(2) by (simp add: sys_malloc_def)
  show ?case
  proof (cases "node_at s (comps ?d)")
    case (Some x)
    then obtain i n where "node_at s (comps ?d) = Some (i, n)" by (cases x) auto
    moreover from this have "sys_stat ?d s = (Some (stat_of i n), s)"
      using Suc.prems(2) by (simp add: sys_stat_def)
    ultimately show ?thesis using Suc.prems m by (auto simp: Let_def)
  next
    case None
    let ?s2 = "s\<lparr>errno := missing_errno s (comps ?d)\<rparr>"
    have st: "sys_stat ?d s = (None, ?s2)"
      using None Suc.prems(2) by (simp add: sys_stat_def fail_with_def)
    have mk: "sys_mkdir ?d 0x1A4 t = (r, t') \<Longrightarrow> env t = [] \<Longrightarrow>
        env t' = [] \<and> (r = 0 \<or> r < 0 \<and> errno t' = EEXIST \<longrightarrow> node_at t' (comps ?d) \<noteq> None)"
      for t r t'
      using new_file_node_at [of "comps ?d"]
      by (auto simp: sys_mkdir_normal missing_errno_def new_file_def
          split: option.splits if_splits prod.splits)
    obtain r s3 where r: "sys_mkdir ?d 0x1A4 ?s2 = (r, s3)" by fastforce
    note mk1 = mk [OF r]
    show ?thesis
    proof (cases "r < 0 \<and> errno s3 = ENOENT")
      case True
      with Suc.prems m st r obtain rc s4 where rec: "make_parent_dir fuel ?d s3 = Some (rc, s4)"
        and last: "(if rc = 0 then sys_mkdir ?d 0x1A4 s4 else (r, s4)) = (0, s')"
        by (auto simp: Let_def bind_eq_Some_iff split: if_splits)
      have rc: "rc = 0" using last True by (auto split: if_splits)
      have "env s4 = []" using Suc.IH [OF rec [unfolded rc]] mk1 Suc.prems(2) by simp
      with mk [of s4 0 s'] last rc show ?thesis by simp
    next
      case False
      with Suc.prems m st r mk1 show ?thesis
        by (auto simp: Let_def split: if_splits)
    qed
  qed
qed

lemma make_parent_dir_parent_exists_witness:
  "node_at (snd (the (make_parent_dir (Suc (Suc 0)) ''/d/a''
     \<lparr>names = [([], 0)],
      inodes = [0 \<mapsto> \<lparr>i_dir = True, i_perm = 0, i_data = [], i_mtime = 0\<rparr>],
      nextino = 1, fds = [], errno = 0, env = [], now = 0,
      vfs = \<lparr>f_bsize = 0, f_blocks = 0, f_bfree = 0, f_files = 0\<rparr>\<rparr>))) (comps ''/d'') \<noteq> None"
proof -
  let ?s = "\<lparr>names = [([], 0)],
      inodes = [0 \<mapsto> \<lparr>i_dir = True, i_perm = 0, i_data = [], i_mtime = 0\<rparr>],
      nextino = 1, fds = [], errno = 0, env = [], now = 0,
      vfs = \<lparr>f_bsize = 0, f_blocks = 0, f_bfree = 0, f_files = 0\<rparr>\<rparr> :: os"
  have d: "dirname ''/d/a'' = ''/d''" "comps ''/d'' = [''d'']" by code_simp+
  have "make_parent_dir (Suc (Suc 0)) ''/d/a'' ?s =
      Some (0, new_file [''d''] True 0x1A4 (?s\<lparr>errno := ENOENT\<rparr>))"
    by (simp add: sys_malloc_def sys_stat_def sys_mkdir_normal node_at_def fail_with_def
        missing_errno_def dir_at_def d)
  from make_parent_dir_parent_exists [OF this] this show ?thesis by (simp add: d)
qed

section \<open>Small helpers\<close>

definition isWriteMode :: "32 word \<Rightarrow> bool" where
  "isWriteMode flags \<longleftrightarrow>
     and flags (or O_RDWR (or O_WRONLY (or O_CREAT (or O_TRUNC O_APPEND)))) \<noteq> 0"

definition intstr_length :: "64 word \<Rightarrow> nat option" where
  \<comment> \<open>\<^verbatim>\<open>char tmpstr[21]; sprintf(tmpstr, "%llu", i)\<close>\<close>
  "intstr_length i = do {
     tmpstr \<leftarrow> mem_strcpy 0 (dec (unat i)) (replicate 21 (CHR 0xFF));
     t \<leftarrow> mem_str tmpstr 0;
     Some (length t) }"

definition check_file_flag :: "string \<Rightarrow> 32 word \<Rightarrow> os \<Rightarrow> int \<times> os" where
  "check_file_flag filename flag s =
     (if flag \<noteq> O_RDONLY \<and> flag \<noteq> or O_WRONLY O_APPEND then (-1, s)
      else (case sys_open filename flag 0 s of
          (fd, s1) \<Rightarrow> if fd = -1 then (-1, s1) else (0, snd (sys_close fd s1))))"

definition is_file_read_only :: "string \<Rightarrow> 32 word \<Rightarrow> os \<Rightarrow> bool option \<times> os" where
  \<comment> \<open>\<open>None\<close>: the process exits\<close>
  "is_file_read_only filename flags s =
     (case sys_open filename flags 0x1A4 s of
        (fd, s1) \<Rightarrow>
          if fd = -1 then (None, s1)
          else (let access_mode = and flags O_ACCMODE
                in (Some (access_mode = O_RDONLY \<or> access_mode = O_APPEND),
                    snd (sys_close fd s1))))"

text \<open>The 21 bytes of \<open>intstr_length\<close> hold every 64-bit number.\<close>

lemma intstr_length_correct: "intstr_length i = Some (length (dec (unat i)))"
proof -
  have "unat i < 2 ^ LENGTH(64)" by (rule unsigned_less)
  then have "unat i < 10 ^ Suc 19" by simp
  then have l: "length (dec (unat i)) \<le> 20" using length_dec [of "unat i" 19] by simp
  then have w: "mem_strcpy 0 (dec (unat i)) (replicate 21 (CHR 0xFF))
      = Some (dec (unat i) @ NUL # replicate (20 - length (dec (unat i))) (CHR 0xFF))"
    by (simp add: mem_strcpy_def mem_write_def)
  have "mem_str (dec (unat i) @ NUL # replicate (20 - length (dec (unat i))) (CHR 0xFF)) 0
      = Some (dec (unat i))"
    using mem_str_terminated [of "[]" 0 "dec (unat i)"] by simp
  with w show ?thesis by (simp add: intstr_length_def)
qed

end
