(* ===== verification/Hdf5.thy ===== *)
theory Hdf5
  imports Common
begin

text \<open>
  The HDF5 wrappers of \<^verbatim>\<open>src/dzfile-intern.cc\<close>: \<open>hdf5_open\<close>, \<open>hdf5_close\<close>,
  \<open>hdf5_writestr\<close>, \<open>hdf5_readstr\<close>, \<open>hdf5_writedata\<close>, \<open>hdf5_readdata\<close>.

  The HDF5 library is not part of the repository. Its calls are the fields of \<open>hdf5_lib\<close>, over
  the operating system and a library state of an arbitrary type \<open>'h\<close>; what is documented of
  them is \<open>hdf5_contract\<close>. Three groups of calls are one field each, because the code looks at
  the last result only:
  \<^item> \<open>H5Dput\<close> is \<^verbatim>\<open>H5Screate; H5Tcopy; H5Tset_size; H5Dcreate; H5Dwrite\<close> of a scalar
    dataset of fixed-size string type, with the value that \<^verbatim>\<open>H5Dwrite\<close> returns;
  \<^item> \<open>H5Dsize\<close> is \<^verbatim>\<open>H5Tget_size(H5Dget_type(dataset))\<close>, \<open>H5Dread\<close> is \<^verbatim>\<open>H5Dread\<close>; both take
    the file and the name instead of the identifier that \<open>H5Dopen\<close> returned for them.
  The identifiers of datatypes and dataspaces, closed on success and leaked on errors, are not
  modelled. The descriptors that the library opens for itself are not in the table \<open>fds\<close>.
\<close>

record 'h hdf5_lib =
  H5Fopen :: "string \<Rightarrow> os \<Rightarrow> 'h \<Rightarrow> int \<times> os \<times> 'h"
  H5Fcreate :: "string \<Rightarrow> os \<Rightarrow> 'h \<Rightarrow> int \<times> os \<times> 'h"
  H5Fclose :: "int \<Rightarrow> os \<Rightarrow> 'h \<Rightarrow> int \<times> os \<times> 'h"
  H5Dput :: "int \<Rightarrow> string \<Rightarrow> bytes \<Rightarrow> os \<Rightarrow> 'h \<Rightarrow> int \<times> os \<times> 'h"
  H5Dopen :: "int \<Rightarrow> string \<Rightarrow> os \<Rightarrow> 'h \<Rightarrow> int"
  H5Dsize :: "int \<Rightarrow> string \<Rightarrow> os \<Rightarrow> 'h \<Rightarrow> nat"
  H5Dread :: "int \<Rightarrow> string \<Rightarrow> os \<Rightarrow> 'h \<Rightarrow> int \<times> bytes"

type_synonym 'h st = "os \<times> 'h"

definition bytes_of_string :: "string \<Rightarrow> bytes" where
  "bytes_of_string = map of_char"

definition string_of_bytes :: "bytes \<Rightarrow> string" where
  "string_of_bytes = map (\<lambda>b. char_of (unat b))"

lemma string_of_bytes_of_string [simp]: "string_of_bytes (bytes_of_string s) = s"
proof (induction s)
  case Nil
  then show ?case by (simp add: string_of_bytes_def bytes_of_string_def)
next
  case (Cons c s)
  have "(of_char c :: nat) < 256" by (rule nat_of_char_less_256)
  then have "unat (of_nat (of_char c) :: byte) = of_char c"
    by (simp add: unat_of_nat take_bit_eq_mod)
  then have "unat (of_char c :: byte) = of_char c" by (simp only: of_nat_of_char)
  with Cons show ?case by (simp add: string_of_bytes_def bytes_of_string_def)
qed

lemma length_bytes_of_string [simp]: "length (bytes_of_string s) = length s"
  by (simp add: bytes_of_string_def)

datatype h5flag = H5_READ | H5_WRITE

abbreviation (input) H5_BUFSIZE :: nat where "H5_BUFSIZE \<equiv> 4194304"
abbreviation (input) ZIP_VERSION :: nat where "ZIP_VERSION \<equiv> 1024"

section \<open>The wrappers\<close>

definition hdf5_open :: "'h hdf5_lib \<Rightarrow> string option \<Rightarrow> h5flag \<Rightarrow> 'h st \<Rightarrow> int \<times> 'h st" where
  "hdf5_open H path flag w =
     (case path of
        None \<Rightarrow> (-1, w)
      | Some p \<Rightarrow>
          (case (case flag of H5_READ \<Rightarrow> H5Fopen H p (fst w) (snd w)
                            | H5_WRITE \<Rightarrow> H5Fcreate H p (fst w) (snd w)) of
             (h5fd, w1) \<Rightarrow> if h5fd \<le> 0 then (-1, w1) else (h5fd, w1)))"

definition hdf5_close :: "'h hdf5_lib \<Rightarrow> int \<Rightarrow> 'h st \<Rightarrow> int \<times> 'h st" where
  "hdf5_close H h5fd w = H5Fclose H h5fd (fst w) (snd w)"

definition hdf5_writestr ::
    "'h hdf5_lib \<Rightarrow> int \<Rightarrow> string option \<Rightarrow> string option \<Rightarrow> 'h st \<Rightarrow> int \<times> 'h st" where
  "hdf5_writestr H h5fd dataset_name inputstr w =
     (case (dataset_name, inputstr) of
        (Some name, Some str) \<Rightarrow>
          if h5fd \<le> 0 then (-1, w)
          else (case H5Dput H h5fd name (bytes_of_string str) (fst w) (snd w) of
              (ret, w1) \<Rightarrow> if ret < 0 then (-1, w1) else (ret, w1))
      | _ \<Rightarrow> (-1, w))"

definition hdf5_readstr ::
    "'h hdf5_lib \<Rightarrow> int \<Rightarrow> string option \<Rightarrow> nat \<Rightarrow> 'h st \<Rightarrow> string option \<times> 'h st" where
  \<comment> \<open>the result of \<^verbatim>\<open>H5Dopen2\<close> is not checked; the buffer holds \<open>len\<close> bytes and a null byte\<close>
  "hdf5_readstr H h5fd dataset_name str_len w =
     (case dataset_name of
        None \<Rightarrow> (None, w)
      | Some name \<Rightarrow>
          if h5fd \<le> 0 \<or> str_len < 1 then (None, w)
          else (let len = H5Dsize H h5fd name (fst w) (snd w) in
            if len \<ge> str_len then (None, w)
            else (case sys_malloc (fst w) of
                (False, s1) \<Rightarrow> (None, (s1, snd w))
              | (True, s1) \<Rightarrow>
                  (case H5Dread H h5fd name s1 (snd w) of
                     (ret, data) \<Rightarrow>
                       if ret < 0 then (None, (s1, snd w))
                       else (Some (takeWhile (\<lambda>c. c \<noteq> NUL) (string_of_bytes (take len data))),
                             (s1, snd w))))))"

definition hdf5_writedata ::
    "'h hdf5_lib \<Rightarrow> int \<Rightarrow> string option \<Rightarrow> bytes option \<Rightarrow> nat \<Rightarrow> 'h st \<Rightarrow> int \<times> 'h st" where
  "hdf5_writedata H h5fd dataset_name data datalen w =
     (case (dataset_name, data) of
        (Some name, Some d) \<Rightarrow>
          if h5fd \<le> 0 then (-1, w)
          else (case H5Dput H h5fd name (take datalen d) (fst w) (snd w) of
              (ret, w1) \<Rightarrow> if ret < 0 then (-1, w1) else (0, w1))
      | _ \<Rightarrow> (-1, w))"

definition hdf5_readdata ::
    "'h hdf5_lib \<Rightarrow> int \<Rightarrow> string \<Rightarrow> nat \<Rightarrow> 'h st \<Rightarrow> int \<times> bytes" where
  \<comment> \<open>the return value, and the bytes put into the buffer\<close>
  "hdf5_readdata H h5fd dataset_name buflen w =
     (if h5fd \<le> 0 then (-1, [])
      else if H5Dopen H h5fd dataset_name (fst w) (snd w) < 0 then (-1, [])
      else (let len = H5Dsize H h5fd dataset_name (fst w) (snd w) in
        if len \<ge> buflen then (-1, [])
        else (case H5Dread H h5fd dataset_name (fst w) (snd w) of
            (bytes_read, data) \<Rightarrow>
              if bytes_read < 0 then (-1, []) else (int len, data))))"

section \<open>What is documented of the library\<close>

text \<open>
  The contract is stated over two views of the library: \<open>hf h fd\<close> is the inode that an open
  file identifier refers to, \<open>hdat s h i\<close> the datasets of the HDF5 file in an inode.
\<close>

definition touches :: "nat \<Rightarrow> os \<Rightarrow> os \<Rightarrow> bool" where
  \<comment> \<open>at most the contents of inode \<open>i\<close> have changed\<close>
  "touches i s s' \<longleftrightarrow>
     names s' = names s \<and> fds s' = fds s \<and> now s' = now s \<and> vfs s' = vfs s \<and>
     nextino s' = nextino s \<and>
     (\<forall>k. k \<noteq> i \<longrightarrow> inodes s' k = inodes s k) \<and>
     (\<forall>n. inodes s i = Some n \<longrightarrow> (\<exists>d m. inodes s' i = Some (n\<lparr>i_data := d, i_mtime := m\<rparr>))) \<and>
     length (env s') \<le> length (env s)"

lemma inode_self: "\<exists>d m. n = n\<lparr>i_data := d, i_mtime := m\<rparr>"
  by (rule exI [of _ "i_data n"], rule exI [of _ "i_mtime n"]) simp

definition creates :: "string list \<Rightarrow> nat \<Rightarrow> os \<Rightarrow> os \<Rightarrow> bool" where
  \<comment> \<open>the name \<open>cs\<close> now resolves to the regular file \<open>i\<close>, new unless the name resolved before\<close>
  "creates cs i s s' \<longleftrightarrow>
     (\<forall>q. map_of (names s') q = (if q = cs then Some i else map_of (names s) q)) \<and>
     (\<exists>n. inodes s' i = Some n \<and> \<not> i_dir n) \<and>
     (\<forall>k. k \<noteq> i \<longrightarrow> inodes s' k = inodes s k) \<and>
     (if node_at s cs = None then inodes s i = None else \<exists>n. node_at s cs = Some (i, n) \<and> \<not> i_dir n) \<and>
     fds s' = fds s \<and> now s' = now s \<and> vfs s' = vfs s \<and>
     length (env s') \<le> length (env s)"

definition spares :: "string list \<Rightarrow> os \<Rightarrow> os \<Rightarrow> bool" where
  \<comment> \<open>what a failed creation of \<open>cs\<close> leaves alone\<close>
  "spares cs s s' \<longleftrightarrow>
     (\<forall>q. q \<noteq> cs \<longrightarrow> map_of (names s') q = map_of (names s) q) \<and>
     (case map_of (names s') cs of
        None \<Rightarrow> True
      | Some i \<Rightarrow> map_of (names s) cs = Some i \<or> inodes s i = None \<and> (\<exists>n. inodes s' i = Some n \<and> \<not> i_dir n)) \<and>
     (\<forall>k n. inodes s k = Some n \<longrightarrow> (\<exists>d m. inodes s' k = Some (n\<lparr>i_data := d, i_mtime := m\<rparr>))) \<and>
     (\<forall>k n. inodes s k = Some n \<longrightarrow> \<not> (\<exists>m. node_at s cs = Some (k, m)) \<longrightarrow> inodes s' k = Some n) \<and>
     fds s' = fds s \<and> now s' = now s \<and> vfs s' = vfs s \<and>
     length (env s') \<le> length (env s)"

type_synonym 'h h5files = "'h \<Rightarrow> int \<Rightarrow> nat option"
type_synonym 'h h5data = "os \<Rightarrow> 'h \<Rightarrow> nat \<Rightarrow> string \<Rightarrow> bytes option"

definition h5_create_law :: "'h hdf5_lib \<Rightarrow> 'h h5files \<Rightarrow> 'h h5data \<Rightarrow> bool" where
  "h5_create_law H hf hdat \<longleftrightarrow>
     (\<forall>p s h fd s' h'. H5Fcreate H p s h = (fd, s', h') \<longrightarrow>
        (if 0 < fd
         then \<exists>i. creates (comps p) i s s' \<and> hf h fd = None \<and> hf h' = (hf h)(fd \<mapsto> i) \<and>
                hdat s' h' i = Map.empty \<and>
                (\<forall>k. k \<noteq> i \<longrightarrow> hdat s' h' k = hdat s h k)
         else spares (comps p) s s' \<and> hf h' = hf h \<and>
                (\<forall>k. inodes s k \<noteq> None \<longrightarrow> (\<forall>m. node_at s (comps p) \<noteq> Some (k, m)) \<longrightarrow>
                   hdat s' h' k = hdat s h k)))"

definition h5_open_law :: "'h hdf5_lib \<Rightarrow> 'h h5files \<Rightarrow> 'h h5data \<Rightarrow> bool" where
  "h5_open_law H hf hdat \<longleftrightarrow>
     (\<forall>p s h fd s' h'. H5Fopen H p s h = (fd, s', h') \<longrightarrow>
        quiet s s' \<and> (\<forall>k. hdat s' h' k = hdat s h k) \<and>
        (if 0 < fd
         then hf h fd = None \<and> (\<exists>i n. node_at s (comps p) = Some (i, n) \<and> hf h' = (hf h)(fd \<mapsto> i))
         else hf h' = hf h))"

definition h5_put_law :: "'h hdf5_lib \<Rightarrow> 'h h5files \<Rightarrow> 'h h5data \<Rightarrow> bool" where
  "h5_put_law H hf hdat \<longleftrightarrow>
     (\<forall>fd name bs s h r s' h' i. H5Dput H fd name bs s h = (r, s', h') \<longrightarrow> hf h fd = Some i \<longrightarrow>
        touches i s s' \<and> hf h' = hf h \<and> (\<forall>k. k \<noteq> i \<longrightarrow> hdat s' h' k = hdat s h k) \<and>
        (0 \<le> r \<longrightarrow> hdat s' h' i = (hdat s h i)(name \<mapsto> bs)))"

definition h5_close_law :: "'h hdf5_lib \<Rightarrow> 'h h5files \<Rightarrow> 'h h5data \<Rightarrow> bool" where
  \<comment> \<open>a failed close says nothing about the datasets of the file, nor whether it is still open;
    without a failing call of the system, the close of an open file succeeds\<close>
  "h5_close_law H hf hdat \<longleftrightarrow>
     (\<forall>fd s h r s' h'. H5Fclose H fd s h = (r, s', h') \<longrightarrow>
        (case hf h fd of None \<Rightarrow> quiet s s' | Some i \<Rightarrow> touches i s s') \<and>
        (\<forall>x. x \<noteq> fd \<longrightarrow> hf h' x = hf h x) \<and> hf h' fd \<in> {None, hf h fd} \<and>
        (0 \<le> r \<longrightarrow> hf h' fd = None) \<and>
        (\<forall>k. 0 \<le> r \<or> hf h fd \<noteq> Some k \<longrightarrow> hdat s' h' k = hdat s h k) \<and>
        (env s = [] \<longrightarrow> hf h fd \<noteq> None \<longrightarrow> 0 \<le> r))"

lemma h5_close_lawD:
  assumes "h5_close_law H hf hdat" "H5Fclose H fd s h = (r, s', h')"
  shows "case hf h fd of None \<Rightarrow> quiet s s' | Some i \<Rightarrow> touches i s s'"
    and "x \<noteq> fd \<Longrightarrow> hf h' x = hf h x" and "hf h' fd \<in> {None, hf h fd}"
    and "0 \<le> r \<or> hf h fd \<noteq> Some k \<Longrightarrow> hdat s' h' k = hdat s h k"
    and "env s = [] \<Longrightarrow> hdat s' h' k = hdat s h k"
    and "env s = [] \<Longrightarrow> hf h' = (hf h)(fd := None)"
proof -
  note law = assms(1) [unfolded h5_close_law_def, rule_format, OF assms(2)]
  then show "case hf h fd of None \<Rightarrow> quiet s s' | Some i \<Rightarrow> touches i s s'"
    "x \<noteq> fd \<Longrightarrow> hf h' x = hf h x" "hf h' fd \<in> {None, hf h fd}"
    "0 \<le> r \<or> hf h fd \<noteq> Some k \<Longrightarrow> hdat s' h' k = hdat s h k" by blast+
  show "hdat s' h' k = hdat s h k" if "env s = []" using law that by (cases "hf h fd = Some k") blast+
  show "hf h' = (hf h)(fd := None)" if "env s = []"
    using law that by (cases "hf h fd") (auto simp: fun_eq_iff)
qed

definition h5_read_law :: "'h hdf5_lib \<Rightarrow> 'h h5files \<Rightarrow> 'h h5data \<Rightarrow> bool" where
  "h5_read_law H hf hdat \<longleftrightarrow>
     (\<forall>fd name s h i. hf h fd = Some i \<longrightarrow> env s = [] \<longrightarrow>
        (case hdat s h i name of
           None \<Rightarrow> H5Dopen H fd name s h < 0 \<and> fst (H5Dread H fd name s h) < 0
         | Some bs \<Rightarrow> 0 \<le> H5Dopen H fd name s h \<and> H5Dsize H fd name s h = length bs \<and>
             (\<exists>r \<ge> 0. H5Dread H fd name s h = (r, bs))))"

definition h5_frame_law :: "'h h5data \<Rightarrow> bool" where
  \<comment> \<open>the datasets depend on the bytes of the file and the library only\<close>
  "h5_frame_law hdat \<longleftrightarrow>
     (\<forall>s s' h i. map_option i_data (inodes s i) = map_option i_data (inodes s' i) \<longrightarrow>
        hdat s h i = hdat s' h i)"

definition hdf5_contract :: "'h hdf5_lib \<Rightarrow> 'h h5files \<Rightarrow> 'h h5data \<Rightarrow> bool" where
  "hdf5_contract H hf hdat \<longleftrightarrow>
     h5_create_law H hf hdat \<and> h5_open_law H hf hdat \<and> h5_put_law H hf hdat \<and>
     h5_close_law H hf hdat \<and> h5_read_law H hf hdat \<and> h5_frame_law hdat"

end
