(* ===== verification/SimLibs.thy ===== *)
theory SimLibs
  imports Codec Hdf5
begin

text \<open>
  Instances of the two libraries that the model leaves as parameters, with proofs that they meet
  the contracts: a store of datasets for HDF5, and a codec that shortens blocks of zeros and
  frames all others. Nothing of the repository is modelled here; the witnesses of the
  properties evaluate on these instances.
\<close>

section \<open>A codec\<close>

definition zeros :: "bytes \<Rightarrow> bool" where
  "zeros d \<longleftrightarrow> (\<forall>b\<in>set d. b = 0)"

definition sim_frame :: "bytes \<Rightarrow> bytes" where
  "sim_frame d = (if zeros d then 0xFE # bytes_of_string (dec (length d)) else 0xFD # d)"

definition sim_content :: "bytes \<Rightarrow> bytes" where
  "sim_content z =
     (case z of
        [] \<Rightarrow> []
      | b # r \<Rightarrow> if b = 0xFE then replicate (undec (string_of_bytes r)) 0 else r)"

definition sim_codec :: codec_lib where
  "sim_codec =
     \<lparr>zlibVersion = ''1.2.11'',
      zlib_compressBound = (\<lambda>n. n + 13),
      zlib_compress = (\<lambda>cap d. if length (sim_frame d) \<le> cap then (Z_OK, sim_frame d) else (Z_BUF_ERROR, [])),
      zlib_uncompress = (\<lambda>cap z. if length (sim_content z) \<le> cap then (Z_OK, sim_content z)
                                else (Z_BUF_ERROR, [])),
      ZSTD_versionString = ''1.4.5'',
      ZSTD_compressBound = (\<lambda>n. n + n div 256 + (if n < 131072 then (131072 - n) div 2048 else 0)),
      ZSTD_compress = (\<lambda>cap d lvl. if length (sim_frame d) \<le> cap \<and> length (sim_frame d) < 2 ^ 63
                        then (of_nat (length (sim_frame d)), sim_frame d) else (-1, [])),
      ZSTD_isError = (\<lambda>c. -120 < c),
      ZSTD_getFrameContentSize = (\<lambda>z. of_nat (length (sim_content z))),
      ZSTD_decompress = (\<lambda>cap z. if length (sim_content z) \<le> cap
                        then (of_nat (length (sim_content z)), sim_content z) else (-1, []))\<rparr>"

lemma sim_codec_simps:
  "ZSTD_versionString sim_codec = ''1.4.5''"
  "ZSTD_compressBound sim_codec n = n + n div 256 + (if n < 131072 then (131072 - n) div 2048 else 0)"
  "ZSTD_compress sim_codec cap d lvl = (if length (sim_frame d) \<le> cap \<and> length (sim_frame d) < 2 ^ 63
     then (of_nat (length (sim_frame d)), sim_frame d) else (-1, []))"
  "ZSTD_isError sim_codec c \<longleftrightarrow> -120 < c"
  "ZSTD_getFrameContentSize sim_codec z = of_nat (length (sim_content z))"
  "ZSTD_decompress sim_codec cap z = (if length (sim_content z) \<le> cap
     then (of_nat (length (sim_content z)), sim_content z) else (-1, []))"
  by (simp_all add: sim_codec_def)

lemma zeros_replicate: "zeros d \<Longrightarrow> replicate (length d) 0 = d"
  by (simp add: zeros_def replicate_length_same)

lemma sim_content_frame [simp]: "sim_content (sim_frame d) = d"
  by (simp add: sim_content_def sim_frame_def zeros_replicate)

lemma sim_frame_neq_Nil [simp]: "sim_frame d \<noteq> []"
  by (simp add: sim_frame_def)

lemma sim_codec_zstd: "zstd_contract sim_codec"
proof -
  have "unat (of_nat n :: 64 word) = n" if "n < 2 ^ 63" for n
    using that by (simp add: unat_of_nat take_bit_nat_eq_self)
  then show ?thesis
    by (auto simp: zstd_contract_def sim_codec_def split: if_splits)
qed

lemma sim_codec_zlib: "zlib_contract sim_codec"
  by (auto simp: zlib_contract_def sim_codec_def split: if_splits)

lemma sim_codec_frame: "length d < 2 ^ 63 \<Longrightarrow> frame_of sim_codec (sim_frame d) d"
  by (simp add: frame_of_def sim_codec_def)

section \<open>A store of datasets\<close>

record h5sim =
  h5_ids :: "(int \<times> nat) list"
  h5_sets :: "nat \<Rightarrow> string \<Rightarrow> bytes option"

definition fresh_id :: "(int \<times> nat) list \<Rightarrow> int" where
  "fresh_id t = 1 + fold max (map fst t) 0"

definition sim_create :: "nat \<Rightarrow> os \<Rightarrow> h5sim \<Rightarrow> int \<times> os \<times> h5sim" where
  "sim_create i s h =
     (fresh_id (h5_ids h), s,
      \<lparr>h5_ids = (fresh_id (h5_ids h), i) # h5_ids h, h5_sets = (h5_sets h)(i := Map.empty)\<rparr>)"

definition sim_hdf5 :: "h5sim hdf5_lib" where
  "sim_hdf5 =
     \<lparr>H5Fopen = (\<lambda>p s h. case node_at s (comps p) of
          None \<Rightarrow> (-1, s, h)
        | Some (i, n) \<Rightarrow>
            (fresh_id (h5_ids h), s, h\<lparr>h5_ids := (fresh_id (h5_ids h), i) # h5_ids h\<rparr>)),
      H5Fcreate = (\<lambda>p s h. case node_at s (comps p) of
          Some (i, n) \<Rightarrow> if i_dir n then (-1, s, h) else sim_create i (set_data i n [] s) h
        | None \<Rightarrow>
            if dir_at s (butlast (comps p)) \<and> inodes s (nextino s) = None
            then sim_create (nextino s) (new_file (comps p) False 0x1A4 s) h else (-1, s, h)),
      H5Fclose = (\<lambda>fd s h.
          (if map_of (h5_ids h) fd = None then -1 else 0, s,
           h\<lparr>h5_ids := AList.delete fd (h5_ids h)\<rparr>)),
      H5Dput = (\<lambda>fd name bs s h. case map_of (h5_ids h) fd of
          None \<Rightarrow> (-1, s, h)
        | Some i \<Rightarrow> if h5_sets h i name \<noteq> None then (-1, s, h)
            else (0, s, h\<lparr>h5_sets := (h5_sets h)(i := (h5_sets h i)(name \<mapsto> bs))\<rparr>)),
      H5Dopen = (\<lambda>fd name s h. case map_of (h5_ids h) fd of
          None \<Rightarrow> -1 | Some i \<Rightarrow> if h5_sets h i name = None then -1 else 1),
      H5Dsize = (\<lambda>fd name s h. case map_of (h5_ids h) fd of
          None \<Rightarrow> 0 | Some i \<Rightarrow> case h5_sets h i name of None \<Rightarrow> 0 | Some d \<Rightarrow> length d),
      H5Dread = (\<lambda>fd name s h. case map_of (h5_ids h) fd of
          None \<Rightarrow> (-1, [])
        | Some i \<Rightarrow> case h5_sets h i name of None \<Rightarrow> (-1, []) | Some d \<Rightarrow> (0, d))\<rparr>"

lemma sim_hdf5_simps:
  "H5Fopen sim_hdf5 p s h = (case node_at s (comps p) of
          None \<Rightarrow> (-1, s, h)
        | Some (i, n) \<Rightarrow>
            (fresh_id (h5_ids h), s, h\<lparr>h5_ids := (fresh_id (h5_ids h), i) # h5_ids h\<rparr>))"
  "H5Fcreate sim_hdf5 p s h = (case node_at s (comps p) of
          Some (i, n) \<Rightarrow> if i_dir n then (-1, s, h) else sim_create i (set_data i n [] s) h
        | None \<Rightarrow>
            if dir_at s (butlast (comps p)) \<and> inodes s (nextino s) = None
            then sim_create (nextino s) (new_file (comps p) False 0x1A4 s) h else (-1, s, h))"
  "H5Fclose sim_hdf5 fd s h =
     (if map_of (h5_ids h) fd = None then -1 else 0, s, h\<lparr>h5_ids := AList.delete fd (h5_ids h)\<rparr>)"
  "H5Dput sim_hdf5 fd name bs s h = (case map_of (h5_ids h) fd of
          None \<Rightarrow> (-1, s, h)
        | Some i \<Rightarrow> if h5_sets h i name \<noteq> None then (-1, s, h)
            else (0, s, h\<lparr>h5_sets := (h5_sets h)(i := (h5_sets h i)(name \<mapsto> bs))\<rparr>))"
  "H5Dopen sim_hdf5 fd name s h = (case map_of (h5_ids h) fd of
          None \<Rightarrow> -1 | Some i \<Rightarrow> if h5_sets h i name = None then -1 else 1)"
  "H5Dsize sim_hdf5 fd name s h = (case map_of (h5_ids h) fd of
          None \<Rightarrow> 0 | Some i \<Rightarrow> case h5_sets h i name of None \<Rightarrow> 0 | Some d \<Rightarrow> length d)"
  "H5Dread sim_hdf5 fd name s h = (case map_of (h5_ids h) fd of
          None \<Rightarrow> (-1, [])
        | Some i \<Rightarrow> case h5_sets h i name of None \<Rightarrow> (-1, []) | Some d \<Rightarrow> (0, d))"
  by (simp_all add: sim_hdf5_def)

abbreviation (input) sim_files :: "h5sim h5files" where
  "sim_files h \<equiv> map_of (h5_ids h)"

abbreviation (input) sim_data :: "h5sim h5data" where
  "sim_data s h \<equiv> h5_sets h"

lemma le_fold_max: "m \<le> fold max xs (m::int) \<and> (\<forall>x\<in>set xs. x \<le> fold max xs m)"
proof (induction xs arbitrary: m)
  case Nil
  then show ?case by simp
next
  case (Cons a xs)
  have "m \<le> max a m" "a \<le> max a m" by simp_all
  with Cons [of "max a m"] show ?case by (auto intro: order_trans)
qed

lemma fresh_id_pos: "0 < fresh_id t"
  using le_fold_max [of 0 "map fst t"] by (simp add: fresh_id_def)

lemma fresh_id_new [simp]: "map_of t (fresh_id t) = None"
proof -
  have "fresh_id t \<notin> set (map fst t)"
    using le_fold_max [of 0 "map fst t"] by (auto simp: fresh_id_def)
  then show ?thesis by (simp add: map_of_eq_None_iff)
qed

lemma sim_create_creates:
  "node_at s cs = Some (i, n) \<Longrightarrow> \<not> i_dir n \<Longrightarrow> creates cs i s (set_data i n [] s)"
  "node_at s cs = None \<Longrightarrow> inodes s (nextino s) = None \<Longrightarrow>
    creates cs (nextino s) s (new_file cs False m s)"
  by (auto simp: creates_def set_data_def new_file_def node_at_Some update_conv')

lemma spares_refl: "spares cs s s"
  by (auto simp: spares_def intro: inode_self split: option.split)

lemma touches_refl: "touches i s s"
  by (auto simp: touches_def intro: inode_self)

lemma sim_hdf5_contract: "hdf5_contract sim_hdf5 sim_files sim_data"
  unfolding hdf5_contract_def
proof (intro conjI)
  show "h5_create_law sim_hdf5 sim_files sim_data"
    unfolding h5_create_law_def
    by (auto simp: sim_hdf5_def sim_create_def fresh_id_pos spares_refl fun_eq_iff
        split: option.splits if_splits intro!: sim_create_creates)
  show "h5_open_law sim_hdf5 sim_files sim_data"
    unfolding h5_open_law_def
    by (auto simp: sim_hdf5_def fresh_id_pos fun_eq_iff split: option.splits)
  show "h5_put_law sim_hdf5 sim_files sim_data"
    unfolding h5_put_law_def
    by (auto simp: sim_hdf5_def touches_refl split: if_splits)
  show "h5_close_law sim_hdf5 sim_files sim_data"
    unfolding h5_close_law_def
    by (auto simp: sim_hdf5_def touches_refl delete_conv' split: option.splits)
  show "h5_read_law sim_hdf5 sim_files sim_data"
    unfolding h5_read_law_def
    by (auto simp: sim_hdf5_def split: option.splits)
  show "h5_frame_law sim_data"
    by (simp add: h5_frame_law_def)
qed

text \<open>
  The same library on a disk that may be full: \<^verbatim>\<open>H5Fclose\<close> writes what it has been given, and
  when the system call fails the file is closed and its datasets are lost.
\<close>

definition buffering_hdf5 :: "h5sim hdf5_lib" where
  "buffering_hdf5 = sim_hdf5\<lparr>H5Fclose := (\<lambda>fd s h. case map_of (h5_ids h) fd of
       None \<Rightarrow> (-1, s, h)
     | Some i \<Rightarrow> (case env s of
           Fail e # r \<Rightarrow> (-1, s\<lparr>env := r, errno := e\<rparr>,
             h\<lparr>h5_ids := AList.delete fd (h5_ids h), h5_sets := (h5_sets h)(i := Map.empty)\<rparr>)
         | _ \<Rightarrow> (0, s\<lparr>env := tl (env s)\<rparr>, h\<lparr>h5_ids := AList.delete fd (h5_ids h)\<rparr>)))\<rparr>"

lemma touches_env: "length e \<le> length (env s) \<Longrightarrow> touches i s (s\<lparr>env := e\<rparr>)"
  "length e \<le> length (env s) \<Longrightarrow> touches i s (s\<lparr>env := e, errno := x\<rparr>)"
  by (auto simp: touches_def intro: inode_self)

lemma buffering_close:
  assumes "H5Fclose buffering_hdf5 fd s h = (r, s', h')"
  shows "map_of (h5_ids h) fd = None \<and> r = -1 \<and> s' = s \<and> h' = h \<or>
    (\<exists>i. map_of (h5_ids h) fd = Some i \<and> touches i s s' \<and> h5_ids h' = AList.delete fd (h5_ids h) \<and>
      (r = 0 \<and> h5_sets h' = h5_sets h \<or> r = -1 \<and> env s \<noteq> [] \<and> h5_sets h' = (h5_sets h)(i := Map.empty)))"
  using assms by (auto simp: buffering_hdf5_def touches_env split: option.splits list.splits outcome.splits)

lemma buffering_hdf5_contract: "hdf5_contract buffering_hdf5 sim_files sim_data"
proof -
  have same: "H5Fopen buffering_hdf5 = H5Fopen sim_hdf5" "H5Fcreate buffering_hdf5 = H5Fcreate sim_hdf5"
    "H5Dput buffering_hdf5 = H5Dput sim_hdf5" "H5Dopen buffering_hdf5 = H5Dopen sim_hdf5"
    "H5Dsize buffering_hdf5 = H5Dsize sim_hdf5" "H5Dread buffering_hdf5 = H5Dread sim_hdf5"
    by (simp_all add: buffering_hdf5_def)
  have "h5_create_law buffering_hdf5 sim_files sim_data \<and> h5_open_law buffering_hdf5 sim_files sim_data \<and>
    h5_put_law buffering_hdf5 sim_files sim_data \<and> h5_read_law buffering_hdf5 sim_files sim_data \<and>
    h5_frame_law sim_data"
    using sim_hdf5_contract
    unfolding hdf5_contract_def h5_create_law_def h5_open_law_def h5_put_law_def h5_read_law_def same
    by (elim conjE, intro conjI)
  moreover have "h5_close_law buffering_hdf5 sim_files sim_data"
    unfolding h5_close_law_def
    by (intro allI impI, drule buffering_close) (auto simp: delete_conv' touches_refl split: option.splits)
  ultimately show ?thesis by (simp add: hdf5_contract_def)
qed

section \<open>Evaluation\<close>

lemmas os_eval = sys_stat_def sys_malloc_def sys_open_def sys_close_def sys_read_def sys_rename_def
  sys_truncate_def alloc_fd_def fd_file_def fd_get_def fd_seek_def readable_def node_at_def
  dir_at_def fail_with_def missing_errno_def set_data_def new_file_def stat_of_def

lemmas sim_eval = sim_hdf5_simps sim_codec_simps sim_create_def fresh_id_def sim_frame_def zeros_def

lemma comps_demo:
  "comps ''/f'' = [''f'']" "comps (hidden_name ''/f'') = [''.f.DZF'']"
  "comps (tmp_name (hidden_name ''/f'')) = [''.f.DZF.tmp'']"
  by code_simp+

section \<open>A file system\<close>

definition demo_os :: "bytes \<Rightarrow> os" where
  \<comment> \<open>a root directory with one file, \<^verbatim>\<open>/f\<close>, of the given contents\<close>
  "demo_os d =
     \<lparr>names = [([], 0), ([''f''], 1)],
      inodes = [0 \<mapsto> \<lparr>i_dir = True, i_perm = 0x1ED, i_data = [], i_mtime = 0\<rparr>,
                1 \<mapsto> \<lparr>i_dir = False, i_perm = 0x1A4, i_data = d, i_mtime = 0\<rparr>],
      nextino = 2, fds = [Some \<lparr>of_ino = 0, of_off = 0, of_flags = 0\<rparr>, None], errno = 0, env = [], now = 7,
      vfs = \<lparr>f_bsize = 4096, f_blocks = 1000, f_bfree = 500, f_files = 2\<rparr>\<rparr>"

definition demo_h5 :: h5sim where
  "demo_h5 = \<lparr>h5_ids = [], h5_sets = \<lambda>i. Map.empty\<rparr>"

end
