(* ===== verification/Convert.thy ===== *)
theory Convert
  imports SimLibs
begin

text \<open>
  The conversion of a file into a hidden HDF5 file of compressed blocks: \<open>convert2h5\<close> of
  \<^verbatim>\<open>src/dzfile-intern.cc\<close>. The theorems say, for every behaviour of the environment, that the
  source loses its contents only after the hidden file holds all of them.
\<close>

definition block_name :: "nat \<Rightarrow> string" where
  \<comment> \<open>\<^verbatim>\<open>sprintf(dataset_name, "block%d", n)\<close>\<close>
  "block_name n = ''block'' @ dec n"

lemma block_name_inj [simp]: "block_name m = block_name n \<longleftrightarrow> m = n"
  by (auto simp: block_name_def dest: dec_inj)

lemma block_name_not_algorithm [simp]:
  "block_name n \<noteq> ''algorithm''" "''algorithm'' \<noteq> block_name n"
  by (simp_all add: block_name_def)

section \<open>Conversion\<close>

definition alg_version :: "codec_lib \<Rightarrow> dz_alg \<Rightarrow> string option" where
  "alg_version L m =
     (case m of
        DZ_ALG_ZLIB \<Rightarrow> Some (''zlib '' @ zlibVersion L)
      | DZ_ALG_ZSTD \<Rightarrow> Some (''zstd '' @ ZSTD_versionString L)
      | _ \<Rightarrow> None)"

text \<open>
  The loop over the blocks of the source. The result is \<open>None\<close> in the inner option where the
  loop ends at the end of the file, \<open>Some ret\<close> where it jumps to the label \<^verbatim>\<open>out\<close>. A run out
  of fuel, one unit for each turn, is the outer \<open>None\<close>.
\<close>

fun convert_loop ::
    "'h hdf5_lib \<Rightarrow> codec_lib \<Rightarrow> dz_alg \<Rightarrow> int \<Rightarrow> int \<Rightarrow> nat \<Rightarrow> nat \<Rightarrow> 'h st \<Rightarrow> (int option \<times> 'h st) option"
where
  "convert_loop H L method srcfd h5fd 0 count w = None"
| "convert_loop H L method srcfd h5fd (Suc fuel) count w =
     (case sys_read srcfd H5_BUFSIZE (fst w) of
        ((nbread, buffer), s1) \<Rightarrow>
          if nbread = 0 then Some (None, (s1, snd w))
          else if nbread < 0 then Some (Some (-1), (s1, snd w))
          else (case compress_data L method uninit_out buffer s1 of
              ((ret, out), s2) \<Rightarrow>
                if ret < 0 then Some (Some ret, (s2, snd w))
                else (case hdf5_writedata H h5fd (Some (block_name count)) (dstdata out)
                             (case dstlen out of None \<Rightarrow> 0 | Some n \<Rightarrow> nat n) (s2, snd w) of
                    (ret, w3) \<Rightarrow>
                      if ret < 0 then Some (Some ret, w3)
                      else convert_loop H L method srcfd h5fd fuel (Suc count) w3)))"

text \<open>One turn of the loop: \<open>None\<close> where it goes on with the next block, otherwise the result of the loop.\<close>

definition convert_turn ::
    "'h hdf5_lib \<Rightarrow> codec_lib \<Rightarrow> dz_alg \<Rightarrow> int \<Rightarrow> int \<Rightarrow> nat \<Rightarrow> 'h st \<Rightarrow> int option option \<times> 'h st"
where
  "convert_turn H L method srcfd h5fd count w =
     (case sys_read srcfd H5_BUFSIZE (fst w) of
        ((nbread, buffer), s1) \<Rightarrow>
          if nbread = 0 then (Some None, (s1, snd w))
          else if nbread < 0 then (Some (Some (-1)), (s1, snd w))
          else (case compress_data L method uninit_out buffer s1 of
              ((ret, out), s2) \<Rightarrow>
                if ret < 0 then (Some (Some ret), (s2, snd w))
                else (case hdf5_writedata H h5fd (Some (block_name count)) (dstdata out)
                             (case dstlen out of None \<Rightarrow> 0 | Some n \<Rightarrow> nat n) (s2, snd w) of
                    (ret, w3) \<Rightarrow> (if ret < 0 then Some (Some ret) else None, w3))))"

lemma convert_loop_turn:
  "convert_loop H L method srcfd h5fd (Suc fuel) count w =
     (case convert_turn H L method srcfd h5fd count w of
        (Some jump, w') \<Rightarrow> Some (jump, w')
      | (None, w') \<Rightarrow> convert_loop H L method srcfd h5fd fuel (Suc count) w')"
  by (simp add: convert_turn_def split: prod.split)

text \<open>The label \<^verbatim>\<open>out\<close>: whatever the two variables hold, positive values are closed.\<close>

definition convert_out :: "'h hdf5_lib \<Rightarrow> int \<Rightarrow> int \<Rightarrow> int \<Rightarrow> 'h st \<Rightarrow> int \<times> 'h st" where
  "convert_out H srcfd h5fd ret w =
     (let w1 = (if 0 < srcfd then (snd (sys_close srcfd (fst w)), snd w) else w);
          w2 = (if 0 < h5fd then snd (H5Fclose H h5fd (fst w1) (snd w1)) else w1)
      in (ret, w2))"

text \<open>From the rename on.\<close>

definition convert_finish :: "string \<Rightarrow> string \<Rightarrow> string \<Rightarrow> os \<Rightarrow> int \<times> os" where
  "convert_finish path tmp_h5name h5name s =
     (case sys_rename tmp_h5name h5name s of
        (ret, s1) \<Rightarrow>
          if ret < 0 then (ret, s1)
          else (case sys_stat path s1 of
              (None, s2) \<Rightarrow> (-1, s2)
            | (Some stbuf, s2) \<Rightarrow>
                (case sys_truncate path 0 s2 of
                   (ret, s3) \<Rightarrow>
                     if ret < 0 then (ret, s3) else sys_truncate path (st_size stbuf) s3)))"

text \<open>With both files open: the algorithm's name, the blocks, the rename and the truncations.\<close>

definition convert_write ::
    "'h hdf5_lib \<Rightarrow> codec_lib \<Rightarrow> nat \<Rightarrow> string \<Rightarrow> dz_alg \<Rightarrow> string \<Rightarrow> string \<Rightarrow> int \<Rightarrow> int \<Rightarrow> 'h st
      \<Rightarrow> (int \<times> 'h st) option" where
  "convert_write H L fuel path method h5name tmp_h5name srcfd h5fd w =
     (case (case alg_version L method of
              None \<Rightarrow> (-1, w)
            | Some version \<Rightarrow> hdf5_writestr H h5fd (Some ''algorithm'') (Some version) w) of
        (ret, w1) \<Rightarrow>
          if ret < 0 then Some (convert_out H srcfd h5fd ret w1)
          else (case convert_loop H L method srcfd h5fd fuel 0 w1 of
              None \<Rightarrow> None
            | Some (Some ret, w2) \<Rightarrow> Some (convert_out H srcfd h5fd ret w2)
            | Some (None, w2) \<Rightarrow>
                (case convert_finish path tmp_h5name h5name (fst w2) of
                   (ret, s3) \<Rightarrow> Some (convert_out H srcfd h5fd ret (s3, snd w2)))))"

text \<open>Opening the source and the temporary file.\<close>

definition convert_open ::
    "'h hdf5_lib \<Rightarrow> codec_lib \<Rightarrow> int \<Rightarrow> nat \<Rightarrow> string \<Rightarrow> dz_alg \<Rightarrow> string \<Rightarrow> string \<Rightarrow> 'h st
      \<Rightarrow> (int \<times> 'h st) option" where
  "convert_open H L junk_h5 fuel path method h5name tmp_h5name w =
     (case sys_open path O_RDONLY 0 (fst w) of
        (srcfd, s1) \<Rightarrow>
          if srcfd < 0 then Some (convert_out H srcfd junk_h5 (-1) (s1, snd w))
          else (case hdf5_open H (Some tmp_h5name) H5_WRITE (s1, snd w) of
              (h5fd, w2) \<Rightarrow>
                if h5fd < 0 then Some (convert_out H srcfd h5fd (-1) w2)
                else convert_write H L fuel path method h5name tmp_h5name srcfd h5fd w2))"

text \<open>
  The whole function. \<open>junk_src\<close> and \<open>junk_h5\<close> are the contents of the uninitialised variables
  \<^verbatim>\<open>srcfd\<close> and \<^verbatim>\<open>h5fd\<close>, which the code at the label \<^verbatim>\<open>out\<close> reads on the early exits. The
  result of the second \<^verbatim>\<open>malloc\<close> is not checked: \<^verbatim>\<open>sprintf\<close> to the null pointer is undefined.
\<close>

definition convert2h5 ::
    "'h hdf5_lib \<Rightarrow> codec_lib \<Rightarrow> int \<Rightarrow> int \<Rightarrow> nat \<Rightarrow> string option \<Rightarrow> dz_alg \<Rightarrow> 'h st
      \<Rightarrow> (int \<times> 'h st) option" where
  "convert2h5 H L junk_src junk_h5 fuel path method w =
     (case path of
        None \<Rightarrow> Some (-1, w)
      | Some p \<Rightarrow>
          (case buildHiddenFile p (fst w) of
             None \<Rightarrow> None
           | Some (None, s1) \<Rightarrow> Some (-1, (s1, snd w))
           | Some (Some h5name, s1) \<Rightarrow>
               (case sys_stat h5name s1 of
                  (Some st, s2) \<Rightarrow>
                    Some (convert_out H junk_src junk_h5 (-1) (s2\<lparr>errno := EEXIST\<rparr>, snd w))
                | (None, s2) \<Rightarrow>
                    (case sys_malloc s2 of
                       (False, s3) \<Rightarrow> None
                     | (True, s3) \<Rightarrow>
                         (case sys_stat (tmp_name h5name) s3 of
                            (Some st, s4) \<Rightarrow>
                              Some (convert_out H junk_src junk_h5 (-1)
                                      (s4\<lparr>errno := EEXIST\<rparr>, snd w))
                          | (None, s4) \<Rightarrow>
                              convert_open H L junk_h5 fuel p method h5name (tmp_name h5name)
                                (s4, snd w))))))"

section \<open>What a converted file holds\<close>

definition stored :: "codec_lib \<Rightarrow> (string \<Rightarrow> bytes option) \<Rightarrow> bytes list \<Rightarrow> bool" where
  \<comment> \<open>the datasets \<^verbatim>\<open>block0\<close>, \<^verbatim>\<open>block1\<close>, ... are frames of the given pieces, and there are no more\<close>
  "stored L ds cs \<longleftrightarrow>
     (\<forall>k<length cs. \<exists>z. ds (block_name k) = Some z \<and> frame_of L z (cs ! k)) \<and>
     (\<forall>k\<ge>length cs. ds (block_name k) = None)"

definition chunk :: "bytes \<Rightarrow> nat \<Rightarrow> bytes" where
  \<comment> \<open>the block of a file with a given number\<close>
  "chunk d k = take H5_BUFSIZE (drop (k * H5_BUFSIZE) d)"

definition aligned :: "bytes \<Rightarrow> bytes list \<Rightarrow> bool" where
  \<comment> \<open>the pieces are the blocks of the file, each at its place\<close>
  "aligned d cs \<longleftrightarrow> (\<forall>k<length cs. cs ! k = chunk d k \<and> k * H5_BUFSIZE < length d)"

lemma stored_empty: "(\<And>k. ds (block_name k) = None) \<Longrightarrow> stored L ds []"
  by (simp add: stored_def)

lemma stored_snoc:
  assumes "stored L ds cs" "frame_of L z c"
  shows "stored L (ds(block_name (length cs) \<mapsto> z)) (cs @ [c])"
  using assms by (auto simp: stored_def nth_append less_Suc_eq)

lemma stored_other:
  assumes "stored L ds cs" "\<And>k. ds' (block_name k) = ds (block_name k)"
  shows "stored L ds' cs"
  using assms by (simp add: stored_def)

text \<open>Which parts of the system a loop over a descriptor and an HDF5 file may change.\<close>

definition only_changes :: "nat \<Rightarrow> int \<Rightarrow> os \<Rightarrow> os \<Rightarrow> bool" where
  "only_changes j fd s s' \<longleftrightarrow>
     names s' = names s \<and> now s' = now s \<and> vfs s' = vfs s \<and>
     (\<forall>k. k \<noteq> j \<longrightarrow> inodes s' k = inodes s k) \<and>
     (\<forall>n. inodes s j = Some n \<longrightarrow> (\<exists>d m. inodes s' j = Some (n\<lparr>i_data := d, i_mtime := m\<rparr>))) \<and>
     (\<forall>fd'. fd' \<noteq> fd \<longrightarrow> fd_get s' fd' = fd_get s fd') \<and>
     (fd_get s fd \<noteq> None \<longrightarrow>
        (\<exists>o'. fd_get s' fd = Some ((the (fd_get s fd))\<lparr>of_off := o'\<rparr>))) \<and>
     length (env s') \<le> length (env s)"

lemma ofile_self: "\<exists>o'. f = f\<lparr>of_off := o'\<rparr>"
  by (rule exI [of _ "of_off f"]) simp

lemma only_changes_refl: "only_changes j fd s s"
  by (auto simp: only_changes_def intro: inode_self ofile_self)

lemma only_changes_trans:
  assumes "only_changes j fd s t" "only_changes j fd t u"
  shows "only_changes j fd s u"
proof -
  have i: "\<exists>d m. inodes u j = Some (n\<lparr>i_data := d, i_mtime := m\<rparr>)" if "inodes s j = Some n" for n
  proof -
    from assms(1) that obtain d m where "inodes t j = Some (n\<lparr>i_data := d, i_mtime := m\<rparr>)"
      unfolding only_changes_def by blast
    with assms(2) obtain d' m' where
      "inodes u j = Some (n\<lparr>i_data := d, i_mtime := m\<rparr>\<lparr>i_data := d', i_mtime := m'\<rparr>)"
      unfolding only_changes_def by blast
    then show ?thesis by auto
  qed
  have f: "\<exists>o'. fd_get u fd = Some ((the (fd_get s fd))\<lparr>of_off := o'\<rparr>)" if "fd_get s fd \<noteq> None"
  proof -
    from assms(1) that obtain o1 where t: "fd_get t fd = Some ((the (fd_get s fd))\<lparr>of_off := o1\<rparr>)"
      unfolding only_changes_def by blast
    with assms(2) obtain o2 where
      "fd_get u fd = Some ((the (fd_get t fd))\<lparr>of_off := o2\<rparr>)"
      unfolding only_changes_def by blast
    with t show ?thesis by auto
  qed
  show ?thesis
    using assms i f unfolding only_changes_def by auto
qed

lemma quiet_only_changes: "quiet s s' \<Longrightarrow> only_changes j fd s s'"
  using only_changes_refl [of j fd s] quiet_fd_get [of s s']
  by (simp add: only_changes_def quiet_def)

lemma touches_only_changes: "touches j s s' \<Longrightarrow> only_changes j fd s s'"
  using only_changes_refl [of j fd s]
  by (auto simp: only_changes_def touches_def fd_get_def)

lemma seek_only_changes:
  assumes "fd_get s fd = Some f"
  shows "only_changes j fd s (fd_seek fd f o' s)"
  using only_changes_refl [of j fd s] assms by (auto simp: only_changes_def fd_get_seek)

section \<open>The loop over the blocks\<close>

text \<open>
  One turn, in any environment: either the loop ends with the source exhausted, or it jumps to
  \<^verbatim>\<open>out\<close>, or the next piece of the source has been stored under the next name. In each case
  only the HDF5 file and the descriptor's offset have changed.
\<close>

lemma hdf5_writedata_ok:
  assumes H: "hdf5_contract H hf hdat" and fd: "hf (snd w) h5fd = Some j"
    and w: "hdf5_writedata H h5fd (Some name) (Some d) (length d) w = (ret, w')"
  shows "touches j (fst w) (fst w') \<and> hf (snd w') = hf (snd w) \<and>
    (0 \<le> ret \<longrightarrow> hdat (fst w') (snd w') j = (hdat (fst w) (snd w) j)(name \<mapsto> d))
    \<or> ret < 0 \<and> w' = w"
proof (cases "h5fd \<le> 0")
  case True
  with w show ?thesis by (simp add: hdf5_writedata_def)
next
  case False
  obtain r s' h' where p: "H5Dput H h5fd name d (fst w) (snd w) = (r, s', h')"
    by (metis prod_cases3)
  with False w have "w' = (s', h')" "0 \<le> ret \<longrightarrow> 0 \<le> r"
    by (auto simp: hdf5_writedata_def split: if_splits)
  moreover have "h5_put_law H hf hdat" using H by (simp add: hdf5_contract_def)
  ultimately show ?thesis using p fd unfolding h5_put_law_def by auto
qed

lemma fd_get_cong: "fds s' = fds s \<Longrightarrow> fd_get s' = fd_get s"
  by (rule ext) (simp add: fd_get_def)

lemma touches_fd_get: "touches i s s' \<Longrightarrow> fd_get s' = fd_get s"
  by (rule fd_get_cong) (simp add: touches_def)

lemma touches_inode_other: "touches i s s' \<Longrightarrow> k \<noteq> i \<Longrightarrow> inodes s' k = inodes s k"
  by (simp add: touches_def)

lemma hdat_cong:
  "h5_frame_law hdat \<Longrightarrow> inodes s i = inodes s' i \<Longrightarrow> hdat s h i = hdat s' h i"
  unfolding h5_frame_law_def by metis

text \<open>A compressed piece is written: the source stays open where it is.\<close>

lemma write_piece:
  assumes H: "hdf5_contract H hf hdat" and fd: "hf h h5fd = Some j"
    and q: "quiet s1 s2" and ff: "fd_file s1 srcfd = Some (g, n)" "of_ino g \<noteq> j"
    and wd: "hdf5_writedata H h5fd (Some name) (Some z) (length z) (s2, h) = (r3, w3)"
  shows "only_changes j srcfd s1 (fst w3) \<and> hf (snd w3) = hf h \<and>
    (0 \<le> r3 \<longrightarrow> hdat (fst w3) (snd w3) j = (hdat s1 h j)(name \<mapsto> z) \<and>
       fd_file (fst w3) srcfd = Some (g, n))"
proof -
  have fr: "h5_frame_law hdat" using H by (simp add: hdf5_contract_def)
  note ok = hdf5_writedata_ok [OF H _ wd]
  from ok fd have t: "only_changes j srcfd s2 (fst w3)" "hf (snd w3) = hf h"
    by (auto intro: touches_only_changes only_changes_refl)
  have "hdat (fst w3) (snd w3) j = (hdat s1 h j)(name \<mapsto> z) \<and> fd_file (fst w3) srcfd = Some (g, n)"
    if "0 \<le> r3"
  proof
    from ok fd that have tj: "touches j s2 (fst w3)" and d: "hdat (fst w3) (snd w3) j = (hdat s2 h j)(name \<mapsto> z)"
      by auto
    have "hdat s2 h j = hdat s1 h j" using q by (intro hdat_cong [OF fr]) (simp add: quiet_def)
    with d show "hdat (fst w3) (snd w3) j = (hdat s1 h j)(name \<mapsto> z)" by simp
    have "fds (fst w3) = fds s1" using q tj by (simp add: quiet_def touches_def)
    then have "fd_get (fst w3) = fd_get s1" by (rule fd_get_cong)
    with ff tj q show "fd_file (fst w3) srcfd = Some (g, n)"
      by (simp add: fd_file_Some touches_def quiet_def)
  qed
  with t only_changes_trans [OF quiet_only_changes [OF q] t(1)] show ?thesis by blast
qed

text \<open>A piece that has been read is compressed and written.\<close>

lemma convert_piece:
  assumes H: "hdf5_contract H hf hdat" and Z: "zstd_contract L" and fd: "hf (snd w) h5fd = Some j"
    and rd: "sys_read srcfd H5_BUFSIZE (fst w) = ((nb, buf), s1)" "0 < nb" "length buf \<le> 2 ^ 29"
    and ff: "fd_file s1 srcfd = Some (g, n)" "of_ino g \<noteq> j"
  obtains r w' where "convert_turn H L DZ_ALG_ZSTD srcfd h5fd count w = (Some (Some r), w')"
      "only_changes j srcfd s1 (fst w')" "hf (snd w') h5fd = Some j" "r < 0"
  | w3 z where
      "convert_turn H L DZ_ALG_ZSTD srcfd h5fd count w = (None, w3)"
      "only_changes j srcfd s1 (fst w3)" "hf (snd w3) = hf (snd w)"
      "hdat (fst w3) (snd w3) j = (hdat s1 (snd w) j)(block_name count \<mapsto> z)"
      "frame_of L z buf" "fd_file (fst w3) srcfd = Some (g, n)"
proof -
  let ?run = "convert_turn H L DZ_ALG_ZSTD srcfd h5fd count w"
  obtain ret out s2 where cd:
    "compress_data L DZ_ALG_ZSTD uninit_out buf s1 = ((ret, out), s2)" by (metis surj_pair)
  have q2: "quiet s1 s2" using cd by (rule quiet_compress_data)
  show thesis
  proof (cases "ret < 0")
    case True
    with rd cd have "?run = (Some (Some ret), (s2, snd w))" by (simp add: convert_turn_def)
    then show ?thesis
      by (rule that(1)) (simp_all add: quiet_only_changes [OF q2] fd True)
  next
    case False
    then obtain z where z: "dstdata out = Some z" "dstlen out = Some (int (length z))" "frame_of L z buf"
      using compress_data_frame [OF Z rd(3) cd] by auto
    obtain r3 w3 where wd:
      "hdf5_writedata H h5fd (Some (block_name count)) (Some z) (length z) (s2, snd w) = (r3, w3)"
      by (metis surj_pair)
    have run3: "?run = (if r3 < 0 then Some (Some r3) else None, w3)"
      using rd cd False z wd by (simp add: convert_turn_def)
    from write_piece [OF H fd q2 ff wd] have wp: "only_changes j srcfd s1 (fst w3)" "hf (snd w3) = hf (snd w)"
      "0 \<le> r3 \<Longrightarrow> hdat (fst w3) (snd w3) j = (hdat s1 (snd w) j)(block_name count \<mapsto> z)"
      "0 \<le> r3 \<Longrightarrow> fd_file (fst w3) srcfd = Some (g, n)" by blast+
    show ?thesis
    proof (cases "r3 < 0")
      case True
      with run3 wp(1,2) fd show ?thesis by (intro that(1) [of r3 w3]) simp_all
    next
      case False
      show ?thesis
        by (rule that(2) [OF _ wp(1,2) wp(3) z(3) wp(4)]) (use False run3 in simp_all)
    qed
  qed
qed

lemma convert_turn_cases:
  assumes H: "hdf5_contract H hf hdat" and Z: "zstd_contract L"
    and fd: "hf (snd w) h5fd = Some j"
    and f: "fd_file (fst w) srcfd = Some (f, n)" "of_ino f \<noteq> j"
  obtains w' where "convert_turn H L DZ_ALG_ZSTD srcfd h5fd count w = (Some None, w')"
      "only_changes j srcfd (fst w) (fst w')" "snd w' = snd w"
      "length (i_data n) \<le> of_off f" "hdat (fst w') (snd w') j = hdat (fst w) (snd w) j"
  | r w' where "convert_turn H L DZ_ALG_ZSTD srcfd h5fd count w = (Some (Some r), w')"
      "only_changes j srcfd (fst w) (fst w')" "hf (snd w') h5fd = Some j" "r < 0"
  | w3 z k where
      "convert_turn H L DZ_ALG_ZSTD srcfd h5fd count w = (None, w3)"
      "only_changes j srcfd (fst w) (fst w3)" "hf (snd w3) = hf (snd w)"
      "hdat (fst w3) (snd w3) j = (hdat (fst w) (snd w) j)(block_name count \<mapsto> z)"
      "frame_of L z (take k (drop (of_off f) (i_data n)))" "0 < k" "k \<le> H5_BUFSIZE"
      "env (fst w) = [] \<Longrightarrow> k = H5_BUFSIZE" "of_off f < length (i_data n)"
      "fd_file (fst w3) srcfd =
         Some (f\<lparr>of_off := of_off f + length (take k (drop (of_off f) (i_data n)))\<rparr>, n)"
proof -
  let ?bs = "\<lambda>k. take k (drop (of_off f) (i_data n))"
  let ?run = "convert_turn H L DZ_ALG_ZSTD srcfd h5fd count w"
  obtain nb buf s1 where rd: "sys_read srcfd H5_BUFSIZE (fst w) = ((nb, buf), s1)"
    by (metis surj_pair)
  have fr: "h5_frame_law hdat" using H by (simp add: hdf5_contract_def)
  have g: "fd_get (fst w) srcfd = Some f" and i: "inodes (fst w) (of_ino f) = Some n"
    using f(1) by (simp_all add: fd_file_Some)
  have "(0::nat) < H5_BUFSIZE" by simp
  then show ?thesis
  proof (rule sys_read_cases [OF rd f(1)])
    assume "nb = -1" "quiet (fst w) s1"
    with rd have "?run = (Some (Some (-1)), (s1, snd w))" by (simp add: convert_turn_def)
    moreover have "only_changes j srcfd (fst w) s1"
      using \<open>quiet (fst w) s1\<close> by (rule quiet_only_changes)
    ultimately show ?thesis using fd by (intro that(2) [of "-1" "(s1, snd w)"]) simp_all
  next
    fix k s0
    assume q0: "quiet (fst w) s0" and k: "0 < k" "k \<le> H5_BUFSIZE"
      and e: "env (fst w) = [] \<Longrightarrow> k = H5_BUFSIZE \<and> s0 = fst w"
      and buf: "buf = ?bs k" and nb: "nb = int (length buf)"
      and s1: "s1 = fd_seek srcfd f (of_off f + length buf) s0"
    have g0: "fd_get s0 srcfd = Some f" using g q0 by (simp add: quiet_fd_get)
    have oc1: "only_changes j srcfd (fst w) s1"
      unfolding s1 by (rule only_changes_trans [OF quiet_only_changes [OF q0] seek_only_changes [OF g0]])
    have in1: "inodes s1 = inodes (fst w)" using q0 by (simp add: s1 quiet_def)
    show ?thesis
    proof (cases "buf = []")
      case True
      then have "length (i_data n) \<le> of_off f" using buf k by simp
      moreover from True nb rd have "?run = (Some None, (s1, snd w))" by (simp add: convert_turn_def)
      moreover have "hdat s1 (snd w) j = hdat (fst w) (snd w) j"
        by (rule hdat_cong [OF fr]) (simp add: in1)
      ultimately show ?thesis using oc1 by (intro that(1) [of "(s1, snd w)"]) simp_all
    next
      case False
      then have nb0: "0 < nb" using nb by simp
      let ?f = "f\<lparr>of_off := of_off f + length buf\<rparr>"
      have off: "of_off f < length (i_data n)" using \<open>buf \<noteq> []\<close> buf by (simp add: not_le)
      have len: "length buf \<le> 2 ^ 29" using buf k by simp
      have ff: "fd_file s1 srcfd = Some (?f, n)" "of_ino ?f \<noteq> j"
        using fd_get_seek [OF g0] i in1 f(2) by (simp_all add: fd_file_Some s1)
      have d1: "hdat s1 (snd w) j = hdat (fst w) (snd w) j" by (rule hdat_cong [OF fr]) (simp add: in1)
      show ?thesis
      proof (rule convert_piece [OF H Z fd rd nb0 len ff, of count])
        fix r w' assume p: "?run = (Some (Some r), w')" "only_changes j srcfd s1 (fst w')"
          "hf (snd w') h5fd = Some j" "r < 0"
        show ?thesis by (rule that(2) [OF p(1) only_changes_trans [OF oc1 p(2)] p(3,4)])
      next
        fix w3 z assume p: "?run = (None, w3)"
          "only_changes j srcfd s1 (fst w3)" "hf (snd w3) = hf (snd w)"
          "hdat (fst w3) (snd w3) j = (hdat s1 (snd w) j)(block_name count \<mapsto> z)"
          "frame_of L z buf" "fd_file (fst w3) srcfd = Some (?f, n)"
        show ?thesis
          by (rule that(3) [OF p(1) only_changes_trans [OF oc1 p(2)] p(3) p(4) [unfolded d1]
                p(5) [unfolded buf] k _ off p(6) [unfolded buf]]) (use e in blast)
      qed
    qed
  qed
qed

lemma convert_loop_step:
  assumes H: "hdf5_contract H hf hdat" and Z: "zstd_contract L"
    and fd: "hf (snd w) h5fd = Some j"
    and f: "fd_file (fst w) srcfd = Some (f, n)" "of_ino f \<noteq> j"
  obtains w' where "convert_loop H L DZ_ALG_ZSTD srcfd h5fd (Suc fuel) count w = Some (None, w')"
      "only_changes j srcfd (fst w) (fst w')" "snd w' = snd w"
      "length (i_data n) \<le> of_off f" "hdat (fst w') (snd w') j = hdat (fst w) (snd w) j"
  | r w' where "convert_loop H L DZ_ALG_ZSTD srcfd h5fd (Suc fuel) count w = Some (Some r, w')"
      "only_changes j srcfd (fst w) (fst w')" "hf (snd w') h5fd = Some j" "r < 0"
  | w3 z k where
      "convert_loop H L DZ_ALG_ZSTD srcfd h5fd (Suc fuel) count w =
         convert_loop H L DZ_ALG_ZSTD srcfd h5fd fuel (Suc count) w3"
      "only_changes j srcfd (fst w) (fst w3)" "hf (snd w3) = hf (snd w)"
      "hdat (fst w3) (snd w3) j = (hdat (fst w) (snd w) j)(block_name count \<mapsto> z)"
      "frame_of L z (take k (drop (of_off f) (i_data n)))" "0 < k" "k \<le> H5_BUFSIZE"
      "env (fst w) = [] \<Longrightarrow> k = H5_BUFSIZE" "of_off f < length (i_data n)"
      "fd_file (fst w3) srcfd =
         Some (f\<lparr>of_off := of_off f + length (take k (drop (of_off f) (i_data n)))\<rparr>, n)"
proof (cases rule: convert_turn_cases [OF assms, of count])
  case (1 w')
  have "convert_loop H L DZ_ALG_ZSTD srcfd h5fd (Suc fuel) count w = Some (None, w')"
    using 1(1) by (simp add: convert_loop_turn del: convert_loop.simps)
  then show ?thesis using 1(2-) by (rule that(1))
next
  case (2 r w')
  have "convert_loop H L DZ_ALG_ZSTD srcfd h5fd (Suc fuel) count w = Some (Some r, w')"
    using 2(1) by (simp add: convert_loop_turn del: convert_loop.simps)
  then show ?thesis using 2(2-) by (rule that(2))
next
  case (3 w3 z k)
  have "convert_loop H L DZ_ALG_ZSTD srcfd h5fd (Suc fuel) count w =
      convert_loop H L DZ_ALG_ZSTD srcfd h5fd fuel (Suc count) w3"
    using 3(1) by (simp add: convert_loop_turn del: convert_loop.simps)
  then show ?thesis using 3(2-) by (rule that(3))
qed

text \<open>
  The whole loop: if it ends, the hidden file holds pieces that make up the source; without
  short reads the pieces are the blocks.
\<close>

definition in_step :: "bytes \<Rightarrow> nat \<Rightarrow> bytes list \<Rightarrow> bool" where
  \<comment> \<open>the pieces are blocks and the offset is at the end of the last one\<close>
  "in_step d off cs \<longleftrightarrow> aligned d cs \<and> (off = length cs * H5_BUFSIZE \<or> length d \<le> off)"

lemma in_step_Nil [simp]: "in_step d 0 []"
  by (simp add: in_step_def aligned_def)

lemma in_step_snoc:
  assumes "in_step d off cs" "off < length d"
  shows "in_step d (off + length (take H5_BUFSIZE (drop off d))) (cs @ [take H5_BUFSIZE (drop off d)])"
  using assms by (auto simp: in_step_def aligned_def nth_append chunk_def less_Suc_eq)

lemma convert_loop_stores:
  assumes H: "hdf5_contract H hf hdat" and Z: "zstd_contract L"
    and "hf (snd w) h5fd = Some j" "fd_file (fst w) srcfd = Some (f, n)" "of_ino f \<noteq> j"
    and "convert_loop H L DZ_ALG_ZSTD srcfd h5fd fuel (length cs) w = Some (jump, w')"
    and "stored L (hdat (fst w) (snd w) j) cs" "concat cs = take (of_off f) (i_data n)"
    and "of_off f \<le> length (i_data n)"
  shows "only_changes j srcfd (fst w) (fst w') \<and> hf (snd w') h5fd = Some j \<and>
    (\<forall>r. jump = Some r \<longrightarrow> r < 0) \<and>
    (jump = None \<longrightarrow>
      (\<exists>cs'. stored L (hdat (fst w') (snd w') j) cs' \<and> concat cs' = i_data n \<and>
         (env (fst w) = [] \<longrightarrow> in_step (i_data n) (of_off f) cs \<longrightarrow> aligned (i_data n) cs') \<and>
         hdat (fst w') (snd w') j ''algorithm'' = hdat (fst w) (snd w) j ''algorithm''))"
  using assms(3-)
proof (induction fuel arbitrary: w f cs)
  case 0
  then show ?case by simp
next
  case (Suc fuel)
  show ?case
  proof (rule convert_loop_step [OF H Z Suc.prems(1-3), of fuel "length cs"])
    fix w1
    assume j: "convert_loop H L DZ_ALG_ZSTD srcfd h5fd (Suc fuel) (length cs) w = Some (None, w1)"
      and oc: "only_changes j srcfd (fst w) (fst w1)"
      and s: "snd w1 = snd w" and e: "length (i_data n) \<le> of_off f"
      and d: "hdat (fst w1) (snd w1) j = hdat (fst w) (snd w) j"
    have "concat cs = i_data n" using Suc.prems(6) e by simp
    moreover have "w1 = w'" "jump = None" using j Suc.prems(4) by simp_all
    ultimately show ?thesis using oc s d Suc.prems(1,5)
      by (intro conjI impI exI [of _ cs]) (auto simp: in_step_def)
  next
    fix r w1
    assume "convert_loop H L DZ_ALG_ZSTD srcfd h5fd (Suc fuel) (length cs) w = Some (Some r, w1)"
      "only_changes j srcfd (fst w) (fst w1)" "hf (snd w1) h5fd = Some j" "r < 0"
    moreover from this(1) have "w1 = w'" "jump = Some r" using Suc.prems(4) by auto
    ultimately show ?thesis by auto
  next
    fix w3 z k
    let ?b = "take k (drop (of_off f) (i_data n))"
    let ?f = "f\<lparr>of_off := of_off f + length ?b\<rparr>"
    assume eq: "convert_loop H L DZ_ALG_ZSTD srcfd h5fd (Suc fuel) (length cs) w =
        convert_loop H L DZ_ALG_ZSTD srcfd h5fd fuel (Suc (length cs)) w3"
      and oc: "only_changes j srcfd (fst w) (fst w3)" and h3: "hf (snd w3) = hf (snd w)"
      and d: "hdat (fst w3) (snd w3) j = (hdat (fst w) (snd w) j)(block_name (length cs) \<mapsto> z)"
      and z: "frame_of L z ?b" and ff: "fd_file (fst w3) srcfd = Some (?f, n)"
      and lt: "of_off f < length (i_data n)" and k: "env (fst w) = [] \<Longrightarrow> k = H5_BUFSIZE"
    have run: "convert_loop H L DZ_ALG_ZSTD srcfd h5fd fuel (Suc (length cs)) w3 = Some (jump, w')"
      using eq Suc.prems(4) by (rule subst)
    have st: "stored L (hdat (fst w3) (snd w3) j) (cs @ [?b])"
      unfolding d using Suc.prems(5) z by (rule stored_snoc)
    have cc: "concat (cs @ [?b]) = take (of_off ?f) (i_data n)"
      using Suc.prems(6) by (simp add: take_add min_def)
    have e: "env (fst w) = [] \<Longrightarrow> env (fst w3) = []" using oc by (simp add: only_changes_def)
    have step: "in_step (i_data n) (of_off ?f) (cs @ [?b])"
      if "env (fst w) = []" "in_step (i_data n) (of_off f) cs"
      using in_step_snoc [OF that(2) lt] k [OF that(1)] by simp
    have "only_changes j srcfd (fst w3) (fst w') \<and> hf (snd w') h5fd = Some j \<and>
      (\<forall>r. jump = Some r \<longrightarrow> r < 0) \<and>
      (jump = None \<longrightarrow>
        (\<exists>cs'. stored L (hdat (fst w') (snd w') j) cs' \<and> concat cs' = i_data n \<and>
           (env (fst w3) = [] \<longrightarrow> in_step (i_data n) (of_off ?f) (cs @ [?b]) \<longrightarrow>
              aligned (i_data n) cs') \<and>
           hdat (fst w') (snd w') j ''algorithm'' = hdat (fst w3) (snd w3) j ''algorithm''))"
      using Suc.prems(1,3) h3 ff run st cc lt
      by (intro Suc.IH [of w3 ?f "cs @ [?b]"]) auto
    then show ?thesis using oc d e step by (auto intro: only_changes_trans)
  qed
qed

text \<open>One unit of fuel for each byte, and one for the end, is always enough.\<close>

lemma convert_loop_fuel:
  assumes H: "hdf5_contract H hf hdat" and Z: "zstd_contract L"
    and "hf (snd w) h5fd = Some j" "fd_file (fst w) srcfd = Some (f, n)" "of_ino f \<noteq> j"
    and "length (i_data n) - of_off f < fuel"
  shows "convert_loop H L DZ_ALG_ZSTD srcfd h5fd fuel count w \<noteq> None"
  using assms(3-)
proof (induction fuel arbitrary: w f count)
  case 0
  then show ?case by simp
next
  case (Suc fuel)
  show ?case
  proof (rule convert_loop_step [OF H Z Suc.prems(1-3), of fuel count])
    fix w3 k
    let ?b = "take k (drop (of_off f) (i_data n))"
    assume e: "convert_loop H L DZ_ALG_ZSTD srcfd h5fd (Suc fuel) count w =
        convert_loop H L DZ_ALG_ZSTD srcfd h5fd fuel (Suc count) w3"
      and "hf (snd w3) = hf (snd w)" "0 < k" "of_off f < length (i_data n)"
      "fd_file (fst w3) srcfd = Some (f\<lparr>of_off := of_off f + length ?b\<rparr>, n)"
    then show ?thesis unfolding e
      using Suc.prems by (intro Suc.IH [of w3 "f\<lparr>of_off := of_off f + length ?b\<rparr>"]) auto
  qed auto
qed

section \<open>The calls around the loop\<close>

definition same_files :: "os \<Rightarrow> os \<Rightarrow> bool" where
  \<comment> \<open>at most descriptors, \<^verbatim>\<open>errno\<close> and the environment have changed\<close>
  "same_files s s' \<longleftrightarrow> names s' = names s \<and> inodes s' = inodes s \<and> now s' = now s \<and>
     length (env s') \<le> length (env s)"

lemma same_files_refl [simp]: "same_files s s"
  by (simp add: same_files_def)

lemma same_files_trans [trans]: "same_files s t \<Longrightarrow> same_files t u \<Longrightarrow> same_files s u"
  by (auto simp: same_files_def)

lemma quiet_same_files: "quiet s s' \<Longrightarrow> same_files s s'"
  by (simp add: same_files_def quiet_def)

lemma same_files_node_at: "same_files s s' \<Longrightarrow> node_at s' = node_at s"
  by (rule node_at_cong) (simp_all add: same_files_def)

lemma sys_close_same_files: "sys_close fd s = (r, s') \<Longrightarrow> same_files s s'"
  by (auto simp: sys_close_def fail_with_def attempt_def same_files_def
      split: option.splits list.splits outcome.splits)

lemma first_free_le: "first_free xs \<le> length xs"
  by (induction xs rule: first_free.induct) simp_all

lemma fd_get_alloc:
  assumes "alloc_fd i fl s = (fd, s')"
  shows "0 \<le> fd \<and> fd_get s' fd = Some \<lparr>of_ino = i, of_off = 0, of_flags = fl\<rparr> \<and> same_files s s'"
  using assms first_free_le [of "fds s"]
  by (auto simp: alloc_fd_def Let_def fd_get_def same_files_def nth_append split: if_splits)

text \<open>Opening an existing regular file for reading.\<close>

lemma sys_open_rdonly:
  assumes "sys_open p O_RDONLY m s = (fd, s')" "node_at s (comps p) = Some (i, n)"
  shows "same_files s s' \<and>
    (fd < 0 \<and> quiet s s' \<or>
     0 \<le> fd \<and> fd_file s' fd = Some (\<lparr>of_ino = i, of_off = 0, of_flags = O_RDONLY\<rparr>, n))"
proof -
  let ?act = "\<lambda>s. case node_at s (comps p) of
       Some (i, n) \<Rightarrow>
         (if i_dir n \<and> (and O_RDONLY O_ACCMODE \<noteq> O_RDONLY \<or> and O_RDONLY O_CREAT \<noteq> 0)
          then fail_with EISDIR (-1) s
          else alloc_fd i O_RDONLY
                 (if and O_RDONLY O_TRUNC \<noteq> 0 \<and> \<not> i_dir n then set_data i n [] s else s))
     | None \<Rightarrow>
         (if and O_RDONLY O_CREAT = 0 \<or> \<not> dir_at s (butlast (comps p))
          then fail_with (missing_errno s (comps p)) (-1) s
          else alloc_fd (nextino s) O_RDONLY (new_file (comps p) False m s))"
  have run: "attempt (-1) ?act s = (fd, s')" using assms(1) by (simp only: sys_open_def)
  show ?thesis
  proof (rule attempt_cases [of s "-1" ?act])
    fix e r
    assume "env s = Fail e # r" "attempt (-1) ?act s = (-1, s\<lparr>env := r, errno := e\<rparr>)"
    moreover from this(1) have "quiet s (s\<lparr>env := r, errno := e\<rparr>)" by (rule quiet_fail)
    ultimately show ?thesis using run by (auto intro: quiet_same_files)
  next
    fix s1
    assume q: "quiet s s1" and a: "attempt (-1) ?act s = ?act s1"
    have nd: "node_at s1 (comps p) = Some (i, n)" using assms(2) q by (simp add: quiet_node_at)
    with a run have "alloc_fd i O_RDONLY s1 = (fd, s')" by simp
    note fg = fd_get_alloc [OF this]
    have "inodes s1 i = Some n" using nd by (auto simp: node_at_def split: option.splits)
    with fg have "fd_file s' fd = Some (\<lparr>of_ino = i, of_off = 0, of_flags = O_RDONLY\<rparr>, n)"
      by (simp add: fd_file_Some same_files_def)
    with fg q show ?thesis by (auto intro: same_files_trans quiet_same_files)
  qed
qed

lemma touches_inode:
  "touches i s s' \<Longrightarrow> inodes s k = Some n \<Longrightarrow>
    \<exists>d m. inodes s' k = Some (n\<lparr>i_data := d, i_mtime := m\<rparr>)"
  by (cases "k = i") (auto simp: touches_def intro: inode_self)

lemma quiet_inode:
  "quiet s s' \<Longrightarrow> inodes s k = Some n \<Longrightarrow>
    \<exists>d m. inodes s' k = Some (n\<lparr>i_data := d, i_mtime := m\<rparr>)"
  by (auto simp: quiet_def intro: inode_self)

text \<open>
  The exit: it changes the bytes of the open HDF5 file at most, and not what they mean, unless
  \<^verbatim>\<open>H5Fclose\<close> fails.
\<close>

definition rests :: "'h h5files \<Rightarrow> 'h h5data \<Rightarrow> int \<Rightarrow> 'h st \<Rightarrow> 'h st \<Rightarrow> bool" where
  "rests hf hdat fd w w' \<longleftrightarrow>
     names (fst w') = names (fst w) \<and>
     (\<forall>k. \<not> (0 < fd \<and> hf (snd w) fd = Some k) \<longrightarrow> inodes (fst w') k = inodes (fst w) k) \<and>
     (\<forall>k n. inodes (fst w) k = Some n \<longrightarrow>
        (\<exists>d m. inodes (fst w') k = Some (n\<lparr>i_data := d, i_mtime := m\<rparr>))) \<and>
     (\<forall>k. \<not> (0 < fd \<and> hf (snd w) fd = Some k) \<or> env (fst w) = [] \<longrightarrow>
        hdat (fst w') (snd w') k = hdat (fst w) (snd w) k)"

lemma convert_out_rests:
  assumes H: "hdf5_contract H hf hdat" and run: "convert_out H srcfd h5fd ret w = (r, w')"
  shows "r = ret \<and> rests hf hdat h5fd w w'"
    and "hf (snd w) h5fd = Some j \<Longrightarrow> hdat (fst w') (snd w') j = hdat (fst w) (snd w) j \<or>
      (\<exists>s h k. H5Fclose H h5fd s h = (k, w') \<and> k < 0 \<and> hf h h5fd = Some j)"
proof -
  define w1 where "w1 = (if 0 < srcfd then (snd (sys_close srcfd (fst w)), snd w) else w)"
  have fr: "h5_frame_law hdat" and cl: "h5_close_law H hf hdat"
    using H by (simp_all add: hdf5_contract_def)
  have s1: "same_files (fst w) (fst w1)" "snd w1 = snd w"
    using sys_close_same_files [of srcfd "fst w"] by (auto simp: w1_def prod_eq_iff)
  have d1: "hdat (fst w1) (snd w1) k = hdat (fst w) (snd w) k" for k
    using s1 by (simp add: same_files_def) (rule hdat_cong [OF fr], simp)
  have w': "w' = (if 0 < h5fd then snd (H5Fclose H h5fd (fst w1) (snd w1)) else w1)" "r = ret"
    using run by (auto simp: convert_out_def w1_def Let_def)
  have "(r = ret \<and> rests hf hdat h5fd w w') \<and> (hf (snd w) h5fd = Some j \<longrightarrow>
      hdat (fst w') (snd w') j = hdat (fst w) (snd w) j \<or>
      (\<exists>s h k. H5Fclose H h5fd s h = (k, w') \<and> k < 0 \<and> hf h h5fd = Some j))"
  proof (cases "0 < h5fd")
    case False
    with w' s1 d1 show ?thesis
      by (auto simp: rests_def same_files_def intro: inode_self)
  next
    case True
    obtain rr s2 h2 where c: "H5Fclose H h5fd (fst w1) (snd w1) = (rr, s2, h2)"
      by (metis prod_cases3)
    note law = h5_close_lawD [OF cl c]
    from c True w' have e: "w' = (s2, h2)" by simp
    moreover have "\<exists>d m. inodes s2 k = Some (n\<lparr>i_data := d, i_mtime := m\<rparr>)"
      if "inodes (fst w1) k = Some n" for k n
      using law(1) that by (cases "hf (snd w1) h5fd") (auto intro: touches_inode quiet_inode)
    moreover have "env (fst w1) = []" if "env (fst w) = []" using s1(1) that by (simp add: same_files_def)
    then have "hdat s2 h2 k = hdat (fst w) (snd w) k"
      if "\<not> (0 < h5fd \<and> hf (snd w) h5fd = Some k) \<or> env (fst w) = []" for k
      using law(4,5) that True s1(2) d1 by metis
    ultimately have "rests hf hdat h5fd w w'" using s1 law(1) True
      by (auto simp: rests_def same_files_def quiet_def touches_def split: option.splits)
    moreover have "rr < 0" if "hdat s2 h2 j \<noteq> hdat (fst w) (snd w) j" using law(4) that d1 by force
    ultimately show ?thesis using w'(2) c e s1(2) by auto
  qed
  then show "r = ret \<and> rests hf hdat h5fd w w'"
    and "hf (snd w) h5fd = Some j \<Longrightarrow> hdat (fst w') (snd w') j = hdat (fst w) (snd w) j \<or>
      (\<exists>s h k. H5Fclose H h5fd s h = (k, w') \<and> k < 0 \<and> hf h h5fd = Some j)" by blast+
qed

section \<open>The rename and the truncations\<close>

lemma attempt_run:
  assumes "attempt fl act s = (r, s')"
  shows "r = fl \<and> quiet s s' \<or> (\<exists>s1. quiet s s1 \<and> act s1 = (r, s'))"
  by (rule attempt_cases [of s fl act]) (use assms in \<open>auto intro: quiet_fail\<close>)

lemma quiet_now: "quiet s s' \<Longrightarrow> now s' = now s \<and> inodes s' = inodes s \<and> names s' = names s"
  by (simp add: quiet_def)

lemma sys_truncate_cases:
  assumes "sys_truncate p len s = (r, s')" "node_at s (comps p) = Some (i, n)" "\<not> i_dir n"
  shows "r < 0 \<and> quiet s s' \<or>
    r = 0 \<and> names s' = names s \<and>
    inodes s' = (inodes s)(i := Some (n\<lparr>i_data := resize (nat len) (i_data n), i_mtime := now s\<rparr>))"
proof -
  let ?act = "\<lambda>s. case node_at s (comps p) of
       None \<Rightarrow> fail_with (missing_errno s (comps p)) (-1) s
     | Some (i, n) \<Rightarrow>
         if len < 0 then fail_with EINVAL (-1) s
         else if i_dir n then fail_with EISDIR (-1) s
         else (0, set_data i n (resize (nat len) (i_data n)) s)"
  from attempt_run [OF assms(1) [unfolded sys_truncate_def]]
  consider "r = -1" "quiet s s'" | s1 where "quiet s s1" "?act s1 = (r, s')" by blast
  then show ?thesis
  proof cases
    case 2
    then have "node_at s1 (comps p) = Some (i, n)" using assms(2) by (simp add: quiet_node_at)
    with 2(2) assms(3) have "r = -1 \<and> s' = s1\<lparr>errno := EINVAL\<rparr> \<or>
        r = 0 \<and> s' = set_data i n (resize (nat len) (i_data n)) s1"
      by (auto simp: fail_with_def split: if_splits)
    with quiet_now [OF 2(1)] 2(1) show ?thesis
      by (auto simp: set_data_def intro: quiet_trans)
  qed simp
qed

lemma sys_rename_cases:
  assumes "sys_rename p q s = (r, s')" "node_at s (comps p) = Some (j, m)" "comps p \<noteq> comps q"
  shows "r < 0 \<and> quiet s s' \<or>
    r = 0 \<and> inodes s' = inodes s \<and>
    map_of (names s') = (map_of (names s))(comps q \<mapsto> j, comps p := None)"
proof -
  let ?act = "\<lambda>s. case node_at s (comps p) of
       None \<Rightarrow> fail_with (missing_errno s (comps p)) (-1) s
     | Some (i, n) \<Rightarrow>
         if i_dir n \<or> dir_at s (comps q) then fail_with EISDIR (-1) s
         else if \<not> dir_at s (butlast (comps q)) then fail_with (missing_errno s (comps q)) (-1) s
         else if comps p = comps q then (0, s)
         else (0, s\<lparr>names := AList.delete (comps p) (AList.update (comps q) i (names s))\<rparr>)"
  from attempt_run [OF assms(1) [unfolded sys_rename_def]]
  consider "r = -1" "quiet s s'" | s1 where "quiet s s1" "?act s1 = (r, s')" by blast
  then show ?thesis
  proof cases
    case 2
    then have "node_at s1 (comps p) = Some (j, m)" using assms(2) by (simp add: quiet_node_at)
    with 2(2) assms(3) consider e where "r = -1" "s' = s1\<lparr>errno := e\<rparr>"
      | "r = 0" "s' = s1\<lparr>names := AList.delete (comps p) (AList.update (comps q) j (names s1))\<rparr>"
      by (auto simp: fail_with_def split: if_splits)
    then show ?thesis
    proof cases
      case 1
      with \<open>quiet s s1\<close> show ?thesis by (auto intro: quiet_trans)
    next
      case 2
      with quiet_now [OF \<open>quiet s s1\<close>] show ?thesis
        by (simp add: delete_conv' update_conv')
    qed
  qed simp
qed

lemma sys_stat_Some:
  assumes "sys_stat p s = (Some st, s')" "node_at s (comps p) = Some (i, n)"
  shows "quiet s s' \<and> st = stat_of i n"
proof -
  from attempt_run [OF assms(1) [unfolded sys_stat_def]] obtain s1 where s1: "quiet s s1"
    "(case node_at s1 (comps p) of
       None \<Rightarrow> fail_with (missing_errno s1 (comps p)) None s1
     | Some (i, n) \<Rightarrow> (Some (stat_of i n), s1)) = (Some st, s')" by auto
  then have "node_at s1 (comps p) = Some (i, n)" using assms(2) by (simp add: quiet_node_at)
  with s1 show ?thesis by simp
qed

text \<open>
  The end of the conversion: an error leaves the source alone or comes after the rename; after
  the rename the hidden name resolves to the file that was written, and nothing but the source
  has changed; on success the source keeps its size and reads as zeros.
\<close>

definition converted :: "string \<Rightarrow> nat \<Rightarrow> inode \<Rightarrow> nat \<Rightarrow> int \<Rightarrow> os \<Rightarrow> os \<Rightarrow> bool" where
  "converted hid i n j ret s s' \<longleftrightarrow>
     map_of (names s') (comps hid) = Some j \<and>
     (\<forall>k. k \<noteq> i \<longrightarrow> inodes s' k = inodes s k) \<and>
     (0 \<le> ret \<longrightarrow>
        (\<exists>m. inodes s' i = Some (n\<lparr>i_data := replicate (length (i_data n)) 0, i_mtime := m\<rparr>)))"

lemma convert_finish_cases:
  assumes run: "convert_finish path tmp hid s = (ret, s')"
    and p: "node_at s (comps path) = Some (i, n)" "\<not> i_dir n"
    and t: "node_at s (comps tmp) = Some (j, m)"
    and neq: "comps tmp \<noteq> comps hid" "comps path \<noteq> comps hid" "comps path \<noteq> comps tmp"
  shows "ret < 0 \<and> inodes s' = inodes s \<and> map_of (names s') (comps hid) = map_of (names s) (comps hid) \<or>
    converted hid i n j ret s s'"
proof -
  obtain r1 s1 where r1: "sys_rename tmp hid s = (r1, s1)" by fastforce
  from sys_rename_cases [OF this t neq(1)] consider "r1 < 0" "quiet s s1"
    | "0 \<le> r1" "inodes s1 = inodes s"
      "map_of (names s1) = (map_of (names s))(comps hid \<mapsto> j, comps tmp := None)" by auto
  then show ?thesis
  proof cases
    case 1
    with run r1 show ?thesis by (auto simp: convert_finish_def quiet_def)
  next
    case 2
    have h1: "map_of (names s1) (comps hid) = Some j" using 2 neq by simp
    have p1: "node_at s1 (comps path) = Some (i, n)" using p 2 neq by (simp add: node_at_Some)
    obtain st s2 where st: "sys_stat path s1 = (st, s2)" by fastforce
    then have q: "quiet s1 s2" by (rule quiet_sys_stat)
    note q' = quiet_now [OF this]
    show ?thesis
    proof (cases st)
      case None
      with run r1 2 st q' h1 show ?thesis by (simp add: convert_finish_def converted_def)
    next
      case (Some stb)
      have sz: "st_size stb = int (length (i_data n))"
        using sys_stat_Some [OF st [unfolded Some] p1] p(2) by (simp add: stat_of_def)
      have p2: "node_at s2 (comps path) = Some (i, n)" using p1 q by (simp add: quiet_node_at)
      obtain r3 s3 where r3: "sys_truncate path 0 s2 = (r3, s3)" by fastforce
      from sys_truncate_cases [OF this p2 p(2)] consider "r3 < 0" "quiet s2 s3"
        | "0 \<le> r3" "names s3 = names s2"
          "inodes s3 = (inodes s2)(i := Some (n\<lparr>i_data := [], i_mtime := now s2\<rparr>))" by auto
      then show ?thesis
      proof cases
        case 1
        with run r1 2 st Some r3 q' quiet_now [OF 1(2)] h1 show ?thesis
          by (simp add: convert_finish_def converted_def)
      next
        case t1: 2
        let ?n = "n\<lparr>i_data := [], i_mtime := now s2\<rparr>"
        have r4: "sys_truncate path (st_size stb) s3 = (ret, s')"
          using run r1 2 st Some r3 t1 by (simp add: convert_finish_def)
        have "node_at s3 (comps path) = Some (i, ?n)"
          using p2 t1 by (simp add: node_at_Some)
        from sys_truncate_cases [OF r4 this] p(2) sz
        have "ret < 0 \<and> quiet s3 s' \<or> ret = 0 \<and> names s' = names s3 \<and> inodes s' =
          (inodes s3)(i := Some (n\<lparr>i_data := replicate (length (i_data n)) 0, i_mtime := now s3\<rparr>))"
          by simp
        with t1 2 q' h1 show ?thesis
          by (auto simp: converted_def quiet_def)
      qed
    qed
  qed
qed

section \<open>The conversion keeps the contents\<close>

definition archived ::
    "codec_lib \<Rightarrow> 'h h5data \<Rightarrow> 'h st \<Rightarrow> string \<Rightarrow> bytes \<Rightarrow> bytes list \<Rightarrow> bool" where
  \<comment> \<open>the file of that name holds the contents \<open>d\<close> as the pieces \<open>cs\<close>, and says how\<close>
  "archived L hdat w hid d cs \<longleftrightarrow>
     (\<exists>j. map_of (names (fst w)) (comps hid) = Some j \<and>
        stored L (hdat (fst w) (snd w) j) cs \<and> concat cs = d \<and>
        hdat (fst w) (snd w) j ''algorithm'' =
          Some (bytes_of_string (''zstd '' @ ZSTD_versionString L)))"

text \<open>
  The datasets of an archive are flushed by \<^verbatim>\<open>H5Fclose\<close>, the last call of the conversion, whose
  result the code ignores.
\<close>

definition close_failed :: "'h hdf5_lib \<Rightarrow> 'h h5files \<Rightarrow> string \<Rightarrow> 'h st \<Rightarrow> bool" where
  \<comment> \<open>the state is what an \<^verbatim>\<open>H5Fclose\<close> of the file of that name has left that returned an error\<close>
  "close_failed H hf hid w' \<longleftrightarrow>
     (\<exists>fd s h r j. H5Fclose H fd s h = (r, w') \<and> r < 0 \<and> hf h fd = Some j \<and>
        map_of (names (fst w')) (comps hid) = Some j)"

definition conversion_held ::
    "codec_lib \<Rightarrow> 'h h5data \<Rightarrow> 'h st \<Rightarrow> string \<Rightarrow> nat \<Rightarrow> inode \<Rightarrow> int \<Rightarrow> 'h st \<Rightarrow> bool" where
  \<comment> \<open>before the exit: either the call has failed, the source (inode \<open>i\<close>, \<open>n\<close>) is as it was and so
    is the hidden name, or the contents are in the hidden file; if the call is to report success,
    the source reads as zeros\<close>
  "conversion_held L hdat w hid i n ret w' \<longleftrightarrow>
     ret < 0 \<and> inodes (fst w') i = Some n \<and>
       map_of (names (fst w')) (comps hid) = map_of (names (fst w)) (comps hid) \<or>
     (\<exists>cs. archived L hdat w' hid (i_data n) cs \<and>
        (env (fst w) = [] \<longrightarrow> aligned (i_data n) cs)) \<and>
     (0 \<le> ret \<longrightarrow> (\<exists>m. inodes (fst w') i =
           Some (n\<lparr>i_data := replicate (length (i_data n)) 0, i_mtime := m\<rparr>)))"

definition conversion_result ::
    "'h hdf5_lib \<Rightarrow> codec_lib \<Rightarrow> 'h h5files \<Rightarrow> 'h h5data \<Rightarrow> 'h st \<Rightarrow> string \<Rightarrow> nat \<Rightarrow> inode \<Rightarrow> int \<Rightarrow>
     'h st \<Rightarrow> bool" where
  \<comment> \<open>the same after the exit, where the contents of the hidden file are lost if some call has failed
    and \<^verbatim>\<open>H5Fclose\<close> is such a call\<close>
  "conversion_result H L hf hdat w hid i n ret w' \<longleftrightarrow>
     ret < 0 \<and> inodes (fst w') i = Some n \<and>
       map_of (names (fst w')) (comps hid) = map_of (names (fst w)) (comps hid) \<or>
     ((\<exists>cs. archived L hdat w' hid (i_data n) cs \<and>
         (env (fst w) = [] \<longrightarrow> aligned (i_data n) cs)) \<or>
      env (fst w) \<noteq> [] \<and> close_failed H hf hid w') \<and>
     (0 \<le> ret \<longrightarrow> (\<exists>m. inodes (fst w') i =
           Some (n\<lparr>i_data := replicate (length (i_data n)) 0, i_mtime := m\<rparr>)))"

text \<open>When no call fails, nothing is lost.\<close>

lemma conversion_result_normal:
  "env (fst w) = [] \<Longrightarrow> conversion_result H L hf hdat w hid i n ret w' \<Longrightarrow>
    conversion_held L hdat w hid i n ret w'"
  by (auto simp: conversion_result_def conversion_held_def)

lemma hdf5_writestr_ok:
  assumes H: "hdf5_contract H hf hdat" and fd: "hf (snd w) h5fd = Some j"
    and w: "hdf5_writestr H h5fd (Some name) (Some str) w = (ret, w')"
  shows "(touches j (fst w) (fst w') \<or> w' = w) \<and> hf (snd w') = hf (snd w) \<and>
    (0 \<le> ret \<longrightarrow> hdat (fst w') (snd w') j = (hdat (fst w) (snd w) j)(name \<mapsto> bytes_of_string str))"
proof (cases "h5fd \<le> 0")
  case True
  with w show ?thesis by (simp add: hdf5_writestr_def)
next
  case False
  obtain r s' h' where p: "H5Dput H h5fd name (bytes_of_string str) (fst w) (snd w) = (r, s', h')"
    by (metis prod_cases3)
  with False w have "w' = (s', h')" "0 \<le> ret \<longrightarrow> 0 \<le> r"
    by (auto simp: hdf5_writestr_def split: if_splits)
  moreover have "h5_put_law H hf hdat" using H by (simp add: hdf5_contract_def)
  ultimately show ?thesis using p fd unfolding h5_put_law_def by auto
qed

text \<open>The exit of a conversion whose archive is open, and its end.\<close>

lemma conversion_result_out:
  assumes H: "hdf5_contract H hf hdat" and ij: "i \<noteq> j" and out: "convert_out H srcfd h5fd r v = (ret, w')"
    and v: "hf (snd v) h5fd = Some j"
    and e: "env (fst w) = [] \<Longrightarrow> env (fst v) = []" and r: "conversion_held L hdat w hid i n r v"
  shows "conversion_result H L hf hdat w hid i n ret w'"
proof -
  from convert_out_rests [OF H out]
  have o: "ret = r" "rests hf hdat h5fd v w'" "hdat (fst w') (snd w') j = hdat (fst v) (snd v) j \<or>
      (\<exists>s h k. H5Fclose H h5fd s h = (k, w') \<and> k < 0 \<and> hf h h5fd = Some j)"
    using v by blast+
  have n: "names (fst w') = names (fst v)" "inodes (fst w') i = inodes (fst v) i"
    using o(2) v ij by (auto simp: rests_def)
  have a: "archived L hdat w' hid d cs \<or> env (fst w) \<noteq> [] \<and> close_failed H hf hid w'"
    if "archived L hdat v hid d cs" for d cs
  proof -
    from that obtain k where k: "map_of (names (fst v)) (comps hid) = Some k" by (auto simp: archived_def)
    show ?thesis
    proof (cases "hdat (fst w') (snd w') k = hdat (fst v) (snd v) k")
      case True
      with that k n show ?thesis by (simp add: archived_def)
    next
      case False
      with o(2) v have "k = j" "env (fst v) \<noteq> []" by (auto simp: rests_def)
      with False o(3) e k n(1) show ?thesis by (auto simp: close_failed_def)
    qed
  qed
  show ?thesis using r a unfolding conversion_held_def conversion_result_def o(1) n by blast
qed

lemma convert_finish_env: "convert_finish path tmp hid s = (r, s') \<Longrightarrow> env s = [] \<Longrightarrow> env s' = []"
  by (auto simp: convert_finish_def sys_rename_def sys_stat_def sys_truncate_def fail_with_def set_data_def
      attempt_def split: option.splits prod.splits if_splits)

lemma convert_finish_result:
  assumes H: "hdf5_contract H hf hdat" and ij: "i \<noteq> j"
    and fin: "convert_finish path tmp hid (fst v) = (r, s')"
    and p: "node_at (fst v) (comps path) = Some (i, n)" "\<not> i_dir n"
    and t: "node_at (fst v) (comps tmp) = Some (j, m)"
    and neq: "comps tmp \<noteq> comps hid" "comps path \<noteq> comps hid" "comps path \<noteq> comps tmp"
    and cs: "stored L (hdat (fst v) (snd v) j) cs" "concat cs = i_data n"
      "env (fst w) = [] \<longrightarrow> aligned (i_data n) cs"
      "hdat (fst v) (snd v) j ''algorithm'' = Some (bytes_of_string (''zstd '' @ ZSTD_versionString L))"
    and nm: "names (fst v) = names (fst w)"
  shows "conversion_held L hdat w hid i n r (s', snd v)"
  using convert_finish_cases [OF fin p t neq]
proof
  assume "r < 0 \<and> inodes s' = inodes (fst v) \<and> map_of (names s') (comps hid) = map_of (names (fst v)) (comps hid)"
  with p(1) nm show ?thesis by (simp add: conversion_held_def node_at_Some)
next
  assume a: "converted hid i n j r (fst v) s'"
  have fr: "h5_frame_law hdat" using H by (simp add: hdf5_contract_def)
  have "hdat s' (snd v) j = hdat (fst v) (snd v) j"
    using a ij by (intro hdat_cong [OF fr]) (simp add: converted_def)
  with a cs show ?thesis unfolding conversion_held_def archived_def converted_def by auto
qed

lemma convert_write_result:
  assumes H: "hdf5_contract H hf hdat" and Z: "zstd_contract L"
    and fd: "hf (snd w) h5fd = Some j" "hdat (fst w) (snd w) j = Map.empty"
    and f: "fd_file (fst w) srcfd = Some (\<lparr>of_ino = i, of_off = 0, of_flags = fl\<rparr>, n)" "i \<noteq> j"
    and p: "node_at (fst w) (comps path) = Some (i, n)" "\<not> i_dir n"
    and t: "node_at (fst w) (comps tmp) = Some (j, m)"
    and neq: "comps tmp \<noteq> comps hid" "comps path \<noteq> comps hid" "comps path \<noteq> comps tmp"
    and run: "convert_write H L fuel path DZ_ALG_ZSTD hid tmp srcfd h5fd w = Some (ret, w')"
  shows "conversion_result H L hf hdat w hid i n ret w'"
proof -
  let ?ver = "''zstd '' @ ZSTD_versionString L"
  have fr: "h5_frame_law hdat" using H by (simp add: hdf5_contract_def)
  obtain r1 w1 where w1: "hdf5_writestr H h5fd (Some ''algorithm'') (Some ?ver) w = (r1, w1)"
    by (metis surj_pair)
  note o1 = hdf5_writestr_ok [OF H fd(1) w1]
  have oc1: "only_changes j srcfd (fst w) (fst w1)"
    using o1 by (auto intro: touches_only_changes only_changes_refl)
  have i_src: "inodes (fst w) i = Some n" using p(1) by (simp add: node_at_Some)
  have exit: "conversion_result H L hf hdat w hid i n ret w'"
    if "Some (convert_out H srcfd h5fd r v) = Some (ret, w')" "r < 0" "hf (snd v) h5fd = Some j"
      "inodes (fst v) i = Some n" "names (fst v) = names (fst w)" "env (fst w) = [] \<Longrightarrow> env (fst v) = []" for r v
  proof -
    have "conversion_held L hdat w hid i n r v" using that(2,4,5) by (simp add: conversion_held_def)
    from conversion_result_out [OF H f(2) option.inject [THEN iffD1, OF that(1)] that(3,6) this]
    show ?thesis .
  qed
  show ?thesis
  proof (cases "r1 < 0")
    case True
    have "inodes (fst w1) i = Some n" "names (fst w1) = names (fst w)" "env (fst w) = [] \<Longrightarrow> env (fst w1) = []"
      using oc1 f(2) i_src by (auto simp: only_changes_def)
    moreover have "Some (convert_out H srcfd h5fd r1 w1) = Some (ret, w')"
      using run w1 True by (simp add: convert_write_def alg_version_def)
    ultimately show ?thesis using True o1 fd(1) by (intro exit [of r1 w1]) simp_all
  next
    case False
    have d1: "hdat (fst w1) (snd w1) j = [''algorithm'' \<mapsto> bytes_of_string ?ver]"
      using o1 False fd(2) by simp
    have f1: "fd_file (fst w1) srcfd = Some (\<lparr>of_ino = i, of_off = 0, of_flags = fl\<rparr>, n)"
      using f o1 by (auto simp: fd_file_Some touches_fd_get touches_inode_other)
    obtain jump w2 where w2:
      "convert_loop H L DZ_ALG_ZSTD srcfd h5fd fuel 0 w1 = Some (jump, w2)"
      using run w1 False by (auto simp: convert_write_def alg_version_def split: option.splits)
    have "stored L (hdat (fst w1) (snd w1) j) []" by (rule stored_empty) (simp add: d1)
    from convert_loop_stores [OF H Z _ f1 _ _ this, of h5fd fuel jump w2] f(2) fd(1) o1 w2
    have l: "only_changes j srcfd (fst w1) (fst w2)" "hf (snd w2) h5fd = Some j"
      "\<forall>r. jump = Some r \<longrightarrow> r < 0"
      "jump = None \<longrightarrow> (\<exists>cs. stored L (hdat (fst w2) (snd w2) j) cs \<and> concat cs = i_data n \<and>
         (env (fst w1) = [] \<longrightarrow> aligned (i_data n) cs) \<and>
         hdat (fst w2) (snd w2) j ''algorithm'' = Some (bytes_of_string ?ver))"
      by (auto simp: d1)
    have oc2: "only_changes j srcfd (fst w) (fst w2)" using oc1 l(1) by (rule only_changes_trans)
    then have i2: "inodes (fst w2) i = Some n" and nm2: "names (fst w2) = names (fst w)"
      and e2: "env (fst w) = [] \<Longrightarrow> env (fst w2) = []"
      using f(2) i_src by (auto simp: only_changes_def)
    show ?thesis
    proof (cases jump)
      case (Some r)
      with run w1 False w2 have "Some (convert_out H srcfd h5fd r w2) = Some (ret, w')"
        by (simp add: convert_write_def alg_version_def)
      with l Some i2 nm2 e2 show ?thesis by (intro exit [of r w2]) simp_all
    next
      case None
      with l obtain cs where cs: "stored L (hdat (fst w2) (snd w2) j) cs" "concat cs = i_data n"
        "env (fst w1) = [] \<longrightarrow> aligned (i_data n) cs"
        "hdat (fst w2) (snd w2) j ''algorithm'' = Some (bytes_of_string ?ver)" by blast
      obtain r3 s3 where fin: "convert_finish path tmp hid (fst w2) = (r3, s3)" by fastforce
      have out: "Some (convert_out H srcfd h5fd r3 (s3, snd w2)) = Some (ret, w')"
        using run w1 False w2 None fin by (simp add: convert_write_def alg_version_def)
      have p2: "node_at (fst w2) (comps path) = Some (i, n)"
        using p(1) i2 oc2 by (simp add: node_at_Some only_changes_def)
      obtain m2 where t2: "node_at (fst w2) (comps tmp) = Some (j, m2)"
        using t oc2 by (auto simp: node_at_Some only_changes_def)
      have "env (fst w) = [] \<longrightarrow> env (fst w1) = []" using oc1 by (auto simp: only_changes_def)
      with cs(3) have "env (fst w) = [] \<longrightarrow> aligned (i_data n) cs" by blast
      from convert_finish_result [OF H f(2) fin p2 p(2) t2 neq cs(1,2) this cs(4) nm2]
      have "conversion_held L hdat w hid i n r3 (s3, snd w2)" .
      from conversion_result_out [OF H f(2) option.inject [THEN iffD1, OF out] _ _ this] l(2)
        convert_finish_env [OF fin] e2
      show ?thesis by simp
    qed
  qed
qed

lemma quiet_buildHiddenFile: "buildHiddenFile p s = Some (r, s') \<Longrightarrow> quiet s s'"
  by (auto simp: buildHiddenFile_def bind_eq_Some_iff split: option.splits prod.splits bool.splits
      dest!: quiet_sys_malloc)

text \<open>A call that has only been quiet, and then takes the exit.\<close>

lemma conversion_result_exit:
  assumes H: "hdf5_contract H hf hdat" and src: "inodes (fst w) i = Some n" "i \<notin> ran (hf (snd w))"
    and run: "convert_out H srcfd h5fd r (s', h') = (ret, w')" and r: "r < 0"
    and v: "inodes s' i = Some n" "hf h' = hf (snd w)"
      "map_of (names s') (comps hid) = map_of (names (fst w)) (comps hid)"
  shows "conversion_result H L hf hdat w hid i n ret w'"
proof -
  from convert_out_rests(1) [OF H run] have e: "ret = r" "rests hf hdat h5fd (s', h') w'" by simp_all
  then have "inodes (fst w') i = Some n" "names (fst w') = names s'"
    using src(2) v by (auto simp: rests_def ran_def)
  with r v e(1) show ?thesis by (simp add: conversion_result_def)
qed

lemma conversion_result_env:
  assumes "conversion_result H L hf hdat v hid i n ret w'" "env (fst w) = [] \<Longrightarrow> env (fst v) = []"
    and "map_of (names (fst v)) (comps hid) = map_of (names (fst w)) (comps hid)"
  shows "conversion_result H L hf hdat w hid i n ret w'"
  using assms(1,2) unfolding conversion_result_def assms(3) by blast

text \<open>The source stays open where it is while the temporary file is created.\<close>

lemma source_beside_new:
  assumes f: "fd_file s1 srcfd = Some (f, n)"
    and no: "\<And>m. node_at s1 cs \<noteq> Some (of_ino f, m)" and c: "creates cs j s1 s2"
  shows "of_ino f \<noteq> j" "fd_file s2 srcfd = Some (f, n)" "\<exists>m. node_at s2 cs = Some (j, m)"
proof -
  have i: "fd_get s1 srcfd = Some f" "inodes s1 (of_ino f) = Some n" using f by (simp_all add: fd_file_Some)
  show ij: "of_ino f \<noteq> j"
  proof (cases "node_at s1 cs")
    case None
    with c have "inodes s1 j = None" by (simp add: creates_def)
    with i show ?thesis by auto
  next
    case (Some x)
    with c no show ?thesis by (auto simp: creates_def)
  qed
  have "fds s2 = fds s1" using c by (simp add: creates_def)
  then have "fd_get s2 = fd_get s1" by (rule fd_get_cong)
  with c ij i show "fd_file s2 srcfd = Some (f, n)" by (simp add: fd_file_Some creates_def)
  from c show "\<exists>m. node_at s2 cs = Some (j, m)" by (auto simp: creates_def node_at_Some)
qed

lemma convert_open_result:
  assumes H: "hdf5_contract H hf hdat" and Z: "zstd_contract L"
    and p: "node_at (fst w) (comps path) = Some (i, n)" "\<not> i_dir n"
    and src: "\<And>q. map_of (names (fst w)) q = Some i \<Longrightarrow> q = comps path" "i \<notin> ran (hf (snd w))"
    and neq: "comps tmp \<noteq> comps hid" "comps path \<noteq> comps hid" "comps path \<noteq> comps tmp"
    and run: "convert_open H L junk_h5 fuel path DZ_ALG_ZSTD hid tmp w = Some (ret, w')"
  shows "conversion_result H L hf hdat w hid i n ret w'"
proof -
  have cr: "h5_create_law H hf hdat" using H by (simp add: hdf5_contract_def)
  have i_src: "inodes (fst w) i = Some n" using p(1) by (simp add: node_at_Some)
  obtain srcfd s1 where so: "sys_open path O_RDONLY 0 (fst w) = (srcfd, s1)" by fastforce
  note op = sys_open_rdonly [OF so p(1)]
  then have i1: "inodes s1 = inodes (fst w)" "node_at s1 = node_at (fst w)" "names s1 = names (fst w)"
    by (auto simp: same_files_def intro: same_files_node_at)
  show ?thesis
  proof (cases "srcfd < 0")
    case True
    with run so have "convert_out H srcfd junk_h5 (-1) (s1, snd w) = (ret, w')"
      by (simp add: convert_open_def)
    then show ?thesis
      by (rule conversion_result_exit [OF H i_src src(2)]) (use i1 i_src in simp_all)
  next
    case False
    with op have f: "fd_file s1 srcfd = Some (\<lparr>of_ino = i, of_off = 0, of_flags = O_RDONLY\<rparr>, n)"
      by auto
    obtain fd s2 h2 where cf: "H5Fcreate H tmp s1 (snd w) = (fd, s2, h2)" by (metis prod_cases3)
    from cr cf have law: "if 0 < fd
         then \<exists>j. creates (comps tmp) j s1 s2 \<and> hf (snd w) fd = None \<and> hf h2 = (hf (snd w))(fd \<mapsto> j) \<and>
                hdat s2 h2 j = Map.empty \<and> (\<forall>k. k \<noteq> j \<longrightarrow> hdat s2 h2 k = hdat s1 (snd w) k)
         else spares (comps tmp) s1 s2 \<and> hf h2 = hf (snd w)"
      unfolding h5_create_law_def by (simp split: if_splits)
    have no_tmp: "node_at s1 (comps tmp) \<noteq> Some (i, m)" for m
      using src(1) [of "comps tmp"] neq(3) i1(2) by (auto simp: node_at_Some)
    show ?thesis
    proof (cases "0 < fd")
      case False
      with law have sp: "spares (comps tmp) s1 s2" "hf h2 = hf (snd w)" by simp_all
      have "convert_out H srcfd (-1) (-1) (s2, h2) = (ret, w')"
        using run so \<open>\<not> srcfd < 0\<close> cf False by (simp add: convert_open_def hdf5_open_def)
      moreover have "inodes s2 i = Some n" "map_of (names s2) (comps hid) = map_of (names (fst w)) (comps hid)"
        using sp(1) no_tmp i1(1,3) i_src neq(1) unfolding spares_def by simp_all
      ultimately show ?thesis
        using sp(2) by (elim conversion_result_exit [OF H i_src src(2)]) simp_all
    next
      case True
      with law obtain j where c: "creates (comps tmp) j s1 s2" and h: "hf h2 fd = Some j"
        "hdat s2 h2 j = Map.empty" by auto
      have "\<And>m. node_at s1 (comps tmp) \<noteq> Some (of_ino \<lparr>of_ino = i, of_off = 0, of_flags = O_RDONLY\<rparr>, m)"
        using no_tmp by simp
      note nw = source_beside_new [OF f this c]
      have ij: "i \<noteq> j" using nw(1) by simp
      from nw(3) obtain m where t: "node_at s2 (comps tmp) = Some (j, m)" by blast
      note f2 = nw(2)
      have i2: "inodes s2 i = Some n" using f2 by (simp add: fd_file_Some)
      have p2: "node_at s2 (comps path) = Some (i, n)"
        using p(1) i1(2) i2 c neq(3) by (simp add: node_at_Some creates_def) (metis i1(2) node_at_Some)
      have "convert_write H L fuel path DZ_ALG_ZSTD hid tmp srcfd fd (s2, h2) = Some (ret, w')"
        using run so \<open>\<not> srcfd < 0\<close> cf True by (simp add: convert_open_def hdf5_open_def)
      then have "conversion_result H L hf hdat (s2, h2) hid i n ret w'"
        using h f2 ij p2 p(2) t neq by (intro convert_write_result [OF H Z]) simp_all
      moreover have "env s2 = []" if "env (fst w) = []"
        using that op c by (auto simp: same_files_def creates_def)
      moreover have "map_of (names s2) (comps hid) = map_of (names (fst w)) (comps hid)"
        using c i1(3) neq(1) by (simp add: creates_def)
      ultimately show ?thesis by (auto elim: conversion_result_env)
    qed
  qed
qed

lemma convert2h5_contents:
  assumes "hdf5_contract H hf hdat" "zstd_contract L" "cstring path"
    and "node_at s (comps path) = Some (i, n)" "\<not> i_dir n"
    and "\<And>q. map_of (names s) q = Some i \<Longrightarrow> q = comps path" "i \<notin> ran (hf h)"
    and "convert2h5 H L junk_src junk_h5 fuel (Some path) DZ_ALG_ZSTD (s, h) = Some (ret, w')"
  shows "conversion_result H L hf hdat (s, h) (hidden_name path) i n ret w'"
proof -
  note H = assms(1) and run = assms(8)
  have i_src: "inodes (fst (s, h)) i = Some n" using assms(4) by (simp add: node_at_Some)
  have "i \<notin> ran (hf (snd (s, h)))" using assms(7) by simp
  note exit = conversion_result_exit [OF H i_src this]
  show ?thesis
  proof (rule buildHiddenFile_cases [OF assms(3), of s])
    fix s1
    assume b: "buildHiddenFile path s = Some (None, s1)"
    then have "quiet s s1" by (rule quiet_buildHiddenFile)
    with b run i_src show ?thesis
      by (auto simp: convert2h5_def conversion_result_def quiet_def)
  next
    fix s1
    assume b: "buildHiddenFile path s = Some (Some (hidden_name path), s1)" and sl: "SLASH \<in> set path"
    then have q1: "quiet s s1" by (intro quiet_buildHiddenFile)
    obtain st s2 where st: "sys_stat (hidden_name path) s1 = (st, s2)" by fastforce
    then have q2: "quiet s s2" using q1 by (blast intro: quiet_sys_stat quiet_trans)
    show ?thesis
    proof (cases st)
      case (Some x)
      with run b st have "convert_out H junk_src junk_h5 (-1) (s2\<lparr>errno := EEXIST\<rparr>, h) = (ret, w')"
        by (simp add: convert2h5_def)
      then show ?thesis by (rule exit) (use i_src q2 in \<open>simp_all add: quiet_def\<close>)
    next
      case None
      obtain a s3 where m: "sys_malloc s2 = (a, s3)" by fastforce
      then have q3: "quiet s s3" using q2 by (blast intro: quiet_sys_malloc quiet_trans)
      obtain st' s4 where st': "sys_stat (tmp_name (hidden_name path)) s3 = (st', s4)" by fastforce
      then have q4: "quiet s s4" using q3 by (blast intro: quiet_sys_stat quiet_trans)
      show ?thesis
      proof (cases st')
        case (Some x)
        with run b st None m st'
        have "convert_out H junk_src junk_h5 (-1) (s4\<lparr>errno := EEXIST\<rparr>, h) = (ret, w')"
          by (simp add: convert2h5_def split: bool.splits)
        then show ?thesis by (rule exit) (use i_src q4 in \<open>simp_all add: quiet_def\<close>)
      next
        case n: None
        have "convert_open H L junk_h5 fuel path DZ_ALG_ZSTD (hidden_name path)
            (tmp_name (hidden_name path)) (s4, h) = Some (ret, w')"
          using run b st None m st' n by (simp add: convert2h5_def split: bool.splits)
        moreover have "node_at s4 = node_at s" "names s4 = names s"
          using q4 by (simp_all add: quiet_node_at quiet_def)
        ultimately have "conversion_result H L hf hdat (s4, h) (hidden_name path) i n ret w'"
          using assms names_distinct [OF sl] by (intro convert_open_result) (auto dest: sym)
        then show ?thesis using q4 by (elim conversion_result_env) (auto simp: quiet_def)
      qed
    qed
  qed
qed

text \<open>C1. Whatever call fails, and whenever: when \<open>convert2h5\<close> returns, it has reported an error, with
  the source untouched and no new hidden file; or the hidden file holds the algorithm's name and
  compressed pieces that make up the old contents, in order, which without short reads are the
  4 MiB blocks that \<open>h5fd_pread\<close> expects; or the call that failed is the last one, the \<^verbatim>\<open>H5Fclose\<close> of
  the hidden file, whose result the code ignores. If it reports success the source has its old
  size and reads as zeros. Without a failing call there is no third case. This holds for every
  value of the uninitialised variables \<^verbatim>\<open>srcfd\<close> and \<^verbatim>\<open>h5fd\<close>, which are closed on the early exits, as
  long as the source is not itself an HDF5 file that is open at the time, and has one name.\<close>

theorem convert2h5_keeps_contents:
  assumes "hdf5_contract H hf hdat" "zstd_contract L" "cstring path"
    and "node_at s (comps path) = Some (i, n)" "\<not> i_dir n"
    and "\<And>q. map_of (names s) q = Some i \<Longrightarrow> q = comps path" "i \<notin> ran (hf h)"
    and "convert2h5 H L junk_src junk_h5 fuel (Some path) DZ_ALG_ZSTD (s, h) = Some (ret, w')"
  shows "conversion_result H L hf hdat (s, h) (hidden_name path) i n ret w'"
  using assms by (rule convert2h5_contents)

text \<open>A run, from the file \<^verbatim>\<open>/f\<close> with three bytes.\<close>

definition demo_inode :: inode where
  "demo_inode = \<lparr>i_dir = False, i_perm = 0x1A4, i_data = [1, 2, 3], i_mtime = 0\<rparr>"

definition demo_after :: "h5sim st" where
  "demo_after =
     (\<lparr>names = [([], 0), ([''f''], 1), ([''.f.DZF''], 2)],
       inodes = [0 \<mapsto> \<lparr>i_dir = True, i_perm = 0x1ED, i_data = [], i_mtime = 0\<rparr>,
                 2 \<mapsto> \<lparr>i_dir = False, i_perm = 0x1A4, i_data = [], i_mtime = 7\<rparr>,
                 1 \<mapsto> \<lparr>i_dir = False, i_perm = 0x1A4, i_data = replicate 3 0, i_mtime = 7\<rparr>],
       nextino = 3, fds = [Some \<lparr>of_ino = 0, of_off = 0, of_flags = 0\<rparr>, None],
       errno = ENOENT, env = [], now = 7,
       vfs = \<lparr>f_bsize = 4096, f_blocks = 1000, f_bfree = 500, f_files = 2\<rparr>\<rparr>,
      \<lparr>h5_ids = [],
       h5_sets = (\<lambda>i. Map.empty)
         (2 := [''algorithm'' \<mapsto> bytes_of_string ''zstd 1.4.5'', block_name 0 \<mapsto> [0xFD, 1, 2, 3]])\<rparr>)"

lemma demo_conversion:
  "convert2h5 sim_hdf5 sim_codec 0 0 (Suc (Suc 0)) (Some ''/f'') DZ_ALG_ZSTD
     (demo_os [1, 2, 3], demo_h5) = Some (0, demo_after)"
  by (simp add: convert2h5_def buildHiddenFile_normal demo_os_def demo_h5_def demo_after_def
      convert_out_def os_eval sim_eval comps_demo convert_open_def Let_def hdf5_open_def
      convert_write_def alg_version_def hdf5_writestr_def compress_data_def
      compressdata_zstd_def hdf5_writedata_def uninit_out_def as_int_def convert_finish_def)

lemma demo_node: "node_at (demo_os [1, 2, 3]) (comps ''/f'') = Some (1, demo_inode)"
  by (simp add: comps_demo node_at_def demo_os_def demo_inode_def)

lemma demo_only_name: "map_of (names (demo_os d)) q = Some 1 \<Longrightarrow> q = comps ''/f''"
  by (simp add: comps_demo demo_os_def split: if_splits)

lemma convert2h5_keeps_contents_witness:
  "conversion_result sim_hdf5 sim_codec sim_files sim_data (demo_os [1, 2, 3], demo_h5) (hidden_name ''/f'') 1
     demo_inode 0 demo_after"
  by (rule convert2h5_keeps_contents [OF sim_hdf5_contract sim_codec_zstd _ demo_node _
        demo_only_name _ demo_conversion])
    (simp_all add: demo_inode_def demo_h5_def)

lemma sim_close_never_fails: "\<not> close_failed sim_hdf5 sim_files hid w"
  by (auto simp: close_failed_def sim_hdf5_simps)

section \<open>Refusals and termination\<close>

lemma sys_stat_normal:
  "env s = [] \<Longrightarrow> node_at s (comps p) = Some (i, n) \<Longrightarrow> sys_stat p s = (Some (stat_of i n), s)"
  "env s = [] \<Longrightarrow> node_at s (comps p) = None \<Longrightarrow>
    sys_stat p s = (None, s\<lparr>errno := missing_errno s (comps p)\<rparr>)"
  by (simp_all add: sys_stat_def fail_with_def)

lemma sys_malloc_normal: "env s = [] \<Longrightarrow> sys_malloc s = (True, s)"
  by (simp add: sys_malloc_def)

text \<open>C23. A path whose hidden file, or whose temporary file, exists is refused with
  \<^verbatim>\<open>EEXIST\<close>, and the exit then closes the descriptor whose number is in the uninitialised
  variable \<^verbatim>\<open>srcfd\<close>: a descriptor of the caller's program is lost. Since an interrupted or failed
  conversion leaves its temporary file behind, the path stays refused from then on.\<close>

theorem convert2h5_refuses:
  assumes "cstring path" "SLASH \<in> set path" "env s = []"
    and "node_at s (comps (hidden_name path)) \<noteq> None \<or>
         node_at s (comps (tmp_name (hidden_name path))) \<noteq> None"
    and "fd_get s junk_src = Some f" "0 < junk_src" "junk_h5 \<le> 0"
  shows "\<exists>s'. convert2h5 H L junk_src junk_h5 fuel (Some path) m (s, h) = Some (-1, (s', h)) \<and>
    names s' = names s \<and> inodes s' = inodes s \<and> errno s' = EEXIST \<and> fd_get s' junk_src = None"
proof -
  let ?s = "s\<lparr>errno := EEXIST, fds := (fds s)[nat junk_src := None]\<rparr>"
  have b: "buildHiddenFile path s = Some (Some (hidden_name path), s)"
    using assms(1-3) by (simp add: buildHiddenFile_normal)
  have c: "sys_close junk_src (s\<lparr>errno := EEXIST\<rparr>) = (0, ?s)"
    using assms(3,5) by (simp add: sys_close_def)
  have "fd_get ?s junk_src = None"
    using assms(5) by (auto simp: fd_get_def split: if_splits)
  moreover have "convert2h5 H L junk_src junk_h5 fuel (Some path) m (s, h) = Some (-1, (?s, h))"
  proof (cases "node_at s (comps (hidden_name path))")
    case (Some x)
    then obtain i n where "node_at s (comps (hidden_name path)) = Some (i, n)" by (cases x) auto
    then show ?thesis using assms(3,6,7) b c
      by (simp add: convert2h5_def sys_stat_normal convert_out_def)
  next
    case None
    with assms(4) obtain i n
      where t: "node_at s (comps (tmp_name (hidden_name path))) = Some (i, n)" by auto
    define s1 where "s1 = s\<lparr>errno := missing_errno s (comps (hidden_name path))\<rparr>"
    have st: "sys_stat (hidden_name path) s = (None, s1)" using None assms(3)
      by (simp add: sys_stat_normal s1_def)
    have "node_at s1 (comps (tmp_name (hidden_name path))) = Some (i, n)"
      using t by (simp add: s1_def)
    then have "sys_stat (tmp_name (hidden_name path)) s1 = (Some (stat_of i n), s1)"
      using assms(3) by (simp add: sys_stat_normal s1_def)
    then show ?thesis using assms(3,6,7) b st c s1_def
      by (simp add: convert2h5_def sys_malloc_normal convert_out_def)
  qed
  ultimately show ?thesis by (intro exI [of _ ?s]) simp
qed

lemma convert2h5_refuses_witness:
  "\<exists>s'. convert2h5 sim_hdf5 sim_codec 1 0 9 (Some ''/f'') DZ_ALG_ZSTD
      (fst demo_after\<lparr>fds := [None, Some \<lparr>of_ino = 1, of_off = 0, of_flags = 0\<rparr>]\<rparr>, demo_h5) =
        Some (-1, (s', demo_h5)) \<and>
    names s' = names (fst demo_after) \<and> inodes s' = inodes (fst demo_after) \<and>
    errno s' = EEXIST \<and> fd_get s' 1 = None"
  using convert2h5_refuses [of "''/f''"
      "fst demo_after\<lparr>fds := [None, Some \<lparr>of_ino = 1, of_off = 0, of_flags = 0\<rparr>]\<rparr>" 1
      "\<lparr>of_ino = 1, of_off = 0, of_flags = 0\<rparr>" 0 sim_hdf5 sim_codec 9 DZ_ALG_ZSTD demo_h5]
  by (simp add: demo_after_def comps_demo node_at_def fd_get_def)

lemma convert_open_returns:
  assumes H: "hdf5_contract H hf hdat" and Z: "zstd_contract L"
    and p: "node_at s (comps path) = Some (i, n)" and u: "\<And>q. map_of (names s) q = Some i \<Longrightarrow> q = comps path"
    and neq: "comps tmp \<noteq> comps path" and fuel: "length (i_data n) < fuel"
  shows "convert_open H L junk_h5 fuel path DZ_ALG_ZSTD hid tmp (s, h) \<noteq> None"
proof -
  have cr: "h5_create_law H hf hdat" using H by (simp add: hdf5_contract_def)
  obtain srcfd s5 where so: "sys_open path O_RDONLY 0 s = (srcfd, s5)" by fastforce
  note op = sys_open_rdonly [OF so p]
  obtain fd s6 h6 where cf: "H5Fcreate H tmp s5 h = (fd, s6, h6)" by (metis prod_cases3)
  from cr cf have law: "0 < fd \<Longrightarrow> \<exists>j. creates (comps tmp) j s5 s6 \<and>
      hf h6 = (hf h)(fd \<mapsto> j) \<and> hdat s6 h6 j = Map.empty"
    unfolding h5_create_law_def by metis
  show ?thesis
  proof (cases "srcfd < 0 \<or> fd \<le> 0")
    case True
    with so cf show ?thesis
      by (auto simp: convert_open_def hdf5_open_def simp del: not_None_eq)
  next
    case False
    let ?f = "\<lparr>of_ino = i, of_off = 0, of_flags = O_RDONLY\<rparr>"
    from False law obtain j where c: "creates (comps tmp) j s5 s6" and h6: "hf h6 fd = Some j" by auto
    have f5: "fd_file s5 srcfd = Some (?f, n)" using op False by auto
    have "node_at s5 = node_at s" using op by (auto intro: same_files_node_at)
    then have "\<And>m. node_at s5 (comps tmp) \<noteq> Some (of_ino ?f, m)"
      using u [of "comps tmp"] neq by (auto simp: node_at_Some)
    note nw = source_beside_new [OF f5 this c]
    obtain r7 w7 where w7: "hdf5_writestr H fd (Some ''algorithm'')
        (Some (''zstd '' @ ZSTD_versionString L)) (s6, h6) = (r7, w7)" by (metis surj_pair)
    from hdf5_writestr_ok [OF H _ w7] h6
    have "touches j s6 (fst w7) \<or> w7 = (s6, h6)" "hf (snd w7) fd = Some j" by simp_all
    moreover from this(1) nw(1,2) have "fd_file (fst w7) srcfd = Some (?f, n)"
      by (auto simp: fd_file_Some touches_fd_get touches_inode_other)
    ultimately have "convert_loop H L DZ_ALG_ZSTD srcfd fd fuel 0 w7 \<noteq> None"
      using fuel nw(1) convert_loop_fuel [OF H Z, of w7 fd j srcfd ?f n fuel 0] by auto
    then show ?thesis using so cf False w7
      by (auto simp: convert_open_def hdf5_open_def convert_write_def alg_version_def
          simp del: not_None_eq split: option.split prod.split)
  qed
qed

text \<open>C24. The conversion ends: one unit of fuel for each byte of the source, and one more,
  is enough, when no system call fails.\<close>

theorem convert2h5_returns:
  assumes "hdf5_contract H hf hdat" "zstd_contract L" "cstring path" "env s = []"
    and "node_at s (comps path) = Some (i, n)" "\<not> i_dir n"
    and "\<And>q. map_of (names s) q = Some i \<Longrightarrow> q = comps path"
    and "length (i_data n) < fuel"
  shows "convert2h5 H L junk_src junk_h5 fuel (Some path) DZ_ALG_ZSTD (s, h) \<noteq> None"
proof (cases "SLASH \<in> set path")
  case False
  with assms(3,4) show ?thesis by (simp add: convert2h5_def buildHiddenFile_normal)
next
  case sl: True
  let ?tmp = "tmp_name (hidden_name path)"
  have b: "buildHiddenFile path s = Some (Some (hidden_name path), s)"
    using assms(3,4) sl by (simp add: buildHiddenFile_normal)
  obtain st s2 where st: "sys_stat (hidden_name path) s = (st, s2)" by fastforce
  then have q2: "quiet s s2" by (rule quiet_sys_stat)
  then have e2: "env s2 = []" using assms(4) by (auto simp: quiet_def)
  obtain st' s4 where st': "sys_stat ?tmp s2 = (st', s4)" by fastforce
  then have q4: "quiet s s4" using q2 by (blast intro: quiet_sys_stat quiet_trans)
  have "node_at s4 (comps path) = Some (i, n)" "names s4 = names s"
    using assms(5) quiet_node_at [OF q4] q4 [unfolded quiet_def] by simp_all
  then have opened: "convert_open H L junk_h5 fuel path DZ_ALG_ZSTD (hidden_name path) ?tmp (s4, h) \<noteq> None"
    using assms(7,8) names_distinct(2) [OF sl] by (intro convert_open_returns [OF assms(1,2)]) auto
  show ?thesis
    using b st e2 st' opened
    by (auto simp: convert2h5_def sys_malloc_normal simp del: not_None_eq split: option.split)
qed

lemma convert2h5_returns_witness:
  "convert2h5 sim_hdf5 sim_codec 0 0 4 (Some ''/f'') DZ_ALG_ZSTD (demo_os [1, 2, 3], demo_h5) \<noteq> None"
  by (rule convert2h5_returns [OF sim_hdf5_contract sim_codec_zstd _ _ demo_node _ demo_only_name])
    (simp_all add: demo_inode_def demo_os_def)

end
