(* ===== verification/Frame.thy ===== *)
theory Frame
  imports Convert
begin

text \<open>
  What a conversion leaves alone: \<open>convert2h5\<close> changes no name but the hidden and the temporary one
  of its file, no file but the source and the one it creates, and no datasets of other compressed
  files, whatever fails. It also keeps the file system free of hard links and dangling names.
\<close>

section \<open>Leaving alone\<close>

definition wf_fs :: "os \<Rightarrow> bool" where
  \<comment> \<open>each name has an inode of its own\<close>
  "wf_fs s \<longleftrightarrow> (\<forall>q i. map_of (names s) q = Some i \<longrightarrow> inodes s i \<noteq> None) \<and>
     (\<forall>q q' i. map_of (names s) q = Some i \<longrightarrow> map_of (names s) q' = Some i \<longrightarrow> q = q')"

definition keeps_kinds :: "os \<Rightarrow> os \<Rightarrow> bool" where
  "keeps_kinds s s' \<longleftrightarrow>
     (\<forall>k n. inodes s k = Some n \<longrightarrow> (\<exists>n'. inodes s' k = Some n' \<and> i_dir n' = i_dir n))"

definition binds_regular :: "os \<Rightarrow> os \<Rightarrow> bool" where
  \<comment> \<open>a name that is new, or has a new inode, belongs to a regular file\<close>
  "binds_regular s s' \<longleftrightarrow>
     (\<forall>q i. map_of (names s') q = Some i \<longrightarrow>
        map_of (names s) q = Some i \<or> (\<exists>n. inodes s' i = Some n \<and> \<not> i_dir n))"

definition leaves ::
    "'h h5data \<Rightarrow> string list set \<Rightarrow> nat set \<Rightarrow> 'h st \<Rightarrow> 'h st \<Rightarrow> bool" where
  \<comment> \<open>names outside \<open>Q\<close> and inodes outside \<open>K\<close> are left alone\<close>
  "leaves hdat Q K w w' \<longleftrightarrow>
     (\<forall>q. q \<notin> Q \<longrightarrow> map_of (names (fst w')) q = map_of (names (fst w)) q) \<and>
     (\<forall>k n. inodes (fst w) k = Some n \<longrightarrow> k \<notin> K \<longrightarrow>
        inodes (fst w') k = Some n \<and> hdat (fst w') (snd w') k = hdat (fst w) (snd w) k) \<and>
     keeps_kinds (fst w) (fst w') \<and> binds_regular (fst w) (fst w') \<and>
     (wf_fs (fst w) \<longrightarrow> wf_fs (fst w')) \<and> (env (fst w) = [] \<longrightarrow> env (fst w') = [])"

lemma leavesD:
  assumes "leaves hdat Q K w w'"
  shows "q \<notin> Q \<Longrightarrow> map_of (names (fst w')) q = map_of (names (fst w)) q"
    and "inodes (fst w) k = Some n \<Longrightarrow> k \<notin> K \<Longrightarrow> inodes (fst w') k = Some n"
    and "inodes (fst w) k = Some n \<Longrightarrow> k \<notin> K \<Longrightarrow> hdat (fst w') (snd w') k = hdat (fst w) (snd w) k"
    and "keeps_kinds (fst w) (fst w')" "binds_regular (fst w) (fst w')"
    and "wf_fs (fst w) \<Longrightarrow> wf_fs (fst w')" "env (fst w) = [] \<Longrightarrow> env (fst w') = []"
  using assms by (auto simp: leaves_def)

lemma keeps_kinds_trans: "keeps_kinds s t \<Longrightarrow> keeps_kinds t u \<Longrightarrow> keeps_kinds s u"
  unfolding keeps_kinds_def by (force intro: exI)

lemma binds_regular_trans:
  assumes "binds_regular s t" "binds_regular t u" "keeps_kinds t u"
  shows "binds_regular s u"
  unfolding binds_regular_def
proof (intro allI impI)
  fix q i
  assume "map_of (names u) q = Some i"
  then consider "map_of (names t) q = Some i" | "\<exists>n. inodes u i = Some n \<and> \<not> i_dir n"
    using assms(2) unfolding binds_regular_def by blast
  then show "map_of (names s) q = Some i \<or> (\<exists>n. inodes u i = Some n \<and> \<not> i_dir n)"
  proof cases
    case 1
    then consider "map_of (names s) q = Some i" | n where "inodes t i = Some n" "\<not> i_dir n"
      using assms(1) unfolding binds_regular_def by blast
    then show ?thesis
    proof cases
      case (2 n)
      with assms(3) obtain n' where "inodes u i = Some n'" "i_dir n' = i_dir n"
        unfolding keeps_kinds_def by blast
      with 2 show ?thesis by simp
    qed simp
  qed simp
qed

lemma leaves_trans:
  assumes a: "leaves hdat Q K w v" and b: "leaves hdat Q K' v u"
    and K: "\<And>k n. k \<in> K' \<Longrightarrow> k \<notin> K \<Longrightarrow> inodes (fst w) k = Some n \<Longrightarrow> False"
  shows "leaves hdat Q K w u"
  unfolding leaves_def
proof (intro conjI allI impI)
  fix q assume "q \<notin> Q"
  with leavesD(1) [OF a] leavesD(1) [OF b] show "map_of (names (fst u)) q = map_of (names (fst w)) q" by simp
next
  fix k n assume k: "inodes (fst w) k = Some n" "k \<notin> K"
  then have k': "k \<notin> K'" using K by blast
  note v = leavesD(2,3) [OF a k]
  show "inodes (fst u) k = Some n" using v(1) k' by (rule leavesD(2) [OF b])
  show "hdat (fst u) (snd u) k = hdat (fst w) (snd w) k" using leavesD(3) [OF b v(1) k'] v(2) by simp
next
  show "keeps_kinds (fst w) (fst u)"
    using leavesD(4) [OF a] leavesD(4) [OF b] by (rule keeps_kinds_trans)
  show "binds_regular (fst w) (fst u)"
    using leavesD(5) [OF a] leavesD(5) [OF b] leavesD(4) [OF b] by (rule binds_regular_trans)
qed (use leavesD(6,7) [OF a] leavesD(6,7) [OF b] in simp_all)

lemma leaves_wider:
  "leaves hdat Q K w w' \<Longrightarrow> Q \<subseteq> Q' \<Longrightarrow> K \<subseteq> K' \<Longrightarrow> leaves hdat Q' K' w w'"
  unfolding leaves_def by blast

text \<open>Steps that keep the names.\<close>

lemma leaves_names:
  assumes "names s' = names (fst w)" "keeps_kinds (fst w) s'"
    and "\<And>k. k \<notin> K \<Longrightarrow> inodes s' k = inodes (fst w) k"
    and "\<And>k. k \<notin> K \<Longrightarrow> hdat s' h' k = hdat (fst w) (snd w) k"
    and "env (fst w) = [] \<Longrightarrow> env s' = []"
  shows "leaves hdat Q K w (s', h')"
  unfolding leaves_def
proof (intro conjI)
  show "wf_fs (fst w) \<longrightarrow> wf_fs (fst (s', h'))"
    using assms(1,2) unfolding wf_fs_def keeps_kinds_def fst_conv by (metis not_None_eq)
qed (use assms in \<open>auto simp: binds_regular_def\<close>)

lemma keeps_kinds_refl [simp]: "keeps_kinds s s"
  by (simp add: keeps_kinds_def)

lemma keeps_kinds_same: "inodes s' = inodes s \<Longrightarrow> keeps_kinds s s'"
  by (simp add: keeps_kinds_def)

lemma keeps_kinds_touches: "touches i s s' \<Longrightarrow> keeps_kinds s s'"
  by (auto simp: keeps_kinds_def dest!: touches_inode)

lemma leaves_same_files:
  assumes "h5_frame_law hdat" "same_files (fst w) s'"
  shows "leaves hdat Q K w (s', snd w)"
proof (rule leaves_names)
  show "hdat s' (snd w) k = hdat (fst w) (snd w) k" for k
    using assms(2) by (intro hdat_cong [OF assms(1)]) (simp add: same_files_def)
qed (use assms(2) in \<open>auto simp: same_files_def intro: keeps_kinds_same\<close>)

lemma leaves_quiet: "h5_frame_law hdat \<Longrightarrow> quiet (fst w) s' \<Longrightarrow> leaves hdat Q K w (s', snd w)"
  by (intro leaves_same_files quiet_same_files)

lemma leaves_refl: "h5_frame_law hdat \<Longrightarrow> leaves hdat Q K w w"
  using leaves_quiet [of hdat w "fst w"] by simp

section \<open>The library\<close>

lemma put_leaves:
  assumes "hdf5_contract H hf hdat" "H5Dput H fd name bs (fst w) (snd w) = (r, w')" "hf (snd w) fd = Some j"
  shows "leaves hdat Q {j} w w' \<and> hf (snd w') = hf (snd w)"
proof -
  obtain s' h' where w': "w' = (s', h')" by fastforce
  have "h5_put_law H hf hdat" using assms(1) by (simp add: hdf5_contract_def)
  with assms(2,3) w' have t: "touches j (fst w) s'" "hf h' = hf (snd w)"
    "\<And>k. k \<noteq> j \<Longrightarrow> hdat s' h' k = hdat (fst w) (snd w) k"
    unfolding h5_put_law_def by blast+
  from t(1) have "leaves hdat Q {j} w (s', h')"
    by (intro leaves_names) (auto simp: touches_def t(3) intro: keeps_kinds_touches)
  with t(2) w' show ?thesis by simp
qed

lemma writestr_leaves:
  assumes "hdf5_contract H hf hdat" "hf (snd w) fd = Some j"
    and "hdf5_writestr H fd (Some name) (Some str) w = (r, w')"
  shows "leaves hdat Q {j} w w' \<and> hf (snd w') = hf (snd w)"
proof -
  have fr: "h5_frame_law hdat" using assms(1) by (simp add: hdf5_contract_def)
  from assms(3) have "w' = w \<or> (\<exists>r1. H5Dput H fd name (bytes_of_string str) (fst w) (snd w) = (r1, w'))"
    by (auto simp: hdf5_writestr_def split: if_splits prod.splits)
  then show ?thesis
    using put_leaves [where w = w, OF assms(1) _ assms(2)] leaves_refl [OF fr, of Q "{j}" w] by blast
qed

lemma writedata_leaves:
  assumes "hdf5_contract H hf hdat" "hf (snd w) fd = Some j"
    and "hdf5_writedata H fd name d len w = (r, w')"
  shows "leaves hdat Q {j} w w' \<and> hf (snd w') = hf (snd w)"
proof -
  have fr: "h5_frame_law hdat" using assms(1) by (simp add: hdf5_contract_def)
  from assms(3) have "w' = w \<or> (\<exists>nm bs r1. H5Dput H fd nm bs (fst w) (snd w) = (r1, w'))"
    by (auto simp: hdf5_writedata_def split: if_splits option.splits prod.splits)
  then show ?thesis
    using put_leaves [where w = w, OF assms(1) _ assms(2)] leaves_refl [OF fr, of Q "{j}" w] by blast
qed

text \<open>Creation, where it succeeds and where it fails.\<close>

lemma wf_fs_bind:
  assumes "wf_fs s" "\<And>q. q \<noteq> cs \<Longrightarrow> map_of (names s') q = map_of (names s) q"
    and "case map_of (names s') cs of None \<Rightarrow> True
      | Some i \<Rightarrow> map_of (names s) cs = Some i \<or> inodes s i = None \<and> inodes s' i \<noteq> None"
    and "keeps_kinds s s'"
  shows "wf_fs s'"
proof -
  have old: "inodes s i \<noteq> None \<and> inodes s' i \<noteq> None" if "map_of (names s) q = Some i" for q i
    using assms(1,4) that unfolding wf_fs_def keeps_kinds_def by blast
  have one: "q = q'" if "map_of (names s) q = Some i" "map_of (names s) q' = Some i" for q q' i
    using assms(1) that unfolding wf_fs_def by blast
  have at: "map_of (names s) cs = Some i \<or> inodes s i = None \<and> inodes s' i \<noteq> None"
    if "map_of (names s') cs = Some i" for i
    using assms(3) that by simp
  show ?thesis
    unfolding wf_fs_def
  proof (intro conjI allI impI)
    fix q i assume "map_of (names s') q = Some i"
    then show "inodes s' i \<noteq> None" using assms(2) at old by (cases "q = cs") metis+
  next
    fix q q' i assume "map_of (names s') q = Some i" "map_of (names s') q' = Some i"
    then show "q = q'" using assms(2) at old one by (cases "q = cs"; cases "q' = cs") metis+
  qed
qed

lemma binds_regular_bind:
  assumes "\<And>q. q \<noteq> cs \<Longrightarrow> map_of (names s') q = map_of (names s) q"
    and "case map_of (names s') cs of None \<Rightarrow> True
      | Some i \<Rightarrow> map_of (names s) cs = Some i \<or> (\<exists>n. inodes s' i = Some n \<and> \<not> i_dir n)"
  shows "binds_regular s s'"
  unfolding binds_regular_def
proof (intro allI impI)
  fix q i assume "map_of (names s') q = Some i"
  then show "map_of (names s) q = Some i \<or> (\<exists>n. inodes s' i = Some n \<and> \<not> i_dir n)"
    using assms by (cases "q = cs") auto
qed

definition bound :: "os \<Rightarrow> string list \<Rightarrow> nat set" where
  "bound s cs = {k. \<exists>m. node_at s cs = Some (k, m)}"

lemma spares_leaves:
  assumes sp: "spares cs (fst w) s'"
    and hd: "\<And>k. inodes (fst w) k \<noteq> None \<Longrightarrow> (\<forall>m. node_at (fst w) cs \<noteq> Some (k, m)) \<Longrightarrow>
      hdat s' h' k = hdat (fst w) (snd w) k"
  shows "leaves hdat {cs} (bound (fst w) cs) w (s', h')"
proof -
  let ?s = "fst w"
  have kk: "keeps_kinds ?s s'"
    unfolding keeps_kinds_def
  proof (intro allI impI)
    fix k n assume "inodes ?s k = Some n"
    with sp obtain d m where "inodes s' k = Some (n\<lparr>i_data := d, i_mtime := m\<rparr>)"
      unfolding spares_def by blast
    then show "\<exists>n'. inodes s' k = Some n' \<and> i_dir n' = i_dir n" by simp
  qed
  have "wf_fs s'" if "wf_fs ?s"
    using that _ _ kk by (rule wf_fs_bind) (use sp in \<open>auto simp: spares_def split: option.splits\<close>)
  moreover have "binds_regular ?s s'"
    by (rule binds_regular_bind [of cs]) (use sp in \<open>auto simp: spares_def split: option.splits\<close>)
  ultimately show ?thesis
    using sp kk hd unfolding leaves_def spares_def bound_def by auto
qed

lemma creates_binding:
  assumes "creates cs j s s'"
  shows "\<exists>m. inodes s' j = Some m \<and> \<not> i_dir m \<and> node_at s' cs = Some (j, m)"
    and "inodes s j = None \<or> j \<in> bound s cs \<and> map_of (names s) cs = Some j"
    and "inodes s j = Some n \<Longrightarrow> \<not> i_dir n"
proof -
  show "\<exists>m. inodes s' j = Some m \<and> \<not> i_dir m \<and> node_at s' cs = Some (j, m)"
    using assms by (auto simp: creates_def node_at_Some)
  consider "inodes s j = None" "node_at s cs = None"
    | n0 where "inodes s j = Some n0" "\<not> i_dir n0" "node_at s cs = Some (j, n0)"
    using assms by (auto simp: creates_def node_at_Some split: if_splits)
  then show "inodes s j = None \<or> j \<in> bound s cs \<and> map_of (names s) cs = Some j"
    and "inodes s j = Some n \<Longrightarrow> \<not> i_dir n"
    by (cases; simp add: bound_def node_at_Some)+
qed

lemma creates_leaves:
  assumes c: "creates cs j (fst w) s'" and hd: "\<And>k. k \<noteq> j \<Longrightarrow> hdat s' h' k = hdat (fst w) (snd w) k"
  shows "leaves hdat {cs} (bound (fst w) cs) w (s', h')"
proof -
  let ?s = "fst w"
  note cb = creates_binding [OF c]
  from cb(1) obtain m where m: "inodes s' j = Some m" "\<not> i_dir m" by blast
  have ks: "\<And>k. k \<noteq> j \<Longrightarrow> inodes s' k = inodes ?s k" using c by (simp add: creates_def)
  have kj: "k \<noteq> j" if "inodes ?s k = Some n" "k \<notin> bound ?s cs" for k n using that cb(2) by auto
  have kk: "keeps_kinds ?s s'"
    unfolding keeps_kinds_def
  proof (intro allI impI)
    fix k n assume "inodes ?s k = Some n"
    then show "\<exists>n'. inodes s' k = Some n' \<and> i_dir n' = i_dir n"
      using ks cb(3) m by (cases "k = j") auto
  qed
  have nm: "map_of (names s') q = (if q = cs then Some j else map_of (names ?s) q)" for q
    using c by (simp add: creates_def)
  have "wf_fs s'" if "wf_fs ?s"
    using that _ _ kk by (rule wf_fs_bind) (use nm cb(2) m in auto)
  moreover have "binds_regular ?s s'"
    by (rule binds_regular_bind [of cs]) (use nm m in auto)
  moreover have "env ?s = [] \<longrightarrow> env s' = []" using c by (auto simp: creates_def)
  ultimately show ?thesis
    using nm ks kk kj hd unfolding leaves_def fst_conv snd_conv by simp
qed

lemma create_leaves:
  assumes "hdf5_contract H hf hdat" "H5Fcreate H p (fst w) (snd w) = (fd, s', h')"
  shows "leaves hdat {comps p} (bound (fst w) (comps p)) w (s', h') \<and>
    (if 0 < fd then hf (snd w) fd = None \<and> (\<exists>j m. hf h' = (hf (snd w))(fd \<mapsto> j) \<and>
        node_at s' (comps p) = Some (j, m) \<and> \<not> i_dir m \<and>
        (inodes (fst w) j = None \<or> j \<in> bound (fst w) (comps p)))
     else hf h' = hf (snd w))"
proof -
  let ?s = "fst w" and ?cs = "comps p"
  have "h5_create_law H hf hdat" using assms(1) by (simp add: hdf5_contract_def)
  with assms(2) have law: "if 0 < fd
       then \<exists>j. creates ?cs j ?s s' \<and> hf (snd w) fd = None \<and> hf h' = (hf (snd w))(fd \<mapsto> j) \<and>
              hdat s' h' j = Map.empty \<and> (\<forall>k. k \<noteq> j \<longrightarrow> hdat s' h' k = hdat ?s (snd w) k)
       else spares ?cs ?s s' \<and> hf h' = hf (snd w) \<and>
              (\<forall>k. inodes ?s k \<noteq> None \<longrightarrow> (\<forall>m. node_at ?s ?cs \<noteq> Some (k, m)) \<longrightarrow>
                 hdat s' h' k = hdat ?s (snd w) k)"
    unfolding h5_create_law_def by (simp split: if_splits)
  show ?thesis
  proof (cases "0 < fd")
    case False
    with law spares_leaves [of ?cs w s' hdat h'] show ?thesis by simp
  next
    case True
    with law obtain j where c: "creates ?cs j ?s s'" "hf (snd w) fd = None" "hf h' = (hf (snd w))(fd \<mapsto> j)"
      "\<And>k. k \<noteq> j \<Longrightarrow> hdat s' h' k = hdat ?s (snd w) k" by auto
    from creates_leaves [where hdat = hdat, OF c(1,4)] creates_binding(1,2) [OF c(1)] c(2,3) True
    show ?thesis by auto
  qed
qed

section \<open>The steps of the conversion\<close>

lemma sys_read_same_files: "sys_read fd c s = (r, s') \<Longrightarrow> same_files s s'"
  by (auto simp: sys_read_def Let_def attempt_def fail_with_def fd_seek_def same_files_def transfer_limit_def
      split: option.splits list.splits outcome.splits if_splits prod.splits)

lemma convert_turn_leaves:
  assumes H: "hdf5_contract H hf hdat" and j: "hf (snd w) h5fd = Some j"
    and run: "convert_turn H L method srcfd h5fd count w = (jump, w')"
  shows "leaves hdat Q {j} w w' \<and> hf (snd w') = hf (snd w)"
proof -
  have fr: "h5_frame_law hdat" using H by (simp add: hdf5_contract_def)
  obtain nb buf s1 where rd: "sys_read srcfd H5_BUFSIZE (fst w) = ((nb, buf), s1)" by (metis prod.collapse)
  have l1: "leaves hdat Q {j} w (s1, snd w)"
    using sys_read_same_files [OF rd] by (rule leaves_same_files [OF fr])
  obtain ret out s2 where cd: "compress_data L method uninit_out buf s1 = ((ret, out), s2)"
    by (metis prod.collapse)
  have "leaves hdat Q {j} (s1, snd w) (s2, snd w)"
    using quiet_compress_data [OF cd] leaves_quiet [OF fr, of "(s1, snd w)"] by simp
  with l1 have l2: "leaves hdat Q {j} w (s2, snd w)" by (rule leaves_trans) simp
  obtain r3 w3 where wd: "hdf5_writedata H h5fd (Some (block_name count)) (dstdata out)
      (case dstlen out of None \<Rightarrow> 0 | Some n \<Rightarrow> nat n) (s2, snd w) = (r3, w3)" by (metis surj_pair)
  from writedata_leaves [OF H _ wd] j
  have l3: "leaves hdat Q {j} (s2, snd w) w3" "hf (snd w3) = hf (snd w)" by auto
  from l2 l3(1) have l3': "leaves hdat Q {j} w w3" by (rule leaves_trans) simp
  consider "w' = (s1, snd w)" | "w' = (s2, snd w)" | "w' = w3"
    using run rd cd wd by (auto simp: convert_turn_def split: if_splits)
  then show ?thesis by cases (use l1 l2 l3' l3(2) in simp_all)
qed

lemma convert_loop_leaves:
  assumes H: "hdf5_contract H hf hdat" and "hf (snd w) h5fd = Some j"
    and "convert_loop H L method srcfd h5fd fuel count w = Some (jump, w')"
  shows "leaves hdat Q {j} w w' \<and> hf (snd w') = hf (snd w)"
  using assms(2,3)
proof (induction fuel arbitrary: count w)
  case 0
  then show ?case by simp
next
  case (Suc fuel)
  obtain r v where t: "convert_turn H L method srcfd h5fd count w = (r, v)" by (metis surj_pair)
  note l = convert_turn_leaves [OF H Suc.prems(1) t]
  show ?case
  proof (cases r)
    case None
    with t Suc.prems(2) have "convert_loop H L method srcfd h5fd fuel (Suc count) v = Some (jump, w')"
      by (simp add: convert_loop_turn del: convert_loop.simps)
    from Suc.IH [OF _ this] l Suc.prems(1) have "leaves hdat Q {j} v w'" "hf (snd w') = hf (snd v)" by auto
    moreover have "leaves hdat Q {j} w v" "hf (snd v) = hf (snd w)" using l by simp_all
    ultimately show ?thesis using leaves_trans [of hdat Q "{j}" w v "{j}" w'] by simp
  next
    case (Some x)
    with t Suc.prems(2) have "w' = v" by (simp add: convert_loop_turn del: convert_loop.simps)
    with l show ?thesis by simp
  qed
qed

lemma convert_out_leaves:
  assumes H: "hdf5_contract H hf hdat" and run: "convert_out H srcfd h5fd ret w = (r, w')"
  shows "leaves hdat Q {k. 0 < h5fd \<and> hf (snd w) h5fd = Some k} w w' \<and>
    (\<forall>x. \<not> (0 < h5fd \<and> x = h5fd) \<longrightarrow> hf (snd w') x = hf (snd w) x) \<and>
    (env (fst w) = [] \<or> h5fd \<le> 0 \<longrightarrow>
       hf (snd w') = (if 0 < h5fd then (hf (snd w))(h5fd := None) else hf (snd w)))"
proof -
  define w1 where "w1 = (if 0 < srcfd then (snd (sys_close srcfd (fst w)), snd w) else w)"
  have fr: "h5_frame_law hdat" and cl: "h5_close_law H hf hdat"
    using H by (simp_all add: hdf5_contract_def)
  have l1: "leaves hdat Q K w w1" "snd w1 = snd w" for K
    using leaves_same_files [OF fr] leaves_refl [OF fr] sys_close_same_files [of srcfd "fst w"]
    by (auto simp: w1_def prod_eq_iff)
  have w': "w' = (if 0 < h5fd then snd (H5Fclose H h5fd (fst w1) (snd w1)) else w1)"
    using run by (auto simp: convert_out_def w1_def Let_def)
  show ?thesis
  proof (cases "0 < h5fd")
    case False
    with w' l1 show ?thesis by simp
  next
    case True
    let ?K = "{k. 0 < h5fd \<and> hf (snd w) h5fd = Some k}"
    obtain rr s2 h2 where c: "H5Fclose H h5fd (fst w1) (snd w1) = (rr, s2, h2)" by (metis prod_cases3)
    note law = h5_close_lawD [OF cl c]
    have "leaves hdat Q ?K w1 (s2, h2)"
    proof (rule leaves_names)
      show "names s2 = names (fst w1)" "env (fst w1) = [] \<Longrightarrow> env s2 = []"
        using law(1) by (auto simp: quiet_def touches_def split: option.splits)
      show "keeps_kinds (fst w1) s2"
        using law(1) by (auto simp: quiet_def intro: keeps_kinds_same keeps_kinds_touches split: option.splits)
      show "inodes s2 k = inodes (fst w1) k" if "k \<notin> ?K" for k
        using law(1) that True l1(2) by (auto simp: quiet_def touches_def split: option.splits)
    qed (use law(4) True l1(2) in simp)
    with l1(1) [of ?K] have "leaves hdat Q ?K w (s2, h2)" by (rule leaves_trans) simp
    moreover have "env (fst w1) = []" if "env (fst w) = []" using leavesD(7) [OF l1(1)] that by blast
    ultimately show ?thesis using w' c law(2,6) l1(2) True by simp
  qed
qed

lemma truncate_leaves:
  assumes fr: "h5_frame_law hdat" and run: "sys_truncate p len (fst w) = (r, s')"
    and p: "node_at (fst w) (comps p) = Some (i, n)" "\<not> i_dir n"
  shows "leaves hdat Q {i} w (s', snd w)"
proof -
  have e: "env (fst w) = [] \<Longrightarrow> env s' = []"
    using run p by (auto simp: sys_truncate_def fail_with_def set_data_def split: if_splits)
  from sys_truncate_cases [OF run p] consider "quiet (fst w) s'"
    | "names s' = names (fst w)"
      "inodes s' = (inodes (fst w))(i \<mapsto> n\<lparr>i_data := resize (nat len) (i_data n), i_mtime := now (fst w)\<rparr>)"
    by blast
  then show ?thesis
  proof cases
    case 1
    then show ?thesis by (rule leaves_quiet [OF fr])
  next
    case 2
    show ?thesis
    proof (rule leaves_names)
      show "keeps_kinds (fst w) s'" using 2 p by (auto simp: keeps_kinds_def node_at_Some)
      show "hdat s' (snd w) k = hdat (fst w) (snd w) k" if "k \<notin> {i}" for k
        using 2 that by (intro hdat_cong [OF fr]) simp
    qed (use 2 e in simp_all)
  qed
qed

lemma rename_leaves:
  assumes fr: "h5_frame_law hdat" and run: "sys_rename p q (fst w) = (r, s')"
    and t: "node_at (fst w) (comps p) = Some (j, m)" "\<not> i_dir m" "comps p \<noteq> comps q"
  shows "leaves hdat {comps p, comps q} {} w (s', snd w)"
proof -
  have e: "env (fst w) = [] \<Longrightarrow> env s' = []"
    using run t by (auto simp: sys_rename_def fail_with_def split: if_splits)
  from sys_rename_cases [OF run t(1,3)] consider "quiet (fst w) s'"
    | "inodes s' = inodes (fst w)" "map_of (names s') = (map_of (names (fst w)))(comps q \<mapsto> j, comps p := None)"
    by blast
  then show ?thesis
  proof cases
    case 1
    then show ?thesis by (rule leaves_quiet [OF fr])
  next
    case 2
    have j: "map_of (names (fst w)) (comps p) = Some j" "inodes (fst w) j = Some m"
      using t(1) by (simp_all add: node_at_Some)
    have "wf_fs s'" if "wf_fs (fst w)"
      using that j 2 t(3) unfolding wf_fs_def by auto
    moreover have "hdat s' (snd w) k = hdat (fst w) (snd w) k" for k
      using 2 by (intro hdat_cong [OF fr]) simp
    moreover have "binds_regular (fst w) s'"
      unfolding binds_regular_def using 2 j t(2) by auto
    ultimately show ?thesis
      using 2 e unfolding leaves_def by (auto intro: keeps_kinds_same)
  qed
qed

lemma leaves_node:
  assumes "leaves hdat Q K w w'" "node_at (fst w) cs = Some (i, n)" "\<not> i_dir n" "cs \<notin> Q"
  obtains n' where "node_at (fst w') cs = Some (i, n')" "\<not> i_dir n'"
proof -
  have "map_of (names (fst w)) cs = Some i" "inodes (fst w) i = Some n"
    using assms(2) by (simp_all add: node_at_Some)
  moreover from this(2) leavesD(4) [OF assms(1)] obtain n' where "inodes (fst w') i = Some n'" "i_dir n' = i_dir n"
    unfolding keeps_kinds_def by blast
  ultimately show ?thesis
    using that assms(3) leavesD(1) [OF assms(1,4)] by (simp add: node_at_Some)
qed

lemma convert_finish_leaves:
  assumes fr: "h5_frame_law hdat" and run: "convert_finish path tmp hid (fst w) = (ret, s')"
    and p: "node_at (fst w) (comps path) = Some (i, n)" "\<not> i_dir n"
    and t: "node_at (fst w) (comps tmp) = Some (j, m)" "\<not> i_dir m"
    and neq: "comps tmp \<noteq> comps hid" "comps path \<noteq> comps hid" "comps path \<noteq> comps tmp"
  shows "leaves hdat {comps hid, comps tmp} {i} w (s', snd w)"
proof -
  let ?Q = "{comps hid, comps tmp}"
  obtain r1 s1 where r1: "sys_rename tmp hid (fst w) = (r1, s1)" by fastforce
  have l1: "leaves hdat ?Q {i} w (s1, snd w)"
    using rename_leaves [OF fr r1 t neq(1)] by (rule leaves_wider) auto
  obtain st s2 where st: "sys_stat path s1 = (st, s2)" by fastforce
  have "leaves hdat ?Q {i} (s1, snd w) (s2, snd w)"
    using leaves_quiet [OF fr, of "(s1, snd w)" s2] quiet_sys_stat [OF st] by simp
  with l1 have l2: "leaves hdat ?Q {i} w (s2, snd w)" by (rule leaves_trans) simp
  from leaves_node [OF l2 p] neq obtain n2 where n2: "node_at s2 (comps path) = Some (i, n2)" "\<not> i_dir n2"
    by auto
  obtain r3 s3 where r3: "sys_truncate path 0 s2 = (r3, s3)" by fastforce
  have "leaves hdat ?Q {i} (s2, snd w) (s3, snd w)"
    using truncate_leaves [OF fr, of path 0 "(s2, snd w)"] r3 n2 by simp
  with l2 have l3: "leaves hdat ?Q {i} w (s3, snd w)" by (rule leaves_trans) simp
  from leaves_node [OF l3 p] neq obtain n3 where n3: "node_at s3 (comps path) = Some (i, n3)" "\<not> i_dir n3"
    by auto
  consider "s' = s1" | "s' = s2" | "s' = s3" | len where "sys_truncate path len s3 = (ret, s')"
    using run r1 st r3 by (auto simp: convert_finish_def split: if_splits option.splits)
  then show ?thesis
  proof cases
    case (4 len)
    have "leaves hdat ?Q {i} (s3, snd w) (s', snd w)"
      using truncate_leaves [OF fr, of path len "(s3, snd w)"] 4 n3 by simp
    with l3 show ?thesis by (rule leaves_trans) simp
  qed (use l1 l2 l3 in simp_all)
qed

lemma convert_write_leaves:
  assumes H: "hdf5_contract H hf hdat" and fd: "hf (snd w) h5fd = Some j" "0 < h5fd"
    and p: "node_at (fst w) (comps path) = Some (i, n)" "\<not> i_dir n"
    and t: "node_at (fst w) (comps tmp) = Some (j, m)" "\<not> i_dir m"
    and neq: "comps tmp \<noteq> comps hid" "comps path \<noteq> comps hid" "comps path \<noteq> comps tmp"
    and run: "convert_write H L fuel path DZ_ALG_ZSTD hid tmp srcfd h5fd w = Some (ret, w')"
  shows "leaves hdat {comps hid, comps tmp} {i, j} w w' \<and>
    (env (fst w) = [] \<longrightarrow> hf (snd w') = (hf (snd w))(h5fd := None))"
proof -
  let ?Q = "{comps hid, comps tmp}" and ?ver = "''zstd '' @ ZSTD_versionString L"
  have fr: "h5_frame_law hdat" using H by (simp add: hdf5_contract_def)
  have exit: ?thesis if "Some (convert_out H srcfd h5fd r v) = Some (ret, w')" "leaves hdat ?Q {i, j} w v"
    "hf (snd v) = hf (snd w)" for r v
  proof -
    from that(1) have "convert_out H srcfd h5fd r v = (ret, w')" by simp
    from convert_out_leaves [OF H this] that(3) fd
    have o: "leaves hdat ?Q {j} v w'" "env (fst v) = [] \<longrightarrow> hf (snd w') = (hf (snd w))(h5fd := None)" by auto
    from that(2) o(1) have "leaves hdat ?Q {i, j} w w'" by (rule leaves_trans) auto
    with o(2) leavesD(7) [OF that(2)] show ?thesis by blast
  qed
  obtain r1 w1 where w1: "hdf5_writestr H h5fd (Some ''algorithm'') (Some ?ver) w = (r1, w1)" by (metis surj_pair)
  from writestr_leaves [OF H fd(1) w1]
  have l1: "\<And>Q. leaves hdat Q {j} w w1" "hf (snd w1) = hf (snd w)" by auto
  show ?thesis
  proof (cases "r1 < 0")
    case True
    with run w1 have "Some (convert_out H srcfd h5fd r1 w1) = Some (ret, w')"
      by (simp add: convert_write_def alg_version_def)
    moreover have "leaves hdat ?Q {i, j} w w1" using l1(1) by (rule leaves_wider) auto
    ultimately show ?thesis using l1(2) by (rule exit)
  next
    case False
    obtain jump w2 where w2: "convert_loop H L DZ_ALG_ZSTD srcfd h5fd fuel 0 w1 = Some (jump, w2)"
      using run w1 False by (auto simp: convert_write_def alg_version_def split: option.splits)
    from convert_loop_leaves [OF H _ w2] fd(1) l1(2)
    have l2': "\<And>Q. leaves hdat Q {j} w1 w2" "hf (snd w2) = hf (snd w)" by auto
    have l2: "leaves hdat Q {j} w w2" for Q by (rule leaves_trans [OF l1(1) l2'(1)]) simp
    show ?thesis
    proof (cases jump)
      case (Some r)
      with run w1 w2 False have "Some (convert_out H srcfd h5fd r w2) = Some (ret, w')"
        by (simp add: convert_write_def alg_version_def)
      moreover have "leaves hdat ?Q {i, j} w w2" using l2 by (rule leaves_wider) auto
      ultimately show ?thesis using l2'(2) by (rule exit)
    next
      case None
      obtain r3 s3 where fin: "convert_finish path tmp hid (fst w2) = (r3, s3)" by fastforce
      have out: "Some (convert_out H srcfd h5fd r3 (s3, snd w2)) = Some (ret, w')"
        using run w1 w2 False None fin by (simp add: convert_write_def alg_version_def)
      from leaves_node [OF l2 [of "{}"] p] obtain n2 where
        n2: "node_at (fst w2) (comps path) = Some (i, n2)" "\<not> i_dir n2" by auto
      from leaves_node [OF l2 [of "{}"] t] obtain m2 where
        m2: "node_at (fst w2) (comps tmp) = Some (j, m2)" "\<not> i_dir m2" by auto
      from convert_finish_leaves [OF fr fin n2 m2 neq]
      have f: "leaves hdat ?Q {i, j} w2 (s3, snd w2)" by (rule leaves_wider) auto
      have "leaves hdat ?Q {i, j} w w2" using l2 by (rule leaves_wider) auto
      from this f have "leaves hdat ?Q {i, j} w (s3, snd w2)" by (rule leaves_trans) simp
      then show ?thesis using l2'(2) by (intro exit [OF out]) simp_all
    qed
  qed
qed

lemma convert_open_leaves:
  assumes H: "hdf5_contract H hf hdat"
    and p: "node_at (fst w) (comps path) = Some (i, n)" "\<not> i_dir n"
    and neq: "comps tmp \<noteq> comps hid" "comps path \<noteq> comps hid" "comps path \<noteq> comps tmp"
    and run: "convert_open H L junk_h5 fuel path DZ_ALG_ZSTD hid tmp w = Some (ret, w')"
  shows "leaves hdat {comps hid, comps tmp}
      ({i} \<union> bound (fst w) (comps tmp) \<union> {k. hf (snd w) junk_h5 = Some k}) w w' \<and>
    (env (fst w) = [] \<longrightarrow> hf (snd w') = hf (snd w) \<or> hf (snd w') = (hf (snd w))(junk_h5 := None))"
proof -
  let ?Q = "{comps hid, comps tmp}"
  let ?K = "{i} \<union> bound (fst w) (comps tmp) \<union> {k. hf (snd w) junk_h5 = Some k}"
  have fr: "h5_frame_law hdat" using H by (simp add: hdf5_contract_def)
  obtain srcfd s1 where so: "sys_open path O_RDONLY 0 (fst w) = (srcfd, s1)" by fastforce
  note op = sys_open_rdonly [OF so p(1)]
  have sf: "same_files (fst w) s1" using op by simp
  have l1: "leaves hdat Q K w (s1, snd w)" for Q K using sf by (rule leaves_same_files [OF fr])
  show ?thesis
  proof (cases "srcfd < 0")
    case True
    with run so have "convert_out H srcfd junk_h5 (-1) (s1, snd w) = (ret, w')"
      by (simp add: convert_open_def)
    from convert_out_leaves [OF H this, of ?Q]
    have o: "leaves hdat ?Q {k. 0 < junk_h5 \<and> hf (snd w) junk_h5 = Some k} (s1, snd w) w'"
      "env s1 = [] \<longrightarrow> hf (snd w') = hf (snd w) \<or> hf (snd w') = (hf (snd w))(junk_h5 := None)"
      by (auto split: if_splits)
    from l1 o(1) have "leaves hdat ?Q ?K w w'" by (rule leaves_trans) auto
    with o(2) sf show ?thesis by (auto simp: same_files_def)
  next
    case False
    obtain fd s2 h2 where cf: "H5Fcreate H tmp s1 (snd w) = (fd, s2, h2)" by (metis prod_cases3)
    have b: "bound s1 cs = bound (fst w) cs" for cs using same_files_node_at [OF sf] by (simp add: bound_def)
    have i1: "inodes s1 = inodes (fst w)" using sf by (simp add: same_files_def)
    have cf': "H5Fcreate H tmp (fst (s1, snd w)) (snd (s1, snd w)) = (fd, s2, h2)" using cf by simp
    note cr = create_leaves [OF H cf', unfolded fst_conv snd_conv b i1]
    then have c: "leaves hdat {comps tmp} (bound (fst w) (comps tmp)) (s1, snd w) (s2, h2)"
      and law: "if 0 < fd then hf (snd w) fd = None \<and> (\<exists>j m. hf h2 = (hf (snd w))(fd \<mapsto> j) \<and>
          node_at s2 (comps tmp) = Some (j, m) \<and> \<not> i_dir m \<and>
          (inodes (fst w) j = None \<or> j \<in> bound (fst w) (comps tmp)))
        else hf h2 = hf (snd w)" by (rule conjunct1, rule conjunct2)
    from l1 c have l2: "leaves hdat {comps tmp} (bound (fst w) (comps tmp)) w (s2, h2)"
      by (rule leaves_trans) simp
    then have l2': "leaves hdat ?Q ?K w (s2, h2)" by (rule leaves_wider) auto
    show ?thesis
    proof (cases "0 < fd")
      case fd: False
      then have "convert_out H srcfd (-1) (-1) (s2, h2) = (ret, w')"
        using run so False cf by (simp add: convert_open_def hdf5_open_def)
      from convert_out_leaves [OF H this, of ?Q] law fd
      have o: "leaves hdat ?Q {} (s2, h2) w'" "hf (snd w') = hf (snd w)" by simp_all
      from l2' o(1) have "leaves hdat ?Q ?K w w'" by (rule leaves_trans) simp
      with o(2) show ?thesis by simp
    next
      case fd: True
      with law obtain j m where j: "hf (snd w) fd = None" "hf h2 = (hf (snd w))(fd \<mapsto> j)"
        "node_at s2 (comps tmp) = Some (j, m)" "\<not> i_dir m"
        "inodes (fst w) j = None \<or> j \<in> bound (fst w) (comps tmp)" by auto
      from leaves_node [OF l2 p] neq(3) obtain n2 where
        n2: "node_at s2 (comps path) = Some (i, n2)" "\<not> i_dir n2" by auto
      have "convert_write H L fuel path DZ_ALG_ZSTD hid tmp srcfd fd (s2, h2) = Some (ret, w')"
        using run so False cf fd by (simp add: convert_open_def hdf5_open_def)
      from convert_write_leaves [OF H _ fd _ _ _ _ neq this, of j i n2 m] j n2
      have o: "leaves hdat ?Q {i, j} (s2, h2) w'" "env s2 = [] \<longrightarrow> hf (snd w') = (hf (snd w))(fd \<mapsto> j, fd := None)"
        by simp_all
      from l2' o(1) have "leaves hdat ?Q ?K w w'" by (rule leaves_trans) (use j(5) in auto)
      moreover have "hf (snd w') = hf (snd w)" if "env (fst w) = []"
        using o(2) j(1) leavesD(7) [OF l2' that] by (auto simp: fun_eq_iff)
      ultimately show ?thesis by simp
    qed
  qed
qed

lemma convert2h5_leaves:
  assumes H: "hdf5_contract H hf hdat" and c: "cstring path"
    and p: "node_at s (comps path) = Some (i, n)" "\<not> i_dir n"
    and run: "convert2h5 H L junk_src junk_h5 fuel (Some path) DZ_ALG_ZSTD (s, h) = Some (ret, w')"
  shows "leaves hdat {comps (hidden_name path), comps (tmp_name (hidden_name path))}
      ({i} \<union> bound s (comps (tmp_name (hidden_name path))) \<union> {k. hf h junk_h5 = Some k}) (s, h) w' \<and>
    (env s = [] \<longrightarrow> hf (snd w') = hf h \<or> hf (snd w') = (hf h)(junk_h5 := None))"
proof -
  let ?Q = "{comps (hidden_name path), comps (tmp_name (hidden_name path))}"
  let ?K = "{i} \<union> bound s (comps (tmp_name (hidden_name path))) \<union> {k. hf h junk_h5 = Some k}"
  have fr: "h5_frame_law hdat" using H by (simp add: hdf5_contract_def)
  have q: "leaves hdat ?Q ?K (s, h) (s', h)" if "quiet s s'" for s'
    using leaves_quiet [OF fr, of "(s, h)" s'] that by simp
  have exit: ?thesis if "convert_out H junk_src junk_h5 (-1) (s', h) = (ret, w')" "quiet s s'" for s'
  proof -
    from convert_out_leaves [OF H that(1), of ?Q]
    have o: "leaves hdat ?Q {k. 0 < junk_h5 \<and> hf h junk_h5 = Some k} (s', h) w'"
      "env s' = [] \<longrightarrow> hf (snd w') = hf h \<or> hf (snd w') = (hf h)(junk_h5 := None)" by (auto split: if_splits)
    from q [OF that(2)] o(1) have "leaves hdat ?Q ?K (s, h) w'" by (rule leaves_trans) auto
    with o(2) that(2) show ?thesis by (auto simp: quiet_def)
  qed
  show ?thesis
  proof (rule buildHiddenFile_cases [OF c, of s])
    fix s1
    assume b: "buildHiddenFile path s = Some (None, s1)"
    then have "quiet s s1" by (rule quiet_buildHiddenFile)
    with b run q show ?thesis by (auto simp: convert2h5_def)
  next
    fix s1
    assume b: "buildHiddenFile path s = Some (Some (hidden_name path), s1)" and sl: "SLASH \<in> set path"
    then have q1: "quiet s s1" by (intro quiet_buildHiddenFile)
    obtain st s2 where st: "sys_stat (hidden_name path) s1 = (st, s2)" by fastforce
    then have q2: "quiet s s2" using q1 by (blast intro: quiet_sys_stat quiet_trans)
    obtain a s3 where m: "sys_malloc s2 = (a, s3)" by fastforce
    then have q3: "quiet s s3" using q2 by (blast intro: quiet_sys_malloc quiet_trans)
    obtain st' s4 where st': "sys_stat (tmp_name (hidden_name path)) s3 = (st', s4)" by fastforce
    then have q4: "quiet s s4" using q3 by (blast intro: quiet_sys_stat quiet_trans)
    have e: "quiet s (t\<lparr>errno := x\<rparr>)" if "quiet s t" for t x using that by (rule quiet_trans) simp
    consider "convert_out H junk_src junk_h5 (-1) (s2\<lparr>errno := EEXIST\<rparr>, h) = (ret, w')"
      | "convert_out H junk_src junk_h5 (-1) (s4\<lparr>errno := EEXIST\<rparr>, h) = (ret, w')"
      | "convert_open H L junk_h5 fuel path DZ_ALG_ZSTD (hidden_name path)
            (tmp_name (hidden_name path)) (s4, h) = Some (ret, w')"
      using run b st m st' by (auto simp: convert2h5_def split: bool.splits option.splits)
    then show ?thesis
    proof cases
      case 3
      have nd: "node_at s4 = node_at s" using q4 by (rule quiet_node_at)
      from convert_open_leaves [OF H _ p(2) _ _ _ 3] names_distinct [OF sl] p(1) nd
      have o: "leaves hdat ?Q ?K (s4, h) w'"
        "env s4 = [] \<longrightarrow> hf (snd w') = hf h \<or> hf (snd w') = (hf h)(junk_h5 := None)" by (auto simp: bound_def)
      from q [OF q4] o(1) have "leaves hdat ?Q ?K (s, h) w'" by (rule leaves_trans) simp
      with o(2) q4 show ?thesis by (auto simp: quiet_def)
    qed (use exit e q2 q4 in blast)+
  qed
qed

section \<open>Conversions do not interfere\<close>

text \<open>C7. A conversion touches nothing of other files, whatever fails: every name but the hidden and the
  temporary one of its file stays bound as it was, and every inode but the source and what the
  temporary name was bound to keeps its contents and, if it is a compressed file, its datasets.
  If each name had an inode of its own, each has one afterwards. The uninitialised \<^verbatim>\<open>h5fd\<close> is not the
  number of an HDF5 file that is open: the early exits would close that.\<close>

theorem convert2h5_leaves_others:
  assumes "hdf5_contract H hf hdat" "cstring path"
    and "node_at s (comps path) = Some (i, n)" "\<not> i_dir n" "hf h junk_h5 = None"
    and "convert2h5 H L junk_src junk_h5 fuel (Some path) DZ_ALG_ZSTD (s, h) = Some (ret, w')"
    and "q \<noteq> comps (hidden_name path)" "q \<noteq> comps (tmp_name (hidden_name path))"
    and "inodes s k = Some nk" "k \<noteq> i" "node_at s (comps (tmp_name (hidden_name path))) \<noteq> Some (k, nk)"
  shows "map_of (names (fst w')) q = map_of (names s) q \<and>
    inodes (fst w') k = Some nk \<and> hdat (fst w') (snd w') k = hdat s h k \<and>
    (wf_fs s \<longrightarrow> wf_fs (fst w'))"
proof -
  from convert2h5_leaves [OF assms(1-4,6)] assms(5)
  have l: "leaves hdat {comps (hidden_name path), comps (tmp_name (hidden_name path))}
      ({i} \<union> bound s (comps (tmp_name (hidden_name path)))) (s, h) w'" by simp
  have "k \<notin> {i} \<union> bound s (comps (tmp_name (hidden_name path)))"
    using assms(9-11) by (auto simp: bound_def node_at_Some)
  then show ?thesis
    using leavesD(1) [OF l, of q] leavesD(2,3) [OF l, of k nk] leavesD(6) [OF l] assms(7-9) by simp
qed

lemma convert2h5_leaves_others_witness:
  "map_of (names (fst demo_after)) [] = Some 0 \<and>
    inodes (fst demo_after) 0 = Some \<lparr>i_dir = True, i_perm = 0x1ED, i_data = [], i_mtime = 0\<rparr> \<and>
    sim_data (fst demo_after) (snd demo_after) 0 = Map.empty \<and> wf_fs (fst demo_after)"
proof -
  let ?n = "\<lparr>i_dir = True, i_perm = 0x1ED, i_data = [], i_mtime = 0\<rparr>"
  have run: "convert2h5 sim_hdf5 sim_codec 0 0 (Suc (Suc 0)) (Some ''/f'') DZ_ALG_ZSTD
      (demo_os [1, 2, 3], demo_h5) = Some (0, demo_after)" by (rule demo_conversion)
  have c: "cstring ''/f''" by simp
  have r: "[] \<noteq> comps (hidden_name ''/f'')" "[] \<noteq> comps (tmp_name (hidden_name ''/f''))"
    "inodes (demo_os [1, 2, 3]) 0 = Some ?n" "(0 :: nat) \<noteq> 1"
    "node_at (demo_os [1, 2, 3]) (comps (tmp_name (hidden_name ''/f''))) \<noteq> Some (0, ?n)"
    by (simp_all add: comps_demo demo_os_def node_at_def)
  have "wf_fs (demo_os [1, 2, 3])" by (simp add: wf_fs_def demo_os_def)
  then show ?thesis
    using convert2h5_leaves_others [OF sim_hdf5_contract c demo_node _ _ run r]
    by (simp add: demo_inode_def demo_h5_def demo_os_def)
qed

section \<open>A failure of \<^verbatim>\<open>stat\<close> taken for absence\<close>

text \<open>C14. \<open>convert2h5\<close> takes any failure of \<^verbatim>\<open>stat\<close> for the absence of the hidden file. If it succeeds on
  a file that has been converted, which it can only when a call has failed, the hidden file
  afterwards holds the zeros of the source, or what a failed \<^verbatim>\<open>H5Fclose\<close> has left of them: the contents
  are lost.\<close>

theorem second_conversion_loses_data:
  assumes "hdf5_contract H hf hdat" "zstd_contract L" "cstring p"
    and "node_at s (comps p) = Some (i, n)" "\<not> i_dir n" "i_data n = replicate k 0"
    and "\<And>q. map_of (names s) q = Some i \<Longrightarrow> q = comps p" "i \<notin> ran (hf h)"
    and "node_at s (comps (hidden_name p)) = Some (j, m)"
    and "convert2h5 H L junk_src junk_h5 fuel (Some p) DZ_ALG_ZSTD (s, h) = Some (0, w')"
  shows "env s \<noteq> [] \<and>
    ((\<exists>cs. archived L hdat w' (hidden_name p) (replicate k 0) cs) \<or> close_failed H hf (hidden_name p) w') \<and>
    (\<exists>m. inodes (fst w') i = Some (n\<lparr>i_mtime := m\<rparr>))"
proof -
  have "env s \<noteq> []"
  proof
    assume e: "env s = []"
    have "convert2h5 H L junk_src junk_h5 fuel (Some p) DZ_ALG_ZSTD (s, h) \<noteq> Some (0, w')"
      using e assms(3,9)
      by (auto simp: convert2h5_def buildHiddenFile_normal sys_stat_def convert_out_def Let_def)
    with assms(10) show False by simp
  qed
  moreover have "conversion_result H L hf hdat (s, h) (hidden_name p) i n 0 w'"
    by (rule convert2h5_contents [OF assms(1-5) assms(7,8,10)])
  moreover have "n\<lparr>i_data := replicate k 0, i_mtime := m\<rparr> = n\<lparr>i_mtime := m\<rparr>" for m
    using assms(6) by (cases n) simp
  ultimately show ?thesis using assms(6) by (auto simp: conversion_result_def)
qed

lemma demo_reconversion_hidden:
  assumes "env s = Normal # e"
  shows "buildHiddenFile ''/f'' s = Some (Some (hidden_name ''/f''), s\<lparr>env := e\<rparr>)"
proof -
  have "hidden_fill (replicate (length ''/f'' + 6) (CHR 0xFF)) ''/f'' = Some (hidden_name ''/f'')"
    by (rule hidden_fill_correct) simp_all
  moreover have "sys_malloc s = (True, s\<lparr>env := e\<rparr>)"
    using assms by (simp add: sys_malloc_def attempt_def)
  moreover have "strrchr ''/f'' SLASH \<noteq> None" by simp
  ultimately show ?thesis by (auto simp: buildHiddenFile_def simp del: replicate.simps list.size)
qed

lemma demo_reconversion:
  "\<exists>w'. convert2h5 sim_hdf5 sim_codec 0 0 (Suc (Suc 0)) (Some ''/f'') DZ_ALG_ZSTD
     ((fst demo_after)\<lparr>env := [Normal, Fail EACCES]\<rparr>, snd demo_after) = Some (0, w')"
  by (simp add: convert2h5_def demo_reconversion_hidden demo_after_def attempt_def transfer_limit_def
      convert_out_def os_eval sim_eval comps_demo convert_open_def Let_def hdf5_open_def
      convert_write_def alg_version_def hdf5_writestr_def compress_data_def
      compressdata_zstd_def hdf5_writedata_def uninit_out_def as_int_def convert_finish_def dec_3)

lemma second_conversion_loses_data_witness:
  "\<exists>w' cs m. convert2h5 sim_hdf5 sim_codec 0 0 (Suc (Suc 0)) (Some ''/f'') DZ_ALG_ZSTD
      ((fst demo_after)\<lparr>env := [Normal, Fail EACCES]\<rparr>, snd demo_after) = Some (0, w') \<and>
    archived sim_codec sim_data w' (hidden_name ''/f'') [0, 0, 0] cs \<and>
    inodes (fst w') 1 = Some (demo_inode\<lparr>i_data := [0, 0, 0], i_mtime := m\<rparr>)"
proof -
  let ?s = "(fst demo_after)\<lparr>env := [Normal, Fail EACCES]\<rparr>"
  let ?n = "demo_inode\<lparr>i_data := replicate 3 0, i_mtime := 7\<rparr>"
  obtain w' where run: "convert2h5 sim_hdf5 sim_codec 0 0 (Suc (Suc 0)) (Some ''/f'') DZ_ALG_ZSTD
      (?s, snd demo_after) = Some (0, w')" using demo_reconversion by blast
  have n: "node_at ?s (comps ''/f'') = Some (1, ?n)"
    "node_at ?s (comps (hidden_name ''/f'')) = Some (2, demo_inode\<lparr>i_data := [], i_mtime := 7\<rparr>)"
    by (simp_all add: comps_demo node_at_def demo_after_def demo_inode_def)
  have u: "map_of (names ?s) q = Some 1 \<Longrightarrow> q = comps ''/f''" for q
    by (simp add: comps_demo demo_after_def split: if_splits)
  have d: "\<not> i_dir ?n" "i_data ?n = replicate 3 0" "cstring ''/f''"
    "1 \<notin> ran (sim_files (snd demo_after))"
    by (simp_all add: demo_inode_def demo_after_def)
  have "replicate 3 (0 :: 8 word) = [0, 0, 0]" by (simp add: eval_nat_numeral)
  then show ?thesis
    using second_conversion_loses_data [OF sim_hdf5_contract sim_codec_zstd d(3) n(1) d(1,2) u d(4) n(2) run]
      run by (auto simp: sim_close_never_fails)
qed

section \<open>A failed close\<close>

text \<open>A library that does as \<open>H\<close> does, but whose \<^verbatim>\<open>H5Fclose\<close> reports something else.\<close>

definition reporting :: "(int \<Rightarrow> os \<Rightarrow> 'h \<Rightarrow> int) \<Rightarrow> 'h hdf5_lib \<Rightarrow> 'h hdf5_lib" where
  "reporting g H = H\<lparr>H5Fclose := (\<lambda>fd s h. (g fd s h, snd (H5Fclose H fd s h)))\<rparr>"

lemma reporting_simps:
  "H5Fopen (reporting g H) = H5Fopen H" "H5Fcreate (reporting g H) = H5Fcreate H"
  "H5Dput (reporting g H) = H5Dput H" "snd (H5Fclose (reporting g H) fd s h) = snd (H5Fclose H fd s h)"
  by (simp_all add: reporting_def)

lemma reporting_calls:
  "hdf5_writedata (reporting g H) = hdf5_writedata H" "hdf5_writestr (reporting g H) = hdf5_writestr H"
  "hdf5_open (reporting g H) = hdf5_open H" "convert_out (reporting g H) = convert_out H"
  unfolding fun_eq_iff hdf5_writedata_def hdf5_writestr_def hdf5_open_def convert_out_def reporting_simps
  by simp_all

lemma reporting_loop:
  "convert_loop (reporting g H) L m srcfd h5fd fuel n w = convert_loop H L m srcfd h5fd fuel n w"
  by (induction fuel arbitrary: n w) (simp_all add: reporting_calls cong: if_cong prod.case_cong)

lemma reporting_convert: "convert2h5 (reporting g H) = convert2h5 H"
  unfolding fun_eq_iff convert2h5_def convert_open_def convert_write_def reporting_calls reporting_loop by simp

lemma full_disk_conversion:
  "\<exists>w. convert2h5 buffering_hdf5 sim_codec 0 0 (Suc (Suc 0)) (Some ''/f'') DZ_ALG_ZSTD
     ((demo_os [1, 2, 3])\<lparr>env := [Normal, Normal, Normal, Normal, Normal, Normal, Normal, Normal, Normal,
        Normal, Normal, Normal, Normal, Fail ENOSPC]\<rparr>, demo_h5) = Some (0, w) \<and>
     node_at (fst w) (comps ''/f'') = Some (1, demo_inode\<lparr>i_data := replicate 3 0, i_mtime := 7\<rparr>) \<and>
     map_of (names (fst w)) (comps (hidden_name ''/f'')) = Some 2 \<and> sim_data (fst w) (snd w) 2 = Map.empty"
  by (simp add: convert2h5_def demo_reconversion_hidden demo_os_def demo_h5_def demo_inode_def attempt_def
      transfer_limit_def convert_out_def os_eval sim_eval comps_demo convert_open_def Let_def hdf5_open_def
      convert_write_def alg_version_def hdf5_writestr_def compress_data_def buffering_hdf5_def
      compressdata_zstd_def hdf5_writedata_def uninit_out_def as_int_def convert_finish_def dec_3)

text \<open>C38. The conversion never looks at what \<^verbatim>\<open>H5Fclose\<close> returns, so it does the same whatever that is.
  A library that keeps its documented promises, but whose \<^verbatim>\<open>H5Fclose\<close> fails when the disk is full,
  loses a file: \<open>convert2h5\<close> reports success, the source has been overwritten with zeros, and the
  hidden file has no datasets.\<close>

theorem failed_close_loses_contents:
  "convert2h5 (reporting g H) = convert2h5 H \<and>
   hdf5_contract buffering_hdf5 sim_files sim_data \<and>
   (\<exists>e w. convert2h5 buffering_hdf5 sim_codec 0 0 (Suc (Suc 0)) (Some ''/f'') DZ_ALG_ZSTD
        ((demo_os [1, 2, 3])\<lparr>env := e\<rparr>, demo_h5) = Some (0, w) \<and>
      node_at (fst w) (comps ''/f'') = Some (1, demo_inode\<lparr>i_data := replicate 3 0, i_mtime := 7\<rparr>) \<and>
      map_of (names (fst w)) (comps (hidden_name ''/f'')) = Some 2 \<and> sim_data (fst w) (snd w) 2 = Map.empty)"
  using reporting_convert [of g H] buffering_hdf5_contract full_disk_conversion by blast
end
