(* ===== verification/Pread.thy ===== *)
theory Pread
  imports Frame
begin

text \<open>
  The reads from a compressed file: \<open>getAlgorithm\<close>, \<open>h5fd_read\<close> and \<open>h5fd_pread\<close> of
  \<^verbatim>\<open>src/dzfile-intern.cc\<close>.
\<close>

section \<open>Reading\<close>

definition cut_at_space :: "string \<Rightarrow> string" where
  \<comment> \<open>the loop that ends the algorithm's name at the first space\<close>
  "cut_at_space = takeWhile (\<lambda>c. c \<noteq> CHR '' '')"

definition getAlgorithm :: "'h hdf5_lib \<Rightarrow> int \<Rightarrow> 'h st \<Rightarrow> dz_alg \<times> 'h st" where
  "getAlgorithm H h5fd w =
     (case hdf5_readstr H h5fd (Some ''algorithm'') 1024 w of
        (None, w1) \<Rightarrow> (DZ_ALG_UNKOWN, w1)
      | (Some str, w1) \<Rightarrow>
          (let algorithm = cut_at_space str;
               method = DZ_ALG_UNKOWN;
               method = (if algorithm = ''zlib'' then DZ_ALG_ZLIB else method);
               method = (if algorithm = ''zstd'' then DZ_ALG_ZSTD else method);
               method = (if algorithm = ''isal'' then DZ_ALG_ISAL else method)
           in (method, w1)))"

text \<open>
  \<open>h5fd_read\<close> copies \<open>count\<close> bytes from a buffer of 1025 bytes; the known ones among them are
  the algorithm's name and its null byte.
\<close>

definition h5fd_read ::
    "'h hdf5_lib \<Rightarrow> int \<Rightarrow> nat \<Rightarrow> 'h st \<Rightarrow> ((int \<times> bytes) \<times> 'h st) option" where
  "h5fd_read H h5fd count w =
     (case hdf5_readstr H h5fd (Some ''algorithm'') 1024 w of
        (None, w1) \<Rightarrow> Some ((-1, []), w1)
      | (Some algorithm, w1) \<Rightarrow> do {
          guard_ub (count \<le> 1025);
          Some ((int (length algorithm),
                 take count (bytes_of_string algorithm @ [0])), w1) })"

text \<open>
  One turn of the loop of \<open>h5fd_pread\<close> reads, at the file offset \<open>curoff\<close>, what the block there
  still has of the \<open>want\<close> bytes that are missing. The arithmetic is C's: the division truncates,
  \<^verbatim>\<open>blocknum\<close> and \<^verbatim>\<open>validbytes\<close> are 32-bit \<^verbatim>\<open>int\<close>s, the product \<^verbatim>\<open>blocknum * H5_BUFSIZE\<close> is
  computed in \<^verbatim>\<open>int\<close> and undefined on overflow, and the comparison
  \<^verbatim>\<open>validbytes > count - nbread\<close> is made in \<^verbatim>\<open>size_t\<close>, where a negative \<^verbatim>\<open>validbytes\<close> is large.
  The pointer \<^verbatim>\<open>srcp\<close> and the copy must stay inside the decompressed block.
\<close>

definition to_int32 :: "int \<Rightarrow> int" where
  \<comment> \<open>conversion to \<^verbatim>\<open>int\<close>\<close>
  "to_int32 k = sint (word_of_int k :: 32 word)"

definition fits_int32 :: "int \<Rightarrow> bool" where
  "fits_int32 k \<longleftrightarrow> - (2 ^ 31) \<le> k \<and> k < 2 ^ 31"

definition block_of :: "int \<Rightarrow> int" where
  \<comment> \<open>\<^verbatim>\<open>(int)(curoff / H5_BUFSIZE)\<close>\<close>
  "block_of curoff =
     to_int32 (if curoff < 0 then - ((- curoff) div int H5_BUFSIZE) else curoff div int H5_BUFSIZE)"

definition block_int_name :: "int \<Rightarrow> string" where
  "block_int_name b =
     (if b < 0 then ''block'' @ ''-'' @ dec (nat (- b)) else block_name (nat b))"

definition pread_copy :: "bytes \<Rightarrow> int \<Rightarrow> int \<Rightarrow> int \<Rightarrow> nat \<Rightarrow> bytes option" where
  \<comment> \<open>the bytes to copy; an empty result ends the loop\<close>
  "pread_copy block dlen blocknum curoff want = do {
     guard_ub (fits_int32 (blocknum * int H5_BUFSIZE));
     let inblock = curoff - blocknum * int H5_BUFSIZE;
     guard_ub (0 \<le> inblock \<and> inblock \<le> int (length block));
     let validbytes = to_int32 (dlen - inblock);
     if validbytes = 0 then Some []
     else do {
       let n = (if validbytes < 0 \<or> int want < validbytes then to_int32 (int want)
                else validbytes);
       guard_ub (0 < n \<and> inblock + n \<le> int (length block));
       Some (take (nat n) (drop (nat inblock) block)) } }"

text \<open>
  The loop. \<open>out\<close> carries \<^verbatim>\<open>dstdata\<close> and \<^verbatim>\<open>dstlen\<close> from turn to turn, as the code does;
  \<open>acc\<close> is what has been put into the caller's buffer. Every turn that does not end the loop adds
  at least a byte, so \<open>count\<close> turns are enough and the recursion is on what is missing.
\<close>

function pread_loop ::
    "'h hdf5_lib \<Rightarrow> codec_lib \<Rightarrow> dz_alg \<Rightarrow> int \<Rightarrow> nat \<Rightarrow> int \<Rightarrow> outp \<Rightarrow> bytes \<Rightarrow> 'h st
      \<Rightarrow> ((int \<times> bytes) \<times> 'h st) option"
where
  "pread_loop H L method h5fd count curoff out acc w =
     (if length acc < count then
        (let blocknum = block_of curoff;
             (ziplen, zipdata) = hdf5_readdata H h5fd (block_int_name blocknum) H5_BUFSIZE w
         in if ziplen \<le> 0 then Some ((-1, acc), w)
            else (case decompress_data L method out (take (nat ziplen) zipdata) (fst w) of
                None \<Rightarrow> None
              | Some ((ret, out1), s1) \<Rightarrow>
                  if ret < 0 then Some ((-1, acc), (s1, snd w))
                  else (case (dstdata out1, dstlen out1) of
                      (Some block, Some dlen) \<Rightarrow>
                        (case pread_copy block dlen blocknum curoff (count - length acc) of
                           None \<Rightarrow> None
                         | Some [] \<Rightarrow> Some ((int (length acc), acc), (s1, snd w))
                         | Some (b # bs) \<Rightarrow>
                             pread_loop H L method h5fd count (curoff + int (length (b # bs)))
                               out1 (acc @ b # bs) (s1, snd w))
                    | _ \<Rightarrow> None)))
      else Some ((int (length acc), acc), w))"
  by pat_completeness auto
termination
  by (relation "measure (\<lambda>(H, L, m, fd, count, off, out, acc, w). count - length acc)") auto

declare pread_loop.simps [simp del]

definition h5fd_pread ::
    "'h hdf5_lib \<Rightarrow> codec_lib \<Rightarrow> int \<Rightarrow> nat \<Rightarrow> int \<Rightarrow> 'h st \<Rightarrow> ((int \<times> bytes) \<times> 'h st) option" where
  "h5fd_pread H L h5fd count offset w =
     (if h5fd \<le> 0 then Some ((-1, []), w)
      else (case getAlgorithm H h5fd w of
          (method, w1) \<Rightarrow>
            if method = DZ_ALG_UNKOWN then Some ((-1, []), w1)
            else pread_loop H L method h5fd count offset uninit_out [] w1))"

section \<open>Blocks\<close>

lemma chunk_length: "length (chunk d k) = min H5_BUFSIZE (length d - k * H5_BUFSIZE)"
  by (simp add: chunk_def min_def)

lemma chunk_tail:
  "drop (x - k * H5_BUFSIZE) (chunk d k) = take (H5_BUFSIZE - (x - k * H5_BUFSIZE)) (drop x d)"
  if "k * H5_BUFSIZE \<le> x"
  using that by (simp add: chunk_def drop_take)

lemma aligned_count:
  assumes "aligned d cs" "concat cs = d"
  shows "k < length cs \<longleftrightarrow> k * H5_BUFSIZE < length d"
proof
  assume "k < length cs"
  with assms(1) show "k * H5_BUFSIZE < length d" by (simp add: aligned_def)
next
  assume k: "k * H5_BUFSIZE < length d"
  have "length c \<le> H5_BUFSIZE" if "c \<in> set cs" for c
    using that assms(1) chunk_length unfolding aligned_def in_set_conv_nth by (metis min.cobounded1)
  then have "length (concat cs) \<le> length cs * H5_BUFSIZE"
    by (induction cs) fastforce+
  with assms(2) have "length d \<le> length cs * H5_BUFSIZE" by simp
  with k have "k * H5_BUFSIZE < length cs * H5_BUFSIZE" by (rule order_less_le_trans)
  then show "k < length cs" by simp
qed

text \<open>What a dataset is read as.\<close>

definition readable_blocks :: "(string \<Rightarrow> bytes option) \<Rightarrow> bool" where
  \<comment> \<open>each compressed block is shorter than the buffer \<open>h5fd_pread\<close> reads it into\<close>
  "readable_blocks ds \<longleftrightarrow> (\<forall>k z. ds (block_name k) = Some z \<longrightarrow> length z < H5_BUFSIZE)"

lemma h5_readD:
  assumes "hdf5_contract H hf hdat" "hf h fd = Some j" "env s = []"
  shows "hdat s h j name = None \<Longrightarrow> H5Dopen H fd name s h < 0"
    and "hdat s h j name = Some bs \<Longrightarrow> 0 \<le> H5Dopen H fd name s h \<and>
      H5Dsize H fd name s h = length bs \<and> (\<exists>r\<ge>0. H5Dread H fd name s h = (r, bs))"
proof -
  have "h5_read_law H hf hdat" using assms(1) by (simp add: hdf5_contract_def)
  with assms(2,3) have "case hdat s h j name of
           None \<Rightarrow> H5Dopen H fd name s h < 0 \<and> fst (H5Dread H fd name s h) < 0
         | Some bs \<Rightarrow> 0 \<le> H5Dopen H fd name s h \<and> H5Dsize H fd name s h = length bs \<and>
             (\<exists>r \<ge> 0. H5Dread H fd name s h = (r, bs))"
    unfolding h5_read_law_def by blast
  then show "hdat s h j name = None \<Longrightarrow> H5Dopen H fd name s h < 0"
    and "hdat s h j name = Some bs \<Longrightarrow> 0 \<le> H5Dopen H fd name s h \<and>
      H5Dsize H fd name s h = length bs \<and> (\<exists>r\<ge>0. H5Dread H fd name s h = (r, bs))"
    by simp_all
qed

lemma hdf5_readdata_block:
  assumes "hdf5_contract H hf hdat" "hf h fd = Some j" "0 < fd" "env s = []"
    and "stored L (hdat s h j) cs" "readable_blocks (hdat s h j)" "k < length cs"
  obtains z where "hdf5_readdata H fd (block_name k) H5_BUFSIZE (s, h) = (int (length z), z)"
    "frame_of L z (cs ! k)" "0 < length z"
proof -
  from assms(5,7) obtain z where z: "hdat s h j (block_name k) = Some z" "frame_of L z (cs ! k)"
    by (auto simp: stored_def)
  from h5_readD(2) [OF assms(1,2,4) z(1)] obtain r where "0 \<le> H5Dopen H fd (block_name k) s h"
    "H5Dsize H fd (block_name k) s h = length z" "0 \<le> r" "H5Dread H fd (block_name k) s h = (r, z)"
    by blast
  moreover have "length z < H5_BUFSIZE" using assms(6) z(1) by (simp add: readable_blocks_def)
  ultimately have "hdf5_readdata H fd (block_name k) H5_BUFSIZE (s, h) = (int (length z), z)"
    using assms(3) by (simp add: hdf5_readdata_def)
  with z(2) show ?thesis by (intro that [of z]) (simp_all add: frame_of_def)
qed

lemma hdf5_readdata_absent:
  assumes "hdf5_contract H hf hdat" "hf h fd = Some j" "env s = []" "hdat s h j name = None"
  shows "hdf5_readdata H fd name n (s, h) = (-1, [])"
proof -
  from h5_readD(1) [OF assms(1-4)] show ?thesis by (simp add: hdf5_readdata_def)
qed

lemma getAlgorithm_zstd:
  assumes "hdf5_contract H hf hdat" "hf h fd = Some j" "0 < fd" "env s = []"
    and "hdat s h j ''algorithm'' = Some (bytes_of_string (''zstd '' @ v))" "length v < 1000"
  shows "getAlgorithm H fd (s, h) = (DZ_ALG_ZSTD, (s, h))"
proof -
  have l: "length (bytes_of_string (''zstd '' @ v)) = length v + 5"
    by (simp add: bytes_of_string_def)
  from h5_readD(2) [where hdat = hdat and s = s and h = h and j = j and name = "''algorithm''",
      OF assms(1,2,4,5)] l
  obtain r where "H5Dsize H fd ''algorithm'' s h = length v + 5" "0 \<le> r"
    "H5Dread H fd ''algorithm'' s h = (r, bytes_of_string (''zstd '' @ v))" by auto
  with assms(3,4,6) l
  have "hdf5_readstr H fd (Some ''algorithm'') 1024 (s, h) =
      (Some (takeWhile (\<lambda>c. c \<noteq> NUL) (''zstd '' @ v)), (s, h))"
    by (simp add: hdf5_readstr_def sys_malloc_normal del: append.simps)
  then show ?thesis by (simp add: getAlgorithm_def cut_at_space_def)
qed

section \<open>The arithmetic of a turn\<close>

lemma to_int32_id: "fits_int32 k \<Longrightarrow> to_int32 k = k"
  by (simp add: to_int32_def fits_int32_def sint_sbintrunc' signed_take_bit_int_eq_self)

lemma block_of_nat:
  assumes "x \<le> 2 ^ 31"
  shows "block_of (int x) = int (x div H5_BUFSIZE)"
proof -
  have "x div H5_BUFSIZE \<le> 512" using div_le_mono [OF assms, of H5_BUFSIZE] by simp
  then have "fits_int32 (int (x div H5_BUFSIZE))" by (simp add: fits_int32_def)
  then have "to_int32 (int (x div H5_BUFSIZE)) = int (x div H5_BUFSIZE)" by (rule to_int32_id)
  then show ?thesis by (simp add: block_of_def zdiv_int)
qed

lemma pread_copy_chunk:
  assumes "x \<le> length d" "k = x div H5_BUFSIZE" "k < 512" "0 < want"
  shows "pread_copy (chunk d k) (int (length (chunk d k))) (int k) (int x) want =
    Some (take (min want (H5_BUFSIZE - (x - k * H5_BUFSIZE))) (drop x d))"
proof -
  let ?r = "x - k * H5_BUFSIZE"
  have k: "k * H5_BUFSIZE \<le> x" using assms(2) by simp
  have r: "?r < H5_BUFSIZE" using assms(2) by (simp add: minus_div_mult_eq_mod)
  have rl: "?r \<le> length (chunk d k)" using assms(1) r by (simp add: chunk_length)
  have cl: "length (chunk d k) \<le> H5_BUFSIZE" by (simp add: chunk_length)
  have ov: "fits_int32 (int k * int H5_BUFSIZE)" using assms(3) by (simp add: fits_int32_def)
  have inb: "int x - int k * int H5_BUFSIZE = int ?r" using k by (simp add: of_nat_diff)
  have vb: "to_int32 (int (length (chunk d k)) - int ?r) = int (length (chunk d k) - ?r)"
    using rl cl by (subst to_int32_id) (simp_all add: fits_int32_def of_nat_diff)
  have tail: "drop ?r (chunk d k) = take (H5_BUFSIZE - ?r) (drop x d)" by (rule chunk_tail [OF k])
  show ?thesis
  proof (cases "length (chunk d k) = ?r")
    case True
    then have "drop ?r (chunk d k) = []" by simp
    with tail r have "drop x d = []" by simp
    then show ?thesis unfolding pread_copy_def inb Let_def using ov rl vb True
      by (simp del: of_nat_diff of_nat_mult)
  next
    case False
    define v where "v = length (chunk d k) - ?r"
    have v: "0 < v" "v \<le> H5_BUFSIZE" using False rl cl by (auto simp: v_def)
    have lv: "int ?r + int (min want v) \<le> int (length (chunk d k))"
    proof -
      have "?r + min want v \<le> length (chunk d k)" using rl by (simp add: v_def)
      then show ?thesis by linarith
    qed
    have w: "to_int32 (int want) = int want" if "want < v"
      using that v(2) by (intro to_int32_id) (simp add: fits_int32_def)
    have n: "(if int v < 0 \<or> int want < int v then to_int32 (int want) else int v) = int (min want v)"
      using w by auto
    have c: "pread_copy (chunk d k) (int (length (chunk d k))) (int k) (int x) want =
        Some (take (min want v) (drop ?r (chunk d k)))"
      unfolding pread_copy_def inb Let_def vb v_def [symmetric] n
      using ov rl v(1) lv assms(4) by simp
    have "take (min want v) (drop ?r (chunk d k)) = take want (take v (drop ?r (chunk d k)))"
      by (simp add: min.commute)
    also have "\<dots> = take want (drop ?r (chunk d k))" by (simp add: v_def)
    finally show ?thesis unfolding c tail by (simp add: min.commute)
  qed
qed

section \<open>Reading an archive\<close>

definition archive_node ::
    "codec_lib \<Rightarrow> 'h h5data \<Rightarrow> 'h st \<Rightarrow> nat \<Rightarrow> bytes \<Rightarrow> bool" where
  \<comment> \<open>the inode \<open>j\<close> is a compressed file with contents \<open>d\<close>, in blocks that can be read\<close>
  "archive_node L hdat w j d \<longleftrightarrow>
     (\<exists>cs v. stored L (hdat (fst w) (snd w) j) cs \<and> aligned d cs \<and> concat cs = d \<and>
       readable_blocks (hdat (fst w) (snd w) j) \<and> length v < 1000 \<and>
       hdat (fst w) (snd w) j ''algorithm'' = Some (bytes_of_string (''zstd '' @ v)))"

definition archive_fd ::
    "codec_lib \<Rightarrow> 'h h5files \<Rightarrow> 'h h5data \<Rightarrow> 'h st \<Rightarrow> int \<Rightarrow> bytes \<Rightarrow> bool" where
  \<comment> \<open>\<open>fd\<close> is an open compressed file with contents \<open>d\<close>\<close>
  "archive_fd L hf hdat w fd d \<longleftrightarrow>
     0 < fd \<and> (\<exists>j. hf (snd w) fd = Some j \<and> archive_node L hdat w j d)"

lemma archive_algorithm:
  assumes "hdf5_contract H hf hdat" "archive_fd L hf hdat (s, h) fd d" "env s = []"
  shows "getAlgorithm H fd (s, h) = (DZ_ALG_ZSTD, (s, h))"
  using assms(2) unfolding archive_fd_def archive_node_def fst_conv snd_conv
  by (elim conjE exE) (rule getAlgorithm_zstd [OF assms(1) _ _ assms(3)])

lemma archive_block:
  assumes H: "hdf5_contract H hf hdat" and A: "archive_fd L hf hdat (s, h) fd d" and e: "env s = []"
  shows "k * H5_BUFSIZE < length d \<Longrightarrow>
      \<exists>z. hdf5_readdata H fd (block_name k) H5_BUFSIZE (s, h) = (int (length z), z) \<and>
        frame_of L z (chunk d k) \<and> 0 < length z"
    and "\<not> k * H5_BUFSIZE < length d \<Longrightarrow>
      hdf5_readdata H fd (block_name k) H5_BUFSIZE (s, h) = (-1, [])"
proof -
  from A obtain j cs where fd: "0 < fd" "hf h fd = Some j"
    and st: "stored L (hdat s h j) cs" "readable_blocks (hdat s h j)"
    and al: "aligned d cs" "concat cs = d"
    unfolding archive_fd_def archive_node_def fst_conv snd_conv by blast
  note n = aligned_count [OF al]
  show "\<exists>z. hdf5_readdata H fd (block_name k) H5_BUFSIZE (s, h) = (int (length z), z) \<and>
        frame_of L z (chunk d k) \<and> 0 < length z" if "k * H5_BUFSIZE < length d"
  proof -
    have k: "k < length cs" using that n by blast
    have "cs ! k = chunk d k" using al(1) k by (simp add: aligned_def)
    then show ?thesis
      using hdf5_readdata_block [OF H fd(2,1) e st k] by metis
  qed
  show "hdf5_readdata H fd (block_name k) H5_BUFSIZE (s, h) = (-1, [])"
    if "\<not> k * H5_BUFSIZE < length d"
  proof -
    have "length cs \<le> k" using that n [of k] by (simp add: not_less)
    with st(1) have "hdat s h j (block_name k) = None" by (simp add: stored_def)
    then show ?thesis by (rule hdf5_readdata_absent [OF H fd(2) e])
  qed
qed

text \<open>Archives on the instances, for contents of any size.\<close>

definition sim_archive :: "bytes \<Rightarrow> string \<Rightarrow> bytes option" where
  "sim_archive d name =
     (if name = ''algorithm'' then Some (bytes_of_string (''zstd '' @ ''1.4.5''))
      else (let k = undec (drop 5 name) in
            if name = block_name k \<and> k * H5_BUFSIZE < length d
            then Some (sim_frame (chunk d k)) else None))"

definition archive_h5 :: "bytes \<Rightarrow> h5sim" where
  "archive_h5 d = \<lparr>h5_ids = [(1, 2)], h5_sets = \<lambda>i. sim_archive d\<rparr>"

lemma sim_archive_block:
  "sim_archive d (block_name k) =
    (if k * H5_BUFSIZE < length d then Some (sim_frame (chunk d k)) else None)"
proof -
  have "drop 5 (block_name k) = dec k" by (simp add: block_name_def)
  then show ?thesis by (simp add: sim_archive_def)
qed

lemma concat_chunks: "concat (map (chunk d) [0..<n]) = take (n * H5_BUFSIZE) d"
proof (induction n)
  case (Suc n)
  have "Suc n * H5_BUFSIZE = n * H5_BUFSIZE + H5_BUFSIZE" by simp
  then have "take (Suc n * H5_BUFSIZE) d = take (n * H5_BUFSIZE) d @ chunk d n"
    by (simp only: take_add chunk_def)
  with Suc show ?case by simp
qed simp

lemma sim_archive_readable:
  assumes "zeros d \<or> length d < H5_BUFSIZE - 1"
  shows "readable_blocks (sim_archive d)"
proof -
  have "length (sim_frame (chunk d k)) < H5_BUFSIZE" for k
  proof (cases "zeros (chunk d k)")
    case True
    have "length (chunk d k) < 10 ^ Suc 6" by (simp add: chunk_length)
    then have "length (dec (length (chunk d k))) \<le> Suc 6" by (rule length_dec)
    with True show ?thesis by (simp add: sim_frame_def bytes_of_string_def)
  next
    case False
    have "set (chunk d k) \<subseteq> set d"
      unfolding chunk_def by (meson order_trans set_drop_subset set_take_subset)
    with False have "\<not> zeros d" by (auto simp: zeros_def)
    with assms have "length (chunk d k) < H5_BUFSIZE - 1" by (simp add: chunk_length)
    with False show ?thesis by (simp add: sim_frame_def)
  qed
  then show ?thesis by (auto simp: readable_blocks_def sim_archive_block split: if_splits)
qed

lemma sim_archive_fd:
  assumes "zeros d \<or> length d < H5_BUFSIZE - 1"
  shows "archive_fd sim_codec sim_files sim_data (s, archive_h5 d) 1 d"
proof -
  define n where "n = (length d + (H5_BUFSIZE - 1)) div H5_BUFSIZE"
  have n: "k < n \<longleftrightarrow> k * H5_BUFSIZE < length d" for k
  proof -
    have "k < n \<longleftrightarrow> Suc k * H5_BUFSIZE \<le> length d + (H5_BUFSIZE - 1)"
      unfolding n_def by (subst less_eq_div_iff_mult_less_eq [symmetric]) (simp_all add: Suc_le_eq)
    then show ?thesis by (simp only: mult_Suc) linarith
  qed
  let ?cs = "map (chunk d) [0..<n]"
  have fr: "frame_of sim_codec (sim_frame (chunk d k)) (chunk d k)" for k
    by (rule sim_codec_frame) (simp add: chunk_length)
  have "stored sim_codec (sim_archive d) ?cs"
    using fr n by (auto simp: stored_def sim_archive_block not_less [symmetric])
  moreover have "aligned d ?cs" using n by (simp add: aligned_def)
  moreover have "concat ?cs = d"
    unfolding concat_chunks using n [of n] by (simp add: not_less)
  moreover have "sim_archive d ''algorithm'' = Some (bytes_of_string (''zstd '' @ ''1.4.5''))"
    by (simp add: sim_archive_def)
  ultimately show ?thesis
    using sim_archive_readable [OF assms] unfolding archive_fd_def archive_node_def
    by (intro conjI exI [of _ 2] exI [of _ ?cs] exI [of _ "''1.4.5''"]) (simp_all add: archive_h5_def)
qed

lemma block_int_name_nat [simp]: "block_int_name (int k) = block_name k"
  by (simp add: block_int_name_def)

lemma pread_turn:
  assumes H: "hdf5_contract H hf hdat" and Z: "zstd_contract L"
    and A: "archive_fd L hf hdat (s, h) fd d" and e: "env s = []"
    and l: "length acc < count" "x \<le> length d" "length d \<le> 2 ^ 31"
    and bs: "bs = take (min (count - length acc) (H5_BUFSIZE - x mod H5_BUFSIZE)) (drop x d)"
  shows "x div H5_BUFSIZE * H5_BUFSIZE < length d \<Longrightarrow>
      \<exists>out'. pread_loop H L DZ_ALG_ZSTD fd count (int x) out acc (s, h) =
        (if bs = [] then Some ((int (length acc), acc), (s, h))
         else pread_loop H L DZ_ALG_ZSTD fd count (int (x + length bs)) out' (acc @ bs) (s, h))"
    and "\<not> x div H5_BUFSIZE * H5_BUFSIZE < length d \<Longrightarrow>
      pread_loop H L DZ_ALG_ZSTD fd count (int x) out acc (s, h) = Some ((-1, acc), (s, h))"
proof -
  let ?k = "x div H5_BUFSIZE"
  have b: "block_int_name (block_of (int x)) = block_name ?k" "block_of (int x) = int ?k"
    using block_of_nat [of x] l by simp_all
  show "pread_loop H L DZ_ALG_ZSTD fd count (int x) out acc (s, h) = Some ((-1, acc), (s, h))"
    if "\<not> ?k * H5_BUFSIZE < length d"
    using archive_block(2) [OF H A e that] l(1) b(1)
    by (subst pread_loop.simps) (simp add: Let_def)
  assume k: "?k * H5_BUFSIZE < length d"
  from archive_block(1) [OF H A e k] obtain z where
    rd: "hdf5_readdata H fd (block_name ?k) H5_BUFSIZE (s, h) = (int (length z), z)"
    and z: "frame_of L z (chunk d ?k)" "0 < length z" by blast
  have "length (chunk d ?k) \<le> 2 ^ 29" by (simp add: chunk_length)
  from decompress_data_frame [OF Z this z(1) e]
  have dc: "decompress_data L DZ_ALG_ZSTD out z s =
      Some ((0, \<lparr>dstdata = Some (chunk d ?k), dstlen = Some (int (length (chunk d ?k)))\<rparr>), s)" .
  have k512: "?k < 512" using k l(3) by simp
  have r: "x - ?k * H5_BUFSIZE = x mod H5_BUFSIZE" by (rule minus_div_mult_eq_mod)
  have cp: "pread_copy (chunk d ?k) (int (length (chunk d ?k))) (int ?k) (int x)
      (count - length acc) = Some bs"
    using pread_copy_chunk [OF l(2) refl k512, of "count - length acc"] l(1)
    unfolding bs r by simp
  show "\<exists>out'. pread_loop H L DZ_ALG_ZSTD fd count (int x) out acc (s, h) =
        (if bs = [] then Some ((int (length acc), acc), (s, h))
         else pread_loop H L DZ_ALG_ZSTD fd count (int (x + length bs)) out' (acc @ bs) (s, h))"
    using l(1) rd z(2) dc cp b
    by (subst pread_loop.simps) (auto simp: Let_def split: list.split)
qed

lemma pread_loop_result:
  assumes H: "hdf5_contract H hf hdat" and Z: "zstd_contract L"
    and A: "archive_fd L hf hdat (s, h) fd d" and e: "env s = []" and d: "length d \<le> 2 ^ 31"
    and "acc = take (length acc) (drop off d)" "length acc \<le> count" "off + length acc \<le> length d"
  shows "pread_loop H L DZ_ALG_ZSTD fd count (int (off + length acc)) out acc (s, h) =
    Some ((if off + count \<le> length d \<or> \<not> H5_BUFSIZE dvd length d
           then int (length (take count (drop off d))) else -1, take count (drop off d)), (s, h))"
  using assms(6-)
proof (induction "count - length acc" arbitrary: acc out rule: less_induct)
  case less
  let ?x = "off + length acc"
  let ?bs = "take (min (count - length acc) (H5_BUFSIZE - ?x mod H5_BUFSIZE)) (drop ?x d)"
  show ?case
  proof (cases "length acc = count")
    case True
    with less.prems show ?thesis by (subst pread_loop.simps) simp
  next
    case False
    with less.prems(2) have c: "length acc < count" by simp
    note turn = pread_turn [OF H Z A e c less.prems(3) d refl, of out]
    show ?thesis
    proof (cases "?x = length d")
      case True
      then have all: "take count (drop off d) = acc" using less.prems(1) c by simp
      have more: "\<not> off + count \<le> length d" using True c by simp
      show ?thesis
      proof (cases "H5_BUFSIZE dvd length d")
        case dv: True
        then have "\<not> ?x div H5_BUFSIZE * H5_BUFSIZE < length d" using True by simp
        from turn(2) [OF this] show ?thesis using dv more all take_all [OF less_imp_le [OF c]] by simp
      next
        case dv: False
        then have "?x div H5_BUFSIZE * H5_BUFSIZE \<noteq> length d" by (metis dvd_triv_right)
        then have "?x div H5_BUFSIZE * H5_BUFSIZE < length d"
          using True div_times_less_eq_dividend [of ?x H5_BUFSIZE] by linarith
        from turn(1) [OF this] show ?thesis using dv True all take_all [OF less_imp_le [OF c]] by simp
      qed
    next
      case False
      then have lt: "?x < length d" using less.prems(3) by simp
      then have "?x div H5_BUFSIZE * H5_BUFSIZE < length d"
        using div_times_less_eq_dividend [of ?x H5_BUFSIZE] by linarith
      note t1 = turn(1) [OF this]
      define bs where "bs = ?bs"
      from t1 obtain out' where t: "pread_loop H L DZ_ALG_ZSTD fd count (int ?x) out acc (s, h) =
        (if bs = [] then Some ((int (length acc), acc), (s, h))
         else pread_loop H L DZ_ALG_ZSTD fd count (int (?x + length bs)) out' (acc @ bs) (s, h))"
        unfolding bs_def by blast
      have len: "length bs \<le> count - length acc" "0 < length bs" "?x + length bs \<le> length d"
        using lt c by (simp_all add: bs_def)
      have "bs = take (length bs) (drop ?x d)" by (simp add: bs_def min_def)
      then have "acc @ bs = take (length acc) (drop off d) @ take (length bs) (drop (off + length acc) d)"
        using less.prems(1) by simp
      also have "\<dots> = take (length acc + length bs) (drop off d)" by (rule take_drop_append_slices)
      finally have app: "acc @ bs = take (length (acc @ bs)) (drop off d)"
        unfolding length_append .
      have m: "count - length (acc @ bs) < count - length acc" "length (acc @ bs) \<le> count"
        "off + length (acc @ bs) \<le> length d"
        unfolding length_append using len c by linarith+
      from less.hyps [OF m(1) app m(2,3)] have
        "pread_loop H L DZ_ALG_ZSTD fd count (int (off + length (acc @ bs))) out' (acc @ bs) (s, h) =
        Some ((if off + count \<le> length d \<or> \<not> H5_BUFSIZE dvd length d
           then int (length (take count (drop off d))) else -1, take count (drop off d)), (s, h))" .
      moreover have "bs \<noteq> []" using len(2) by auto
      moreover have "off + length (acc @ bs) = ?x + length bs" by simp
      ultimately show ?thesis using t by (simp only: if_False)
    qed
  qed
qed

lemma h5fd_pread_contents:
  assumes "hdf5_contract H hf hdat" "zstd_contract L"
    and "archive_fd L hf hdat (s, h) fd d" "env s = []" "off \<le> length d" "length d \<le> 2 ^ 31"
  shows "h5fd_pread H L fd count (int off) (s, h) =
    Some ((if off + count \<le> length d \<or> \<not> H5_BUFSIZE dvd length d
           then int (length (take count (drop off d))) else -1, take count (drop off d)), (s, h))"
proof -
  have "0 < fd" using assms(3) by (simp add: archive_fd_def)
  then show ?thesis
    using archive_algorithm [OF assms(1,3,4)]
      pread_loop_result [OF assms(1-4,6), of "[]" off count uninit_out] assms(5)
    by (simp add: h5fd_pread_def)
qed

text \<open>C15. Reading a converted file is reading the original: from a compressed file with the
  contents \<open>d\<close>, \<open>h5fd_pread\<close> returns what \<^verbatim>\<open>pread\<close> returned on the uncompressed file, for every
  offset inside the file and every count, up to 2 GiB, with one exception: where the size of the
  file is a multiple of the block size of 4 MiB, a read that reaches the end returns -1, after it
  has put the right bytes into the buffer.\<close>

theorem h5fd_pread_correct:
  assumes "hdf5_contract H hf hdat" "zstd_contract L"
    and "archive_fd L hf hdat (s, h) fd d" "env s = []" "off \<le> length d" "length d \<le> 2 ^ 31"
  shows "h5fd_pread H L fd count (int off) (s, h) =
    Some ((if off + count \<le> length d \<or> \<not> H5_BUFSIZE dvd length d
           then int (length (take count (drop off d))) else -1, take count (drop off d)), (s, h))"
  using assms by (rule h5fd_pread_contents)

lemma h5fd_pread_correct_witness:
  "h5fd_pread sim_hdf5 sim_codec 1 10 (int 4194303) (demo_os [], archive_h5 (replicate 8388608 0)) =
     Some ((10, replicate 10 0), (demo_os [], archive_h5 (replicate 8388608 0)))"
  using h5fd_pread_correct [OF sim_hdf5_contract sim_codec_zstd sim_archive_fd,
      of "replicate 8388608 0" "demo_os []" 4194303 10]
  by (simp add: zeros_def demo_os_def)

text \<open>Reads past the end are undefined: with an offset beyond the end of the file but inside
  its last block, the code copies from memory behind the decompressed block, where \<^verbatim>\<open>pread\<close>
  returns 0.\<close>

theorem h5fd_pread_past_end:
  assumes "hdf5_contract H hf hdat" "zstd_contract L"
    and "archive_fd L hf hdat (s, h) fd d" "env s = []" "length d \<le> 2 ^ 31"
    and "length d < off" "off div H5_BUFSIZE * H5_BUFSIZE < length d" "0 < count"
  shows "h5fd_pread H L fd count (int off) (s, h) = None"
proof -
  let ?k = "off div H5_BUFSIZE"
  have fd: "0 < fd" using assms(3) by (simp add: archive_fd_def)
  have k: "?k < 512" using assms(5,7) by simp
  have "off < Suc ?k * H5_BUFSIZE" by (simp add: dividend_less_div_times)
  also have "\<dots> \<le> 512 * H5_BUFSIZE" using k by (intro mult_le_mono1) simp
  finally have "off \<le> 2 ^ 31" by simp
  then have b: "block_of (int off) = int ?k" by (rule block_of_nat)
  from archive_block(1) [OF assms(1,3,4,7)] obtain z where
    rd: "hdf5_readdata H fd (block_name ?k) H5_BUFSIZE (s, h) = (int (length z), z)"
    and z: "frame_of L z (chunk d ?k)" "0 < length z" by blast
  have "length (chunk d ?k) \<le> 2 ^ 29" by (simp add: chunk_length)
  note dc = decompress_data_frame [OF assms(2) this z(1) assms(4)]
  have "length (chunk d ?k) < off - ?k * H5_BUFSIZE"
    using assms(6,7) by (simp add: chunk_length)
  then have "\<not> int off - int ?k * int H5_BUFSIZE \<le> int (length (chunk d ?k))" by linarith
  then have "pread_copy (chunk d ?k) dl (int ?k) (int off) count = None" for dl
    by (simp add: pread_copy_def Let_def bind_eq_None_conv)
  then have "pread_loop H L DZ_ALG_ZSTD fd count (int off) uninit_out [] (s, h) = None"
    using rd z(2) dc b assms(8) by (subst pread_loop.simps) (simp add: Let_def)
  then show ?thesis
    using archive_algorithm [OF assms(1,3,4)] fd by (simp add: h5fd_pread_def)
qed

lemma h5fd_pread_past_end_witness:
  "h5fd_pread sim_hdf5 sim_codec 1 1 (int 5) (demo_os [], archive_h5 [1, 2, 3]) = None"
  using h5fd_pread_past_end [OF sim_hdf5_contract sim_codec_zstd sim_archive_fd,
      of "[1, 2, 3]" "demo_os []" 5 1]
  by (simp add: demo_os_def)

text \<open>C31. From 2 GiB on (and up to \<open>2 ^ 52\<close>, where the number of a block is still an \<^verbatim>\<open>int\<close>) every read within the file is
  undefined: the product of the block number and the block size overflows \<^verbatim>\<open>int\<close>.\<close>

theorem h5fd_pread_2GiB:
  assumes "hdf5_contract H hf hdat" "zstd_contract L"
    and "archive_fd L hf hdat (s, h) fd d" "env s = []"
    and "off < length d" "2 ^ 31 \<le> off" "off < 2 ^ 52" "0 < count"
  shows "h5fd_pread H L fd count (int off) (s, h) = None"
proof -
  let ?k = "off div H5_BUFSIZE"
  have fd: "0 < fd" using assms(3) by (simp add: archive_fd_def)
  have k: "512 \<le> ?k" using div_le_mono [OF assms(6), of H5_BUFSIZE] by simp
  have "?k \<le> 2 ^ 52 div H5_BUFSIZE" using assms(7) by (intro div_le_mono) simp
  then have "fits_int32 (int ?k)" by (simp add: fits_int32_def)
  then have b: "block_of (int off) = int ?k" by (simp add: block_of_def zdiv_int to_int32_id)
  have kl: "?k * H5_BUFSIZE < length d"
    using assms(5) div_times_less_eq_dividend [of off H5_BUFSIZE] by linarith
  from archive_block(1) [OF assms(1,3,4) kl] obtain z where
    rd: "hdf5_readdata H fd (block_name ?k) H5_BUFSIZE (s, h) = (int (length z), z)"
    and z: "frame_of L z (chunk d ?k)" "0 < length z" by blast
  have "length (chunk d ?k) \<le> 2 ^ 29" by (simp add: chunk_length)
  note dc = decompress_data_frame [OF assms(2) this z(1) assms(4)]
  have "\<not> fits_int32 (int ?k * int H5_BUFSIZE)" using k by (simp add: fits_int32_def)
  then have "pread_copy (chunk d ?k) dl (int ?k) (int off) count = None" for dl
    by (simp add: pread_copy_def)
  then have "pread_loop H L DZ_ALG_ZSTD fd count (int off) uninit_out [] (s, h) = None"
    using rd z(2) dc b assms(8) by (subst pread_loop.simps) (simp add: Let_def)
  then show ?thesis
    using archive_algorithm [OF assms(1,3,4)] fd by (simp add: h5fd_pread_def)
qed

lemma h5fd_pread_2GiB_witness:
  "h5fd_pread sim_hdf5 sim_codec 1 1 (int (2 ^ 31)) (demo_os [], archive_h5 (replicate (2 ^ 31 + 1) 0)) = None"
  using h5fd_pread_2GiB [OF sim_hdf5_contract sim_codec_zstd sim_archive_fd,
      of "replicate (2 ^ 31 + 1) 0" "demo_os []" "2 ^ 31" 1]
  by (simp add: zeros_def demo_os_def)

text \<open>C2. The round trip. Let \<open>convert2h5\<close> succeed in a system without failing calls, on a file of at most 2 GiB
  with one name that is not itself an open HDF5 file, and let each of its blocks have been
  compressed to less than 4 MiB (\<open>readable_blocks\<close>). Then the hidden file, opened with \<open>hdf5_open\<close>, reads through
  \<open>h5fd_pread\<close>, from any offset within the file, as the source did before the conversion; where the size
  is a multiple of 4 MiB, a read that goes past the end puts the bytes into the buffer but returns -1.\<close>

theorem convert_then_pread:
  assumes "hdf5_contract H hf hdat" "zstd_contract L" "cstring path" "env s = []"
    and "node_at s (comps path) = Some (i, n)" "\<not> i_dir n"
    and "\<And>q. map_of (names s) q = Some i \<Longrightarrow> q = comps path" "i \<notin> ran (hf h)"
    and "convert2h5 H L junk_src junk_h5 fuel (Some path) DZ_ALG_ZSTD (s, h) = Some (ret, (s1, h1))"
    and "0 \<le> ret" "length (ZSTD_versionString L) < 1000"
    and "\<And>j. map_of (names s1) (comps (hidden_name path)) = Some j \<Longrightarrow> readable_blocks (hdat s1 h1 j)"
    and "hdf5_open H (Some (hidden_name path)) H5_READ (s1, h1) = (fd, (s2, h2))" "0 < fd"
    and "off \<le> length (i_data n)" "length (i_data n) \<le> 2 ^ 31"
  shows "h5fd_pread H L fd count (int off) (s2, h2) =
    Some ((if off + count \<le> length (i_data n) \<or> \<not> H5_BUFSIZE dvd length (i_data n)
           then int (length (take count (drop off (i_data n)))) else -1,
           take count (drop off (i_data n))), (s2, h2))"
proof -
  have "conversion_result H L hf hdat (s, h) (hidden_name path) i n ret (s1, h1)"
    using assms(1-3,5-9) by (rule convert2h5_contents)
  then obtain cs j where cs: "map_of (names s1) (comps (hidden_name path)) = Some j"
    "stored L (hdat s1 h1 j) cs" "concat cs = i_data n" "aligned (i_data n) cs"
    "hdat s1 h1 j ''algorithm'' = Some (bytes_of_string (''zstd '' @ ZSTD_versionString L))"
    using assms(4,10) by (auto simp: conversion_result_def archived_def)
  from convert2h5_leaves [OF assms(1,3,5,6,9)] assms(4) have e1: "env s1 = []" by (auto dest: leavesD(7))
  have "h5_open_law H hf hdat" using assms(1) by (simp add: hdf5_contract_def)
  moreover have "H5Fopen H (hidden_name path) s1 h1 = (fd, s2, h2)"
    using assms(13,14) by (auto simp: hdf5_open_def split: prod.splits if_splits)
  ultimately have q: "quiet s1 s2" and d: "\<And>k. hdat s2 h2 k = hdat s1 h1 k"
    and o: "\<exists>i n. node_at s1 (comps (hidden_name path)) = Some (i, n) \<and> hf h2 = (hf h1)(fd \<mapsto> i)"
    using assms(14) unfolding h5_open_law_def by (blast, blast, metis)
  from o cs(1) have "hf h2 fd = Some j" by (auto simp: node_at_Some)
  then have "archive_fd L hf hdat (s2, h2) fd (i_data n)"
    unfolding archive_fd_def archive_node_def using cs assms(11,12,14) d by auto
  moreover have "env s2 = []" using q e1 by (auto simp: quiet_def)
  ultimately show ?thesis using assms(1,2,15,16) by (intro h5fd_pread_contents)
qed

lemma convert_then_pread_witness:
  "h5fd_pread sim_hdf5 sim_codec 1 9 (int 1) (fst demo_after, snd demo_after\<lparr>h5_ids := [(1, 2)]\<rparr>) =
     Some ((2, [2, 3]), (fst demo_after, snd demo_after\<lparr>h5_ids := [(1, 2)]\<rparr>))"
proof -
  have rd: "readable_blocks (sim_data (fst demo_after) (snd demo_after) j)"
    if "map_of (names (fst demo_after)) (comps (hidden_name ''/f'')) = Some j" for j
  proof -
    have "j = 2" using that by (simp add: demo_after_def comps_demo)
    then show ?thesis by (simp add: demo_after_def readable_blocks_def)
  qed
  have op: "hdf5_open sim_hdf5 (Some (hidden_name ''/f'')) H5_READ (fst demo_after, snd demo_after) =
      (1, (fst demo_after, snd demo_after\<lparr>h5_ids := [(1, 2)]\<rparr>))"
    by (simp add: hdf5_open_def sim_hdf5_simps demo_after_def comps_demo node_at_def fresh_id_def)
  have run: "convert2h5 sim_hdf5 sim_codec 0 0 (Suc (Suc 0)) (Some ''/f'') DZ_ALG_ZSTD
     (demo_os [1, 2, 3], demo_h5) = Some (0, (fst demo_after, snd demo_after))"
    by (simp add: demo_conversion)
  have e: "env (demo_os [1, 2, 3]) = []" by (simp add: demo_os_def)
  have v: "length (ZSTD_versionString sim_codec) < 1000" by (simp add: sim_codec_simps)
  have n: "\<not> i_dir demo_inode" "1 \<notin> ran (map_of (h5_ids demo_h5))"
    "1 \<le> length (i_data demo_inode)" "length (i_data demo_inode) \<le> 2 ^ 31"
    by (simp_all add: demo_inode_def demo_h5_def)
  have cs: "cstring ''/f''" by simp
  have only: "\<And>q. map_of (names (demo_os [1, 2, 3])) q = Some 1 \<Longrightarrow> q = comps ''/f''"
    by (rule demo_only_name)
  have nd: "\<not> H5_BUFSIZE dvd Suc (Suc (Suc 0))" by (rule nat_dvd_not_less) simp_all
  note convert_then_pread [where count = 9, OF sim_hdf5_contract sim_codec_zstd cs e demo_node n(1)
      only n(2) run order_refl v rd op zero_less_one n(3,4)]
  then show ?thesis by (simp add: demo_inode_def nd)
qed

text \<open>C30. Blocks that do not shrink are lost: where the frame of a block has 4 MiB or more, the
  buffer of \<open>h5fd_pread\<close> is too small for it, and every read from that block fails, although
  \<open>convert2h5\<close> has reported success and has zeroed the source.\<close>

theorem h5fd_pread_incompressible:
  assumes "hdf5_contract H hf hdat" "hf h fd = Some j" "0 < fd" "env s = []"
    and "hdat s h j ''algorithm'' = Some (bytes_of_string (''zstd '' @ v))" "length v < 1000"
    and "hdat s h j (block_name (off div H5_BUFSIZE)) = Some z" "H5_BUFSIZE \<le> length z"
    and "off < 2 ^ 31" "0 < count"
  shows "h5fd_pread H L fd count (int off) (s, h) = Some ((-1, []), (s, h))"
proof -
  let ?k = "off div H5_BUFSIZE"
  have alg: "getAlgorithm H fd (s, h) = (DZ_ALG_ZSTD, (s, h))"
    using assms(1-6) by (rule getAlgorithm_zstd)
  from h5_readD(2) [OF assms(1,2,4,7)] assms(3,8)
  have "hdf5_readdata H fd (block_name ?k) H5_BUFSIZE (s, h) = (-1, [])"
    by (auto simp: hdf5_readdata_def Let_def)
  moreover have "block_of (int off) = int ?k" using assms(9) by (intro block_of_nat) simp
  ultimately have "pread_loop H L DZ_ALG_ZSTD fd count (int off) uninit_out [] (s, h) =
      Some ((-1, []), (s, h))"
    using assms(10) by (subst pread_loop.simps) (simp add: Let_def)
  with alg assms(3) show ?thesis by (simp add: h5fd_pread_def)
qed

lemma h5fd_pread_incompressible_witness:
  "h5fd_pread sim_hdf5 sim_codec 1 1 (int 0)
     (demo_os [], archive_h5 (1 # replicate 4194303 0)) =
   Some ((-1, []), (demo_os [], archive_h5 (1 # replicate 4194303 0)))"
  using h5fd_pread_incompressible [OF sim_hdf5_contract, of "archive_h5 (1 # replicate 4194303 0)"
      1 2 "demo_os []" "''1.4.5''" 0 "sim_frame (1 # replicate 4194303 0)" 1 sim_codec]
  by (simp add: demo_os_def archive_h5_def sim_archive_block chunk_def)
    (simp add: sim_archive_def sim_frame_def zeros_def)

text \<open>Files compressed with zlib cannot be read: the decompressor takes the capacity from
  \<^verbatim>\<open>dstlen\<close>, which \<open>h5fd_pread\<close> has not initialised.\<close>

theorem h5fd_pread_zlib_undefined:
  assumes "getAlgorithm H fd (s, h) = (DZ_ALG_ZLIB, w)" "0 < fd" "0 < count"
    and "hdf5_readdata H fd (block_int_name (block_of off)) H5_BUFSIZE w = (ziplen, z)" "0 < ziplen"
  shows "h5fd_pread H L fd count off (s, h) = None"
proof -
  have "pread_loop H L DZ_ALG_ZLIB fd count off uninit_out [] w = None"
    using assms(3-) by (subst pread_loop.simps)
      (simp add: decompress_data_def decompressdata_zlib_def uninit_out_def)
  with assms(1,2) show ?thesis by (simp add: h5fd_pread_def)
qed

lemma h5fd_pread_zlib_undefined_witness:
  "h5fd_pread sim_hdf5 sim_codec 1 1 0
     (demo_os [], \<lparr>h5_ids = [(1, 2)], h5_sets = \<lambda>i.
        [''algorithm'' \<mapsto> bytes_of_string ''zlib 1.2.11'', ''block0'' \<mapsto> [0xFD, 1]]\<rparr>) = None"
proof -
  let ?w = "(demo_os [], \<lparr>h5_ids = [(1, 2)], h5_sets = \<lambda>i.
        [''algorithm'' \<mapsto> bytes_of_string ''zlib 1.2.11'', ''block0'' \<mapsto> [0xFD, 1]]\<rparr>)"
  have a: "getAlgorithm sim_hdf5 1 ?w = (DZ_ALG_ZLIB, ?w)"
    by (simp add: getAlgorithm_def hdf5_readstr_def sim_hdf5_simps sys_malloc_def demo_os_def
        cut_at_space_def)
  have "dec 0 = ''0''" by code_simp
  then have z: "hdf5_readdata sim_hdf5 1 (block_int_name (block_of 0)) H5_BUFSIZE ?w = (2, [0xFD, 1])"
    by (simp add: hdf5_readdata_def sim_hdf5_simps block_of_def to_int32_def block_int_name_def
        block_name_def)
  show ?thesis
    by (rule h5fd_pread_zlib_undefined [OF a zero_less_one zero_less_one z]) simp
qed

end
