(* ===== verification/World.thy ===== *)
theory World
  imports Pread
begin

text \<open>
  The state of a process that uses the library: the operating system, the states of the external
  libraries, the global \<^verbatim>\<open>priv\<close> of \<^verbatim>\<open>dzfile-api.c\<close> and the \<^verbatim>\<open>dzfd_t\<close> blocks on the heap; and
  the interfaces of the three libraries that are not modelled before: the hash map of
  sparsehash, SQLite and ZeroMQ.
\<close>

section \<open>External libraries\<close>

text \<open>The hash map: keys are descriptors, values are addresses of \<^verbatim>\<open>dzfd_t\<close> blocks.\<close>

record 'm shm_lib =
  shm_find :: "'m \<Rightarrow> int \<Rightarrow> nat option"
  shm_put :: "int \<Rightarrow> nat \<Rightarrow> 'm \<Rightarrow> 'm"
  shm_erase :: "int \<Rightarrow> 'm \<Rightarrow> 'm"
  shm_set_deleted :: "int \<Rightarrow> 'm \<Rightarrow> 'm"
  shm_deleted :: "'m \<Rightarrow> int option"

abbreviation (input) SQLITE_OK :: int where "SQLITE_OK \<equiv> 0"

text \<open>
  SQLite: \<open>sql_exec\<close> is \<^verbatim>\<open>sqlite3_exec\<close> without a callback; \<open>sql_table\<close> is
  \<^verbatim>\<open>sqlite3_get_table\<close> with its code, the number of rows, and the cells with the column names
  first; \<open>sql_open\<close> is \<^verbatim>\<open>sqlite3_open\<close> with the database made current.
\<close>

record 'd sqlite_lib =
  sql_open :: "string \<Rightarrow> 'd \<Rightarrow> int \<times> 'd"
  sql_busy_timeout :: "'d \<Rightarrow> int"
  sql_close :: "'d \<Rightarrow> 'd"
  sql_exec :: "string \<Rightarrow> 'd \<Rightarrow> int \<times> 'd"
  sql_table :: "string \<Rightarrow> 'd \<Rightarrow> int \<times> nat \<times> string option list"

record 'q zmq_lib =
  zmq_ctx_new :: "'q \<Rightarrow> bool \<times> 'q"
  zmq_socket :: "'q \<Rightarrow> bool \<times> 'q"
  zmq_connect :: "string \<Rightarrow> 'q \<Rightarrow> int \<times> 'q"
  zmq_send :: "string \<Rightarrow> 'q \<Rightarrow> int \<times> 'q"
  zmq_close :: "'q \<Rightarrow> 'q"
  zmq_ctx_destroy :: "'q \<Rightarrow> 'q"

record ('h, 'm, 'd, 'q) libs =
  h5 :: "'h hdf5_lib"
  codec :: codec_lib
  shm :: "'m shm_lib"
  sql :: "'d sqlite_lib"
  zmq :: "'q zmq_lib"

section \<open>State\<close>

text \<open>The levels of the log, in the order of their numbers.\<close>

datatype dz_loglevel = DZ_LOG_NONE | DZ_LOG_EMERG | DZ_LOG_ALERT | DZ_LOG_CRITICAL | DZ_LOG_ERROR
  | DZ_LOG_WARNING | DZ_LOG_NOTICE | DZ_LOG_INFO | DZ_LOG_DEBUG | DZ_LOG_TRACE

primrec level_number :: "dz_loglevel \<Rightarrow> nat" where
  "level_number DZ_LOG_NONE = 0"
| "level_number DZ_LOG_EMERG = 1"
| "level_number DZ_LOG_ALERT = 2"
| "level_number DZ_LOG_CRITICAL = 3"
| "level_number DZ_LOG_ERROR = 4"
| "level_number DZ_LOG_WARNING = 5"
| "level_number DZ_LOG_NOTICE = 6"
| "level_number DZ_LOG_INFO = 7"
| "level_number DZ_LOG_DEBUG = 8"
| "level_number DZ_LOG_TRACE = 9"

lemma level_number_inj: "level_number a = level_number b \<Longrightarrow> a = b"
  by (cases a; cases b) simp_all

instantiation dz_loglevel :: linorder
begin

definition less_eq_dz_loglevel :: "dz_loglevel \<Rightarrow> dz_loglevel \<Rightarrow> bool" where
  "less_eq_dz_loglevel a b \<longleftrightarrow> level_number a \<le> level_number b"

definition less_dz_loglevel :: "dz_loglevel \<Rightarrow> dz_loglevel \<Rightarrow> bool" where
  "less_dz_loglevel a b \<longleftrightarrow> level_number a < level_number b"

instance
  by standard (auto simp: less_eq_dz_loglevel_def less_dz_loglevel_def intro: level_number_inj)

end

text \<open>\<open>dzfile_priv\<close>. Pointers that the code tests are flags; \<open>dblock\<close> counts the calls of
  \<^verbatim>\<open>LOCK\<close> less those of \<^verbatim>\<open>UNLOCK\<close> on the mutex of that name.\<close>

record dzfile_priv =
  path_max :: int
  data_path :: "string option"
  loglevel :: dz_loglevel
  logfd :: int
  logfile :: "string option"
  mqcontext :: bool
  mqsocket :: bool
  db_open :: bool
  dblock :: int

text \<open>\<open>dzfd_t\<close>. \<open>d_filename\<close> is \<open>None\<close> for a pointer to a block that has been freed; the field
  \<^verbatim>\<open>method\<close> is never written.\<close>

record dzfd =
  d_fd :: int
  d_h5fd :: int
  d_filename :: "string option"

record ('h, 'm, 'd, 'q) world =
  w_os :: os
  w_h5 :: 'h
  w_fdm :: 'm
  w_db :: 'd
  w_mq :: 'q
  w_priv :: "dzfile_priv option"
  w_heap :: "nat \<Rightarrow> dzfd option"
  w_next :: nat
  w_freed :: bool   \<comment> \<open>\<open>dzfile_fini\<close> has freed \<open>w_priv\<close>, and left the pointer\<close>

definition on_os :: "(os \<Rightarrow> 'a \<times> os) \<Rightarrow> ('h, 'm, 'd, 'q) world \<Rightarrow> 'a \<times> ('h, 'm, 'd, 'q) world" where
  \<comment> \<open>a system call\<close>
  "on_os f w = (case f (w_os w) of (r, s) \<Rightarrow> (r, w\<lparr>w_os := s\<rparr>))"

definition on_st :: "('h st \<Rightarrow> 'a \<times> 'h st) \<Rightarrow> ('h, 'm, 'd, 'q) world \<Rightarrow> 'a \<times> ('h, 'm, 'd, 'q) world" where
  \<comment> \<open>a call that uses the HDF5 library\<close>
  "on_st f w = (case f (w_os w, w_h5 w) of (r, st) \<Rightarrow> (r, w\<lparr>w_os := fst st, w_h5 := snd st\<rparr>))"

definition set_errno :: "int \<Rightarrow> ('h, 'm, 'd, 'q) world \<Rightarrow> ('h, 'm, 'd, 'q) world" where
  "set_errno e w = w\<lparr>w_os := (w_os w)\<lparr>errno := e\<rparr>\<rparr>"

lemma set_errno_simps [simp]:
  "w_db (set_errno e w) = w_db w" "w_priv (set_errno e w) = w_priv w"
  "w_fdm (set_errno e w) = w_fdm w" "w_heap (set_errno e w) = w_heap w"
  "w_h5 (set_errno e w) = w_h5 w" "w_mq (set_errno e w) = w_mq w"
  "names (w_os (set_errno e w)) = names (w_os w)" "inodes (w_os (set_errno e w)) = inodes (w_os w)"
  "fds (w_os (set_errno e w)) = fds (w_os w)" "errno (w_os (set_errno e w)) = e"
  "env (w_os (set_errno e w)) = env (w_os w)"
  by (simp_all add: set_errno_def)

end
