(* ===== verification/Logging.thy ===== *)
theory Logging
  imports World
begin

text \<open>
  The log: \<^verbatim>\<open>skip_logging\<close>, \<^verbatim>\<open>_dz_msg\<close>, \<^verbatim>\<open>_dz_log_char\<close> and \<^verbatim>\<open>_dz_msg_backtrace\<close> of
  \<^verbatim>\<open>src/dz-common.c\<close>. Every function of the library logs; the other theories leave the calls out,
  which \<open>logging_is_transparent\<close> justifies.
\<close>

definition skip_logging :: "dzfile_priv option \<Rightarrow> dz_loglevel \<Rightarrow> bool" where
  "skip_logging priv level =
     (case priv of
        None \<Rightarrow> False
      | Some p \<Rightarrow> if level = DZ_LOG_NONE then True else loglevel p < level)"

fun dz_log_char :: "dz_loglevel \<Rightarrow> char" where
  "dz_log_char DZ_LOG_NONE = CHR ''N''"
| "dz_log_char DZ_LOG_EMERG = CHR ''E''"
| "dz_log_char DZ_LOG_ALERT = CHR ''A''"
| "dz_log_char DZ_LOG_CRITICAL = CHR ''C''"
| "dz_log_char DZ_LOG_ERROR = CHR ''E''"
| "dz_log_char DZ_LOG_WARNING = CHR ''W''"
| "dz_log_char DZ_LOG_NOTICE = CHR ''T''"
| "dz_log_char DZ_LOG_INFO = CHR ''I''"
| "dz_log_char DZ_LOG_DEBUG = CHR ''D''"
| "dz_log_char DZ_LOG_TRACE = CHR ''R''"

section \<open>Formatting\<close>

definition snprintf_buf :: "nat \<Rightarrow> string \<Rightarrow> string" where
  \<comment> \<open>what \<^verbatim>\<open>snprintf\<close> leaves in a buffer of \<open>n\<close> bytes; it returns the length of the whole string\<close>
  "snprintf_buf n str = take (n - 1) str"

definition print_int :: "int \<Rightarrow> string" where
  \<comment> \<open>\<^verbatim>\<open>%d\<close>\<close>
  "print_int n = (if n < 0 then CHR ''-'' # dec (nat (- n)) else dec (nat n))"

definition zero_pad :: "nat \<Rightarrow> nat \<Rightarrow> string" where
  \<comment> \<open>\<^verbatim>\<open>%0wd\<close> of a number that is not negative\<close>
  "zero_pad w n = replicate (w - length (dec n)) CHR ''0'' @ dec n"

definition space_pad :: "nat \<Rightarrow> int \<Rightarrow> string" where
  \<comment> \<open>\<^verbatim>\<open>%wd\<close>\<close>
  "space_pad w n = replicate (w - length (print_int n)) CHR '' '' @ print_int n"

record tm =
  tm_sec :: nat
  tm_min :: nat
  tm_hour :: nat
  tm_mday :: nat
  tm_mon :: nat
  tm_year :: int

definition msg_header :: "tm \<Rightarrow> nat \<Rightarrow> dz_loglevel \<Rightarrow> string \<Rightarrow> int \<Rightarrow> string \<Rightarrow> int \<Rightarrow> string" where
  "msg_header tm tv_usec level file line function_name errnum =
     ''['' @ space_pad 4 (tm_year tm + 1900) @ ''-'' @ zero_pad 2 (tm_mon tm + 1) @ ''-'' @
     zero_pad 2 (tm_mday tm) @ '' '' @ zero_pad 2 (tm_hour tm) @ '':'' @ zero_pad 2 (tm_min tm) @ '':'' @
     zero_pad 2 (tm_sec tm) @ ''.'' @ zero_pad 6 tv_usec @ ''] '' @ [dz_log_char level] @ '' ['' @ file @
     '':'' @ print_int line @ '':'' @ function_name @ ''] '' @ print_int errnum @ ''-''"

definition prtbuf :: "string \<Rightarrow> string \<Rightarrow> string" where
  \<comment> \<open>the two calls that fill \<^verbatim>\<open>prtbuf[DZ_LOGBUFSZ]\<close>\<close>
  "prtbuf header body =
     (let b1 = snprintf_buf 2048 header in b1 @ snprintf_buf (2048 - length b1) body)"

lemma prtbuf_take: "prtbuf header body = take 2047 (header @ body)"
  by (auto simp: prtbuf_def snprintf_buf_def Let_def min_def)

section \<open>The backtrace\<close>

text \<open>
  The calls of \<^verbatim>\<open>snprintf\<close> into \<open>callstr\<close>, each followed by \<^verbatim>\<open>PRINT_SIZE_CHECK\<close>. \<open>strsize\<close> is a
  \<^verbatim>\<open>size_t\<close>: the difference in the check is unsigned, and is positive whenever the two numbers
  differ. \<open>out\<close> is the string so far, at whose end the next one is put; \<open>ret\<close> is what the last
  call returned.
\<close>

fun backtrace_parts :: "nat \<Rightarrow> string list \<Rightarrow> 64 word \<Rightarrow> string \<Rightarrow> int \<Rightarrow> (int \<times> string) option" where
  "backtrace_parts savstrsize [] strsize out ret = Some (ret, out)"
| "backtrace_parts savstrsize (part # parts) strsize out ret = do {
     guard_ub (unat strsize \<le> savstrsize);
     let off = savstrsize - unat strsize;
     let out' = take off out @ snprintf_buf (unat strsize) part;
     let r = of_nat (length part);
     if strsize - r > 0 then backtrace_parts savstrsize parts (strsize - r) out' (int (length part))
     else Some (0, out') }"

definition dz_msg_backtrace :: "nat \<Rightarrow> nat \<Rightarrow> string list option \<Rightarrow> (int \<times> string) option" where
  \<comment> \<open>\<open>syms\<close> is what \<^verbatim>\<open>backtrace_symbols\<close> returns; their number is that of the frames less two\<close>
  "dz_msg_backtrace stacksize strsize syms =
     (if stacksize < 3 then Some (-1, [])
      else case syms of
          None \<Rightarrow> Some (-1, [])
        | Some [] \<Rightarrow> Some (-1, [])
        | Some calling \<Rightarrow>
            backtrace_parts strsize (''('' # map (\<lambda>c. ''-->'' @ c @ '' '') (rev calling) @ ['')''])
              (of_nat strsize) [] (-1))"

section \<open>Messages\<close>

text \<open>
  \<open>_dz_msg\<close> with the body that \<^verbatim>\<open>vsnprintf\<close> makes of its arguments, the time \<^verbatim>\<open>tv_usec\<close> and what
  \<^verbatim>\<open>localtime\<close> returns for it; \<^verbatim>\<open>gettimeofday\<close> does not fail on valid pointers. \<open>trace\<close> is 0 in
  every call of the program: with it, nothing is written.
\<close>

definition dz_msg ::
    "dzfile_priv option \<Rightarrow> string \<Rightarrow> string \<Rightarrow> int \<Rightarrow> dz_loglevel \<Rightarrow> int \<Rightarrow> bool \<Rightarrow> string list option
      \<Rightarrow> tm \<Rightarrow> nat \<Rightarrow> string \<Rightarrow> os \<Rightarrow> (int \<times> os) option" where
  "dz_msg priv file function_name line level errnum trace syms tm tv_usec body s =
     (case priv of
        None \<Rightarrow> Some (-1, s)
      | Some p \<Rightarrow>
          if skip_logging priv level then Some (0, s)
          else if trace
          then (case dz_msg_backtrace 5 4096 syms of
              None \<Rightarrow> None
            | Some (ret, callstr) \<Rightarrow> Some (if 0 \<le> ret then ret else 0, s))
          else (case sys_write (logfd p)
                       (bytes_of_string (prtbuf (msg_header tm tv_usec level file line function_name errnum) body)) s of
              (ret, s1) \<Rightarrow> Some (ret, s1\<lparr>errno := errno s\<rparr>)))"

section \<open>The log does not interfere\<close>

text \<open>A write changes its file and its descriptor only; to a file opened for appending it appends.\<close>

lemma write_only_changes:
  assumes w: "sys_write fd x s = (r, s')" and f: "fd_file s fd = Some (f, n)"
  shows "only_changes (of_ino f) fd s s' \<and>
    (env s = [] \<longrightarrow> writable (of_flags f) \<longrightarrow> and (of_flags f) O_APPEND \<noteq> 0 \<longrightarrow>
       inodes s' (of_ino f) = Some (n\<lparr>i_data := i_data n @ x, i_mtime := now s\<rparr>))"
proof (rule sys_write_cases [OF w f refl])
  assume "r = -1" "quiet s s'"
  moreover have "env s \<noteq> []" if "writable (of_flags f)"
  proof
    assume "env s = []"
    with w f that \<open>r = -1\<close> show False by (simp add: sys_write_def Let_def)
  qed
  ultimately show ?thesis by (auto intro: quiet_only_changes)
next
  fix k s0
  let ?off = "if and (of_flags f) O_APPEND \<noteq> 0 then length (i_data n) else of_off f"
  let ?s0 = "set_data (of_ino f) n (splice (i_data n) ?off (take k x)) s0"
  assume q: "quiet s s0" and n: "env s = [] \<Longrightarrow> k = length x \<and> s0 = s"
    and s1: "s' = fd_seek fd f (?off + k) ?s0"
  have fd: "fd_get s fd = Some f" "inodes s (of_ino f) = Some n" using f by (simp_all add: fd_file_Some)
  have g: "fd_get s0 = fd_get s" using q by (rule quiet_fd_get)
  have "fds ?s0 = fds s0" by (simp add: set_data_def)
  then have "fd_get ?s0 = fd_get s0" by (rule fd_get_cong)
  with g have g1: "fd_get ?s0 = fd_get s" by simp
  then have "fd_get ?s0 fd = Some f" using fd by simp
  from fd_get_seek [OF this] g1 have g2: "fd_get s' fd' =
      (if fd' = fd then Some (f\<lparr>of_off := ?off + k\<rparr>) else fd_get s fd')" for fd'
    unfolding s1 by simp
  have "only_changes (of_ino f) fd s s'"
    using q fd g2 unfolding only_changes_def by (auto simp: s1 set_data_def quiet_def)
  moreover have "inodes s' (of_ino f) = Some (n\<lparr>i_data := i_data n @ x, i_mtime := now s\<rparr>)"
    if "env s = []" "and (of_flags f) O_APPEND \<noteq> 0"
    using n [OF that(1)] that(2) by (simp add: s1 set_data_def splice_end)
  ultimately show ?thesis by blast
qed

text \<open>C34. A call of the log leaves \<^verbatim>\<open>errno\<close> as it was, and changes nothing of the system but the
  contents of the log file and the offset of its descriptor, whatever fails; so the other parts
  of the program can be studied without it. In a system that works, a message that is not
  skipped is appended to the log, cut at 2047 characters.\<close>

theorem logging_is_transparent:
  assumes "fd_file s (logfd p) = Some (f, n)"
    and "dz_msg (Some p) file fn line level errnum False syms tm usec body s = Some (ret, s')"
  shows "errno s' = errno s \<and> only_changes (of_ino f) (logfd p) s s' \<and>
    (env s = [] \<longrightarrow> writable (of_flags f) \<longrightarrow> and (of_flags f) O_APPEND \<noteq> 0 \<longrightarrow>
       level \<noteq> DZ_LOG_NONE \<longrightarrow> level \<le> loglevel p \<longrightarrow>
       (\<exists>m. inodes s' (of_ino f) = Some (n\<lparr>i_data := i_data n @ bytes_of_string
          (take 2047 (msg_header tm usec level file line fn errnum @ body)), i_mtime := m\<rparr>)))"
proof (cases "skip_logging (Some p) level")
  case True
  with assms(2) have "s' = s" by (simp add: dz_msg_def)
  moreover have "level = DZ_LOG_NONE \<or> \<not> level \<le> loglevel p"
    using True by (simp add: skip_logging_def not_le split: if_splits)
  ultimately show ?thesis by (auto intro: only_changes_refl)
next
  case False
  let ?t = "bytes_of_string (take 2047 (msg_header tm usec level file line fn errnum @ body))"
  obtain r s1 where w: "sys_write (logfd p) ?t s = (r, s1)" by fastforce
  have s': "s' = s1\<lparr>errno := errno s\<rparr>"
    using assms(2) False w by (simp add: dz_msg_def prtbuf_take)
  have eq: "only_changes (of_ino f) (logfd p) s (t\<lparr>errno := e\<rparr>) = only_changes (of_ino f) (logfd p) s t"
    for t e by (simp add: only_changes_def)
  from write_only_changes [OF w assms(1)] show ?thesis by (auto simp: s' eq)
qed

definition log_os :: os where
  \<comment> \<open>the log file \<^verbatim>\<open>/f\<close> is open at descriptor 1 for appending\<close>
  "log_os = (demo_os [1])\<lparr>fds := [None, Some \<lparr>of_ino = 1, of_off = 0, of_flags = or O_WRONLY O_APPEND\<rparr>]\<rparr>"

definition log_priv :: dzfile_priv where
  "log_priv = \<lparr>path_max = 4096, data_path = None, loglevel = DZ_LOG_DEBUG, logfd = 1, logfile = None,
     mqcontext = False, mqsocket = False, db_open = False, dblock = 0\<rparr>"

definition log_tm :: tm where
  "log_tm = \<lparr>tm_sec = 5, tm_min = 4, tm_hour = 3, tm_mday = 2, tm_mon = 0, tm_year = 124\<rparr>"

lemma demo_header:
  "msg_header log_tm 7 DZ_LOG_ERROR ''a.c'' 9 ''g'' 2 =
     ''[2024-01-02 03:04:05.000007] E [a.c:9:g] 2-''"
  by code_simp

lemma logging_is_transparent_witness:
  "\<exists>s' m. dz_msg (Some log_priv) ''a.c'' ''g'' 9 DZ_LOG_ERROR 2 False None log_tm 7 ''no'' log_os = Some (45, s') \<and>
    errno s' = errno log_os \<and> only_changes 1 1 log_os s' \<and>
    inodes s' 1 = Some \<lparr>i_dir = False, i_perm = 0x1A4,
      i_data = 1 # bytes_of_string ''[2024-01-02 03:04:05.000007] E [a.c:9:g] 2-no'', i_mtime = m\<rparr>"
proof -
  have w: "and (or O_WRONLY O_APPEND) O_APPEND \<noteq> (0 :: 32 word)" "writable (or O_WRONLY O_APPEND)"
    by (simp_all add: writable_def)
  let ?f = "\<lparr>of_ino = 1, of_off = 0, of_flags = or O_WRONLY O_APPEND\<rparr>"
  let ?n = "\<lparr>i_dir = False, i_perm = 0x1A4, i_data = [1], i_mtime = 0\<rparr>"
  have f: "fd_file log_os (logfd log_priv) = Some (?f, ?n)"
    by (simp add: log_os_def log_priv_def demo_os_def fd_file_def fd_get_def)
  have "\<exists>s'. dz_msg (Some log_priv) ''a.c'' ''g'' 9 DZ_LOG_ERROR 2 False None log_tm 7 ''no'' log_os = Some (45, s')"
    using f w
    by (simp add: dz_msg_def skip_logging_def less_dz_loglevel_def prtbuf_take demo_header sys_write_def Let_def
        bytes_of_string_def) (simp add: log_os_def log_priv_def demo_os_def)
  then obtain s' where s': "dz_msg (Some log_priv) ''a.c'' ''g'' 9 DZ_LOG_ERROR 2 False None log_tm 7 ''no'' log_os
      = Some (45, s')" by blast
  from logging_is_transparent [OF f s'] w show ?thesis
    using s' by (simp add: log_os_def demo_os_def log_priv_def less_eq_dz_loglevel_def demo_header)
qed

section \<open>The check of the backtrace\<close>

lemma unat_of_nat_small: "k < 2 ^ 63 \<Longrightarrow> unat (of_nat k :: 64 word) = k"
  by (simp add: unat_of_nat take_bit_nat_eq_self)

lemma of_nat_pos_small: "0 < k \<Longrightarrow> k < 2 ^ 63 \<Longrightarrow> (0 :: 64 word) < of_nat k"
  using unat_of_nat_small [of k] by (simp add: word_less_nat_alt)

lemma backtrace_step:
  assumes "k \<le> sav" "sav < 2 ^ 63" "length part < k"
  shows "backtrace_parts sav (part # parts) (of_nat k) out ret =
    backtrace_parts sav parts (of_nat (k - length part)) (take (sav - k) out @ part) (int (length part))"
proof -
  have k: "unat (of_nat k :: 64 word) = k" using assms by (intro unat_of_nat_small) simp
  have d: "(of_nat k :: 64 word) - of_nat (length part) = of_nat (k - length part)"
    using assms(3) by simp
  have "(0 :: 64 word) < of_nat (k - length part)" using assms by (intro of_nat_pos_small) simp_all
  then show ?thesis using assms k by (simp add: d snprintf_buf_def Let_def del: of_nat_diff)
qed

lemma backtrace_parts_fit:
  assumes "sav < 2 ^ 63" "length out + length (concat ps) < sav"
  shows "backtrace_parts sav (ps @ qs) (of_nat (sav - length out)) out ret =
    backtrace_parts sav qs (of_nat (sav - length (out @ concat ps))) (out @ concat ps)
      (if ps = [] then ret else int (length (last ps)))"
  using assms(2)
proof (induction ps arbitrary: out ret)
  case Nil
  then show ?case by simp
next
  case (Cons p ps)
  have e: "sav - length out - length p = sav - length (out @ p)" by simp
  have "backtrace_parts sav (p # ps @ qs) (of_nat (sav - length out)) out ret =
      backtrace_parts sav (ps @ qs) (of_nat (sav - length (out @ p))) (out @ p) (int (length p))"
    using Cons.prems assms(1) unfolding e [symmetric] by (subst backtrace_step) simp_all
  also have "\<dots> = backtrace_parts sav qs (of_nat (sav - length ((out @ p) @ concat ps)))
      ((out @ p) @ concat ps) (if ps = [] then int (length p) else int (length (last ps)))"
    using Cons.prems by (intro Cons.IH) simp
  finally show ?case by simp
qed

lemma backtrace_parts_overflow:
  assumes "k \<le> sav" "sav < 2 ^ 31" "k < length part" "length part < 2 ^ 31"
  shows "backtrace_parts sav (part # next # parts) (of_nat k) out ret = None"
proof -
  let ?m = "length part"
  let ?d = "(of_nat k :: 64 word) - of_nat ?m"
  have u: "unat (of_nat k :: 64 word) = k" "unat (of_nat ?m :: 64 word) = ?m"
    using assms by (simp_all add: unat_of_nat_small)
  have ui: "uint (of_nat k :: 64 word) = int k" "uint (of_nat ?m :: 64 word) = int ?m"
    by (simp_all only: uint_nat u)
  have "uint ?d = (int k - int ?m) mod 2 ^ 64" unfolding uint_word_ariths(2) ui by simp
  also have "\<dots> = (int k - int ?m + 2 ^ 64) mod 2 ^ 64" by simp
  also have "\<dots> = int k - int ?m + 2 ^ 64" using assms by (intro mod_pos_pos_trivial) simp_all
  finally have d: "uint ?d = int k - int ?m + 2 ^ 64" .
  then have "uint ?d > int sav" using assms by simp
  then have "int (unat ?d) > int sav" unfolding uint_nat .
  then have "unat ?d > sav" by (simp only: of_nat_less_iff)
  moreover from this have "?d > 0" unfolding word_less_nat_alt by simp
  ultimately show ?thesis using assms(1) u by (simp add: Let_def not_le)
qed

text \<open>The backtrace fits or the program runs out of its buffer: as long as the text is shorter than
  the 4096 bytes of \<^verbatim>\<open>callstr\<close> it is all there, but a single frame that is too long is not
  noticed, since the check subtracts two unsigned numbers: the next string is put behind the
  buffer.\<close>

theorem backtrace_check_is_void:
  assumes "syms \<noteq> []" "length (concat (map (\<lambda>c. ''-->'' @ c @ '' '') (rev syms))) < 4094"
    and "4092 \<le> length c" "length c < 2 ^ 30"
  shows "dz_msg_backtrace 5 4096 (Some syms) =
      Some (1, ''('' @ concat (map (\<lambda>c. ''-->'' @ c @ '' '') (rev syms)) @ '')'') \<and>
    dz_msg_backtrace 5 4096 (Some [c]) = None"
proof
  let ?parts = "''('' # map (\<lambda>c. ''-->'' @ c @ '' '') (rev syms) @ ['')'']"
  have "backtrace_parts 4096 ?parts (of_nat 4096) [] (-1) = Some (1, concat ?parts)"
    using backtrace_parts_fit [of 4096 "[]" ?parts "[]" "-1"] assms(2) by simp
  then show "dz_msg_backtrace 5 4096 (Some syms) =
      Some (1, ''('' @ concat (map (\<lambda>c. ''-->'' @ c @ '' '') (rev syms)) @ '')'')"
    using assms(1) by (cases syms) (simp_all add: dz_msg_backtrace_def del: backtrace_parts.simps)
  have "backtrace_parts 4096 [''('', ''-->'' @ c @ '' '', '')''] (of_nat 4096) [] (-1) =
      backtrace_parts 4096 [''-->'' @ c @ '' '', '')''] (of_nat 4095) ''('' 1"
    using backtrace_step [of 4096 4096 "''(''" "[''-->'' @ c @ '' '', '')'']" "[]" "-1"] by simp
  also have "\<dots> = None" using assms(3,4) by (intro backtrace_parts_overflow) simp_all
  finally show "dz_msg_backtrace 5 4096 (Some [c]) = None" by (simp add: dz_msg_backtrace_def)
qed

lemma backtrace_check_is_void_witness:
  "dz_msg_backtrace 5 4096 (Some [''f'', ''g'']) = Some (1, ''(-->g -->f )'') \<and>
    dz_msg_backtrace 5 4096 (Some [replicate 5000 CHR ''x'']) = None"
  using backtrace_check_is_void [of "[''f'', ''g'']" "replicate 5000 CHR ''x''"] by simp

end
