(* ===== verification/FdMap.thy ===== *)
theory FdMap
  imports World
begin

text \<open>
  The map from descriptors to open compressed files: \<^verbatim>\<open>src/sparsehash-map.cc\<close>, and the
  interface through which \<^verbatim>\<open>dzfile-api.c\<close> uses it.
\<close>

section \<open>The operations\<close>

text \<open>
  sparsehash documents that \<^verbatim>\<open>set_deleted_key\<close> must come before \<^verbatim>\<open>erase\<close>, and that the
  deleted key must not be inserted or erased: those calls are undefined here.
\<close>

definition hashmap_init :: "'m shm_lib \<Rightarrow> 'm \<Rightarrow> 'm" where
  "hashmap_init S m = shm_set_deleted S (-1) m"

definition add_dzfd :: "'m shm_lib \<Rightarrow> int \<Rightarrow> nat \<Rightarrow> 'm \<Rightarrow> (int \<times> 'm) option" where
  \<comment> \<open>address 0 is the null pointer\<close>
  "add_dzfd S fd dzfd m =
     (if dzfd = 0 then Some (-1, m)
      else do { guard_ub (shm_deleted S m \<noteq> Some fd); Some (0, shm_put S fd dzfd m) })"

definition remove_dzfd :: "'m shm_lib \<Rightarrow> int \<Rightarrow> 'm \<Rightarrow> (int \<times> 'm) option" where
  "remove_dzfd S fd m = do {
     guard_ub (shm_deleted S m \<noteq> None \<and> shm_deleted S m \<noteq> Some fd);
     Some (0, shm_erase S fd m) }"

definition find_dzfd :: "'m shm_lib \<Rightarrow> int \<Rightarrow> 'm \<Rightarrow> nat" where
  "find_dzfd S fd m = (case shm_find S m fd of None \<Rightarrow> 0 | Some value \<Rightarrow> value)"

section \<open>What is documented of the map\<close>

definition shm_contract :: "'m shm_lib \<Rightarrow> bool" where
  "shm_contract S \<longleftrightarrow>
     (\<forall>m k v. shm_deleted S m \<noteq> Some k \<longrightarrow>
        shm_find S (shm_put S k v m) = (shm_find S m)(k \<mapsto> v) \<and>
        shm_deleted S (shm_put S k v m) = shm_deleted S m) \<and>
     (\<forall>m k. shm_deleted S m \<noteq> None \<longrightarrow> shm_deleted S m \<noteq> Some k \<longrightarrow>
        shm_find S (shm_erase S k m) = (shm_find S m)(k := None) \<and>
        shm_deleted S (shm_erase S k m) = shm_deleted S m) \<and>
     (\<forall>m k. shm_find S m k = None \<longrightarrow>
        shm_find S (shm_set_deleted S k m) = shm_find S m \<and>
        shm_deleted S (shm_set_deleted S k m) = Some k)"

section \<open>The interface\<close>

text \<open>
  A table of open files: the descriptor \<open>bad\<close> may not be entered. The laws hold for the states
  that \<open>invar\<close> describes, and the operations keep them.
\<close>

locale fd_table =
  fixes invar :: "'t \<Rightarrow> bool"
    and find :: "int \<Rightarrow> 't \<Rightarrow> nat"
    and add :: "int \<Rightarrow> nat \<Rightarrow> 't \<Rightarrow> (int \<times> 't) option"
    and remove :: "int \<Rightarrow> 't \<Rightarrow> (int \<times> 't) option"
    and bad :: int
  assumes add_ok: "invar t \<Longrightarrow> fd \<noteq> bad \<Longrightarrow> p \<noteq> 0 \<Longrightarrow>
      \<exists>t'. add fd p t = Some (0, t') \<and> invar t' \<and>
        (\<forall>fd'. find fd' t' = (if fd' = fd then p else find fd' t))"
    and add_bad: "invar t \<Longrightarrow> p \<noteq> 0 \<Longrightarrow> add bad p t = None"
    and remove_ok: "invar t \<Longrightarrow> fd \<noteq> bad \<Longrightarrow>
      \<exists>t'. remove fd t = Some (0, t') \<and> invar t' \<and>
        (\<forall>fd'. find fd' t' = (if fd' = fd then 0 else find fd' t))"
    and find_bad: "invar t \<Longrightarrow> find bad t = 0"
begin

text \<open>Entering a descriptor and removing it again leaves every other descriptor as it was.\<close>

lemma add_remove:
  assumes "invar t" "fd \<noteq> bad" "p \<noteq> 0"
  shows "\<exists>t1 t2. add fd p t = Some (0, t1) \<and> remove fd t1 = Some (0, t2) \<and> invar t2 \<and>
    find fd t1 = p \<and> find fd t2 = 0 \<and> (\<forall>fd'. fd' \<noteq> fd \<longrightarrow> find fd' t2 = find fd' t)"
proof -
  from add_ok [OF assms] obtain t1 where t1: "add fd p t = Some (0, t1)" "invar t1"
    "\<forall>fd'. find fd' t1 = (if fd' = fd then p else find fd' t)" by blast
  from remove_ok [OF t1(2) assms(2)] obtain t2 where t2: "remove fd t1 = Some (0, t2)" "invar t2"
    "\<forall>fd'. find fd' t2 = (if fd' = fd then 0 else find fd' t1)" by blast
  from t1 t2 show ?thesis by (intro exI [of _ t1] exI [of _ t2]) simp
qed

text \<open>What a sequence of additions has entered is found, the last one for each descriptor.\<close>

fun add_all :: "(int \<times> nat) list \<Rightarrow> 't \<Rightarrow> 't option" where
  "add_all [] t = Some t"
| "add_all ((fd, p) # r) t = (case add fd p t of None \<Rightarrow> None | Some (rc, t1) \<Rightarrow> add_all r t1)"

lemma add_all_find:
  assumes "invar t" "\<forall>(fd, p)\<in>set xs. fd \<noteq> bad \<and> p \<noteq> 0"
  shows "\<exists>t'. add_all xs t = Some t' \<and> invar t' \<and>
    (\<forall>fd. find fd t' = (case map_of (rev xs) fd of None \<Rightarrow> find fd t | Some p \<Rightarrow> p))"
  using assms
proof (induction xs arbitrary: t)
  case Nil
  then show ?case by simp
next
  case (Cons x xs)
  obtain fd p where x: "x = (fd, p)" by (cases x)
  with Cons.prems add_ok [of t fd p] obtain t1 where t1: "add fd p t = Some (0, t1)" "invar t1"
    "\<forall>fd'. find fd' t1 = (if fd' = fd then p else find fd' t)" by auto
  from Cons.IH [OF t1(2)] Cons.prems(2) obtain t' where "add_all xs t1 = Some t'" "invar t'"
    "\<forall>fd. find fd t' = (case map_of (rev xs) fd of None \<Rightarrow> find fd t1 | Some p \<Rightarrow> p)" by auto
  with t1 x show ?case by (auto simp: map_add_def split: option.split)
qed

end

text \<open>The model provides it: the state is the library with its map, after \<open>hashmap_init\<close>.\<close>

definition fdm_invar :: "'m shm_lib \<times> 'm \<Rightarrow> bool" where
  "fdm_invar t \<longleftrightarrow> shm_contract (fst t) \<and> shm_deleted (fst t) (snd t) = Some (-1) \<and>
     shm_find (fst t) (snd t) (-1) = None"

definition fdm_find :: "int \<Rightarrow> 'm shm_lib \<times> 'm \<Rightarrow> nat" where
  "fdm_find fd t = find_dzfd (fst t) fd (snd t)"

definition fdm_add :: "int \<Rightarrow> nat \<Rightarrow> 'm shm_lib \<times> 'm \<Rightarrow> (int \<times> 'm shm_lib \<times> 'm) option" where
  "fdm_add fd p t = map_option (\<lambda>(r, m). (r, fst t, m)) (add_dzfd (fst t) fd p (snd t))"

definition fdm_remove :: "int \<Rightarrow> 'm shm_lib \<times> 'm \<Rightarrow> (int \<times> 'm shm_lib \<times> 'm) option" where
  "fdm_remove fd t = map_option (\<lambda>(r, m). (r, fst t, m)) (remove_dzfd (fst t) fd (snd t))"

lemma shm_putD:
  "shm_contract S \<Longrightarrow> shm_deleted S m \<noteq> Some k \<Longrightarrow>
    shm_find S (shm_put S k v m) = (shm_find S m)(k \<mapsto> v) \<and>
    shm_deleted S (shm_put S k v m) = shm_deleted S m"
  unfolding shm_contract_def by blast

lemma shm_eraseD:
  "shm_contract S \<Longrightarrow> shm_deleted S m = Some d \<Longrightarrow> d \<noteq> k \<Longrightarrow>
    shm_find S (shm_erase S k m) = (shm_find S m)(k := None) \<and>
    shm_deleted S (shm_erase S k m) = shm_deleted S m"
  unfolding shm_contract_def by (metis option.distinct(1) option.inject)

interpretation fdt: fd_table fdm_invar fdm_find fdm_add fdm_remove "-1"
proof unfold_locales
  fix t :: "'m shm_lib \<times> 'm" and fd p
  assume t: "fdm_invar t"
  then have c: "shm_contract (fst t)" and d: "shm_deleted (fst t) (snd t) = Some (-1)"
    and n: "shm_find (fst t) (snd t) (-1) = None" by (simp_all add: fdm_invar_def)
  show "\<exists>t'. fdm_add fd p t = Some (0, t') \<and> fdm_invar t' \<and>
        (\<forall>fd'. fdm_find fd' t' = (if fd' = fd then p else fdm_find fd' t))"
    if "fd \<noteq> -1" "p \<noteq> 0"
    using that c d n shm_putD [OF c, of "snd t" fd p]
    by (simp add: fdm_add_def add_dzfd_def fdm_invar_def fdm_find_def find_dzfd_def)
  show "fdm_add (-1) p t = None" if "p \<noteq> 0"
    using that d by (simp add: fdm_add_def add_dzfd_def)
  show "\<exists>t'. fdm_remove fd t = Some (0, t') \<and> fdm_invar t' \<and>
        (\<forall>fd'. fdm_find fd' t' = (if fd' = fd then 0 else fdm_find fd' t))"
    if "fd \<noteq> -1"
    using that c d n shm_eraseD [OF c d, of fd]
    by (simp add: fdm_remove_def remove_dzfd_def fdm_invar_def fdm_find_def find_dzfd_def)
  show "fdm_find (-1) t = 0"
    using n by (simp add: fdm_find_def find_dzfd_def)
qed

lemma hashmap_init_invar:
  "shm_contract S \<Longrightarrow> shm_find S m (-1) = None \<Longrightarrow> fdm_invar (S, hashmap_init S m)"
  by (simp add: fdm_invar_def hashmap_init_def shm_contract_def)

section \<open>The map in the process\<close>

text \<open>The descriptor table of the model: after \<open>hashmap_init\<close>, any descriptors but \<open>-1\<close> can be
  entered; \<open>find_dzfd\<close> then returns the block entered last for the descriptor, and the old
  answer, or the null pointer, for all others. \<open>-1\<close>, which \<open>dzfile_open\<close> enters when
  \<^verbatim>\<open>open\<close> has failed, is the deleted key of the map: entering it is undefined.\<close>

theorem fd_map_find_after_add:
  assumes "shm_contract S" "shm_find S m (-1) = None" "fd \<noteq> -1" "p \<noteq> 0"
  shows "\<exists>m1 m2. add_dzfd S fd p (hashmap_init S m) = Some (0, m1) \<and>
      find_dzfd S fd m1 = p \<and> remove_dzfd S fd m1 = Some (0, m2) \<and> find_dzfd S fd m2 = 0 \<and>
      (\<forall>fd'. fd' \<noteq> fd \<longrightarrow> find_dzfd S fd' m1 = find_dzfd S fd' m \<and>
        find_dzfd S fd' m2 = find_dzfd S fd' m)
    \<and> add_dzfd S (-1) p (hashmap_init S m) = None"
proof -
  let ?t = "(S, hashmap_init S m)"
  have inv: "fdm_invar ?t" using assms(1,2) by (rule hashmap_init_invar)
  have same: "find_dzfd S fd' (hashmap_init S m) = find_dzfd S fd' m" for fd'
    using assms(1,2) by (simp add: shm_contract_def hashmap_init_def find_dzfd_def)
  from fdt.add_ok [OF inv assms(3,4)] obtain t1 where t1: "fdm_add fd p ?t = Some (0, t1)"
    "fdm_invar t1" "\<forall>fd'. fdm_find fd' t1 = (if fd' = fd then p else fdm_find fd' ?t)" by blast
  from t1(1) obtain m1 where m1: "add_dzfd S fd p (hashmap_init S m) = Some (0, m1)" "t1 = (S, m1)"
    by (auto simp: fdm_add_def)
  from fdt.remove_ok [OF t1(2) assms(3)] obtain t2 where t2: "fdm_remove fd t1 = Some (0, t2)"
    "\<forall>fd'. fdm_find fd' t2 = (if fd' = fd then 0 else fdm_find fd' t1)" by blast
  from t2(1) m1(2) obtain m2 where m2: "remove_dzfd S fd m1 = Some (0, m2)" "t2 = (S, m2)"
    by (auto simp: fdm_remove_def)
  have "add_dzfd S (-1) p (hashmap_init S m) = None"
    using fdt.add_bad [OF inv assms(4)] by (simp add: fdm_add_def)
  then show ?thesis
    using m1 m2 t1(3) t2(2) same by (intro exI [of _ m1] exI [of _ m2]) (simp add: fdm_find_def)
qed

section \<open>An instance of the map\<close>

record shm_sim =
  sm_map :: "(int \<times> nat) list"
  sm_deleted :: "int option"

definition sim_shm :: "shm_sim shm_lib" where
  "sim_shm =
     \<lparr>shm_find = (\<lambda>m. map_of (sm_map m)),
      shm_put = (\<lambda>k v m. m\<lparr>sm_map := AList.update k v (sm_map m)\<rparr>),
      shm_erase = (\<lambda>k m. m\<lparr>sm_map := AList.delete k (sm_map m)\<rparr>),
      shm_set_deleted = (\<lambda>k m. m\<lparr>sm_deleted := Some k\<rparr>),
      shm_deleted = sm_deleted\<rparr>"

lemma sim_shm_contract: "shm_contract sim_shm"
  by (simp add: shm_contract_def sim_shm_def update_conv' delete_conv')

lemma fd_map_find_after_add_witness:
  "\<exists>m1 m2. add_dzfd sim_shm 5 9 (hashmap_init sim_shm \<lparr>sm_map = [], sm_deleted = None\<rparr>) = Some (0, m1) \<and>
      find_dzfd sim_shm 5 m1 = 9 \<and> remove_dzfd sim_shm 5 m1 = Some (0, m2) \<and> find_dzfd sim_shm 5 m2 = 0 \<and>
      (\<forall>fd'. fd' \<noteq> 5 \<longrightarrow> find_dzfd sim_shm fd' m1 = find_dzfd sim_shm fd' \<lparr>sm_map = [], sm_deleted = None\<rparr> \<and>
        find_dzfd sim_shm fd' m2 = find_dzfd sim_shm fd' \<lparr>sm_map = [], sm_deleted = None\<rparr>)
    \<and> add_dzfd sim_shm (-1) 9 (hashmap_init sim_shm \<lparr>sm_map = [], sm_deleted = None\<rparr>) = None"
  by (rule fd_map_find_after_add [OF sim_shm_contract]) (simp_all add: sim_shm_def)

end
