(* ===== verification/Space.thy ===== *)
theory Space
  imports FdMap
begin

text \<open>
  The accounting of files and bytes: \<^verbatim>\<open>src/dz-sqlite-ifce.c\<close>, over SQLite as a parameter, and
  the notifications of \<^verbatim>\<open>src/dz-mq.c\<close>, over ZeroMQ as a parameter.

  The statements are built in a buffer of 1024 bytes with \<^verbatim>\<open>sprintf\<close>: a longer one is undefined.
\<close>

section \<open>Statements\<close>

definition sql_buffer :: "string \<Rightarrow> string option" where
  \<comment> \<open>\<^verbatim>\<open>char sql[1024]; sprintf(sql, ...)\<close>\<close>
  "sql_buffer stmt = do { guard_ub (length stmt < 1024); Some stmt }"

definition dec_int :: "int \<Rightarrow> string" where
  "dec_int k = (if k < 0 then ''-'' @ dec (nat (- k)) else dec (nat k))"

definition insert_stmt :: "string \<Rightarrow> int \<Rightarrow> string" where
  \<comment> \<open>\<^verbatim>\<open>VALUES('%s', %d)\<close>; the gap is the indentation of the continued line\<close>
  "insert_stmt path insert_time =
     ''INSERT INTO filemeta(path, ctime) '' @ replicate 20 (CHR '' '') @
     ''VALUES('' @ [CHR 0x27] @ path @ [CHR 0x27] @ '', '' @ dec_int insert_time @ '');''"

definition delete_stmt :: "string \<Rightarrow> string" where
  "delete_stmt path =
     ''DELETE FROM filemeta where path='' @ [CHR 0x27] @ path @ [CHR 0x27] @ '';''"

definition update_stmt :: "string \<Rightarrow> char \<Rightarrow> int \<Rightarrow> string" where
  \<comment> \<open>\<^verbatim>\<open>"update space set %s = %s %c %llu;"\<close>: a negative number is read as an unsigned one\<close>
  "update_stmt field c num =
     ''update space set '' @ field @ '' = '' @ field @ '' '' @ [c] @ '' '' @
     dec (nat (if num < 0 then num + 2 ^ 64 else num)) @ '';''"

definition select_stmt :: string where
  "select_stmt = ''select writtenbytes, diskbytes, filenum from space where id=1;''"

section \<open>The operations\<close>

definition lock_db :: "int \<Rightarrow> ('h, 'm, 'd, 'q) world \<Rightarrow> ('h, 'm, 'd, 'q) world" where
  \<comment> \<open>\<^verbatim>\<open>LOCK(&priv->dblock)\<close> with 1, \<^verbatim>\<open>UNLOCK\<close> with -1\<close>
  "lock_db k w = w\<lparr>w_priv := map_option (\<lambda>p. p\<lparr>dblock := dblock p + k\<rparr>) (w_priv w)\<rparr>"

definition db_ready :: "('h, 'm, 'd, 'q) world \<Rightarrow> bool" where
  \<comment> \<open>\<^verbatim>\<open>VALIDATE_PRIV(out); VALIDATE_OR_GOTO(priv->db, out)\<close> pass\<close>
  "db_ready w = (case w_priv w of None \<Rightarrow> False | Some p \<Rightarrow> db_open p)"

definition not_ready :: "('h, 'm, 'd, 'q) world \<Rightarrow> ('h, 'm, 'd, 'q) world" where
  \<comment> \<open>their failure: only the second sets \<^verbatim>\<open>errno\<close>\<close>
  "not_ready w = (case w_priv w of None \<Rightarrow> w | Some p \<Rightarrow> set_errno EINVAL w)"

definition exec_locked ::
    "('h, 'm, 'd, 'q) libs \<Rightarrow> string \<Rightarrow> ('h, 'm, 'd, 'q) world \<Rightarrow> int \<times> ('h, 'm, 'd, 'q) world" where
  \<comment> \<open>\<^verbatim>\<open>LOCK; sqlite3_exec; UNLOCK\<close>\<close>
  "exec_locked M stmt w =
     (let w1 = lock_db 1 w in
      case sql_exec (sql M) stmt (w_db w1) of
        (rc, d) \<Rightarrow> (if rc \<noteq> SQLITE_OK then -1 else rc, lock_db (-1) (w1\<lparr>w_db := d\<rparr>)))"

datatype num_flag = SUB_NUM | ADD_NUM

definition space_update ::
    "('h, 'm, 'd, 'q) libs \<Rightarrow> string \<Rightarrow> int \<Rightarrow> num_flag \<Rightarrow> ('h, 'm, 'd, 'q) world
      \<Rightarrow> (int \<times> ('h, 'm, 'd, 'q) world) option" where
  "space_update M field num flag w =
     (if \<not> db_ready w then Some (-1, not_ready w)
      else (let c = (case flag of ADD_NUM \<Rightarrow> CHR ''+'' | SUB_NUM \<Rightarrow> CHR ''-'') in
        case sql_buffer (update_stmt field c num) of
          None \<Rightarrow> None
        | Some stmt \<Rightarrow> Some (exec_locked M stmt w)))"

definition add_writtenbytes where "add_writtenbytes M n = space_update M ''writtenbytes'' n ADD_NUM"
definition sub_writtenbytes where "sub_writtenbytes M n = space_update M ''writtenbytes'' n SUB_NUM"
definition add_diskbytes where "add_diskbytes M n = space_update M ''diskbytes'' n ADD_NUM"
definition sub_diskbytes where "sub_diskbytes M n = space_update M ''diskbytes'' n SUB_NUM"
definition add_filenum where "add_filenum M n = space_update M ''filenum'' n ADD_NUM"
definition sub_filenum where "sub_filenum M n = space_update M ''filenum'' n SUB_NUM"

definition fmt_entry_insert ::
    "('h, 'm, 'd, 'q) libs \<Rightarrow> string \<Rightarrow> ('h, 'm, 'd, 'q) world
      \<Rightarrow> (int \<times> ('h, 'm, 'd, 'q) world) option" where
  "fmt_entry_insert M path w =
     (if \<not> db_ready w then Some (-1, not_ready w)
      else case sql_buffer (insert_stmt path (now (w_os w))) of
          None \<Rightarrow> None
        | Some stmt \<Rightarrow>
            (case exec_locked M stmt w of
               (rc, w1) \<Rightarrow> if rc \<noteq> SQLITE_OK then Some (-1, w1) else add_filenum M 1 w1))"

definition fmt_entry_delete ::
    "('h, 'm, 'd, 'q) libs \<Rightarrow> string \<Rightarrow> ('h, 'm, 'd, 'q) world
      \<Rightarrow> (int \<times> ('h, 'm, 'd, 'q) world) option" where
  "fmt_entry_delete M path w =
     (if \<not> db_ready w then Some (-1, not_ready w)
      else case sql_buffer (delete_stmt path) of
          None \<Rightarrow> None
        | Some stmt \<Rightarrow>
            (case exec_locked M stmt w of
               (rc, w1) \<Rightarrow> if rc \<noteq> SQLITE_OK then Some (-1, w1) else sub_filenum M 1 w1))"

text \<open>\<^verbatim>\<open>strtoll(s, NULL, 0)\<close>: a sign, then the prefix decides the base.\<close>

definition digit_value :: "char \<Rightarrow> nat" where
  "digit_value c = (let k = of_char c :: nat in
     if 48 \<le> k \<and> k \<le> 57 then k - 48
     else if 97 \<le> k \<and> k \<le> 122 then k - 87
     else if 65 \<le> k \<and> k \<le> 90 then k - 55 else 99)"

definition read_base :: "nat \<Rightarrow> string \<Rightarrow> nat" where
  "read_base b s = foldl (\<lambda>n c. n * b + digit_value c) 0 (takeWhile (\<lambda>c. digit_value c < b) s)"

definition strtoll0 :: "string \<Rightarrow> int" where
  "strtoll0 s =
     (let neg = (s \<noteq> [] \<and> s ! 0 = CHR ''-''); t = (if neg then tl s else s);
          v = (if take 2 t = ''0x'' \<or> take 2 t = ''0X'' then read_base 16 (drop 2 t)
               else if take 1 t = ''0'' then read_base 8 t else read_base 10 t)
      in if neg then - int v else int v)"

record space_entry =
  writtenbytes :: "64 word option"
  diskbytes :: "64 word option"
  filenum :: "64 word option"

definition no_entry :: space_entry where
  \<comment> \<open>the caller's uninitialised variable\<close>
  "no_entry = \<lparr>writtenbytes = None, diskbytes = None, filenum = None\<rparr>"

text \<open>
  \<open>get_space_entry\<close>: a failed validation jumps to code that passes the uninitialised
  \<^verbatim>\<open>azresult\<close> to \<^verbatim>\<open>sqlite3_free_table\<close>. On success the mutex is unlocked a second time.
\<close>

definition cell :: "string option list \<Rightarrow> nat \<Rightarrow> 64 word option \<Rightarrow> 64 word option" where
  "cell az i old = (case (if i < length az then az ! i else None) of
      None \<Rightarrow> old | Some s \<Rightarrow> Some (word_of_int (strtoll0 s)))"

definition get_space_entry ::
    "('h, 'm, 'd, 'q) libs \<Rightarrow> space_entry option \<Rightarrow> ('h, 'm, 'd, 'q) world
      \<Rightarrow> ((int \<times> space_entry option) \<times> ('h, 'm, 'd, 'q) world) option" where
  "get_space_entry M spentry w =
     (if \<not> db_ready w then None
      else case spentry of
        None \<Rightarrow> Some ((-1, None), w)
      | Some entry \<Rightarrow>
       (let w1 = lock_db 1 w in
        case sql_table (sql M) select_stmt (w_db w1) of
          (rc, nrow, azresult) \<Rightarrow>
            if rc \<noteq> SQLITE_OK then Some ((-1, spentry), lock_db (-1) w1)
            else if nrow = 0 then Some ((-1, spentry), set_errno ENOENT (lock_db (-1) w1))
            else do {
              guard_ub (6 \<le> length azresult);
              (let e = \<lparr>writtenbytes = cell azresult 3 (writtenbytes entry),
                        diskbytes = cell azresult 4 (diskbytes entry),
                        filenum = cell azresult 5 (filenum entry)\<rparr>
               in Some ((0, Some e), lock_db (-1) (lock_db (-1) w1))) }))"

section \<open>Notifications\<close>

definition dz_openmq ::
    "('h, 'm, 'd, 'q) libs \<Rightarrow> nat \<Rightarrow> ('h, 'm, 'd, 'q) world \<Rightarrow> int \<times> ('h, 'm, 'd, 'q) world" where
  "dz_openmq M port w =
     (case w_priv w of
        None \<Rightarrow> (-1, w)
      | Some p \<Rightarrow>
          (case zmq_ctx_new (zmq M) (w_mq w) of
             (ctx, q1) \<Rightarrow>
               let w1 = w\<lparr>w_mq := q1, w_priv := Some (p\<lparr>mqcontext := ctx\<rparr>)\<rparr> in
               if \<not> ctx then (-1, w1)
               else (case zmq_socket (zmq M) q1 of
                   (sock, q2) \<Rightarrow>
                     let w2 = w1\<lparr>w_mq := q2, w_priv := Some (p\<lparr>mqcontext := ctx, mqsocket := sock\<rparr>)\<rparr> in
                     if \<not> sock then (-1, w2)
                     else (case zmq_connect (zmq M) (''tcp://localhost:'' @ dec port) q2 of
                         (rc, q3) \<Rightarrow> (if rc = -1 then -1 else 0, w2\<lparr>w_mq := q3\<rparr>)))))"

definition dz_closemq ::
    "('h, 'm, 'd, 'q) libs \<Rightarrow> ('h, 'm, 'd, 'q) world \<Rightarrow> int \<times> ('h, 'm, 'd, 'q) world" where
  "dz_closemq M w =
     (case w_priv w of
        None \<Rightarrow> (-1, w)
      | Some p \<Rightarrow>
          (let w1 = (if mqsocket p then w\<lparr>w_mq := zmq_close (zmq M) (w_mq w)\<rparr> else w);
               w2 = (if mqcontext p then w1\<lparr>w_mq := zmq_ctx_destroy (zmq M) (w_mq w1)\<rparr> else w1)
           in (0, w2)))"

definition dz_notifymq ::
    "('h, 'm, 'd, 'q) libs \<Rightarrow> string \<Rightarrow> ('h, 'm, 'd, 'q) world \<Rightarrow> int \<times> ('h, 'm, 'd, 'q) world" where
  "dz_notifymq M path w =
     (case w_priv w of
        None \<Rightarrow> (-1, w)
      | Some p \<Rightarrow> (case zmq_send (zmq M) path (w_mq w) of (rc, q) \<Rightarrow> (rc, w\<lparr>w_mq := q\<rparr>)))"

section \<open>Opening and closing the database\<close>

definition MAKE_REAL_PATH :: "dzfile_priv \<Rightarrow> string \<Rightarrow> string option" where
  \<comment> \<open>a null \<^verbatim>\<open>data_path\<close> is undefined\<close>
  "MAKE_REAL_PATH p path =
     (case data_path p of
        None \<Rightarrow> None
      | Some d \<Rightarrow>
          (let var_len = int (length path) + 1 + int (length d) in
           if path_max p \<noteq> -1 \<and> path_max p \<le> var_len
           then Some (if path \<noteq> [] \<and> path ! 0 = SLASH then tl path else path)
           else Some (d @ path)))"

definition dz_opendb ::
    "('h, 'm, 'd, 'q) libs \<Rightarrow> nat \<Rightarrow> ('h, 'm, 'd, 'q) world
      \<Rightarrow> (int \<times> ('h, 'm, 'd, 'q) world) option" where
  "dz_opendb M fuel w =
     (case w_priv w of
        None \<Rightarrow> Some (-1, w)
      | Some p \<Rightarrow>
          (case MAKE_REAL_PATH p ''/.dzs/meta.db'' of
             None \<Rightarrow> None
           | Some dbfile \<Rightarrow>
               (case make_parent_dir fuel dbfile (w_os w) of
                  None \<Rightarrow> None
                | Some (ret, s1) \<Rightarrow>
                    if ret < 0 then Some (ret, w\<lparr>w_os := s1\<rparr>)
                    else (case sys_stat dbfile s1 of
                        (None, s2) \<Rightarrow> Some (-1, w\<lparr>w_os := s2\<rparr>)
                      | (Some stbuf, s2) \<Rightarrow>
                          (case sql_open (sql M) dbfile (w_db w) of
                             (ret, d) \<Rightarrow>
                               let w1 = w\<lparr>w_os := s2, w_db := d, w_priv := Some (p\<lparr>db_open := True\<rparr>)\<rparr> in
                               if ret \<noteq> SQLITE_OK then Some (-1, w1)
                               else if sql_busy_timeout (sql M) d \<noteq> SQLITE_OK then Some (-1, w1)
                               else Some (0, w1))))))"

definition dz_closedb ::
    "('h, 'm, 'd, 'q) libs \<Rightarrow> ('h, 'm, 'd, 'q) world \<Rightarrow> int \<times> ('h, 'm, 'd, 'q) world" where
  "dz_closedb M w =
     (if db_ready w then (-1, w\<lparr>w_db := sql_close (sql M) (w_db w)\<rparr>) else (-1, not_ready w))"

section \<open>What is documented of SQLite\<close>

text \<open>
  The contract is stated over a view of the database: the paths in the table \<^verbatim>\<open>filemeta\<close>, the
  newest first, and the one row of the table \<^verbatim>\<open>space\<close> that \<^verbatim>\<open>script/meta.sql\<close> creates. Integers
  are exact as long as they fit 64 bits. Nothing is said about a path with a quote in it, which
  ends the string of the statement.
\<close>

record dbview =
  v_files :: "string list"
  v_written :: int
  v_disk :: int
  v_num :: int

definition fits_int64 :: "int \<Rightarrow> bool" where
  "fits_int64 k \<longleftrightarrow> - (2 ^ 63) \<le> k \<and> k < 2 ^ 63"

definition sqlite_update_law :: "'d sqlite_lib \<Rightarrow> ('d \<Rightarrow> dbview) \<Rightarrow> bool" where
  "sqlite_update_law Q view \<longleftrightarrow>
     (\<forall>d n rc d' c. 0 \<le> n \<longrightarrow> n < 2 ^ 63 \<longrightarrow> c = CHR ''+'' \<or> c = CHR ''-'' \<longrightarrow>
       (let k = (if c = CHR ''+'' then n else - n) in
        (sql_exec Q (update_stmt ''writtenbytes'' c n) d = (rc, d') \<longrightarrow>
           fits_int64 (v_written (view d) + k) \<longrightarrow>
           view d' = (if rc = SQLITE_OK then (view d)\<lparr>v_written := v_written (view d) + k\<rparr> else view d)) \<and>
        (sql_exec Q (update_stmt ''diskbytes'' c n) d = (rc, d') \<longrightarrow>
           fits_int64 (v_disk (view d) + k) \<longrightarrow>
           view d' = (if rc = SQLITE_OK then (view d)\<lparr>v_disk := v_disk (view d) + k\<rparr> else view d)) \<and>
        (sql_exec Q (update_stmt ''filenum'' c n) d = (rc, d') \<longrightarrow>
           fits_int64 (v_num (view d) + k) \<longrightarrow>
           view d' = (if rc = SQLITE_OK then (view d)\<lparr>v_num := v_num (view d) + k\<rparr> else view d))))"

definition sqlite_files_law :: "'d sqlite_lib \<Rightarrow> ('d \<Rightarrow> dbview) \<Rightarrow> bool" where
  "sqlite_files_law Q view \<longleftrightarrow>
     (\<forall>d path t rc d'. CHR 0x27 \<notin> set path \<longrightarrow>
        (sql_exec Q (insert_stmt path t) d = (rc, d') \<longrightarrow>
           view d' = (if rc = SQLITE_OK then (view d)\<lparr>v_files := path # v_files (view d)\<rparr> else view d)) \<and>
        (sql_exec Q (delete_stmt path) d = (rc, d') \<longrightarrow>
           view d' = (if rc = SQLITE_OK
             then (view d)\<lparr>v_files := filter (\<lambda>p. p \<noteq> path) (v_files (view d))\<rparr> else view d)))"

definition sqlite_select_law :: "'d sqlite_lib \<Rightarrow> ('d \<Rightarrow> dbview) \<Rightarrow> bool" where
  "sqlite_select_law Q view \<longleftrightarrow>
     (\<forall>d nrow az. sql_table Q select_stmt d = (SQLITE_OK, nrow, az) \<longrightarrow>
        nrow = 1 \<and> az = [Some ''writtenbytes'', Some ''diskbytes'', Some ''filenum'',
          Some (dec_int (v_written (view d))), Some (dec_int (v_disk (view d))),
          Some (dec_int (v_num (view d)))])"

definition sqlite_contract :: "'d sqlite_lib \<Rightarrow> ('d \<Rightarrow> dbview) \<Rightarrow> bool" where
  "sqlite_contract Q view \<longleftrightarrow>
     sqlite_update_law Q view \<and> sqlite_files_law Q view \<and> sqlite_select_law Q view"

section \<open>The lock\<close>

lemma lock_db_simps [simp]:
  "w_os (lock_db k w) = w_os w" "w_db (lock_db k w) = w_db w" "w_h5 (lock_db k w) = w_h5 w"
  "w_fdm (lock_db k w) = w_fdm w" "w_heap (lock_db k w) = w_heap w" "w_mq (lock_db k w) = w_mq w"
  "db_ready (lock_db k w) = db_ready w"
  by (simp_all add: lock_db_def db_ready_def split: option.split)

lemma exec_locked_frame:
  assumes "exec_locked M stmt w = (rc, w')" "sql_exec (sql M) stmt (w_db w) = (r, d)"
  shows "w' = w\<lparr>w_db := d\<rparr> \<and> rc = (if r = SQLITE_OK then 0 else -1)"
proof -
  have "w_priv (lock_db (-1) ((lock_db 1 w)\<lparr>w_db := d\<rparr>)) = w_priv w"
    by (cases "w_priv w") (simp_all add: lock_db_def)
  then have "lock_db (-1) ((lock_db 1 w)\<lparr>w_db := d\<rparr>) = w\<lparr>w_db := d\<rparr>"
    by (simp add: lock_db_def)
  with assms show ?thesis by (simp add: exec_locked_def Let_def split: if_splits)
qed

section \<open>Counters\<close>

text \<open>
  The interface of the three counters: adding and subtracting is exact as long as the result is
  inside the room, or has no effect and says so.
\<close>

locale counter =
  fixes inv :: "'s \<Rightarrow> bool" and val :: "'s \<Rightarrow> int" and room :: "int \<Rightarrow> bool"
    and add sub :: "int \<Rightarrow> 's \<Rightarrow> (int \<times> 's) option"
  assumes add_law: "inv s \<Longrightarrow> 0 \<le> n \<Longrightarrow> n < 2 ^ 63 \<Longrightarrow> room (val s + n) \<Longrightarrow>
      \<exists>r s'. add n s = Some (r, s') \<and> inv s' \<and> (r = 0 \<or> r = -1) \<and>
        val s' = (if r = 0 then val s + n else val s)"
    and sub_law: "inv s \<Longrightarrow> 0 \<le> n \<Longrightarrow> n < 2 ^ 63 \<Longrightarrow> room (val s - n) \<Longrightarrow>
      \<exists>r s'. sub n s = Some (r, s') \<and> inv s' \<and> (r = 0 \<or> r = -1) \<and>
        val s' = (if r = 0 then val s - n else val s)"
    and room_between: "room a \<Longrightarrow> room b \<Longrightarrow> a \<le> c \<Longrightarrow> c \<le> b \<Longrightarrow> room c"
begin

fun add_list :: "int list \<Rightarrow> 's \<Rightarrow> (int list \<times> 's) option" where
  "add_list [] s = Some ([], s)"
| "add_list (n # ns) s =
     (case add n s of
        None \<Rightarrow> None
      | Some (r, s1) \<Rightarrow> (case add_list ns s1 of None \<Rightarrow> None | Some (rs, s2) \<Rightarrow> Some (r # rs, s2)))"

text \<open>A sequence of additions adds exactly the numbers whose addition has reported success.\<close>

lemma add_list_sum:
  assumes "inv s" "\<forall>n\<in>set ns. 0 \<le> n \<and> n < 2 ^ 63" "room (val s)" "room (val s + sum_list ns)"
  shows "\<exists>rs s'. add_list ns s = Some (rs, s') \<and> inv s' \<and> length rs = length ns \<and>
    val s' = val s + sum_list (map fst (filter (\<lambda>(n, r). r = 0) (zip ns rs)))"
  using assms
proof (induction ns arbitrary: s)
  case Nil
  then show ?case by simp
next
  case (Cons n ns)
  have nn: "0 \<le> sum_list ns" using Cons.prems(2) by (intro sum_list_nonneg) simp
  have r1: "room (val s + n)"
    by (rule room_between [OF Cons.prems(3,4)]) (use Cons.prems(2) nn in simp_all)
  have n: "0 \<le> n" "n < 2 ^ 63" and ns: "\<forall>n\<in>set ns. 0 \<le> n \<and> n < 2 ^ 63"
    using Cons.prems(2) by simp_all
  from add_law [OF Cons.prems(1) n r1] obtain r s1 where
    s1: "add n s = Some (r, s1)" "inv s1" "val s1 = (if r = 0 then val s + n else val s)" by blast
  have "room (val s1)" using s1(3) r1 Cons.prems(3) by simp
  moreover have "room (val s1 + sum_list ns)"
    by (rule room_between [OF Cons.prems(3,4)]) (use s1(3) nn n in simp_all)
  ultimately obtain rs s2 where "add_list ns s1 = Some (rs, s2)" "inv s2" "length rs = length ns"
    "val s2 = val s1 + sum_list (map fst (filter (\<lambda>(n, r). r = 0) (zip ns rs)))"
    using Cons.IH [OF s1(2) ns] by blast
  with s1 show ?case by (intro exI [of _ "r # rs"] exI [of _ s2]) simp
qed

text \<open>Taking back what was added restores the counter.\<close>

lemma add_sub:
  assumes "inv s" "0 \<le> n" "n < 2 ^ 63" "room (val s)" "room (val s + n)" "add n s = Some (0, s1)"
    "sub n s1 = Some (0, s2)"
  shows "inv s2 \<and> val s2 = val s"
  using add_law [OF assms(1-3,5)] sub_law [of s1 n] assms by auto

end

type_synonym ('h, 'm, 'd, 'q) acct =
  "('h, 'm, 'd, 'q) libs \<times> ('d \<Rightarrow> dbview) \<times> ('h, 'm, 'd, 'q) world"

definition acct_inv :: "('h, 'm, 'd, 'q) acct \<Rightarrow> bool" where
  "acct_inv a \<longleftrightarrow> (case a of (M, view, w) \<Rightarrow> sqlite_contract (sql M) view \<and> db_ready w)"

definition acct_view :: "('h, 'm, 'd, 'q) acct \<Rightarrow> dbview" where
  "acct_view a = (case a of (M, view, w) \<Rightarrow> view (w_db w))"

definition acct_run ::
    "(('h, 'm, 'd, 'q) libs \<Rightarrow> int \<Rightarrow> ('h, 'm, 'd, 'q) world \<Rightarrow> (int \<times> ('h, 'm, 'd, 'q) world) option)
      \<Rightarrow> int \<Rightarrow> ('h, 'm, 'd, 'q) acct \<Rightarrow> (int \<times> ('h, 'm, 'd, 'q) acct) option" where
  "acct_run f n a = (case a of (M, view, w) \<Rightarrow> map_option (\<lambda>(r, w'). (r, M, view, w')) (f M n w))"

lemma length_dec64:
  assumes "n < 2 ^ 64"
  shows "length (dec n) \<le> 20"
proof -
  have "n < 10 ^ Suc 19" using assms by simp
  then show ?thesis using length_dec [of n 19] by simp
qed

text \<open>One update, for each of the fields: the statement fits the buffer, and its effect is that of
  the library; the process changes in nothing but the database.\<close>

lemma space_update_exec:
  assumes "db_ready w" "length field \<le> 100" "0 \<le> n" "n < 2 ^ 64"
    and "sql_exec (sql M) (update_stmt field (if fl = ADD_NUM then CHR ''+'' else CHR ''-'') n) (w_db w) = (r, d)"
  shows "space_update M field n fl w = Some (if r = SQLITE_OK then 0 else -1, w\<lparr>w_db := d\<rparr>)"
proof -
  let ?c = "if fl = ADD_NUM then CHR ''+'' else CHR ''-''"
  have c: "(case fl of ADD_NUM \<Rightarrow> CHR ''+'' | SUB_NUM \<Rightarrow> CHR ''-'') = ?c" by (cases fl) simp_all
  have "nat n < 2 ^ 64" using assms(3,4) by (simp add: nat_less_iff)
  then have "length (dec (nat n)) \<le> 20" by (rule length_dec64)
  then have "length (update_stmt field ?c n) < 1024"
    using assms(2,3) by (simp add: update_stmt_def)
  then have b: "sql_buffer (update_stmt field ?c n) = Some (update_stmt field ?c n)"
    by (simp add: sql_buffer_def)
  obtain rc w' where e: "exec_locked M (update_stmt field ?c n) w = (rc, w')" by fastforce
  from exec_locked_frame [OF this assms(5)] show ?thesis
    using assms(1) b e unfolding space_update_def c by (simp add: Let_def)
qed

lemma sqlite_updateD:
  assumes "sqlite_contract Q view" "0 \<le> n" "n < 2 ^ 63" "c = CHR ''+'' \<or> c = CHR ''-''"
    and "k = (if c = CHR ''+'' then n else - n)"
  shows "sql_exec Q (update_stmt ''writtenbytes'' c n) d = (rc, d') \<Longrightarrow>
      fits_int64 (v_written (view d) + k) \<Longrightarrow>
      view d' = (if rc = SQLITE_OK then (view d)\<lparr>v_written := v_written (view d) + k\<rparr> else view d)"
    and "sql_exec Q (update_stmt ''diskbytes'' c n) d = (rc, d') \<Longrightarrow>
      fits_int64 (v_disk (view d) + k) \<Longrightarrow>
      view d' = (if rc = SQLITE_OK then (view d)\<lparr>v_disk := v_disk (view d) + k\<rparr> else view d)"
    and "sql_exec Q (update_stmt ''filenum'' c n) d = (rc, d') \<Longrightarrow>
      fits_int64 (v_num (view d) + k) \<Longrightarrow>
      view d' = (if rc = SQLITE_OK then (view d)\<lparr>v_num := v_num (view d) + k\<rparr> else view d)"
  using assms unfolding sqlite_contract_def sqlite_update_law_def Let_def by (blast, blast, blast)

text \<open>The three counters of the model are counters.\<close>

lemma acct_counter_law:
  assumes C: "sqlite_contract (sql M) view" and ready: "db_ready w"
    and n: "0 \<le> n" "n < 2 ^ 63" and l: "length field \<le> 100"
    and upd: "\<And>rc d'. sql_exec (sql M) (update_stmt field (if fl = ADD_NUM then CHR ''+'' else CHR ''-'') n)
        (w_db w) = (rc, d') \<Longrightarrow>
      val (view d') = (if rc = SQLITE_OK then val (view (w_db w)) + k else val (view (w_db w)))"
  shows "\<exists>r w'. space_update M field n fl w = Some (r, w') \<and> db_ready w' \<and> (r = 0 \<or> r = -1) \<and>
    val (view (w_db w')) = (if r = 0 then val (view (w_db w)) + k else val (view (w_db w)))"
proof -
  obtain r d where e: "sql_exec (sql M)
      (update_stmt field (if fl = ADD_NUM then CHR ''+'' else CHR ''-'') n) (w_db w) = (r, d)"
    by fastforce
  have "space_update M field n fl w = Some (if r = SQLITE_OK then 0 else -1, w\<lparr>w_db := d\<rparr>)"
    by (rule space_update_exec [OF ready l n(1) _ e]) (use n in simp)
  moreover have "db_ready (w\<lparr>w_db := d\<rparr>)" using ready by (simp add: db_ready_def)
  ultimately show ?thesis using upd [OF e] by simp
qed

lemma field_counter:
  fixes val :: "dbview \<Rightarrow> int"
  assumes law: "\<And>Q view d n rc d' c k. sqlite_contract Q view \<Longrightarrow> 0 \<le> n \<Longrightarrow> n < 2 ^ 63 \<Longrightarrow>
      c = CHR ''+'' \<or> c = CHR ''-'' \<Longrightarrow> k = (if c = CHR ''+'' then n else - n) \<Longrightarrow>
      sql_exec Q (update_stmt field c n) (d :: 'd) = (rc, d') \<Longrightarrow> fits_int64 (val (view d) + k) \<Longrightarrow>
      val (view d') = (if rc = SQLITE_OK then val (view d) + k else val (view d))"
    and l: "length field \<le> 100"
  shows "counter (acct_inv :: ('h, 'm, 'd, 'q) acct \<Rightarrow> bool) (\<lambda>a. val (acct_view a)) fits_int64
    (acct_run (\<lambda>M n. space_update M field n ADD_NUM)) (acct_run (\<lambda>M n. space_update M field n SUB_NUM))"
proof unfold_locales
  fix a :: "('h, 'm, 'd, 'q) acct" and n :: int
  obtain M view w where a: "a = (M, view, w)" by (cases a)
  assume inv: "acct_inv a" and n: "0 \<le> n" "n < 2 ^ 63"
  then have C: "sqlite_contract (sql M) view" and r: "db_ready w" by (simp_all add: a acct_inv_def)
  note step = acct_counter_law [OF C r n l, of _ val]
  show "\<exists>r s'. acct_run (\<lambda>M n. space_update M field n ADD_NUM) n a = Some (r, s') \<and> acct_inv s' \<and>
      (r = 0 \<or> r = -1) \<and>
      val (acct_view s') = (if r = 0 then val (acct_view a) + n else val (acct_view a))"
    if "fits_int64 (val (acct_view a) + n)"
    using step [of ADD_NUM n] law [OF C n, of "CHR ''+''" n "w_db w"] that C
    by (fastforce simp: a acct_inv_def acct_view_def acct_run_def)
  show "\<exists>r s'. acct_run (\<lambda>M n. space_update M field n SUB_NUM) n a = Some (r, s') \<and> acct_inv s' \<and>
      (r = 0 \<or> r = -1) \<and>
      val (acct_view s') = (if r = 0 then val (acct_view a) - n else val (acct_view a))"
    if "fits_int64 (val (acct_view a) - n)"
    using step [of SUB_NUM "- n"] law [OF C n, of "CHR ''-''" "- n" "w_db w"] that C
    by (fastforce simp: a acct_inv_def acct_view_def acct_run_def)
qed (auto simp: fits_int64_def)

interpretation written: counter "acct_inv :: ('h, 'm, 'd, 'q) acct \<Rightarrow> bool"
  "\<lambda>a. v_written (acct_view a)" fits_int64 "acct_run add_writtenbytes" "acct_run sub_writtenbytes"
  unfolding add_writtenbytes_def [abs_def] sub_writtenbytes_def [abs_def]
  by (rule field_counter, drule (6) sqlite_updateD(1), simp_all)

interpretation disk: counter "acct_inv :: ('h, 'm, 'd, 'q) acct \<Rightarrow> bool"
  "\<lambda>a. v_disk (acct_view a)" fits_int64 "acct_run add_diskbytes" "acct_run sub_diskbytes"
  unfolding add_diskbytes_def [abs_def] sub_diskbytes_def [abs_def]
  by (rule field_counter, drule (6) sqlite_updateD(2), simp_all)

interpretation files: counter "acct_inv :: ('h, 'm, 'd, 'q) acct \<Rightarrow> bool"
  "\<lambda>a. v_num (acct_view a)" fits_int64 "acct_run add_filenum" "acct_run sub_filenum"
  unfolding add_filenum_def [abs_def] sub_filenum_def [abs_def]
  by (rule field_counter, drule (6) sqlite_updateD(3), simp_all)

section \<open>An instance of SQLite\<close>

definition sim_exec :: "string \<Rightarrow> dbview \<Rightarrow> int \<times> dbview" where
  \<comment> \<open>the statements of this theory, read by position\<close>
  "sim_exec stmt v =
     (if take 1 stmt = ''I''
      then (0, v\<lparr>v_files := takeWhile (\<lambda>c. c \<noteq> CHR 0x27) (drop 62 stmt) # v_files v\<rparr>)
      else if take 1 stmt = ''D''
      then (0, v\<lparr>v_files := filter (\<lambda>p. p \<noteq> takeWhile (\<lambda>c. c \<noteq> CHR 0x27) (drop 33 stmt)) (v_files v)\<rparr>)
      else (let f = drop 17 stmt;
                L = (if take 1 f = ''w'' then 12 else if take 1 f = ''d'' then 9 else 7);
                m = int (undec (butlast (drop (2 * L + 6) f)));
                k = (if take 1 (drop (2 * L + 4) f) = ''+'' then m else - m)
            in (0, if L = 12 then v\<lparr>v_written := v_written v + k\<rparr>
                   else if L = 9 then v\<lparr>v_disk := v_disk v + k\<rparr>
                   else v\<lparr>v_num := v_num v + k\<rparr>)))"

definition sim_sql :: "dbview sqlite_lib" where
  "sim_sql =
     \<lparr>sql_open = (\<lambda>p v. (0, v)), sql_busy_timeout = (\<lambda>v. 0), sql_close = (\<lambda>v. v), sql_exec = sim_exec,
      sql_table = (\<lambda>stmt v. (0, 1, [Some ''writtenbytes'', Some ''diskbytes'', Some ''filenum'',
          Some (dec_int (v_written v)), Some (dec_int (v_disk v)), Some (dec_int (v_num v))]))\<rparr>"

lemma sim_exec_insert:
  "CHR 0x27 \<notin> set path \<Longrightarrow>
    sim_exec (insert_stmt path t) v = (0, v\<lparr>v_files := path # v_files v\<rparr>)"
  by (simp add: sim_exec_def insert_stmt_def numeral_eq_Suc)

lemma sim_exec_delete:
  "CHR 0x27 \<notin> set path \<Longrightarrow>
    sim_exec (delete_stmt path) v = (0, v\<lparr>v_files := filter (\<lambda>p. p \<noteq> path) (v_files v)\<rparr>)"
  by (simp add: sim_exec_def delete_stmt_def numeral_eq_Suc)

lemma sim_exec_update:
  assumes "0 \<le> n" "c = CHR ''+'' \<or> c = CHR ''-''"
  shows "sim_exec (update_stmt ''writtenbytes'' c n) v =
      (0, v\<lparr>v_written := v_written v + (if c = CHR ''+'' then n else - n)\<rparr>)"
    and "sim_exec (update_stmt ''diskbytes'' c n) v =
      (0, v\<lparr>v_disk := v_disk v + (if c = CHR ''+'' then n else - n)\<rparr>)"
    and "sim_exec (update_stmt ''filenum'' c n) v =
      (0, v\<lparr>v_num := v_num v + (if c = CHR ''+'' then n else - n)\<rparr>)"
  using assms by (auto simp: sim_exec_def update_stmt_def Let_def butlast_append)

lemma sim_sql_contract: "sqlite_contract sim_sql (\<lambda>v. v)"
  unfolding sqlite_contract_def
proof (intro conjI)
  show "sqlite_update_law sim_sql (\<lambda>v. v)"
    by (auto simp: sqlite_update_law_def sim_sql_def sim_exec_update Let_def)
  show "sqlite_files_law sim_sql (\<lambda>v. v)"
    by (auto simp: sqlite_files_law_def sim_sql_def sim_exec_insert sim_exec_delete)
  show "sqlite_select_law sim_sql (\<lambda>v. v)"
    by (simp add: sqlite_select_law_def sim_sql_def)
qed

section \<open>What the operations do\<close>

lemma add_writtenbytes_view:
  assumes "sqlite_contract (sql M) view" "db_ready w" "0 \<le> n" "n < 2 ^ 63"
    and "fits_int64 (v_written (view (w_db w)) + n)"
  shows "\<exists>r d. add_writtenbytes M n w = Some (r, w\<lparr>w_db := d\<rparr>) \<and> (r = 0 \<or> r = -1) \<and>
    view d = (if r = 0 then (view (w_db w))\<lparr>v_written := v_written (view (w_db w)) + n\<rparr>
              else view (w_db w))"
proof -
  obtain r d where e: "sql_exec (sql M) (update_stmt ''writtenbytes'' CHR ''+'' n) (w_db w) = (r, d)"
    by fastforce
  have "space_update M ''writtenbytes'' n ADD_NUM w = Some (if r = SQLITE_OK then 0 else -1, w\<lparr>w_db := d\<rparr>)"
    by (rule space_update_exec) (use assms e in simp_all)
  then show ?thesis
    using sqlite_updateD(1) [OF assms(1,3,4) _ _ e, of n] assms(5)
    by (auto simp: add_writtenbytes_def)
qed

text \<open>The counter of written bytes: an addition of a number of bytes that a write returned adds
  exactly that number, or fails and adds nothing; nothing else in the database or in the process
  changes, and the mutex is free again.\<close>

theorem add_writtenbytes_exact:
  assumes "sqlite_contract (sql M) view" "db_ready w" "0 \<le> n" "n < 2 ^ 63"
    and "fits_int64 (v_written (view (w_db w)) + n)"
  shows "\<exists>r d. add_writtenbytes M n w = Some (r, w\<lparr>w_db := d\<rparr>) \<and> (r = 0 \<or> r = -1) \<and>
    view d = (if r = 0 then (view (w_db w))\<lparr>v_written := v_written (view (w_db w)) + n\<rparr>
              else view (w_db w))"
  using assms by (rule add_writtenbytes_view)

definition demo_world :: "(h5sim, shm_sim, dbview, string list) world" where
  \<comment> \<open>a process after initialisation, with one file\<close>
  "demo_world =
     \<lparr>w_os = demo_os [1, 2, 3], w_h5 = demo_h5, w_fdm = \<lparr>sm_map = [], sm_deleted = Some (-1)\<rparr>,
      w_db = \<lparr>v_files = [''/f''], v_written = 3, v_disk = 0, v_num = 1\<rparr>, w_mq = [],
      w_priv = Some \<lparr>path_max = 4096, data_path = Some ''/'', loglevel = DZ_LOG_DEBUG,
        logfd = 3, logfile = Some ''/log'',
        mqcontext = True, mqsocket = True, db_open = True, dblock = 0\<rparr>,
      w_heap = Map.empty, w_next = 1, w_freed = False\<rparr>"

definition sim_zmq :: "string list zmq_lib" where
  "sim_zmq =
     \<lparr>zmq_ctx_new = (\<lambda>q. (True, q)), zmq_socket = (\<lambda>q. (True, q)), zmq_connect = (\<lambda>u q. (0, q)),
      zmq_send = (\<lambda>m q. (int (length m), q @ [m])), zmq_close = (\<lambda>q. q), zmq_ctx_destroy = (\<lambda>q. q)\<rparr>"

definition sim_libs :: "(h5sim, shm_sim, dbview, string list) libs" where
  "sim_libs = \<lparr>h5 = sim_hdf5, codec = sim_codec, shm = sim_shm, sql = sim_sql, zmq = sim_zmq\<rparr>"

lemma sim_libs_simps [simp]:
  "h5 sim_libs = sim_hdf5" "codec sim_libs = sim_codec" "shm sim_libs = sim_shm"
  "sql sim_libs = sim_sql" "zmq sim_libs = sim_zmq"
  by (simp_all add: sim_libs_def)

lemma add_writtenbytes_exact_witness:
  "\<exists>r d. add_writtenbytes sim_libs 5 demo_world = Some (r, demo_world\<lparr>w_db := d\<rparr>) \<and> (r = 0 \<or> r = -1) \<and>
    d = (if r = 0 then (w_db demo_world)\<lparr>v_written := v_written (w_db demo_world) + 5\<rparr>
              else w_db demo_world)"
  by (rule add_writtenbytes_exact [of sim_libs "\<lambda>v. v"])
    (simp_all add: sim_sql_contract demo_world_def db_ready_def fits_int64_def)

text \<open>An entry of a new file: when it reports success, the path is in the table and the number
  of files has grown by one. When it fails, nothing has changed, or the path is in the table
  and has not been counted: the two statements are not a transaction.\<close>

theorem fmt_entry_insert_counts:
  assumes "sqlite_contract (sql M) view" "db_ready w" "CHR 0x27 \<notin> set path" "length path \<le> 900"
    and "0 \<le> now (w_os w)" "now (w_os w) < 2 ^ 31" "fits_int64 (v_num (view (w_db w)) + 1)"
  shows "\<exists>r d. fmt_entry_insert M path w = Some (r, w\<lparr>w_db := d\<rparr>) \<and>
    (if r = 0 then view d = (view (w_db w))\<lparr>v_files := path # v_files (view (w_db w)),
                                            v_num := v_num (view (w_db w)) + 1\<rparr>
     else r = -1 \<and> (view d = view (w_db w) \<or>
            view d = (view (w_db w))\<lparr>v_files := path # v_files (view (w_db w))\<rparr>))"
proof -
  let ?stmt = "insert_stmt path (now (w_os w))"
  have "nat (now (w_os w)) < 2 ^ 64" using assms(5,6) by (simp add: nat_less_iff)
  then have "length (dec (nat (now (w_os w)))) \<le> 20" by (rule length_dec64)
  then have b: "sql_buffer ?stmt = Some ?stmt"
    using assms(4,5) by (simp add: sql_buffer_def insert_stmt_def dec_int_def)
  obtain r d where e: "sql_exec (sql M) ?stmt (w_db w) = (r, d)" by fastforce
  obtain rc w1 where l: "exec_locked M ?stmt w = (rc, w1)" by fastforce
  note w1 = exec_locked_frame [OF l e]
  have v: "view d = (if r = SQLITE_OK then (view (w_db w))\<lparr>v_files := path # v_files (view (w_db w))\<rparr>
      else view (w_db w))"
    using assms(1,3) e unfolding sqlite_contract_def sqlite_files_law_def by blast
  show ?thesis
  proof (cases "r = SQLITE_OK")
    case False
    with assms(2) b l w1 v show ?thesis
      by (auto simp: fmt_entry_insert_def intro!: exI [of _ "-1"] exI [of _ d])
  next
    case True
    have r1: "db_ready w1" using assms(2) w1 by (simp add: db_ready_def)
    obtain r2 d2 where e2: "sql_exec (sql M) (update_stmt ''filenum'' CHR ''+'' 1) (w_db w1) = (r2, d2)"
      by fastforce
    have "space_update M ''filenum'' 1 ADD_NUM w1 = Some (if r2 = SQLITE_OK then 0 else -1, w1\<lparr>w_db := d2\<rparr>)"
      by (rule space_update_exec) (use r1 e2 in simp_all)
    moreover have "view d2 = (if r2 = SQLITE_OK then (view (w_db w1))\<lparr>v_num := v_num (view (w_db w1)) + 1\<rparr>
        else view (w_db w1))"
      using sqlite_updateD(3) [OF assms(1) _ _ _ _ e2, of 1] assms(7) w1 v True by simp
    ultimately show ?thesis
      using assms(2) b l w1 v True
      by (auto simp: fmt_entry_insert_def add_filenum_def intro!: exI [of _ d2])
  qed
qed

lemma fmt_entry_insert_counts_witness:
  "\<exists>r d. fmt_entry_insert sim_libs ''/g'' demo_world = Some (r, demo_world\<lparr>w_db := d\<rparr>) \<and>
    (if r = 0 then d = (w_db demo_world)\<lparr>v_files := ''/g'' # v_files (w_db demo_world),
                                            v_num := v_num (w_db demo_world) + 1\<rparr>
     else r = -1 \<and> (d = w_db demo_world \<or>
            d = (w_db demo_world)\<lparr>v_files := ''/g'' # v_files (w_db demo_world)\<rparr>))"
  by (rule fmt_entry_insert_counts [of sim_libs "\<lambda>v. v"])
    (simp_all add: demo_world_def db_ready_def fits_int64_def sim_sql_contract demo_os_def)

text \<open>A path of 1024 bytes or more overflows the buffer of the statement.\<close>

theorem fmt_entry_insert_overflow:
  assumes "db_ready w" "1024 \<le> length path"
  shows "fmt_entry_insert M path w = None \<and> fmt_entry_delete M path w = None"
  using assms
  by (simp add: fmt_entry_insert_def fmt_entry_delete_def sql_buffer_def insert_stmt_def delete_stmt_def)

lemma fmt_entry_insert_overflow_witness:
  "fmt_entry_insert sim_libs (SLASH # replicate 1023 (CHR ''a'')) demo_world = None \<and>
   fmt_entry_delete sim_libs (SLASH # replicate 1023 (CHR ''a'')) demo_world = None"
  by (rule fmt_entry_insert_overflow) (simp_all add: demo_world_def db_ready_def)

lemma foldl_digits:
  "foldl (\<lambda>n c. n * 10 + digit_value c) 0 (dec n) = n \<and> (\<forall>c\<in>set (dec n). digit_value c < 10)"
proof (induction n rule: dec.induct)
  case (1 n)
  have d: "digit_value (digit k) = k" if "k < 10" for k
    using of_char_digit [OF that] that by (simp add: digit_value_def)
  show ?case
  proof (cases "n < 10")
    case True
    then show ?thesis by (subst (1 2) dec.simps) (simp add: d)
  next
    case False
    with 1 d [of "n mod 10"] show ?thesis by (subst (1 2) dec.simps) auto
  qed
qed

lemma dec_hd: "0 < n \<Longrightarrow> dec n \<noteq> [] \<and> hd (dec n) \<noteq> CHR ''0'' \<and> hd (dec n) \<noteq> CHR ''-''"
proof (induction n rule: dec.induct)
  case (1 n)
  show ?case
  proof (cases "n < 10")
    case True
    then have h: "dec n = [digit n]" by (subst dec.simps) simp
    have "of_char (digit n) = 48 + n" using True by (rule of_char_digit)
    then have "digit n \<noteq> CHR ''0''" "digit n \<noteq> CHR ''-''" using 1(2) by auto
    with h show ?thesis by simp
  next
    case False
    then have "dec n = dec (n div 10) @ [digit (n mod 10)]" by (subst dec.simps) simp
    with 1(1) False show ?thesis by simp
  qed
qed

lemma strtoll0_dec_int: "0 \<le> k \<Longrightarrow> strtoll0 (dec_int k) = k"
proof (cases "k = 0")
  case True
  have "dec 0 = ''0''" by code_simp
  with True show ?thesis
    by (simp add: strtoll0_def dec_int_def read_base_def digit_value_def Let_def)
next
  case False
  assume "0 \<le> k"
  define s where "s = dec (nat k)"
  have f: "foldl (\<lambda>n c. n * 10 + digit_value c) 0 s = nat k" "\<forall>c\<in>set s. digit_value c < 10"
    using foldl_digits [of "nat k"] by (simp_all add: s_def)
  obtain c t where s: "s = c # t" and c: "c \<noteq> CHR ''0''" "c \<noteq> CHR ''-''"
    using dec_hd [of "nat k"] False \<open>0 \<le> k\<close> by (cases s) (auto simp: s_def)
  have "takeWhile (\<lambda>c. digit_value c < 10) s = s" using f(2) by (induction s) auto
  then have "read_base 10 s = nat k" using f(1) by (simp only: read_base_def)
  then have "strtoll0 s = k" using s c \<open>0 \<le> k\<close> by (simp add: strtoll0_def Let_def)
  then show ?thesis using \<open>0 \<le> k\<close> by (simp add: dec_int_def s_def)
qed

lemma get_space_entry_counters:
  assumes "sqlite_contract (sql M) view" "w_priv w = Some p" "db_open p"
    and "sql_table (sql M) select_stmt (w_db w) = (SQLITE_OK, nrow, az)"
    and "0 \<le> v_written (view (w_db w))" "0 \<le> v_disk (view (w_db w))" "0 \<le> v_num (view (w_db w))"
  shows "get_space_entry M (Some e) w =
    Some ((0, Some \<lparr>writtenbytes = Some (word_of_int (v_written (view (w_db w)))),
                    diskbytes = Some (word_of_int (v_disk (view (w_db w)))),
                    filenum = Some (word_of_int (v_num (view (w_db w))))\<rparr>),
          w\<lparr>w_priv := Some (p\<lparr>dblock := dblock p - 1\<rparr>)\<rparr>)"
proof -
  have "nrow = 1 \<and> az = [Some ''writtenbytes'', Some ''diskbytes'', Some ''filenum'',
      Some (dec_int (v_written (view (w_db w)))), Some (dec_int (v_disk (view (w_db w)))),
      Some (dec_int (v_num (view (w_db w))))]"
    using assms(1,4) unfolding sqlite_contract_def sqlite_select_law_def by blast
  then show ?thesis
    using assms by (simp add: get_space_entry_def db_ready_def lock_db_def cell_def Let_def
        strtoll0_dec_int numeral_eq_Suc)
qed

text \<open>\<open>get_space_entry\<close> reports the three counters of the database, and unlocks the mutex once
  more than it has locked it.\<close>

theorem get_space_entry_reports:
  assumes "sqlite_contract (sql M) view" "w_priv w = Some p" "db_open p"
    and "sql_table (sql M) select_stmt (w_db w) = (SQLITE_OK, nrow, az)"
    and "0 \<le> v_written (view (w_db w))" "0 \<le> v_disk (view (w_db w))" "0 \<le> v_num (view (w_db w))"
  shows "get_space_entry M (Some e) w =
    Some ((0, Some \<lparr>writtenbytes = Some (word_of_int (v_written (view (w_db w)))),
                    diskbytes = Some (word_of_int (v_disk (view (w_db w)))),
                    filenum = Some (word_of_int (v_num (view (w_db w))))\<rparr>),
          w\<lparr>w_priv := Some (p\<lparr>dblock := dblock p - 1\<rparr>)\<rparr>)"
  using assms by (rule get_space_entry_counters)

lemma get_space_entry_reports_witness:
  "get_space_entry sim_libs (Some no_entry) demo_world =
    Some ((0, Some \<lparr>writtenbytes = Some 3, diskbytes = Some 0, filenum = Some 1\<rparr>),
      demo_world\<lparr>w_priv := Some ((the (w_priv demo_world))\<lparr>dblock := -1\<rparr>)\<rparr>)"
  using get_space_entry_reports [where M = sim_libs and view = "\<lambda>v. v" and w = demo_world
      and p = "the (w_priv demo_world)" and e = no_entry]
  by (simp add: demo_world_def sim_sql_contract) (simp add: sim_sql_def)

end
