(* ===== verification/Api.thy ===== *)
theory Api
  imports Space
begin

text \<open>
  The interface that programs link against: \<^verbatim>\<open>src/dzfile-api.c\<close>. Each function is one
  definition over the process, with its checks in the order of the code. Calls that only pass
  their arguments on are kept, since a client of the library sees them. Not modelled:
  \<^verbatim>\<open>dzfile_lk\<close>, which is in the theory of the tools that use it.
\<close>

section \<open>Creating and opening\<close>

text \<open>
  The first check of \<open>dzfile_creat\<close> and \<open>dzfile_open\<close>: \<^verbatim>\<open>strrchr(filename, '/') + 1\<close> is undefined
  for a path without a slash, and the comparison starts four bytes before the end of the path.
\<close>

definition basename_illegal :: "string \<Rightarrow> bool option" where
  "basename_illegal filename = do {
     i \<leftarrow> strrchr filename SLASH;
     let bname = drop (Suc i) filename;
     (if bname \<noteq> [] \<and> hd bname = CHR ''.''
      then strcmp_at filename (int (length filename) - 4) ''.DZF'' else Some False) }"

definition dz_openlog :: "nat \<Rightarrow> string option \<Rightarrow> os \<Rightarrow> (int \<times> os) option" where
  "dz_openlog fuel lfile s =
     (case lfile of
        None \<Rightarrow> Some (-1, s\<lparr>errno := EINVAL\<rparr>)
      | Some lf \<Rightarrow>
          (case sys_open lf (or O_WRONLY (or O_APPEND O_CREAT)) 0x1A4 s of
             (fd, s1) \<Rightarrow>
               if fd < 0 \<and> errno s1 = ENOENT
               then (case make_parent_dir fuel lf s1 of
                   None \<Rightarrow> None
                 | Some (ret, s2) \<Rightarrow>
                     if ret < 0 then Some (-1, s2)
                     else Some (sys_open lf (or O_WRONLY O_CREAT) 0x1A4 s2))
               else Some (fd, s1)))"

text \<open>
  \<open>dzfile_init\<close>. The copies that \<^verbatim>\<open>strdup\<close> makes are taken to succeed, \<open>pmax\<close> is what
  \<^verbatim>\<open>pathconf\<close> returns, and \<^verbatim>\<open>chdir\<close> has no effect here, since relative paths are taken from the
  root. A path that exists and is no directory goes to the label \<^verbatim>\<open>out\<close> with \<^verbatim>\<open>ret\<close> still 0.
\<close>

definition no_priv :: dzfile_priv where
  \<comment> \<open>\<^verbatim>\<open>calloc\<close>\<close>
  "no_priv = \<lparr>path_max = 0, data_path = None, loglevel = DZ_LOG_NONE, logfd = 0, logfile = None, mqcontext = False,
     mqsocket = False, db_open = False, dblock = 0\<rparr>"

definition init_services ::
    "('h, 'm, 'd, 'q) libs \<Rightarrow> nat \<Rightarrow> ('h, 'm, 'd, 'q) world \<Rightarrow> (int \<times> ('h, 'm, 'd, 'q) world) option" where
  \<comment> \<open>from \<^verbatim>\<open>dz_openmq\<close> on\<close>
  "init_services M fuel w =
     (case dz_openmq M 5555 w of
        (ret, w1) \<Rightarrow>
          if ret < 0 then Some (ret, w1)
          else (case dz_opendb M fuel w1 of
              None \<Rightarrow> None
            | Some (ret, w2) \<Rightarrow>
                if ret < 0 then Some (ret, w2)
                else Some (0, w2\<lparr>w_priv := map_option (\<lambda>p. p\<lparr>dblock := 0\<rparr>) (w_priv w2),
                                 w_fdm := hashmap_init (shm M) (w_fdm w2)\<rparr>)))"

definition dzfile_init ::
    "('h, 'm, 'd, 'q) libs \<Rightarrow> nat \<Rightarrow> int \<Rightarrow> string option \<Rightarrow> string option \<Rightarrow> ('h, 'm, 'd, 'q) world
      \<Rightarrow> (int \<times> ('h, 'm, 'd, 'q) world) option" where
  "dzfile_init M fuel pmax datapath deflog w =
     (case datapath of
        None \<Rightarrow> Some (-1, w)
      | Some dp \<Rightarrow>
          (let lf = (case deflog of None \<Rightarrow> ''/var/log/dzfile/dzfile.log'' | Some l \<Rightarrow> l) in
           case dz_openlog fuel (Some lf) (w_os w) of
             None \<Rightarrow> None
           | Some (lfd, s1) \<Rightarrow>
               if lfd < 0 then Some (-1, w\<lparr>w_os := s1\<rparr>)
               else (case sys_malloc s1 of
                   (False, s2) \<Rightarrow> Some (-1, w\<lparr>w_os := s2, w_priv := None, w_freed := False\<rparr>)
                 | (True, s2) \<Rightarrow>
                     (let p = no_priv\<lparr>logfd := lfd, logfile := Some lf, loglevel := DZ_LOG_DEBUG\<rparr> in
                      case sys_stat dp s2 of
                        (None, s3) \<Rightarrow>
                          Some (-1, w\<lparr>w_os := s3, w_priv := Some p, w_freed := False\<rparr>)
                      | (Some stbuf, s3) \<Rightarrow>
                          if \<not> S_ISDIR (st_mode stbuf)
                          then Some (0, w\<lparr>w_os := s3, w_priv := Some p, w_freed := False\<rparr>)
                          else init_services M fuel
                                 (w\<lparr>w_os := s3, w_freed := False,
                                    w_priv := Some (p\<lparr>data_path := Some dp, path_max := pmax\<rparr>)\<rparr>)))))"

text \<open>
  \<open>dzfile_fini\<close> tests \<^verbatim>\<open>priv\<close> only after it has used it, and leaves the pointer to the freed block:
  any later use of \<^verbatim>\<open>priv\<close>, of which only a second \<open>dzfile_fini\<close> is checked here, is undefined.
\<close>

definition dzfile_fini ::
    "('h, 'm, 'd, 'q) libs \<Rightarrow> ('h, 'm, 'd, 'q) world \<Rightarrow> (int \<times> ('h, 'm, 'd, 'q) world) option" where
  "dzfile_fini M w = do {
     p \<leftarrow> w_priv w;
     guard_ub (\<not> w_freed w);
     let w1 = (if db_open p then snd (dz_closedb M w) else w);
     Some (0, w1\<lparr>w_freed := True\<rparr>) }"

definition dzfile_creat ::
    "('h, 'm, 'd, 'q) libs \<Rightarrow> string \<Rightarrow> 32 word \<Rightarrow> ('h, 'm, 'd, 'q) world
      \<Rightarrow> (int \<times> ('h, 'm, 'd, 'q) world) option" where
  "dzfile_creat M filename mode w = do {
     illegal \<leftarrow> basename_illegal filename;
     if illegal then Some (-1, set_errno EACCES w)
     else (case match_sysdir (Some filename) (w_os w) of (m, s1) \<Rightarrow> do {
       h \<leftarrow> (if m = 1 then Some 0 else match_hiddenfile (Some filename));
       if m = 1 \<or> h = 1 then Some (-1, set_errno EACCES (w\<lparr>w_os := s1\<rparr>))
       else do {
         (isexist, s2) \<leftarrow> findhiddenFile filename s1;
         let w2 = w\<lparr>w_os := s2\<rparr>;
         if isexist = -1 then Some (-1, w2)
         else if isexist = 0 then do {
           (rc, w3) \<leftarrow> fmt_entry_insert M filename w2;
           let w4 = snd (dz_notifymq M filename w3);
           Some (on_os (sys_creat filename mode) w4) }
         else if isexist = 1 then Some (EEXIST, w2)
         else Some (EISDIR, w2) } }) }"

text \<open>Opening a file that has a hidden file.\<close>

definition open_hidden ::
    "('h, 'm, 'd, 'q) libs \<Rightarrow> string \<Rightarrow> 32 word \<Rightarrow> 32 word \<Rightarrow> ('h, 'm, 'd, 'q) world
      \<Rightarrow> (int \<times> ('h, 'm, 'd, 'q) world) option" where
  "open_hidden M filename flags mode w =
     (if and flags O_ACCMODE \<noteq> O_RDONLY then Some (-1, set_errno EACCES w)
      else (case buildHiddenFile filename (w_os w) of
          None \<Rightarrow> None
        | Some (None, s1) \<Rightarrow> Some (-1, w\<lparr>w_os := s1\<rparr>)
        | Some (Some hiddenFile, s1) \<Rightarrow>
            (case on_st (hdf5_open (h5 M) (Some hiddenFile) H5_READ) (w\<lparr>w_os := s1\<rparr>) of
               (h5fd, w2) \<Rightarrow>
                 if h5fd \<le> 0 then Some (-1, w2)
                 else (case on_os sys_malloc w2 of
                     (False, w3) \<Rightarrow> Some (-1, w3)
                   | (True, w3) \<Rightarrow>
                       (case on_os (sys_open filename flags mode) w3 of
                          (fd, w4) \<Rightarrow>
                            (let p = w_next w4;
                                 w5 = w4\<lparr>w_heap := (w_heap w4)(p \<mapsto>
                                          \<lparr>d_fd = fd, d_h5fd = h5fd, d_filename = None\<rparr>),
                                        w_next := Suc p\<rparr>
                             in case add_dzfd (shm M) fd p (w_fdm w5) of
                                  None \<Rightarrow> None
                                | Some (rc, m) \<Rightarrow> Some (fd, w5\<lparr>w_fdm := m\<rparr>)))))))"

definition dzfile_open ::
    "('h, 'm, 'd, 'q) libs \<Rightarrow> string option \<Rightarrow> 32 word \<Rightarrow> 32 word \<Rightarrow> ('h, 'm, 'd, 'q) world
      \<Rightarrow> (int \<times> ('h, 'm, 'd, 'q) world) option" where
  "dzfile_open M filename flags mode w =
     (case filename of
        None \<Rightarrow> Some (-1, w)
      | Some f \<Rightarrow>
          (case match_sysdir (Some f) (w_os w) of
             (m, s1) \<Rightarrow>
               if m = 1 then Some (-1, w\<lparr>w_os := s1\<rparr>)
               else do {
                 illegal \<leftarrow> basename_illegal f;
                 if illegal then Some (-1, set_errno EACCES (w\<lparr>w_os := s1\<rparr>))
                 else do {
                   (isexist, s2) \<leftarrow> findhiddenFile f s1;
                   let w2 = w\<lparr>w_os := s2\<rparr>;
                   if isexist = 1 then open_hidden M f flags mode w2
                   else if isexist < 0 then Some (-1, w2)
                   else if isexist = 2 then Some (-1, set_errno EISDIR w2)
                   else (case on_os (sys_stat f) w2 of
                       (st, w3) \<Rightarrow> do {
                         (rc, w4) \<leftarrow> (if st = None \<and> errno (w_os w3) = ENOENT
                                      then fmt_entry_insert M f w3 else Some (0, w3));
                         let w5 = snd (dz_notifymq M f w4);
                         Some (on_os (sys_open f flags mode) w5) }) } }))"

definition dzfile_close ::
    "('h, 'm, 'd, 'q) libs \<Rightarrow> int \<Rightarrow> ('h, 'm, 'd, 'q) world
      \<Rightarrow> (int \<times> ('h, 'm, 'd, 'q) world) option" where
  "dzfile_close M fd w =
     (let p = find_dzfd (shm M) fd (w_fdm w) in
      if p = 0 then Some (on_os (sys_close fd) w)
      else do {
        d \<leftarrow> w_heap w p;
        let w1 = snd (on_st (hdf5_close (h5 M) (d_h5fd d)) w);
        (rc, m) \<leftarrow> remove_dzfd (shm M) (d_fd d) (w_fdm w1);
        Some (on_os (sys_close fd) (w1\<lparr>w_fdm := m, w_heap := (w_heap w1)(p := None)\<rparr>)) })"

section \<open>Reading and writing\<close>

definition count_written ::
    "('h, 'm, 'd, 'q) libs \<Rightarrow> int \<times> ('h, 'm, 'd, 'q) world \<Rightarrow> (int \<times> ('h, 'm, 'd, 'q) world) option" where
  \<comment> \<open>\<^verbatim>\<open>if (ret > 0) add_writtenbytes(ret); return ret;\<close>\<close>
  "count_written M rw =
     (if 0 < fst rw
      then (case add_writtenbytes M (fst rw) (snd rw) of
          None \<Rightarrow> None
        | Some (rc, w) \<Rightarrow> Some (fst rw, w))
      else Some rw)"

definition dzfile_write where
  "dzfile_write M fd buf w = count_written M (on_os (sys_write fd buf) w)"

definition dzfile_pwrite where
  "dzfile_pwrite M fd buf offset w = count_written M (on_os (sys_pwrite fd buf offset) w)"

definition dzfile_read where
  "dzfile_read M fd count w = on_os (sys_read fd count) w"

definition dzfile_pread ::
    "('h, 'm, 'd, 'q) libs \<Rightarrow> int \<Rightarrow> nat \<Rightarrow> int \<Rightarrow> ('h, 'm, 'd, 'q) world
      \<Rightarrow> ((int \<times> bytes) \<times> ('h, 'm, 'd, 'q) world) option" where
  "dzfile_pread M fd count offset w =
     (let p = find_dzfd (shm M) fd (w_fdm w) in
      if p \<noteq> 0 then do {
        d \<leftarrow> w_heap w p;
        (r, st) \<leftarrow> h5fd_pread (h5 M) (codec M) (d_h5fd d) count offset (w_os w, w_h5 w);
        Some (r, w\<lparr>w_os := fst st, w_h5 := snd st\<rparr>) }
      else Some (on_os (sys_pread fd count offset) w))"

text \<open>The vectored calls. An \<^verbatim>\<open>iovec\<close> is the length of a buffer to read into, or the bytes to write.\<close>

fun readv_loop where
  "readv_loop M fd [] count acc w = ((count, acc), w)"
| "readv_loop M fd (len # iov) count acc w =
     (case dzfile_read M fd len w of
        ((nbread, bs), w1) \<Rightarrow>
          if nbread < 0 then ((nbread, acc), w1)
          else if nbread = 0 then ((count, acc), w1)
          else readv_loop M fd iov (count + nbread) (acc @ [bs]) w1)"

definition dzfile_readv where
  "dzfile_readv M fd iov w = readv_loop M fd iov 0 [] w"

fun preadv_loop where
  "preadv_loop M fd [] offset count acc w = Some ((count, acc), w)"
| "preadv_loop M fd (len # iov) offset count acc w =
     (case dzfile_pread M fd len offset w of
        None \<Rightarrow> None
      | Some ((nbread, bs), w1) \<Rightarrow>
          if nbread < 0 then Some ((nbread, acc), w1)
          else if nbread = 0 then Some ((count, acc), w1)
          else preadv_loop M fd iov (offset + nbread) (count + nbread) (acc @ [bs]) w1)"

definition dzfile_preadv where
  "dzfile_preadv M fd iov offset w = preadv_loop M fd iov offset 0 [] w"

fun writev_loop where
  "writev_loop M fd [] count w = Some (count, w)"
| "writev_loop M fd (buf # iov) count w =
     (case dzfile_write M fd buf w of
        None \<Rightarrow> None
      | Some (nbwrite, w1) \<Rightarrow>
          if nbwrite < 0 then Some (-1, w1)
          else if nbwrite = 0 then Some (count, w1)
          else writev_loop M fd iov (count + nbwrite) w1)"

definition dzfile_writev where
  "dzfile_writev M fd iov w =
     (case writev_loop M fd iov 0 w of None \<Rightarrow> None | Some rw \<Rightarrow> count_written M rw)"

fun pwritev_loop where
  "pwritev_loop M fd [] offset count w = Some (count, w)"
| "pwritev_loop M fd (buf # iov) offset count w =
     (case dzfile_pwrite M fd buf offset w of
        None \<Rightarrow> None
      | Some (nbwrite, w1) \<Rightarrow>
          if nbwrite < 0 then Some (-1, w1)
          else if nbwrite = 0 then Some (count, w1)
          else pwritev_loop M fd iov (offset + nbwrite) (count + nbwrite) w1)"

definition dzfile_pwritev where
  "dzfile_pwritev M fd iov offset w =
     (case pwritev_loop M fd iov offset 0 w of None \<Rightarrow> None | Some rw \<Rightarrow> count_written M rw)"

section \<open>Calls that pass their arguments on\<close>

definition dzfile_fstat where "dzfile_fstat fd w = on_os (sys_fstat fd) w"
definition dzfile_stat where "dzfile_stat filename w = on_os (sys_stat filename) w"
definition dzfile_lstat where "dzfile_lstat path w = on_os (sys_stat path) w"
definition dzfile_lseek where "dzfile_lseek fd offset whence w = on_os (sys_lseek fd offset whence) w"
definition dzfile_ftruncate where "dzfile_ftruncate fd len w = on_os (sys_ftruncate fd len) w"
definition dzfile_fsync where "dzfile_fsync fd w = on_os (sys_fsync fd) w"
definition dzfile_fdatasync where "dzfile_fdatasync fd w = on_os (sys_fsync fd) w"
definition dzfile_statvfs where "dzfile_statvfs path w = on_os (sys_statfs path) w"
definition dzfile_fstatvfs where "dzfile_fstatvfs fd w = on_os (sys_fstatfs fd) w"
definition dzfile_statfs where "dzfile_statfs path w = on_os (sys_statfs path) w"
definition dzfile_fstatfs where "dzfile_fstatfs fd w = on_os (sys_fstatfs fd) w"

definition dzfile_fallocate where
  \<comment> \<open>the mode is ignored\<close>
  "dzfile_fallocate fd (mode :: int) offset len w = on_os (sys_posix_fallocate fd offset len) w"

section \<open>Names, sizes and directories\<close>

definition dzfile_truncate ::
    "string \<Rightarrow> int \<Rightarrow> ('h, 'm, 'd, 'q) world \<Rightarrow> (int \<times> ('h, 'm, 'd, 'q) world) option" where
  "dzfile_truncate path len w = do {
     (isexist, s1) \<leftarrow> findhiddenFile path (w_os w);
     let w1 = w\<lparr>w_os := s1\<rparr>;
     if isexist = 1 then Some (-1, set_errno ENOTSUP w1)
     else Some (on_os (sys_truncate path len) w1) }"

text \<open>\<open>dzfile_unlink\<close>: the last \<^verbatim>\<open>stat\<close> is on the name that has just been removed.\<close>

definition unlink_source ::
    "('h, 'm, 'd, 'q) libs \<Rightarrow> string \<Rightarrow> ('h, 'm, 'd, 'q) world
      \<Rightarrow> (int \<times> ('h, 'm, 'd, 'q) world) option" where
  "unlink_source M filename w =
     (case on_os (sys_unlink filename) w of
        (rc, w1) \<Rightarrow>
          if rc < 0 then Some (rc, w1)
          else (case on_os (sys_stat filename) w1 of
              (None, w2) \<Rightarrow> Some (-1, w2)
            | (Some stbuf, w2) \<Rightarrow>
                (case sub_writtenbytes M (st_size stbuf) w2 of
                   None \<Rightarrow> None
                 | Some (r, w3) \<Rightarrow> Some (0, w3))))"

definition dzfile_unlink ::
    "('h, 'm, 'd, 'q) libs \<Rightarrow> string \<Rightarrow> ('h, 'm, 'd, 'q) world
      \<Rightarrow> (int \<times> ('h, 'm, 'd, 'q) world) option" where
  "dzfile_unlink M filename w =
     (case match_sysdir (Some filename) (w_os w) of
        (m, s1) \<Rightarrow>
          if m = 1 then Some (-1, w\<lparr>w_os := s1\<rparr>)
          else (let w1 = snd (dz_notifymq M filename (w\<lparr>w_os := s1\<rparr>)) in
            case findhiddenFile filename (w_os w1) of
              None \<Rightarrow> None
            | Some (rc, s2) \<Rightarrow>
                if rc \<noteq> 1 then unlink_source M filename (w1\<lparr>w_os := s2\<rparr>)
                else (case buildHiddenFile filename s2 of
                    None \<Rightarrow> None
                  | Some (None, s3) \<Rightarrow> None
                  | Some (Some hiddenFile, s3) \<Rightarrow>
                      (case on_os (sys_stat hiddenFile) (w1\<lparr>w_os := s3\<rparr>) of
                         (None, w4) \<Rightarrow> Some (-1, w4)
                       | (Some stbuf, w4) \<Rightarrow>
                           (case on_os (sys_unlink hiddenFile) w4 of
                              (ret, w5) \<Rightarrow>
                                if ret < 0 then Some (-1, w5)
                                else (case sub_diskbytes M (st_size stbuf) w5 of
                                    None \<Rightarrow> None
                                  | Some (r, w6) \<Rightarrow> unlink_source M filename w6))))))"

definition dzfile_mkdir ::
    "string \<Rightarrow> 32 word \<Rightarrow> ('h, 'm, 'd, 'q) world \<Rightarrow> int \<times> ('h, 'm, 'd, 'q) world" where
  "dzfile_mkdir pathname mode w =
     (case match_sysdir (Some pathname) (w_os w) of
        (m, s1) \<Rightarrow> if m = 1 then (-1, w\<lparr>w_os := s1\<rparr>)
                   else on_os (sys_mkdir pathname mode) (w\<lparr>w_os := s1\<rparr>))"

definition dzfile_opendir ::
    "string \<Rightarrow> ('h, 'm, 'd, 'q) world \<Rightarrow> (string list option \<times> ('h, 'm, 'd, 'q) world) option" where
  "dzfile_opendir pathname w =
     (case match_sysdir (Some pathname) (w_os w) of
        (m, s1) \<Rightarrow> do {
          h \<leftarrow> (if m = 1 then Some 0 else match_hiddenfile (Some pathname));
          if m = 1 \<or> h = 1 then Some (None, set_errno EACCES (w\<lparr>w_os := s1\<rparr>))
          else Some (on_os (sys_opendir pathname) (w\<lparr>w_os := s1\<rparr>)) })"

fun dzfile_readdir :: "string list \<Rightarrow> (string option \<times> string list) option" where
  "dzfile_readdir [] = Some (None, [])"
| "dzfile_readdir (d_name # dirp) = do {
     h \<leftarrow> match_hiddenfile (Some d_name);
     if h = 1 \<or> d_name = ''.dzs'' then dzfile_readdir dirp else Some (Some d_name, dirp) }"

record dzfile_dinfo =
  capacity :: "64 word"
  usedspace :: "64 word"
  di_files :: "64 word"
  di_filenum :: "64 word option"
  totalsize :: "64 word option"
  disksize :: "64 word option"
  comratio :: "64 word"

text \<open>
  \<open>dzfile_dstat\<close> without the null checks of its pointers. The ratio is the quotient of two
  64-bit integers, converted to \<^verbatim>\<open>float\<close> afterwards: the integer is kept here.
\<close>

definition dzfile_dstat ::
    "('h, 'm, 'd, 'q) libs \<Rightarrow> string \<Rightarrow> dzfile_dinfo \<Rightarrow> ('h, 'm, 'd, 'q) world
      \<Rightarrow> ((int \<times> dzfile_dinfo) \<times> ('h, 'm, 'd, 'q) world) option" where
  "dzfile_dstat M path dbuf w =
     (if w_priv w = None then Some ((-1, dbuf), w)
      else case on_os (sys_statfs path) w of
        (None, w1) \<Rightarrow> Some ((-1, dbuf), w1)
      | (Some fsbuf, w1) \<Rightarrow>
          (let d1 = \<lparr>capacity = f_bsize fsbuf * f_blocks fsbuf,
                     usedspace = f_bsize fsbuf * (f_blocks fsbuf - f_bfree fsbuf),
                     di_files = f_files fsbuf, di_filenum = Some 0, totalsize = Some 0,
                     disksize = Some 0, comratio = 1\<rparr>
           in do {
             ((ret, sp), w2) \<leftarrow> get_space_entry M (Some no_entry) w1;
             if ret < 0 then Some ((-1, d1), w2)
             else do {
               e \<leftarrow> sp;
               let d2 = d1\<lparr>di_filenum := filenum e, totalsize := writtenbytes e,
                           disksize := diskbytes e\<rparr>;
               (case on_os (sys_stat path) w2 of
                  (None, w3) \<Rightarrow> Some ((-1, d2), w3)
                | (Some stbuf, w3) \<Rightarrow>
                    if S_ISDIR (st_mode stbuf) then Some ((0, d2), w3)
                    else (let size = word_of_int (st_size stbuf);
                              d3 = d2\<lparr>di_filenum := Some 1, totalsize := Some size, disksize := Some size\<rparr>
                      in do {
                        (isexist, s4) \<leftarrow> findhiddenFile path (w_os w3);
                        let w4 = w3\<lparr>w_os := s4\<rparr>;
                        if isexist \<noteq> 1 then Some ((0, d3), w4)
                        else do {
                          (hiddenFile, s5) \<leftarrow> buildHiddenFile path s4;
                          (case hiddenFile of
                             None \<Rightarrow> Some ((-1, d3), w4\<lparr>w_os := s5\<rparr>)
                           | Some hf \<Rightarrow>
                               (case on_os (sys_stat hf) (w4\<lparr>w_os := s5\<rparr>) of
                                  (None, w6) \<Rightarrow> Some ((-1, d3), w6)
                                | (Some hbuf, w6) \<Rightarrow> do {
                                    let hsize = word_of_int (st_size hbuf);
                                    guard_ub (hsize \<noteq> 0);
                                    Some ((0, d3\<lparr>disksize := Some hsize, comratio := size div hsize\<rparr>), w6) })) } })) } }))"

section \<open>Opening a converted file\<close>

lemma on_os_simps [simp]:
  "w_h5 (snd (on_os f w)) = w_h5 w" "w_fdm (snd (on_os f w)) = w_fdm w"
  "w_db (snd (on_os f w)) = w_db w" "w_heap (snd (on_os f w)) = w_heap w"
  "w_priv (snd (on_os f w)) = w_priv w" "w_mq (snd (on_os f w)) = w_mq w"
  "w_next (snd (on_os f w)) = w_next w" "w_os (snd (on_os f w)) = snd (f (w_os w))"
  "fst (on_os f w) = fst (f (w_os w))"
  by (simp_all add: on_os_def split: prod.split)

definition public_path :: "string \<Rightarrow> bool" where
  \<comment> \<open>a path that a program may use: absolute or with a slash, not below \<^verbatim>\<open>.dzs\<close>, no hidden name\<close>
  "public_path p \<longleftrightarrow> cstring p \<and> SLASH \<in> set p \<and> ''.dzs'' \<notin> set (tokens SLASH p) \<and>
     basename_illegal p = Some False"

lemma match_sysdir_public: "public_path p \<Longrightarrow> match_sysdir (Some p) s = (0, s)"
  by (simp add: public_path_def match_sysdir_def sysdir_loop_iff)

lemma findhiddenFile_public:
  assumes "public_path p" "env s = []" "node_at s (comps (hidden_name p)) = Some (j, m)" "\<not> i_dir m"
  shows "findhiddenFile p s = Some (1, s)"
  using assms by (simp add: findhiddenFile_normal public_path_def)

lemma dzfile_open_converted:
  assumes "public_path p" "env (w_os w) = []"
    and "node_at (w_os w) (comps (hidden_name p)) = Some (j, m)" "\<not> i_dir m"
  shows "dzfile_open M (Some p) flags mode w = open_hidden M p flags mode w"
  using assms findhiddenFile_public [OF assms]
  by (simp add: dzfile_open_def match_sysdir_public public_path_def)

text \<open>The state after the opening of a converted file for reading.\<close>

lemma open_hidden_state:
  assumes H: "hdf5_contract (h5 M) hf hdat" and T: "fdm_invar (shm M, w_fdm w)" "0 < w_next w"
    and p: "public_path p" "env (w_os w) = []" "node_at (w_os w) (comps (hidden_name p)) = Some (j, m)"
    and src: "node_at (w_os w) (comps p) = Some (i, n)"
    and A: "archive_node L hdat (w_os w, w_h5 w) j d"
    and run: "open_hidden M p O_RDONLY mode w = Some (fd, w1)" "0 \<le> fd"
  obtains h5fd where "find_dzfd (shm M) fd (w_fdm w1) = w_next w"
    "w_heap w1 (w_next w) = Some \<lparr>d_fd = fd, d_h5fd = h5fd, d_filename = None\<rparr>"
    "archive_fd L hf hdat (w_os w1, w_h5 w1) h5fd d" "env (w_os w1) = []"
    "fd_file (w_os w1) fd = Some (\<lparr>of_ino = i, of_off = 0, of_flags = O_RDONLY\<rparr>, n)"
    "fdm_invar (shm M, w_fdm w1)" "hf (w_h5 w1) h5fd = Some j"
    "archive_node L hdat (w_os w1, w_h5 w1) j d" "same_files (w_os w) (w_os w1)"
proof -
  have b: "buildHiddenFile p (w_os w) = Some (Some (hidden_name p), w_os w)"
    using p by (simp add: buildHiddenFile_normal public_path_def)
  obtain h5fd s2 h2 where ho: "H5Fopen (h5 M) (hidden_name p) (w_os w) (w_h5 w) = (h5fd, s2, h2)"
    by (metis prod_cases3)
  have "h5_open_law (h5 M) hf hdat" using H by (simp add: hdf5_contract_def)
  with ho have law: "quiet (w_os w) s2 \<and> (\<forall>k. hdat s2 h2 k = hdat (w_os w) (w_h5 w) k) \<and>
      (0 < h5fd \<longrightarrow> (\<exists>i n. node_at (w_os w) (comps (hidden_name p)) = Some (i, n) \<and>
         hf h2 = (hf (w_h5 w))(h5fd \<mapsto> i)))"
    unfolding h5_open_law_def by (metis (no_types, lifting))
  then have q: "quiet (w_os w) s2" and hd: "\<And>k. hdat s2 h2 k = hdat (w_os w) (w_h5 w) k" by auto
  have pos: "0 < h5fd"
    using run b ho by (auto simp: open_hidden_def on_st_def hdf5_open_def split: if_splits)
  have e2: "env s2 = []" using q p(2) by (auto simp: quiet_def)
  obtain r4 s4 where so: "sys_open p O_RDONLY mode s2 = (r4, s4)" by fastforce
  let ?w2 = "w\<lparr>w_os := s4, w_h5 := h2, w_heap := (w_heap w)(w_next w \<mapsto>
      \<lparr>d_fd = r4, d_h5fd = h5fd, d_filename = None\<rparr>), w_next := Suc (w_next w)\<rparr>"
  have eq: "open_hidden M p O_RDONLY mode w =
      (case add_dzfd (shm M) r4 (w_next w) (w_fdm w) of
         None \<Rightarrow> None | Some (rc, mp) \<Rightarrow> Some (r4, ?w2\<lparr>w_fdm := mp\<rparr>))"
    using b ho pos e2 so
    by (simp add: open_hidden_def on_st_def hdf5_open_def on_os_def sys_malloc_normal Let_def
        split: option.split)
  with run obtain rc mp where ad: "add_dzfd (shm M) r4 (w_next w) (w_fdm w) = Some (rc, mp)"
    and r4: "r4 = fd" and w1: "w1 = ?w2\<lparr>w_fdm := mp\<rparr>"
    by (auto split: option.splits)
  have nd: "node_at s2 (comps p) = Some (i, n)" using src q by (simp add: quiet_node_at)
  from sys_open_rdonly [OF so nd] r4 run(2)
  have sf: "same_files s2 s4" and ff: "fd_file s4 fd = Some (\<lparr>of_ino = i, of_off = 0, of_flags = O_RDONLY\<rparr>, n)"
    by auto
  have e4: "env s4 = []" using sf e2 by (auto simp: same_files_def)
  have fr: "h5_frame_law hdat" using H by (simp add: hdf5_contract_def)
  have "inodes s4 j = inodes s2 j" using sf by (simp add: same_files_def)
  from hdat_cong [OF fr this] hd have hd4: "hdat s4 h2 j = hdat (w_os w) (w_h5 w) j" by metis
  have hf2: "hf h2 h5fd = Some j" using law pos p(3) by auto
  have an: "archive_node L hdat (s4, h2) j d" using A by (simp add: archive_node_def hd4)
  have same: "same_files (w_os w) s4"
    using q sf by (blast intro: quiet_same_files same_files_trans)
  have "archive_fd L hf hdat (s4, h2) h5fd d"
    using an pos hf2 by (simp add: archive_fd_def)
  moreover from fdt.add_ok [OF T(1), of fd "w_next w"] T(2) run(2) ad r4
  have "fdm_invar (shm M, mp)" "find_dzfd (shm M) fd mp = w_next w"
    by (auto simp: fdm_add_def fdm_find_def)
  ultimately show ?thesis
    using w1 r4 ff e4 an hf2 same by (intro that [of h5fd]) simp_all
qed

text \<open>C9. Through the interface a converted file reads as the original: after \<open>dzfile_open\<close> for
  reading, \<open>dzfile_pread\<close> returns the original contents, up to 2 GiB, but for reads to the end of a
  file whose size is a multiple of 4 MiB, which return -1. \<open>dzfile_read\<close> on the same descriptor
  returns the bytes of the source, which the conversion has replaced with zeros: it does not ask
  the map of the compressed files.\<close>

theorem converted_file_reads:
  assumes "hdf5_contract (h5 M) hf hdat" "zstd_contract (codec M)"
    and "fdm_invar (shm M, w_fdm w)" "0 < w_next w"
    and "public_path p" "env (w_os w) = []"
    and "node_at (w_os w) (comps (hidden_name p)) = Some (j, m)" "\<not> i_dir m"
    and "archive_node (codec M) hdat (w_os w, w_h5 w) j d" "length d \<le> 2 ^ 31"
    and "node_at (w_os w) (comps p) = Some (i, n)" "\<not> i_dir n"
    and "i_data n = replicate (length d) 0"
    and "dzfile_open M (Some p) O_RDONLY mode w = Some (fd, w1)" "0 \<le> fd" "off \<le> length d"
  shows "dzfile_pread M fd count (int off) w1 =
      Some ((if off + count \<le> length d \<or> \<not> H5_BUFSIZE dvd length d
             then int (length (take count (drop off d))) else -1, take count (drop off d)), w1)
    \<and> fst (dzfile_read M fd count w1) =
      (int (min count (length d)), replicate (min count (length d)) 0)"
proof -
  have run: "open_hidden M p O_RDONLY mode w = Some (fd, w1)"
    using assms(14) by (simp add: dzfile_open_converted [OF assms(5-8)])
  from open_hidden_state [OF assms(1,3,4,5,6,7,11,9) run assms(15)] obtain h5fd where
    st: "find_dzfd (shm M) fd (w_fdm w1) = w_next w"
    "w_heap w1 (w_next w) = Some \<lparr>d_fd = fd, d_h5fd = h5fd, d_filename = None\<rparr>"
    "archive_fd (codec M) hf hdat (w_os w1, w_h5 w1) h5fd d" "env (w_os w1) = []"
    "fd_file (w_os w1) fd = Some (\<lparr>of_ino = i, of_off = 0, of_flags = O_RDONLY\<rparr>, n)"
    by blast
  have "h5fd_pread (h5 M) (codec M) h5fd count (int off) (w_os w1, w_h5 w1) =
    Some ((if off + count \<le> length d \<or> \<not> H5_BUFSIZE dvd length d
           then int (length (take count (drop off d))) else -1, take count (drop off d)), (w_os w1, w_h5 w1))"
    using assms(1,2) st(3,4) assms(16,10) by (rule h5fd_pread_contents)
  then have "dzfile_pread M fd count (int off) w1 =
      Some ((if off + count \<le> length d \<or> \<not> H5_BUFSIZE dvd length d
             then int (length (take count (drop off d))) else -1, take count (drop off d)), w1)"
    using st(1,2) assms(4) by (simp add: dzfile_pread_def)
  moreover have "fst (dzfile_read M fd count w1) =
      (int (min count (length d)), replicate (min count (length d)) 0)"
    using st(4,5) assms(12,13)
    by (simp add: dzfile_read_def sys_read_def readable_def Let_def min.commute)
  ultimately show ?thesis ..
qed

text \<open>C17. A converted file can only be opened for reading: any other access mode is refused with
  \<^verbatim>\<open>EACCES\<close>, truncation with \<^verbatim>\<open>ENOTSUP\<close>, and nothing changes. \<open>dzfile_creat\<close> refuses too, but
  returns the positive number \<^verbatim>\<open>EEXIST\<close>, which a caller takes for a descriptor.\<close>

theorem converted_file_is_read_only:
  assumes "public_path p" "env (w_os w) = []" "match_hiddenfile (Some p) = Some 0"
    and "node_at (w_os w) (comps (hidden_name p)) = Some (j, m)" "\<not> i_dir m"
    and "and flags O_ACCMODE \<noteq> O_RDONLY"
  shows "dzfile_open M (Some p) flags mode w = Some (-1, set_errno EACCES w) \<and>
    dzfile_truncate p len w = Some (-1, set_errno ENOTSUP w) \<and>
    dzfile_creat M p mode w = Some (17, w)"
proof (intro conjI)
  note f = findhiddenFile_public [OF assms(1,2,4,5)]
  show "dzfile_open M (Some p) flags mode w = Some (-1, set_errno EACCES w)"
    using assms(6) by (simp add: dzfile_open_converted [OF assms(1,2,4,5)] open_hidden_def)
  show "dzfile_truncate p len w = Some (-1, set_errno ENOTSUP w)"
    using f by (simp add: dzfile_truncate_def)
  show "dzfile_creat M p mode w = Some (17, w)"
    using f assms(1,3) by (simp add: dzfile_creat_def match_sysdir_public public_path_def)
qed

text \<open>Where the source of a hidden file is missing, opening it is undefined: the failed
  descriptor -1 is entered into the map, whose deleted key it is.\<close>

theorem open_without_source_undefined:
  assumes "hdf5_contract (h5 M) hf hdat" "fdm_invar (shm M, w_fdm w)" "0 < w_next w"
    and "public_path p" "env (w_os w) = []"
    and "node_at (w_os w) (comps (hidden_name p)) = Some (j, m)" "\<not> i_dir m"
    and "node_at (w_os w) (comps p) = None"
    and "fst (H5Fopen (h5 M) (hidden_name p) (w_os w) (w_h5 w)) = h5fd" "0 < h5fd"
  shows "dzfile_open M (Some p) O_RDONLY mode w = None"
proof -
  have b: "buildHiddenFile p (w_os w) = Some (Some (hidden_name p), w_os w)"
    using assms(4,5) by (simp add: buildHiddenFile_normal public_path_def)
  obtain s2 h2 where ho: "H5Fopen (h5 M) (hidden_name p) (w_os w) (w_h5 w) = (h5fd, s2, h2)"
    using assms(9) by (metis fst_conv prod_cases3)
  have "h5_open_law (h5 M) hf hdat" using assms(1) by (simp add: hdf5_contract_def)
  with ho have q: "quiet (w_os w) s2" unfolding h5_open_law_def by blast
  then have e2: "env s2 = []" using assms(5) by (auto simp: quiet_def)
  have nd: "node_at s2 (comps p) = None" using q assms(8) by (simp add: quiet_node_at)
  have so: "sys_open p O_RDONLY mode s2 = (-1, s2\<lparr>errno := missing_errno s2 (comps p)\<rparr>)"
    using e2 nd by (simp add: sys_open_def fail_with_def)
  from fdt.add_bad [OF assms(2), of "w_next w"] assms(3)
  have ad: "add_dzfd (shm M) (-1) (w_next w) (w_fdm w) = None" by (simp add: fdm_add_def)
  show ?thesis
    using b ho assms(10) e2 so ad
    by (simp add: dzfile_open_converted [OF assms(4-7)] open_hidden_def on_st_def hdf5_open_def
        on_os_def sys_malloc_normal Let_def)
qed

section \<open>Closing\<close>

text \<open>C16. \<open>dzfile_close\<close> undoes \<open>dzfile_open\<close>: the descriptor is closed and out of the map, the
  block is free, and the other descriptors are in the map as before.\<close>

theorem open_close_converted:
  assumes "hdf5_contract (h5 M) hf hdat" "fdm_invar (shm M, w_fdm w)" "0 < w_next w"
    and "public_path p" "env (w_os w) = []"
    and "node_at (w_os w) (comps (hidden_name p)) = Some (j, m)" "\<not> i_dir m"
    and "archive_node L hdat (w_os w, w_h5 w) j d"
    and "node_at (w_os w) (comps p) = Some (i, n)"
    and "dzfile_open M (Some p) O_RDONLY mode w = Some (fd, w1)" "0 \<le> fd"
  shows "\<exists>w2. dzfile_close M fd w1 = Some (0, w2) \<and> fd_get (w_os w2) fd = None \<and>
    find_dzfd (shm M) fd (w_fdm w2) = 0 \<and> w_heap w2 (w_next w) = None \<and>
    (\<forall>fd'. fd' \<noteq> fd \<longrightarrow> find_dzfd (shm M) fd' (w_fdm w2) = find_dzfd (shm M) fd' (w_fdm w1))"
proof -
  have run: "open_hidden M p O_RDONLY mode w = Some (fd, w1)"
    using assms(10) by (simp add: dzfile_open_converted [OF assms(4-7)])
  from open_hidden_state [OF assms(1,2,3,4,5,6,9,8) run assms(11)] obtain h5fd where
    st: "find_dzfd (shm M) fd (w_fdm w1) = w_next w"
    "w_heap w1 (w_next w) = Some \<lparr>d_fd = fd, d_h5fd = h5fd, d_filename = None\<rparr>"
    "archive_fd L hf hdat (w_os w1, w_h5 w1) h5fd d" "env (w_os w1) = []"
    "fd_file (w_os w1) fd = Some (\<lparr>of_ino = i, of_off = 0, of_flags = O_RDONLY\<rparr>, n)"
    "fdm_invar (shm M, w_fdm w1)"
    by blast
  obtain r s2 h2 where c: "H5Fclose (h5 M) h5fd (w_os w1) (w_h5 w1) = (r, s2, h2)"
    by (metis prod_cases3)
  obtain k where k: "hf (w_h5 w1) h5fd = Some k" using st(3) by (auto simp: archive_fd_def)
  have "h5_close_law (h5 M) hf hdat" using assms(1) by (simp add: hdf5_contract_def)
  from h5_close_lawD(1) [OF this c] k have t: "touches k (w_os w1) s2" by simp
  then have e2: "env s2 = []" using st(4) by (auto simp: touches_def)
  have g: "fd_get s2 fd = Some \<lparr>of_ino = i, of_off = 0, of_flags = O_RDONLY\<rparr>"
    using t st(5) by (simp add: touches_fd_get fd_file_Some)
  have cl: "sys_close fd s2 = (0, s2\<lparr>fds := (fds s2)[nat fd := None]\<rparr>)"
    using g e2 by (simp add: sys_close_def)
  have gone: "fd_get (s2\<lparr>fds := (fds s2)[nat fd := None]\<rparr>) fd = None"
    using g by (auto simp: fd_get_def split: if_splits)
  from fdt.remove_ok [OF st(6), of fd] assms(11) obtain mp where
    rm: "remove_dzfd (shm M) fd (w_fdm w1) = Some (0, mp)"
    "\<forall>fd'. find_dzfd (shm M) fd' mp = (if fd' = fd then 0 else find_dzfd (shm M) fd' (w_fdm w1))"
    by (auto simp: fdm_remove_def fdm_find_def)
  have "dzfile_close M fd w1 = Some (0, w1\<lparr>w_os := s2\<lparr>fds := (fds s2)[nat fd := None]\<rparr>,
      w_h5 := h2, w_fdm := mp, w_heap := (w_heap w1)(w_next w := None)\<rparr>)"
    using st(1,2) assms(3) c rm(1) cl
    by (simp add: dzfile_close_def Let_def on_st_def hdf5_close_def on_os_def)
  then show ?thesis using gone rm(2) by simp
qed

section \<open>Accounting of writes\<close>

text \<open>
  A database that works: the statements \<^verbatim>\<open>update space set writtenbytes = writtenbytes + n;\<close> succeed from
  this state on. Nothing is said of any other statement or state.
\<close>

coinductive counting :: "'d sqlite_lib \<Rightarrow> 'd \<Rightarrow> bool" for Q where
  go_on: "\<forall>n. 0 \<le> n \<longrightarrow> n < 2 ^ 63 \<longrightarrow>
      (\<exists>d'. sql_exec Q (update_stmt ''writtenbytes'' CHR ''+'' n) d = (SQLITE_OK, d') \<and> counting Q d') \<Longrightarrow>
    counting Q d"

inductive_cases countingE: "counting Q d"

text \<open>A file open for writing in a process whose database works.\<close>

definition write_ready ::
    "('h, 'm, 'd, 'q) libs \<Rightarrow> ('d \<Rightarrow> dbview) \<Rightarrow> int \<Rightarrow> ('h, 'm, 'd, 'q) world \<Rightarrow> bool" where
  "write_ready M view fd w \<longleftrightarrow>
     sqlite_contract (sql M) view \<and> counting (sql M) (w_db w) \<and> db_ready w \<and> env (w_os w) = [] \<and>
     (\<exists>f n. fd_file (w_os w) fd = Some (f, n) \<and> writable (of_flags f))"

lemma sys_write_ready:
  assumes "env s = []" "fd_file s fd = Some (f, n)" "writable (of_flags f)"
  shows "\<exists>s'. sys_write fd buf s = (int (length buf), s') \<and> env s' = [] \<and>
    (\<exists>f' n'. fd_file s' fd = Some (f', n') \<and> writable (of_flags f'))"
proof -
  define off where "off = (if and (of_flags f) O_APPEND \<noteq> 0 then length (i_data n) else of_off f)"
  let ?t = "set_data (of_ino f) n (splice (i_data n) off buf) s"
  let ?s = "fd_seek fd f (off + length buf) ?t"
  have w: "sys_write fd buf s = (int (length buf), ?s)"
    using assms by (simp add: sys_write_def Let_def off_def)
  have "fds ?t = fds s" by (simp add: set_data_def)
  then have "fd_get ?t = fd_get s" by (rule fd_get_cong)
  then have "fd_get ?t fd = Some f" using assms(2) by (simp add: fd_file_Some)
  then have "fd_get ?s fd = Some (f\<lparr>of_off := off + length buf\<rparr>)" by (simp add: fd_get_seek)
  moreover have "inodes ?s (of_ino f) \<noteq> None" by (simp add: set_data_def)
  ultimately have "\<exists>f' n'. fd_file ?s fd = Some (f', n') \<and> writable (of_flags f')"
    using assms(3) by (auto simp: fd_file_Some)
  moreover have "env ?s = []" using assms(1) by (simp add: set_data_def)
  ultimately show ?thesis using w by blast
qed

lemma add_writtenbytes_ready:
  assumes "write_ready M view fd w" "0 \<le> k" "k < 2 ^ 63"
    and "fits_int64 (v_written (view (w_db w)) + k)"
  shows "\<exists>d. add_writtenbytes M k w = Some (0, w\<lparr>w_db := d\<rparr>) \<and> counting (sql M) d \<and>
    view d = (view (w_db w))\<lparr>v_written := v_written (view (w_db w)) + k\<rparr>"
proof -
  have C: "sqlite_contract (sql M) view" and r: "db_ready w" and g: "counting (sql M) (w_db w)"
    using assms(1) by (simp_all add: write_ready_def)
  from g assms(2,3) obtain d where
    e: "sql_exec (sql M) (update_stmt ''writtenbytes'' CHR ''+'' k) (w_db w) = (0, d)" "counting (sql M) d"
    by (auto elim: countingE)
  then have "space_update M ''writtenbytes'' k ADD_NUM w = Some (0, w\<lparr>w_db := d\<rparr>)"
    using space_update_exec [OF r, of "''writtenbytes''" k M ADD_NUM 0 d] assms(2,3) by simp
  then show ?thesis
    using sqlite_updateD(1) [OF C assms(2,3) _ _ e(1), of k] assms(4) e(2)
    by (auto simp: add_writtenbytes_def)
qed

lemma write_ready_upd:
  assumes "write_ready M view fd w" "sys_write fd buf (w_os w) = (r, s)" "counting (sql M) d"
  shows "r = int (length buf) \<and> write_ready M view fd (w\<lparr>w_os := s, w_db := d\<rparr>)"
proof -
  from assms(1) obtain f n where "env (w_os w) = []" "fd_file (w_os w) fd = Some (f, n)"
    "writable (of_flags f)" by (auto simp: write_ready_def)
  from sys_write_ready [OF this, of buf] assms show ?thesis
    by (auto simp: write_ready_def db_ready_def)
qed

lemma write_ready_counting: "write_ready M view fd w \<Longrightarrow> counting (sql M) (w_db w)"
  by (simp add: write_ready_def)

lemma dzfile_write_ready:
  assumes R: "write_ready M view fd w" and b: "buf \<noteq> []"
    and r: "0 \<le> v_written (view (w_db w))" "v_written (view (w_db w)) + int (length buf) < 2 ^ 63"
  shows "\<exists>w'. dzfile_write M fd buf w = Some (int (length buf), w') \<and> write_ready M view fd w' \<and>
    view (w_db w') = (view (w_db w))\<lparr>v_written := v_written (view (w_db w)) + int (length buf)\<rparr>"
proof -
  obtain k s where sw: "sys_write fd buf (w_os w) = (k, s)" by fastforce
  note k = write_ready_upd [OF R sw]
  have R1: "write_ready M view fd (w\<lparr>w_os := s\<rparr>)" using k [OF write_ready_counting [OF R]] by simp
  have "int (length buf) < 2 ^ 63" using r by linarith
  moreover have "fits_int64 (v_written (view (w_db (w\<lparr>w_os := s\<rparr>))) + int (length buf))"
    using r by (simp add: fits_int64_def)
  ultimately obtain d where d: "add_writtenbytes M (int (length buf)) (w\<lparr>w_os := s\<rparr>) =
      Some (0, w\<lparr>w_os := s, w_db := d\<rparr>)" "counting (sql M) d"
    "view d = (view (w_db w))\<lparr>v_written := v_written (view (w_db w)) + int (length buf)\<rparr>"
    using add_writtenbytes_ready [OF R1, of "int (length buf)"] by auto
  have "on_os (sys_write fd buf) w = (int (length buf), w\<lparr>w_os := s\<rparr>)"
    using sw k [OF d(2)] by (simp add: on_os_def)
  then have "dzfile_write M fd buf w = Some (int (length buf), w\<lparr>w_os := s, w_db := d\<rparr>)"
    using d(1) b by (simp add: dzfile_write_def count_written_def)
  then show ?thesis using d(3) k [OF d(2)] by simp
qed

lemma writev_loop_ready:
  assumes "write_ready M view fd w" "[] \<notin> set iov" "0 \<le> v_written (view (w_db w))"
    and "v_written (view (w_db w)) + int (length (concat iov)) < 2 ^ 63"
  shows "\<exists>w'. writev_loop M fd iov c w = Some (c + int (length (concat iov)), w') \<and>
    write_ready M view fd w' \<and>
    view (w_db w') = (view (w_db w))\<lparr>v_written := v_written (view (w_db w)) + int (length (concat iov))\<rparr>"
  using assms
proof (induction iov arbitrary: c w)
  case Nil
  then show ?case by simp
next
  case (Cons buf iov)
  from Cons.prems have b: "buf \<noteq> []" "[] \<notin> set iov" by auto
  from dzfile_write_ready [OF Cons.prems(1) b(1) Cons.prems(3)] Cons.prems(4) obtain w1 where
    w1: "dzfile_write M fd buf w = Some (int (length buf), w1)" "write_ready M view fd w1"
    "view (w_db w1) = (view (w_db w))\<lparr>v_written := v_written (view (w_db w)) + int (length buf)\<rparr>"
    by auto
  from Cons.IH [OF w1(2) b(2), of "c + int (length buf)"] w1(3) Cons.prems(3,4) obtain w' where
    "writev_loop M fd iov (c + int (length buf)) w1 =
       Some (c + int (length buf) + int (length (concat iov)), w')" "write_ready M view fd w'"
    "view (w_db w') = (view (w_db w1))\<lparr>v_written := v_written (view (w_db w1)) + int (length (concat iov))\<rparr>"
    by auto
  with w1 b(1) show ?case by (intro exI [of _ w']) (simp add: add.assoc)
qed

text \<open>C22. \<open>dzfile_write\<close> adds to the counter of written bytes exactly the bytes that it has written;
  \<open>dzfile_writev\<close> writes all of its buffers and adds their bytes twice, once in the calls of
  \<open>dzfile_write\<close> and once at its end. No system call fails, the database executes the updates of this
  counter from the present state on (\<open>counting\<close>), and the counter stays below \<open>2 ^ 63\<close>.\<close>

theorem write_accounting:
  assumes "write_ready M view fd w" "buf \<noteq> []" "iov \<noteq> []" "[] \<notin> set iov"
    and "0 \<le> v_written (view (w_db w))" "v_written (view (w_db w)) + int (length buf) < 2 ^ 63"
    and "v_written (view (w_db w)) + 2 * int (length (concat iov)) < 2 ^ 63"
  shows "\<exists>w1 w2. dzfile_write M fd buf w = Some (int (length buf), w1) \<and>
    v_written (view (w_db w1)) = v_written (view (w_db w)) + int (length buf) \<and>
    dzfile_writev M fd iov w = Some (int (length (concat iov)), w2) \<and>
    v_written (view (w_db w2)) = v_written (view (w_db w)) + 2 * int (length (concat iov))"
proof -
  let ?n = "int (length (concat iov))"
  from dzfile_write_ready [OF assms(1,2,5,6)] obtain w1 where
    w1: "dzfile_write M fd buf w = Some (int (length buf), w1)"
    "view (w_db w1) = (view (w_db w))\<lparr>v_written := v_written (view (w_db w)) + int (length buf)\<rparr>"
    by blast
  have "v_written (view (w_db w)) + ?n < 2 ^ 63" using assms(5,7) by linarith
  from writev_loop_ready [OF assms(1,4,5) this, of 0] obtain w3 where
    w3: "writev_loop M fd iov 0 w = Some (?n, w3)" "write_ready M view fd w3"
    "view (w_db w3) = (view (w_db w))\<lparr>v_written := v_written (view (w_db w)) + ?n\<rparr>" by auto
  obtain a l where "iov = a # l" "a \<noteq> []" using assms(3,4) by (cases iov) auto
  then have "0 < length (concat iov)" by simp
  then have pos: "0 < ?n" by linarith
  have "\<exists>d. add_writtenbytes M ?n w3 = Some (0, w3\<lparr>w_db := d\<rparr>) \<and> counting (sql M) d \<and>
      view d = (view (w_db w3))\<lparr>v_written := v_written (view (w_db w3)) + ?n\<rparr>"
    by (rule add_writtenbytes_ready [OF w3(2)]) (use w3(3) assms(5,7) in \<open>simp_all add: fits_int64_def\<close>)
  then obtain d where "add_writtenbytes M ?n w3 = Some (0, w3\<lparr>w_db := d\<rparr>)"
    "v_written (view d) = v_written (view (w_db w)) + 2 * ?n" using w3(3) by auto
  with w3(1) pos have "dzfile_writev M fd iov w = Some (?n, w3\<lparr>w_db := d\<rparr>)"
    "v_written (view (w_db (w3\<lparr>w_db := d\<rparr>))) = v_written (view (w_db w)) + 2 * ?n"
    by (simp_all add: dzfile_writev_def count_written_def)
  with w1 show ?thesis by auto
qed

section \<open>Removing\<close>

text \<open>C29. \<open>dzfile_unlink\<close> of a file that has no hidden file and that it can remove, in a system without failing calls,
  removes the file, asks for the size of the name that is gone, and returns -1; the counter of written bytes and
  the table of files keep counting the file.\<close>

theorem unlink_reports_failure:
  assumes "public_path p" "env (w_os w) = []" "w_priv w = Some pr"
    and "node_at (w_os w) (comps (hidden_name p)) = None"
    and "missing_errno (w_os w) (comps (hidden_name p)) = ENOENT"
    and "node_at (w_os w) (comps p) = Some (i, n)" "\<not> i_dir n"
  shows "\<exists>w'. dzfile_unlink M p w = Some (-1, w') \<and> node_at (w_os w') (comps p) = None \<and>
    w_db w' = w_db w"
proof -
  let ?s = "(w_os w)\<lparr>errno := ENOENT\<rparr>"
  let ?s2 = "?s\<lparr>names := AList.delete (comps p) (names (w_os w))\<rparr>"
  obtain rc q where z: "zmq_send (zmq M) p (w_mq w) = (rc, q)" by fastforce
  have f: "findhiddenFile p (w_os w) = Some (0, ?s)"
    using assms(1,2,4,5) by (simp add: findhiddenFile_normal public_path_def Let_def)
  have u: "sys_unlink p ?s = (0, ?s2)"
    using assms(2,6,7) by (simp add: sys_unlink_def)
  have gone: "node_at ?s2 (comps p) = None" by (simp add: node_at_def delete_conv')
  have st: "sys_stat p ?s2 = (None, ?s2\<lparr>errno := missing_errno ?s2 (comps p)\<rparr>)"
    using assms(2) gone by (simp add: sys_stat_def fail_with_def)
  have "dzfile_unlink M p w =
      Some (-1, w\<lparr>w_mq := q, w_os := ?s2\<lparr>errno := missing_errno ?s2 (comps p)\<rparr>\<rparr>)"
    using assms(1,3) z f u st
    by (simp add: dzfile_unlink_def match_sysdir_public dz_notifymq_def unlink_source_def on_os_def Let_def)
  moreover have "node_at (?s2\<lparr>errno := e\<rparr>) (comps p) = None" for e
    using gone by (simp add: node_at_def delete_conv')
  ultimately show ?thesis by auto
qed

section \<open>Listing\<close>

definition hidden_entry :: "string \<Rightarrow> bool" where
  "hidden_entry n \<longleftrightarrow> \<not> reads_before_start n \<and> is_hidden_base (after_slash n)"

fun readdir_all :: "nat \<Rightarrow> string list \<Rightarrow> string list option" where
  \<comment> \<open>a program that reads a directory to its end\<close>
  "readdir_all 0 dirp = None"
| "readdir_all (Suc fuel) dirp = (case dzfile_readdir dirp of
      None \<Rightarrow> None
    | Some (None, rest) \<Rightarrow> Some []
    | Some (Some n, rest) \<Rightarrow> map_option (Cons n) (readdir_all fuel rest))"

lemma reads_before_start_dzs: "reads_before_start ''.dzs''"
  by code_simp

lemma dzfile_readdir_dropWhile:
  "dzfile_readdir dirp = (case dropWhile hidden_entry dirp of
      [] \<Rightarrow> Some (None, [])
    | n # r \<Rightarrow> if reads_before_start n then None else Some (Some n, r))"
  using reads_before_start_dzs
  by (induction dirp) (auto simp: match_hiddenfile_eq hidden_entry_def)

lemma readdir_all_visible:
  assumes "length dirp < fuel"
  shows "readdir_all fuel dirp =
    (if \<exists>n\<in>set dirp. n = ''.dzs'' \<or> reads_before_start n then None
     else Some (filter (\<lambda>n. \<not> is_hidden_base (after_slash n)) dirp))"
  using assms
proof (induction fuel arbitrary: dirp)
  case 0
  then show ?case by simp
next
  case (Suc fuel)
  have hid: "\<not> reads_before_start n \<and> is_hidden_base (after_slash n) \<and> n \<noteq> ''.dzs''" if "hidden_entry n" for n
    using that reads_before_start_dzs by (auto simp: hidden_entry_def)
  show ?case
  proof (cases "dropWhile hidden_entry dirp")
    case Nil
    then have "\<forall>n\<in>set dirp. hidden_entry n" by simp
    moreover from Nil have "dzfile_readdir dirp = Some (None, [])"
      by (simp only: dzfile_readdir_dropWhile list.case)
    ultimately show ?thesis using hid by (auto simp: filter_empty_conv)
  next
    case (Cons n r)
    have split: "dirp = takeWhile hidden_entry dirp @ n # r"
      using takeWhile_dropWhile_id [of hidden_entry dirp] Cons by simp
    have n: "\<not> hidden_entry n" using Cons by (simp add: dropWhile_eq_Cons_conv)
    have pre: "\<forall>k\<in>set (takeWhile hidden_entry dirp). hidden_entry k" by (auto dest: set_takeWhileD)
    have "length r < fuel" using Suc.prems by (subst (asm) split) simp
    note IH = Suc.IH [OF this]
    have "(\<exists>k\<in>set dirp. k = ''.dzs'' \<or> reads_before_start k) \<longleftrightarrow>
        reads_before_start n \<or> (\<exists>k\<in>set r. k = ''.dzs'' \<or> reads_before_start k)"
      by (subst split) (use pre hid reads_before_start_dzs in auto)
    moreover have "filter (\<lambda>k. \<not> is_hidden_base (after_slash k)) dirp =
        filter (\<lambda>k. \<not> is_hidden_base (after_slash k)) (n # r)"
      by (subst split) (use pre hid in \<open>simp add: filter_empty_conv\<close>)
    ultimately show ?thesis
      using Cons n IH by (auto simp: dzfile_readdir_dropWhile hidden_entry_def)
  qed
qed

text \<open>C28. A listing through the interface shows exactly the entries that are neither \<^verbatim>\<open>.\<close>, \<^verbatim>\<open>..\<close>,
  hidden files nor temporary files, in their order, unless one of the entries is a short dotted
  name: on such a name \<open>match_hiddenfile\<close> is undefined, and so is the listing. The directory of
  the metadata, \<^verbatim>\<open>.dzs\<close>, which the code means to skip by a check after that call, is such a
  name itself.\<close>

theorem readdir_lists_visible:
  assumes "length dirp < fuel"
  shows "readdir_all fuel dirp =
    (if \<exists>n\<in>set dirp. n = ''.dzs'' \<or> reads_before_start n then None
     else Some (filter (\<lambda>n. \<not> is_hidden_base (after_slash n)) dirp))"
  using assms by (rule readdir_all_visible)

section \<open>Initialisation\<close>

text \<open>\<open>dzfile_init\<close> on a path that is a file and no directory reports success, with neither
  the database nor the message queue open.\<close>

theorem init_on_file_succeeds:
  assumes "env (w_os w) = []" "dz_openlog fuel (Some lf) (w_os w) = Some (lfd, s1)" "0 \<le> lfd"
    and "env s1 = []" "node_at s1 (comps dp) = Some (i, n)" "\<not> i_dir n"
  shows "\<exists>w' p. dzfile_init M fuel pmax (Some dp) (Some lf) w = Some (0, w') \<and> w_priv w' = Some p \<and>
    \<not> db_open p \<and> \<not> mqsocket p \<and> data_path p = None \<and> \<not> db_ready w'"
  using assms
  by (simp add: dzfile_init_def sys_malloc_normal sys_stat_normal Let_def no_priv_def db_ready_def)

section \<open>The properties on a concrete process\<close>

definition demo_conv :: "(h5sim, shm_sim, dbview, string list) world" where
  \<comment> \<open>a process where \<^verbatim>\<open>/f\<close> has been converted\<close>
  "demo_conv = demo_world\<lparr>w_os := fst demo_after, w_h5 := archive_h5 [1, 2, 3]\<rparr>"

definition demo_open :: "(h5sim, shm_sim, dbview, string list) world" where
  \<comment> \<open>the same process after it has opened \<^verbatim>\<open>/f\<close>\<close>
  "demo_open = demo_conv\<lparr>
     w_os := (fst demo_after)\<lparr>fds := [Some \<lparr>of_ino = 0, of_off = 0, of_flags = 0\<rparr>,
                                   Some \<lparr>of_ino = 1, of_off = 0, of_flags = 0\<rparr>]\<rparr>,
     w_h5 := \<lparr>h5_ids = [(2, 2), (1, 2)], h5_sets = \<lambda>i. sim_archive [1, 2, 3]\<rparr>,
     w_fdm := \<lparr>sm_map = [(1, 1)], sm_deleted = Some (-1)\<rparr>,
     w_heap := [1 \<mapsto> \<lparr>d_fd = 1, d_h5fd = 2, d_filename = None\<rparr>], w_next := 2\<rparr>"

lemma demo_public: "public_path ''/f''"
  by code_simp

lemma demo_conv_simps:
  "w_priv demo_conv = w_priv demo_world" "w_next demo_conv = 1" "env (w_os demo_conv) = []"
  "fdm_invar (sim_shm, w_fdm demo_conv)"
  "node_at (w_os demo_conv) (comps (hidden_name ''/f'')) =
     Some (2, \<lparr>i_dir = False, i_perm = 0x1A4, i_data = [], i_mtime = 7\<rparr>)"
  "node_at (w_os demo_conv) (comps ''/f'') =
     Some (1, \<lparr>i_dir = False, i_perm = 0x1A4, i_data = replicate (length [1::8 word, 2, 3]) 0, i_mtime = 7\<rparr>)"
  using sim_shm_contract
  by (simp_all add: demo_conv_def demo_world_def demo_after_def comps_demo node_at_def fdm_invar_def sim_shm_def
    numeral_3_eq_3)

lemma demo_conv_archive:
  "archive_node sim_codec sim_data (w_os demo_conv, w_h5 demo_conv) 2 [1, 2, 3]"
  using sim_archive_fd [of "[1, 2, 3]" "w_os demo_conv"]
  by (auto simp: archive_fd_def archive_h5_def demo_conv_def split: if_splits)

lemma demo_conv_open:
  "dzfile_open sim_libs (Some ''/f'') O_RDONLY 0 demo_conv = Some (1, demo_open)"
proof -
  have "dzfile_open sim_libs (Some ''/f'') O_RDONLY 0 demo_conv =
      open_hidden sim_libs ''/f'' O_RDONLY 0 demo_conv"
    by (rule dzfile_open_converted [OF demo_public demo_conv_simps(3,5)]) simp
  also have "\<dots> = Some (1, demo_open)"
    by (simp add: open_hidden_def demo_conv_def demo_world_def demo_after_def buildHiddenFile_normal on_st_def
        hdf5_open_def sim_eval os_eval comps_demo archive_h5_def on_os_def Let_def demo_open_def
        add_dzfd_def sim_shm_def)
  finally show ?thesis .
qed


lemma converted_file_reads_witness:
  "dzfile_pread sim_libs 1 2 (int 1) demo_open = Some ((2, [2, 3]), demo_open) \<and>
    fst (dzfile_read sim_libs 1 2 demo_open) = (2, [0, 0])"
  using converted_file_reads [where M = sim_libs and w = demo_conv and off = 1 and count = 2
        and hf = sim_files and hdat = sim_data and d = "[1, 2, 3]",
      OF _ _ _ _ demo_public demo_conv_simps(3,5) _ _ _ demo_conv_simps(6) _ _ demo_conv_open]
    demo_conv_archive demo_conv_simps(2,4)
  by (simp add: sim_hdf5_contract sim_codec_zstd)

lemma converted_file_is_read_only_witness:
  "dzfile_open sim_libs (Some ''/f'') O_RDWR 0 demo_conv = Some (-1, set_errno EACCES demo_conv) \<and>
    dzfile_truncate ''/f'' 0 demo_conv = Some (-1, set_errno ENOTSUP demo_conv) \<and>
    dzfile_creat sim_libs ''/f'' 0 demo_conv = Some (17, demo_conv)"
  by (rule converted_file_is_read_only [OF demo_public demo_conv_simps(3) _ demo_conv_simps(5)])
    (simp_all, code_simp+)

definition demo_orphan :: "(h5sim, shm_sim, dbview, string list) world" where
  \<comment> \<open>the source of the hidden file is gone\<close>
  "demo_orphan = demo_conv\<lparr>w_os := (fst demo_after)\<lparr>names := [([], 0), ([''.f.DZF''], 2)]\<rparr>\<rparr>"

lemma open_without_source_undefined_witness:
  "dzfile_open sim_libs (Some ''/f'') O_RDONLY 0 demo_orphan = None"
proof (rule open_without_source_undefined [where w = demo_orphan and M = sim_libs and h5fd = 2, OF _ _ _ demo_public])
  show "hdf5_contract (h5 sim_libs) sim_files sim_data" by (simp add: sim_hdf5_contract)
  show "fdm_invar (shm sim_libs, w_fdm demo_orphan)" using demo_conv_simps(4) by (simp add: demo_orphan_def)
  show "0 < w_next demo_orphan" by (simp add: demo_orphan_def demo_conv_simps)
  show "node_at (w_os demo_orphan) (comps (hidden_name ''/f'')) =
      Some (2, \<lparr>i_dir = False, i_perm = 0x1A4, i_data = [], i_mtime = 7\<rparr>)"
    by (simp add: demo_orphan_def demo_after_def comps_demo node_at_def)
qed (simp_all add: demo_orphan_def demo_conv_def demo_after_def comps_demo node_at_def archive_h5_def sim_eval)

lemma open_close_converted_witness:
  "\<exists>w2. dzfile_close sim_libs 1 demo_open = Some (0, w2) \<and> fd_get (w_os w2) 1 = None \<and>
    find_dzfd sim_shm 1 (w_fdm w2) = 0 \<and> w_heap w2 1 = None \<and>
    (\<forall>fd'. fd' \<noteq> 1 \<longrightarrow> find_dzfd sim_shm fd' (w_fdm w2) = find_dzfd sim_shm fd' (w_fdm demo_open))"
  using open_close_converted [where M = sim_libs and w = demo_conv
        and hf = sim_files and hdat = sim_data and L = sim_codec and d = "[1, 2, 3]",
      OF _ _ _ demo_public demo_conv_simps(3,5) _ _ demo_conv_simps(6) demo_conv_open]
    demo_conv_archive demo_conv_simps(2,4)
  by (simp add: sim_hdf5_contract)

lemma sim_counting: "counting sim_sql d"
proof (rule counting.coinduct [of "\<lambda>_. True"], rule TrueI)
  fix d
  have "fst (sql_exec sim_sql stmt d) = SQLITE_OK" for stmt by (simp add: sim_sql_def sim_exec_def Let_def)
  then have "\<exists>d'. sql_exec sim_sql stmt d = (SQLITE_OK, d')" for stmt by (metis prod.collapse)
  then show "\<exists>da. d = da \<and> (\<forall>n. 0 \<le> n \<longrightarrow> n < 2 ^ 63 \<longrightarrow>
      (\<exists>d'. sql_exec sim_sql (update_stmt ''writtenbytes'' CHR ''+'' n) da = (SQLITE_OK, d') \<and> (True \<or> counting sim_sql d')))"
    by blast
qed

definition demo_writer :: "(h5sim, shm_sim, dbview, string list) world" where
  \<comment> \<open>\<^verbatim>\<open>/f\<close> is open for writing\<close>
  "demo_writer = demo_world\<lparr>w_os := (demo_os [1, 2, 3])\<lparr>fds := [Some \<lparr>of_ino = 1, of_off = 3, of_flags = O_WRONLY\<rparr>]\<rparr>\<rparr>"

lemma write_accounting_witness:
  "\<exists>w1 w2. dzfile_write sim_libs 0 [4, 5] demo_writer = Some (2, w1) \<and> v_written (w_db w1) = 5 \<and>
    dzfile_writev sim_libs 0 [[4], [5, 6]] demo_writer = Some (3, w2) \<and> v_written (w_db w2) = 9"
proof -
  have "write_ready sim_libs (\<lambda>v. v) 0 demo_writer"
    by (simp add: write_ready_def sim_sql_contract sim_counting demo_writer_def demo_world_def
        demo_os_def db_ready_def fd_file_def fd_get_def writable_def)
  from write_accounting [OF this, of "[4, 5]" "[[4], [5, 6]]"] show ?thesis
    by (simp add: demo_writer_def demo_world_def)
qed

lemma unlink_reports_failure_witness:
  "\<exists>w'. dzfile_unlink sim_libs ''/f'' demo_world = Some (-1, w') \<and>
    node_at (w_os w') (comps ''/f'') = None \<and> w_db w' = w_db demo_world"
  using unlink_reports_failure [of "''/f''" demo_world "the (w_priv demo_world)" 1 demo_inode sim_libs]
    demo_public
  by (simp add: demo_world_def demo_os_def comps_demo node_at_def missing_errno_def dir_at_def demo_inode_def)

lemma readdir_lists_visible_witness:
  "readdir_all 9 [''.'', ''a.txt'', ''.a.txt.DZF'', ''b''] = Some [''a.txt'', ''b'']"
proof -
  let ?d = "[''.'', ''a.txt'', ''.a.txt.DZF'', ''b'']"
  have "\<not> (\<exists>n\<in>set ?d. n = ''.dzs'' \<or> reads_before_start n)" by code_simp
  moreover have "filter (\<lambda>n. \<not> is_hidden_base (after_slash n)) ?d = [''a.txt'', ''b'']" by code_simp
  moreover have "readdir_all 9 ?d = (if \<exists>n\<in>set ?d. n = ''.dzs'' \<or> reads_before_start n then None
      else Some (filter (\<lambda>n. \<not> is_hidden_base (after_slash n)) ?d))"
    by (rule readdir_lists_visible) simp
  ultimately show ?thesis by presburger
qed

lemma init_on_file_succeeds_witness:
  "\<exists>w' p. dzfile_init sim_libs 3 255 (Some ''/f'') (Some ''/log'') demo_world = Some (0, w') \<and>
    w_priv w' = Some p \<and> \<not> db_open p \<and> \<not> mqsocket p \<and> data_path p = None \<and> \<not> db_ready w'"
proof -
  have l: "comps ''/log'' = [''log'']" by code_simp
  have "\<exists>s1. dz_openlog 3 (Some ''/log'') (w_os demo_world) = Some (1, s1) \<and>
      env s1 = [] \<and> node_at s1 (comps ''/f'') = Some (1, demo_inode)"
    by (simp add: dz_openlog_def demo_world_def demo_os_def demo_inode_def os_eval l comps_demo)
  then obtain s1 where o: "dz_openlog 3 (Some ''/log'') (w_os demo_world) = Some (1, s1)" "0 \<le> (1 :: int)"
      "env s1 = []" "node_at s1 (comps ''/f'') = Some (1, demo_inode)" by auto
  show ?thesis
    by (rule init_on_file_succeeds [OF _ o]) (simp_all add: demo_world_def demo_os_def demo_inode_def)
qed

end
