(* ===== verification/Getopt.thy ===== *)
theory Getopt
  imports CStrings
begin

text \<open>
  What the command line tools use of \<^verbatim>\<open>getopt_long\<close> of the C library, and the switches of their
  \<^verbatim>\<open>main\<close> functions over its results. The library takes options in any position and moves the
  other arguments behind them; \<^verbatim>\<open>--\<close> ends the options; a long option may be abbreviated.
\<close>

datatype optev =
    Opt char "string option"   \<comment> \<open>a short option with its \<^verbatim>\<open>optarg\<close>\<close>
  | Flag string                \<comment> \<open>a long option, which sets its flag\<close>
  | Bad                        \<comment> \<open>the result \<^verbatim>\<open>'?'\<close>\<close>

definition takes_argument :: "string \<Rightarrow> char \<Rightarrow> bool option" where
  \<comment> \<open>\<open>None\<close> for a character that is no option; the first occurrence decides\<close>
  "takes_argument optstring c =
     (if c = CHR '':'' \<or> c = CHR '';'' then None
      else case dropWhile (\<lambda>x. x \<noteq> c) optstring of
          [] \<Rightarrow> None
        | _ # r \<Rightarrow> Some (take 1 r = '':''))"

fun short_options :: "string \<Rightarrow> string \<Rightarrow> string list \<Rightarrow> optev list \<times> string list" where
  \<comment> \<open>the options of one argument, and what is left of the arguments behind it\<close>
  "short_options optstring [] args = ([], args)"
| "short_options optstring (c # cs) args =
     (case takes_argument optstring c of
        None \<Rightarrow> (case short_options optstring cs args of (es, r) \<Rightarrow> (Bad # es, r))
      | Some False \<Rightarrow> (case short_options optstring cs args of (es, r) \<Rightarrow> (Opt c None # es, r))
      | Some True \<Rightarrow>
          if cs \<noteq> [] then ([Opt c (Some cs)], args)
          else (case args of [] \<Rightarrow> ([Bad], []) | a # r \<Rightarrow> ([Opt c (Some a)], r)))"

definition long_option :: "string list \<Rightarrow> string \<Rightarrow> optev" where
  \<comment> \<open>all long options here are without an argument; a name may be cut as long as it is unique\<close>
  "long_option longopts name =
     (if name \<in> set longopts then Flag name
      else case filter (\<lambda>l. take (length name) l = name) longopts of [l] \<Rightarrow> Flag l | _ \<Rightarrow> Bad)"

lemma short_options_rest: "length (snd (short_options optstring cs args)) \<le> length args"
  by (induction cs) (auto split: option.split bool.split prod.split list.split)

function getopt_long :: "string \<Rightarrow> string list \<Rightarrow> string list \<Rightarrow> optev list \<times> string list" where
  \<comment> \<open>all results in turn, and the arguments from \<^verbatim>\<open>optind\<close> on\<close>
  "getopt_long optstring longopts [] = ([], [])"
| "getopt_long optstring longopts (a # args) =
     (if a = ''--'' then ([], args)
      else if take 2 a = ''--''
      then (case getopt_long optstring longopts args of
              (es, ops) \<Rightarrow> (long_option longopts (drop 2 a) # es, ops))
      else if take 1 a = ''-'' \<and> a \<noteq> ''-''
      then (let p = short_options optstring (tl a) args in
            case getopt_long optstring longopts (snd p) of (es, ops) \<Rightarrow> (fst p @ es, ops))
      else (case getopt_long optstring longopts args of (es, ops) \<Rightarrow> (es, a # ops)))"
  by pat_completeness auto

termination getopt_long
  by (relation "measure (\<lambda>(optstring, longopts, args). length args)")
    (auto simp: less_Suc_eq_le short_options_rest)

section \<open>The switches\<close>

record opts =
  o_help :: bool
  o_verbose :: bool
  o_err :: nat
  o_data :: "string option"
  o_file :: "string option"
  o_conf :: string
  o_l :: bool
  o_i :: bool
  o_m :: bool
  o_bg :: bool
  o_ver :: nat   \<comment> \<open>how often the version has been printed\<close>

definition no_opts :: opts where
  "no_opts = \<lparr>o_help = False, o_verbose = False, o_err = 0, o_data = None, o_file = None, o_conf = [],
     o_l = False, o_i = False, o_m = False, o_bg = False, o_ver = 0\<rparr>"

definition std_longopts :: "string list" where
  "std_longopts = [''help'', ''verbose'']"

definition set_flag :: "string \<Rightarrow> opts \<Rightarrow> opts" where
  "set_flag name r = (if name = ''help'' then r\<lparr>o_help := True\<rparr> else r\<lparr>o_verbose := True\<rparr>)"

text \<open>In all of them the case of \<^verbatim>\<open>d\<close> falls through to that of \<^verbatim>\<open>v\<close>.\<close>

fun put_switch :: "optev \<Rightarrow> opts \<Rightarrow> opts" where
  \<comment> \<open>\<^verbatim>\<open>dzfile-put\<close>, \<^verbatim>\<open>dzfile-get\<close>, \<^verbatim>\<open>dzfile-cat\<close>\<close>
  "put_switch (Flag n) r = set_flag n r"
| "put_switch Bad r = r\<lparr>o_err := Suc (o_err r)\<rparr>"
| "put_switch (Opt c a) r =
     (if c = CHR ''h'' then r\<lparr>o_help := True\<rparr>
      else if c = CHR ''d'' then r\<lparr>o_data := a, o_verbose := True\<rparr>
      else if c = CHR ''v'' then r\<lparr>o_verbose := True\<rparr>
      else r)"

fun ls_switch :: "optev \<Rightarrow> opts \<Rightarrow> opts" where
  "ls_switch (Opt c a) r =
     (if c = CHR ''l'' then r\<lparr>o_l := True\<rparr>
      else if c = CHR ''i'' then r\<lparr>o_i := True\<rparr>
      else if c = CHR ''m'' then r\<lparr>o_m := True\<rparr>
      else put_switch (Opt c a) r)"
| "ls_switch e r = put_switch e r"

fun info_switch :: "optev \<Rightarrow> opts \<Rightarrow> opts" where
  "info_switch (Opt c a) r =
     (if c = CHR ''l'' then r\<lparr>o_l := True\<rparr>
      else if c = CHR ''i'' then r\<lparr>o_i := True\<rparr>
      else put_switch (Opt c a) r)"
| "info_switch e r = put_switch e r"

fun convert_switch :: "optev \<Rightarrow> opts \<Rightarrow> opts" where
  "convert_switch (Opt c a) r =
     (if c = CHR ''f'' then r\<lparr>o_file := a\<rparr> else put_switch (Opt c a) r)"
| "convert_switch e r = put_switch e r"

fun version_switch :: "optev \<Rightarrow> opts \<Rightarrow> opts" where
  \<comment> \<open>\<^verbatim>\<open>dzfile\<close>\<close>
  "version_switch (Opt c a) r =
     (if c = CHR ''V'' then r\<lparr>o_ver := Suc (o_ver r)\<rparr> else put_switch (Opt c a) r)"
| "version_switch e r = put_switch e r"

fun walker_switch :: "optev \<Rightarrow> opts \<Rightarrow> opts" where
  "walker_switch (Flag n) r = set_flag n r"
| "walker_switch Bad r = r\<lparr>o_err := Suc (o_err r)\<rparr>"
| "walker_switch (Opt c a) r =
     (if c = CHR ''h'' then r\<lparr>o_help := True\<rparr>
      else if c = CHR ''v'' then r\<lparr>o_verbose := True\<rparr>
      else if c = CHR ''c'' then r\<lparr>o_conf := (case a of None \<Rightarrow> [] | Some x \<Rightarrow> x)\<rparr>
      else if c = CHR ''d'' then r\<lparr>o_bg := True\<rparr>
      else r)"

definition parse_options ::
    "(optev \<Rightarrow> opts \<Rightarrow> opts) \<Rightarrow> string \<Rightarrow> string list \<Rightarrow> opts \<times> string list" where
  \<comment> \<open>the loop over \<^verbatim>\<open>getopt_long\<close>, on the arguments after the name of the program\<close>
  "parse_options switch optstring args =
     (case getopt_long optstring std_longopts args of (es, ops) \<Rightarrow> (fold switch es no_opts, ops))"

section \<open>What the options mean\<close>

lemma getopt_operand:
  "take 1 a \<noteq> ''-'' \<or> a = ''-'' \<Longrightarrow> getopt_long o1 ls (a # args) =
    (case getopt_long o1 ls args of (es, ops) \<Rightarrow> (es, a # ops))"
  by (cases a) (auto split: prod.split)

lemma getopt_operands:
  "\<forall>a\<in>set args. take 1 a \<noteq> ''-'' \<Longrightarrow> getopt_long o1 ls args = ([], args)"
  by (induction args) (simp_all add: getopt_operand del: getopt_long.simps(2))

lemma getopt_end: "getopt_long o1 ls (''--'' # args) = ([], args)"
  by simp

text \<open>The options may stand before, between and behind the operands: wherever \<^verbatim>\<open>-d dir\<close> stands
  among them, it is found, the operands keep their order, and \<^verbatim>\<open>-d\<close> also turns on \<^verbatim>\<open>verbose\<close>.
  Without its argument it is an error.\<close>

theorem tool_options:
  assumes "\<forall>a\<in>set (xs @ ys). take 1 a \<noteq> ''-''"
  shows "parse_options put_switch ''hd:v'' (xs @ ''-d'' # dir # ys) =
      (no_opts\<lparr>o_data := Some dir, o_verbose := True\<rparr>, xs @ ys) \<and>
    parse_options put_switch ''hd:v'' (xs @ [''-d'']) = (no_opts\<lparr>o_err := 1\<rparr>, xs)"
proof -
  have d: "getopt_long ''hd:v'' std_longopts (''-d'' # dir # ys) = ([Opt CHR ''d'' (Some dir)], ys)"
    using assms getopt_operands [of ys "''hd:v''" std_longopts] by (simp add: takes_argument_def)
  have e: "getopt_long ''hd:v'' std_longopts [''-d''] = ([Bad], [])" by (simp add: takes_argument_def)
  have p: "getopt_long o1 ls (zs @ r) = (fst (getopt_long o1 ls r), zs @ snd (getopt_long o1 ls r))"
    if "\<forall>a\<in>set zs. take 1 a \<noteq> ''-''" for o1 ls zs r
    using that
    by (induction zs) (simp_all add: getopt_operand split: prod.split del: getopt_long.simps(2))
  show ?thesis
    using assms p [of xs "''hd:v''" std_longopts] d e
    by (simp add: parse_options_def no_opts_def)
qed

lemma tool_options_witness:
  "parse_options put_switch ''hd:v'' [''a'', ''-d'', ''/data'', ''b''] =
      (no_opts\<lparr>o_data := Some ''/data'', o_verbose := True\<rparr>, [''a'', ''b'']) \<and>
    parse_options put_switch ''hd:v'' [''a'', ''-d''] = (no_opts\<lparr>o_err := 1\<rparr>, [''a''])"
  using tool_options [of "[''a'']" "[''b'']" "''/data''"] tool_options [of "[''a'']" "[]" "''/data''"] by simp

end
