(* ===== verification/CopyTools.thy ===== *)
theory CopyTools
  imports Api Getopt
begin

text \<open>
  The tools that copy files into and out of the data directory: \<^verbatim>\<open>src/dzfile-put.c\<close>,
  \<^verbatim>\<open>src/dzfile-get.c\<close>, \<^verbatim>\<open>src/dzfile-cat.c\<close> and \<^verbatim>\<open>src/dzfile-convert.c\<close>; and \<^verbatim>\<open>dzfile_lk\<close> of
  \<^verbatim>\<open>src/dzfile-api.c\<close>, which only \<^verbatim>\<open>dzfile-put\<close> uses. The arguments are those after the name of the
  program. What is printed is left out but for the contents that \<^verbatim>\<open>dzfile-cat\<close> shows, as are the thread that
  prints the progress and the clock.
\<close>

abbreviation (input) BUFLEN :: nat where
  "BUFLEN \<equiv> 524288"

definition default_data :: string where
  "default_data = ''/home/chyd/dzfile''"

definition data_file :: "string \<Rightarrow> string \<Rightarrow> string" where
  \<comment> \<open>\<^verbatim>\<open>sprintf(file, "%s/%s", data, name)\<close>\<close>
  "data_file data name = data @ SLASH # name"

definition data_dir_of :: "opts \<Rightarrow> string" where
  "data_dir_of r = (case o_data r of None \<Rightarrow> default_data | Some d \<Rightarrow> d)"

section \<open>Record locks\<close>

record flock =
  l_type :: int
  l_start :: int
  l_len :: int

abbreviation (input) "F_WRLCK \<equiv> (1 :: int)"
abbreviation (input) "F_UNLCK \<equiv> (2 :: int)"
abbreviation (input) "F_GETLK \<equiv> (5 :: int)"
abbreviation (input) "F_SETLK \<equiv> (6 :: int)"
abbreviation (input) "EAGAIN \<equiv> (11 :: int)"

definition lock_conflict :: "flock \<Rightarrow> flock \<Rightarrow> bool" where
  \<comment> \<open>two locks of different processes, one of them for writing, on ranges that meet\<close>
  "lock_conflict a b \<longleftrightarrow> (l_type a = F_WRLCK \<or> l_type b = F_WRLCK) \<and>
     l_start a < l_start b + l_len b \<and> l_start b < l_start a + l_len a"

text \<open>
  \<^verbatim>\<open>fcntl\<close> on locks that start at a given offset. \<open>others\<close> are the locks that other processes hold
  on the file at the time; those of the process itself never stand in its way.
\<close>

definition dzfile_lk :: "int \<Rightarrow> int \<Rightarrow> flock \<Rightarrow> flock list \<Rightarrow> os \<Rightarrow> (int \<times> flock) \<times> os" where
  "dzfile_lk fd cmd lock others = attempt (-1, lock) (\<lambda>s.
     case fd_file s fd of
       None \<Rightarrow> fail_with EBADF (-1, lock) s
     | Some (f, n) \<Rightarrow>
         if cmd = F_GETLK
         then (case filter (lock_conflict lock) others of
                 [] \<Rightarrow> ((0, lock\<lparr>l_type := F_UNLCK\<rparr>), s)
               | b # _ \<Rightarrow> ((0, b), s))
         else if \<not> writable (of_flags f) then fail_with EBADF (-1, lock) s
         else if filter (lock_conflict lock) others = [] then ((0, lock), s)
         else fail_with EAGAIN (-1, lock) s)"

text \<open>
  \<open>dzfile_lockw\<close>. \<open>obs\<close> gives the locks of the others at each call of \<^verbatim>\<open>fcntl\<close>; where it has run
  out there are none. Each turn of the waiting loop takes a unit of fuel.
\<close>

definition now_held :: "flock list list \<Rightarrow> flock list" where
  "now_held obs = (case obs of [] \<Rightarrow> [] | x # r \<Rightarrow> x)"

definition write_lock :: "int \<Rightarrow> flock" where
  "write_lock offset = \<lparr>l_type = F_WRLCK, l_start = offset, l_len = int BUFLEN\<rparr>"

fun dzfile_lockw :: "nat \<Rightarrow> int \<Rightarrow> int \<Rightarrow> flock list list \<Rightarrow> os \<Rightarrow> (int \<times> flock list list \<times> os) option" where
  "dzfile_lockw 0 fd offset obs s = None"
| "dzfile_lockw (Suc fuel) fd offset obs s =
     (case dzfile_lk fd F_GETLK (write_lock offset) (now_held obs) s of
        ((ret, lock), s1) \<Rightarrow>
          if ret < 0 then Some (-1, tl obs, s1)
          else if l_type lock = F_UNLCK
          then (case dzfile_lk fd F_SETLK (write_lock offset) (now_held (tl obs)) s1 of
                  ((ret, lock), s2) \<Rightarrow>
                    Some (if ret < 0 then -1 else if l_type lock = F_WRLCK then 0 else -1, tl (tl obs), s2))
          else dzfile_lockw fuel fd offset (tl obs) s1)"

section \<open>\<^verbatim>\<open>dzfile-put\<close>\<close>

text \<open>The loop that copies. Its result is \<^verbatim>\<open>total_bytes\<close>; all ways out of it go to the label \<^verbatim>\<open>out\<close>.\<close>

fun put_loop ::
    "('h, 'm, 'd, 'q) libs \<Rightarrow> nat \<Rightarrow> int \<Rightarrow> int \<Rightarrow> int \<Rightarrow> flock list list \<Rightarrow> ('h, 'm, 'd, 'q) world
      \<Rightarrow> (int \<times> ('h, 'm, 'd, 'q) world) option" where
  "put_loop M 0 fd dstfd tot obs w = None"
| "put_loop M (Suc fuel) fd dstfd tot obs w =
     (case on_os (sys_read fd BUFLEN) w of
        ((nbread, buf), w1) \<Rightarrow>
          if nbread \<le> 0 then Some (tot, w1)
          else (case dzfile_lockw fuel dstfd tot obs (w_os w1) of
              None \<Rightarrow> None
            | Some (ret, obs', s2) \<Rightarrow>
                if ret < 0 then Some (tot, w1\<lparr>w_os := s2\<rparr>)
                else (case dzfile_write M dstfd buf (w1\<lparr>w_os := s2\<rparr>) of
                    None \<Rightarrow> None
                  | Some (ret, w3) \<Rightarrow>
                      if ret < 0 then Some (tot, w3)
                      else put_loop M fuel fd dstfd (tot + nbread) obs' w3)))"

definition put_out ::
    "('h, 'm, 'd, 'q) libs \<Rightarrow> int \<Rightarrow> int \<Rightarrow> ('h, 'm, 'd, 'q) world
      \<Rightarrow> (int \<times> ('h, 'm, 'd, 'q) world) option" where
  \<comment> \<open>the label \<^verbatim>\<open>out\<close>: it returns 0, whatever has happened\<close>
  "put_out M fd dstfd w = do {
     (r, w1) \<leftarrow> (if 0 < dstfd then dzfile_close M dstfd w else Some (0, w));
     Some (0, if 0 < fd then snd (on_os (sys_close fd) w1) else w1) }"

definition dzfile_put ::
    "('h, 'm, 'd, 'q) libs \<Rightarrow> nat \<Rightarrow> int \<Rightarrow> string \<Rightarrow> string \<Rightarrow> string \<Rightarrow> flock list list
      \<Rightarrow> ('h, 'm, 'd, 'q) world \<Rightarrow> (int \<times> ('h, 'm, 'd, 'q) world) option" where
  "dzfile_put M fuel pmax data src_file dst_file obs w =
     (case on_os (sys_open src_file O_RDONLY 0x1A4) w of
        (fd, w1) \<Rightarrow>
          if fd \<le> 0 then Some (-1, w1)
          else do {
            (ret, w2) \<leftarrow> dzfile_init M fuel pmax (Some data) None w1;
            if ret < 0 then Some (-1, w2)
            else do {
              let w3 = snd (on_os (sys_fstat fd) w2);
              (dstfd, w4) \<leftarrow> dzfile_open M (Some dst_file) (or O_WRONLY O_CREAT) 0x1A4 w3;
              if dstfd < 0 then put_out M fd dstfd w4
              else do {
                (tot, w5) \<leftarrow> put_loop M fuel fd dstfd 0 obs w4;
                put_out M fd dstfd w5 } } })"

definition put_main ::
    "('h, 'm, 'd, 'q) libs \<Rightarrow> nat \<Rightarrow> int \<Rightarrow> string list \<Rightarrow> flock list list \<Rightarrow> ('h, 'm, 'd, 'q) world
      \<Rightarrow> (int \<times> ('h, 'm, 'd, 'q) world) option" where
  "put_main M fuel pmax args obs w =
     (case parse_options put_switch ''hd:v'' args of
        (r, operands) \<Rightarrow>
          if length operands < 2 \<or> 0 < o_err r \<or> o_help r then Some (-1, w)
          else (case on_os sys_malloc w of
              (False, w1) \<Rightarrow> Some (-1, w1)
            | (True, w1) \<Rightarrow> do {
                let dst_file = data_file (data_dir_of r) (operands ! 1);
                (ret, w2) \<leftarrow> dzfile_put M fuel pmax (data_dir_of r) (operands ! 0) dst_file obs w1;
                let rw = (if ret < 0 then (ret, w2)
                          else (case on_os (sys_stat (operands ! 0)) w2 of
                                  (st, w3) \<Rightarrow> (case dzfile_stat dst_file w3 of
                                                 (st2, w4) \<Rightarrow> (if st2 = None then -1 else 0, w4))));
                (r5, w5) \<leftarrow> dzfile_fini M (snd rw);
                Some (fst rw, w5) }))"

section \<open>\<^verbatim>\<open>dzfile-get\<close>\<close>

fun get_loop ::
    "('h, 'm, 'd, 'q) libs \<Rightarrow> nat \<Rightarrow> int \<Rightarrow> int \<Rightarrow> int \<Rightarrow> ('h, 'm, 'd, 'q) world
      \<Rightarrow> (int \<times> ('h, 'm, 'd, 'q) world) option" where
  "get_loop M 0 fd dstfd tot w = None"
| "get_loop M (Suc fuel) fd dstfd tot w =
     (case dzfile_pread M fd BUFLEN tot w of
        None \<Rightarrow> None
      | Some ((nbread, buf), w1) \<Rightarrow>
          if nbread \<le> 0 then Some (tot, w1)
          else (case on_os (sys_pwrite dstfd buf tot) w1 of
              (nbwrite, w2) \<Rightarrow>
                if nbwrite < 0 then Some (tot, w2)
                else get_loop M fuel fd dstfd (tot + nbread) w2))"

text \<open>The result of \<^verbatim>\<open>open\<close> on the destination is not checked, and the destination is never closed.\<close>

definition dzfile_get ::
    "('h, 'm, 'd, 'q) libs \<Rightarrow> nat \<Rightarrow> int \<Rightarrow> string \<Rightarrow> string \<Rightarrow> string \<Rightarrow> ('h, 'm, 'd, 'q) world
      \<Rightarrow> (int \<times> ('h, 'm, 'd, 'q) world) option" where
  "dzfile_get M fuel pmax data src_file dst_file w = do {
     (ret, w1) \<leftarrow> dzfile_init M fuel pmax (Some data) None w;
     if ret < 0 then Some (-1, w1)
     else do {
       (fd, w2) \<leftarrow> dzfile_open M (Some src_file) O_RDONLY 0 w1;
       if fd \<le> 0 then Some (-1, w2)
       else (case on_os (sys_open dst_file (or O_WRONLY (or O_TRUNC O_CREAT)) 0x1A4) w2 of
           (dstfd, w3) \<Rightarrow> do {
             let w4 = snd (dzfile_fstat fd w3);
             (tot, w5) \<leftarrow> get_loop M fuel fd dstfd 0 w4;
             (r, w6) \<leftarrow> dzfile_close M fd w5;
             Some (0, w6) }) } }"

definition get_main ::
    "('h, 'm, 'd, 'q) libs \<Rightarrow> nat \<Rightarrow> int \<Rightarrow> string list \<Rightarrow> ('h, 'm, 'd, 'q) world
      \<Rightarrow> (int \<times> ('h, 'm, 'd, 'q) world) option" where
  "get_main M fuel pmax args w =
     (case parse_options put_switch ''hd:v'' args of
        (r, operands) \<Rightarrow>
          if length operands < 2 \<or> 0 < o_err r \<or> o_help r then Some (-1, w)
          else (case on_os sys_malloc w of
              (False, w1) \<Rightarrow> Some (-1, w1)
            | (True, w1) \<Rightarrow> do {
                let src_file = data_file (data_dir_of r) (operands ! 0);
                (ret, w2) \<leftarrow> dzfile_get M fuel pmax (data_dir_of r) src_file (operands ! 1) w1;
                if ret < 0 then Some (-1, w2)
                else (case dzfile_stat src_file w2 of
                    (st, w3) \<Rightarrow> do {
                      (r4, w4) \<leftarrow> dzfile_fini M w3;
                      Some (if st = None then -1 else 0, w4) }) }))"

section \<open>\<^verbatim>\<open>dzfile-cat\<close>\<close>

text \<open>
  The buffer is cleared before each read, and printed as a string: up to its first zero byte, and
  beyond its end if it has none.
\<close>

definition print_buffer :: "bytes \<Rightarrow> bytes option" where
  \<comment> \<open>\<^verbatim>\<open>printf("%s", buf)\<close> after \<open>buf\<close> has been read into the cleared buffer\<close>
  "print_buffer buf = do {
     guard_ub (length buf < BUFLEN \<or> 0 \<in> set buf);
     Some (takeWhile (\<lambda>b. b \<noteq> 0) buf) }"

fun cat_loop ::
    "('h, 'm, 'd, 'q) libs \<Rightarrow> nat \<Rightarrow> int \<Rightarrow> bytes \<Rightarrow> ('h, 'm, 'd, 'q) world
      \<Rightarrow> ((bool \<times> bytes) \<times> ('h, 'm, 'd, 'q) world) option" where
  \<comment> \<open>whether the loop has ended by \<^verbatim>\<open>break\<close>, and the output\<close>
  "cat_loop M 0 fd out w = None"
| "cat_loop M (Suc fuel) fd out w =
     (case dzfile_read M fd BUFLEN w of
        ((nbread, buf), w1) \<Rightarrow>
          if nbread < 0 then Some ((False, out), w1)
          else if nbread = 0 then Some ((True, out), w1)
          else do { text \<leftarrow> print_buffer buf; cat_loop M fuel fd (out @ text) w1 })"

definition cat_main ::
    "('h, 'm, 'd, 'q) libs \<Rightarrow> nat \<Rightarrow> int \<Rightarrow> string list \<Rightarrow> ('h, 'm, 'd, 'q) world
      \<Rightarrow> ((int \<times> bytes) \<times> ('h, 'm, 'd, 'q) world) option" where
  "cat_main M fuel pmax args w =
     (case parse_options put_switch ''hd:v'' args of
        (r, operands) \<Rightarrow>
          if operands = [] \<or> 0 < o_err r \<or> o_help r then Some ((-1, []), w)
          else (case on_os sys_malloc w of
              (False, w1) \<Rightarrow> Some ((-1, []), w1)
            | (True, w1) \<Rightarrow> do {
                (ret, w2) \<leftarrow> dzfile_init M fuel pmax (Some (data_dir_of r)) None w1;
                if ret < 0 then Some ((-1, []), w2)
                else do {
                  (fd, w3) \<leftarrow> dzfile_open M (Some (data_file (data_dir_of r) (operands ! 0))) O_RDONLY 0x1A4 w2;
                  if fd \<le> 0 then Some ((-1, []), w3)
                  else (case dzfile_fstat fd w3 of
                      (st, w4) \<Rightarrow> do {
                        ((ended, out), w5) \<leftarrow> cat_loop M fuel fd [] w4;
                        if \<not> ended then Some ((if st = None then -1 else 0, out), w5)
                        else do {
                          (r6, w6) \<leftarrow> dzfile_close M fd w5;
                          (r7, w7) \<leftarrow> dzfile_fini M w6;
                          Some ((r7, out), w7) } }) } }))"

section \<open>\<^verbatim>\<open>dzfile-convert\<close>\<close>

fun reread_loop ::
    "('h, 'm, 'd, 'q) libs \<Rightarrow> nat \<Rightarrow> int \<Rightarrow> int \<Rightarrow> ('h, 'm, 'd, 'q) world
      \<Rightarrow> ('h, 'm, 'd, 'q) world option" where
  "reread_loop M 0 fd offset w = None"
| "reread_loop M (Suc fuel) fd offset w =
     (case dzfile_pread M fd H5_BUFSIZE offset w of
        None \<Rightarrow> None
      | Some ((ret, buf), w1) \<Rightarrow>
          if ret \<le> 0 then Some w1 else reread_loop M fuel fd (offset + ret) w1)"

text \<open>
  The two allocations are taken to succeed: the code does not check them. \<open>junk_src\<close> and \<open>junk_h5\<close>
  are those of \<open>convert2h5\<close>.
\<close>

definition convert_main ::
    "('h, 'm, 'd, 'q) libs \<Rightarrow> int \<Rightarrow> int \<Rightarrow> nat \<Rightarrow> int \<Rightarrow> string list \<Rightarrow> ('h, 'm, 'd, 'q) world
      \<Rightarrow> (int \<times> ('h, 'm, 'd, 'q) world) option" where
  "convert_main M junk_src junk_h5 fuel pmax args w =
     (case parse_options convert_switch ''Vvd:hf:'' args of
        (r, operands) \<Rightarrow>
          (case o_file r of
             None \<Rightarrow> Some (-1, w)
           | Some filename \<Rightarrow>
               if 0 < o_err r \<or> o_help r then Some (-1, w)
               else do {
                 (ret, w1) \<leftarrow> dzfile_init M fuel pmax (Some (data_dir_of r)) None w;
                 if ret < 0 then Some (-1, w1)
                 else do {
                   let path = data_file (data_dir_of r) filename;
                   (ret, st) \<leftarrow> convert2h5 (h5 M) (codec M) junk_src junk_h5 fuel (Some path) DZ_ALG_ZSTD
                                  (w_os w1, w_h5 w1);
                   let w2 = w1\<lparr>w_os := fst st, w_h5 := snd st\<rparr>;
                   if ret < 0 \<and> errno (w_os w2) \<noteq> EEXIST then Some (-1, w2)
                   else do {
                     (fd, w3) \<leftarrow> dzfile_open M (Some path) O_RDONLY 0 w2;
                     w4 \<leftarrow> reread_loop M fuel fd 0 w3;
                     (r5, w5) \<leftarrow> dzfile_close M fd w4;
                     Some (0, w5) } } }))"

section \<open>Failures that are not reported, or crash\<close>

text \<open>\<^verbatim>\<open>dzfile-put\<close> of a file that cannot be opened crashes: it calls \<^verbatim>\<open>dzfile_fini\<close> before the
  library has been initialised.\<close>

theorem put_missing_source_crashes:
  assumes "env (w_os w) = []" "w_priv w = None" "node_at (w_os w) (comps src) = None"
    and "take 1 src \<noteq> ''-''" "take 1 dst \<noteq> ''-''"
  shows "put_main M fuel pmax [src, dst] obs w = None"
proof -
  have o: "parse_options put_switch ''hd:v'' [src, dst] = (no_opts, [src, dst])"
    using assms(4,5) by (simp add: parse_options_def getopt_operands del: getopt_long.simps)
  have "dzfile_put M fuel pmax default_data src (data_file default_data dst) obs w =
      Some (-1, set_errno (missing_errno (w_os w) (comps src)) w)"
    using assms(1,3)
    by (simp add: dzfile_put_def on_os_def sys_open_def fail_with_def set_errno_def)
  then show ?thesis
    using o assms(1,2)
    by (simp add: put_main_def no_opts_def data_dir_of_def on_os_def sys_malloc_def dzfile_fini_def)
qed

lemma put_missing_source_crashes_witness:
  "put_main sim_libs 9 4096 [''/g'', ''g''] [] (demo_world\<lparr>w_priv := None\<rparr>) = None"
proof (rule put_missing_source_crashes)
  have "comps ''/g'' = [''g'']" by code_simp
  then show "node_at (w_os (demo_world\<lparr>w_priv := None\<rparr>)) (comps ''/g'') = None"
    by (simp add: demo_world_def demo_os_def node_at_def)
qed (simp_all add: demo_world_def demo_os_def)

section \<open>Printing\<close>

function pieces :: "bytes \<Rightarrow> bytes list" where
  \<comment> \<open>what is read into the buffer, time by time\<close>
  "pieces d = (if d = [] then [] else take BUFLEN d # pieces (drop BUFLEN d))"
  by pat_completeness auto

termination pieces
  by (relation "measure length") auto

declare pieces.simps [simp del]

fun print_all :: "bytes list \<Rightarrow> bytes option" where
  "print_all [] = Some []"
| "print_all (c # cs) = do { t \<leftarrow> print_buffer c; ts \<leftarrow> print_all cs; Some (t @ ts) }"

lemma sys_read_run:
  assumes "env (w_os w) = []" "fd_file (w_os w) fd = Some (f, n)" "readable (of_flags f)" "\<not> i_dir n"
    and "bs = take k (drop (of_off f) (i_data n))"
  shows "on_os (sys_read fd k) w =
    ((int (length bs), bs), w\<lparr>w_os := fd_seek fd f (of_off f + length bs) (w_os w)\<rparr>)"
  using assms by (simp add: on_os_def sys_read_def Let_def)

lemma fd_file_seek:
  "fd_file s fd = Some (f, n) \<Longrightarrow> fd_file (fd_seek fd g off s) fd =
    (if of_ino g = of_ino f then Some (g\<lparr>of_off := off\<rparr>, n) else fd_file (fd_seek fd g off s) fd)"
  by (simp add: fd_file_Some fd_get_seek)

lemma cat_loop_run:
  assumes "env (w_os w) = []" "fd_file (w_os w) fd = Some (f, n)" "readable (of_flags f)" "\<not> i_dir n"
    and "length (i_data n) - of_off f < fuel"
  shows "map_option fst (cat_loop M fuel fd out w) =
    map_option (\<lambda>t. (True, out @ t)) (print_all (pieces (drop (of_off f) (i_data n))))"
  using assms
proof (induction fuel arbitrary: out w f)
  case 0
  then show ?case by simp
next
  case (Suc fuel)
  let ?d = "drop (of_off f) (i_data n)"
  define bs where "bs = take BUFLEN ?d"
  let ?w = "w\<lparr>w_os := fd_seek fd f (of_off f + length bs) (w_os w)\<rparr>"
  have r: "dzfile_read M fd BUFLEN w = ((int (length bs), bs), ?w)"
    using sys_read_run [OF Suc.prems(1-4) bs_def] by (simp add: dzfile_read_def)
  show ?case
  proof (cases "?d = []")
    case True
    then have "bs = []" by (simp add: bs_def)
    with r True show ?thesis by (simp add: pieces.simps [of "[]"])
  next
    case False
    then have l: "0 < length bs" by (simp add: bs_def)
    have p: "pieces ?d = bs # pieces (drop (of_off f + length bs) (i_data n))"
      using False by (subst pieces.simps) (simp add: bs_def add.commute min_def)
    show ?thesis
    proof (cases "print_buffer bs")
      case None
      with r l p show ?thesis by simp
    next
      case (Some t)
      have "fd_file (w_os ?w) fd = Some (f\<lparr>of_off := of_off f + length bs\<rparr>, n)"
        using Suc.prems(2) by (simp add: fd_file_seek)
      moreover have "length (i_data n) - (of_off f + length bs) < fuel"
      proof -
        have "of_off f < length (i_data n)" using False by simp
        with l Suc.prems(5) show ?thesis by arith
      qed
      ultimately have "map_option fst (cat_loop M fuel fd (out @ t) ?w) =
          map_option (\<lambda>t'. (True, (out @ t) @ t')) (print_all (pieces (drop (of_off f + length bs) (i_data n))))"
        using Suc.prems by (subst Suc.IH [where f = "f\<lparr>of_off := of_off f + length bs\<rparr>"]) auto
      with r l p Some show ?thesis
        by (cases "print_all (pieces (drop (of_off f + length bs) (i_data n)))") simp_all
    qed
  qed
qed

lemma print_buffer_zeros: "print_buffer (replicate (Suc k) 0) = Some []"
  by (simp add: print_buffer_def)

lemma print_all_zeros: "print_all (pieces (replicate k 0)) = Some []"
proof (induction k rule: less_induct)
  case (less k)
  show ?case
  proof (cases k)
    case 0
    then show ?thesis by (simp add: pieces.simps)
  next
    case (Suc m)
    have "print_all (pieces (replicate (k - BUFLEN) 0)) = Some []" using Suc by (intro less) simp
    moreover have "\<exists>j. min k BUFLEN = Suc j" using Suc by (intro exI [of _ "min k BUFLEN - 1"]) simp
    then obtain j where "min k BUFLEN = Suc j" ..
    ultimately show ?thesis
      using Suc by (subst pieces.simps) (simp add: print_buffer_zeros take_replicate del: replicate.simps)
  qed
qed

text \<open>C36. \<^verbatim>\<open>dzfile-cat\<close> prints a file without zero bytes as it is if it is shorter than the buffer of
  512 KiB. Longer files make it print from behind the buffer. Of a converted file, which
  \<open>dzfile_read\<close> sees as zeros, it prints nothing.\<close>

theorem cat_prints:
  assumes "env (w_os w) = []" "fd_file (w_os w) fd = Some (f, n)" "readable (of_flags f)" "\<not> i_dir n"
    and "of_off f = 0" "length (i_data n) < fuel"
  shows "map_option fst (cat_loop M fuel fd [] w) =
    (if i_data n = replicate (length (i_data n)) 0 then Some (True, [])
     else if 0 \<notin> set (take BUFLEN (i_data n))
     then if length (i_data n) < BUFLEN then Some (True, i_data n) else None
     else map_option (Pair True) (print_all (pieces (i_data n))))"
proof -
  let ?d = "i_data n"
  have run: "map_option fst (cat_loop M fuel fd [] w) = map_option (Pair True) (print_all (pieces ?d))"
    using cat_loop_run [OF assms(1-4), of fuel M "[]"] assms(5,6) by simp
  have z: "print_all (pieces ?d) = Some []" if "?d = replicate (length ?d) 0"
    by (subst that) (rule print_all_zeros)
  have ne: "?d \<noteq> []" if "?d \<noteq> replicate (length ?d) 0" using that by auto
  have p: "print_all (pieces ?d) = (if length ?d < BUFLEN then Some ?d else None)"
    if "0 \<notin> set (take BUFLEN ?d)" "?d \<noteq> []"
  proof (cases "length ?d < BUFLEN")
    case True
    then have "0 \<notin> set ?d" using that(1) by simp
    then have "takeWhile (\<lambda>b. b \<noteq> 0) ?d = ?d" by (rule takeWhile_neq_id)
    then have "print_buffer ?d = Some ?d" using True by (simp add: print_buffer_def)
    with True that(2) show ?thesis by (subst pieces.simps) (simp add: pieces.simps [of "[]"])
  next
    case False
    then have "print_buffer (take BUFLEN ?d) = None" using that(1) by (simp add: print_buffer_def)
    with False that(2) show ?thesis by (subst pieces.simps) simp
  qed
  show ?thesis using run z p ne by auto
qed

definition demo_text :: "bytes \<Rightarrow> (h5sim, shm_sim, dbview, string list) world" where
  \<comment> \<open>\<^verbatim>\<open>/f\<close> with the given contents, open for reading\<close>
  "demo_text d = demo_world\<lparr>w_os := (demo_os d)\<lparr>fds := [Some \<lparr>of_ino = 1, of_off = 0, of_flags = O_RDONLY\<rparr>]\<rparr>\<rparr>"

lemma cat_prints_witness:
  "map_option fst (cat_loop sim_libs 4 0 [] (demo_text [65, 66, 10])) = Some (True, [65, 66, 10]) \<and>
    map_option fst (cat_loop sim_libs 524289 0 [] (demo_text (replicate 524288 65))) = None"
proof -
  have f: "fd_file (w_os (demo_text d)) 0 = Some (\<lparr>of_ino = 1, of_off = 0, of_flags = O_RDONLY\<rparr>,
      \<lparr>i_dir = False, i_perm = 0x1A4, i_data = d, i_mtime = 0\<rparr>)" "env (w_os (demo_text d)) = []" for d
    by (simp_all add: demo_text_def demo_os_def fd_file_def fd_get_def)
  show ?thesis
    using cat_prints [where fuel = 4 and M = sim_libs, OF f(2,1), of "[65, 66, 10]"]
      cat_prints [where fuel = 524289 and M = sim_libs, OF f(2,1), of "replicate 524288 65"]
    by (simp add: readable_def)
qed

end
