(* ===== verification/Restore.thy ===== *)
theory Restore
  imports CopyTools
begin

text \<open>
  What the tools that copy files promise: \<^verbatim>\<open>dzfile-get\<close> on a converted file restores its contents,
  and the loop of \<^verbatim>\<open>dzfile-put\<close> copies a file and counts its bytes. The measure of both loops is
  what is left to copy: fuel beyond the length of the file is enough.
\<close>

section \<open>The destination\<close>

abbreviation (input) GET_FLAGS :: "32 word" where
  "GET_FLAGS \<equiv> or O_WRONLY (or O_TRUNC O_CREAT)"

definition dest :: "nat \<Rightarrow> int \<Rightarrow> bytes \<Rightarrow> os \<Rightarrow> bool" where
  \<comment> \<open>\<open>fd\<close> is open for writing on the inode \<open>k\<close>, which holds \<open>bs\<close>\<close>
  "dest k fd bs s \<longleftrightarrow> env s = [] \<and>
     (\<exists>f n. fd_file s fd = Some (f, n) \<and> of_ino f = k \<and> writable (of_flags f) \<and>
        and (of_flags f) O_APPEND = 0 \<and> i_data n = bs)"

lemma get_flags: "writable GET_FLAGS" "and GET_FLAGS O_APPEND = 0" "and GET_FLAGS O_TRUNC \<noteq> 0"
    "and GET_FLAGS O_CREAT \<noteq> 0"
  by (simp_all add: writable_def)

lemma fd_file_frame:
  "fds s' = fds s \<Longrightarrow> inodes s' (of_ino f) = Some n' \<Longrightarrow> fd_file s fd = Some (f, n) \<Longrightarrow>
    fd_file s' fd = Some (f, n')"
  using fd_get_cong [of s' s] by (simp add: fd_file_Some)

lemma dest_pwrite:
  assumes "dest k fd bs s"
  shows "\<exists>s'. sys_pwrite fd x (int (length bs)) s = (int (length x), s') \<and> dest k fd (bs @ x) s' \<and>
    names s' = names s \<and> fds s' = fds s \<and> (\<forall>i. i \<noteq> k \<longrightarrow> inodes s' i = inodes s i)"
proof -
  from assms obtain f n where f: "env s = []" "fd_file s fd = Some (f, n)" "of_ino f = k"
    "writable (of_flags f)" "and (of_flags f) O_APPEND = 0" "i_data n = bs"
    by (auto simp: dest_def)
  let ?s = "set_data k n (bs @ x) s"
  have "fd_file ?s fd = Some (f, n\<lparr>i_data := bs @ x, i_mtime := now s\<rparr>)"
    using f by (intro fd_file_frame [OF _ _ f(2)]) (simp_all add: set_data_def)
  then have "dest k fd (bs @ x) ?s" using f by (simp add: dest_def set_data_def)
  moreover have "sys_pwrite fd x (int (length bs)) s = (int (length x), ?s)"
    using f by (simp add: sys_pwrite_def Let_def splice_end)
  ultimately show ?thesis by (intro exI [of _ ?s]) (simp add: set_data_def)
qed

lemma dest_open:
  assumes "sys_open p GET_FLAGS mode s = (fd, s')" "0 \<le> fd" "env s = []"
  obtains k where "dest k fd [] s'" "map_of (names s') (comps p) = Some k"
    "k = (case node_at s (comps p) of Some (k, n) \<Rightarrow> k | None \<Rightarrow> nextino s)"
    "\<And>i. i \<noteq> k \<Longrightarrow> inodes s' i = inodes s i"
proof (cases "node_at s (comps p)")
  case None
  let ?t = "new_file (comps p) False mode s"
  have a: "alloc_fd (nextino s) GET_FLAGS ?t = (fd, s')"
    using assms None get_flags(4) by (auto simp: sys_open_def fail_with_def split: if_splits)
  from fd_get_alloc [OF a] get_flags(1,2) have "dest (nextino s) fd [] s'"
    using assms(3) by (auto simp: dest_def fd_file_Some same_files_def new_file_def)
  with fd_get_alloc [OF a] None show ?thesis
    by (intro that) (auto simp: same_files_def new_file_def update_conv)
next
  case (Some kn)
  obtain k n where kn: "kn = (k, n)" by fastforce
  let ?t = "set_data k n [] s"
  have d: "\<not> i_dir n" using assms Some kn get_flags(4)
    by (auto simp: sys_open_def fail_with_def split: if_splits)
  then have a: "alloc_fd k GET_FLAGS ?t = (fd, s')"
    using assms Some kn get_flags(3) by (simp add: sys_open_def)
  from fd_get_alloc [OF a] get_flags(1,2) have "dest k fd [] s'"
    using assms(3) by (auto simp: dest_def fd_file_Some same_files_def set_data_def)
  moreover have "map_of (names s) (comps p) = Some k" using Some kn by (simp add: node_at_Some)
  ultimately show ?thesis
    using fd_get_alloc [OF a] Some kn by (intro that [of k]) (auto simp: same_files_def set_data_def)
qed

section \<open>The source\<close>

definition source ::
    "('h, 'm, 'd, 'q) libs \<Rightarrow> 'h h5files \<Rightarrow> 'h h5data \<Rightarrow> int \<Rightarrow> nat \<Rightarrow> bytes
      \<Rightarrow> ('h, 'm, 'd, 'q) world \<Rightarrow> bool" where
  \<comment> \<open>\<open>fd\<close> is in the map, with a compressed file in the inode \<open>j\<close> whose contents are \<open>d\<close>\<close>
  "source M hf hdat fd j d w \<longleftrightarrow>
     (\<exists>p b. find_dzfd (shm M) fd (w_fdm w) = p \<and> p \<noteq> 0 \<and> w_heap w p = Some b \<and> d_fd b = fd \<and>
        0 < d_h5fd b \<and> hf (w_h5 w) (d_h5fd b) = Some j \<and>
        archive_node (codec M) hdat (w_os w, w_h5 w) j d)"

lemma source_frame:
  assumes "h5_frame_law hdat" "source M hf hdat fd j d w" "inodes s j = inodes (w_os w) j"
  shows "source M hf hdat fd j d (w\<lparr>w_os := s\<rparr>)"
proof -
  have "hdat s (w_h5 w) j = hdat (w_os w) (w_h5 w) j" by (rule hdat_cong [OF assms(1,3)])
  with assms(2) show ?thesis by (simp add: source_def archive_node_def)
qed

lemma source_pread:
  assumes "hdf5_contract (h5 M) hf hdat" "zstd_contract (codec M)" "source M hf hdat fd j d w"
    and "env (w_os w) = []" "off \<le> length d" "length d \<le> 2 ^ 31"
  shows "dzfile_pread M fd count (int off) w =
    Some ((if off + count \<le> length d \<or> \<not> H5_BUFSIZE dvd length d
           then int (length (take count (drop off d))) else -1, take count (drop off d)), w)"
proof -
  from assms(3) obtain b where b: "find_dzfd (shm M) fd (w_fdm w) \<noteq> 0"
    "w_heap w (find_dzfd (shm M) fd (w_fdm w)) = Some b"
    "archive_fd (codec M) hf hdat (w_os w, w_h5 w) (d_h5fd b) d"
    by (auto simp: source_def archive_fd_def)
  then show ?thesis
    using h5fd_pread_contents [OF assms(1,2) b(3) assms(4-6), of count] by (simp add: dzfile_pread_def)
qed

text \<open>Closing the source changes at most the compressed file.\<close>

lemma source_close:
  assumes "hdf5_contract (h5 M) hf hdat" "source M hf hdat fd j d w" "fdm_invar (shm M, w_fdm w)" "0 \<le> fd"
  shows "\<exists>r w'. dzfile_close M fd w = Some (r, w') \<and> names (w_os w') = names (w_os w) \<and>
    (\<forall>i. i \<noteq> j \<longrightarrow> inodes (w_os w') i = inodes (w_os w) i)"
proof -
  from assms(2) obtain b where b: "find_dzfd (shm M) fd (w_fdm w) \<noteq> 0" "d_fd b = fd"
    "w_heap w (find_dzfd (shm M) fd (w_fdm w)) = Some b" "hf (w_h5 w) (d_h5fd b) = Some j"
    by (auto simp: source_def)
  obtain r s2 h2 where c: "H5Fclose (h5 M) (d_h5fd b) (w_os w) (w_h5 w) = (r, s2, h2)"
    by (metis prod_cases3)
  have "h5_close_law (h5 M) hf hdat" using assms(1) by (simp add: hdf5_contract_def)
  from h5_close_lawD(1) [OF this c] b(4) have t: "touches j (w_os w) s2" by simp
  obtain r3 s3 where cl: "sys_close fd s2 = (r3, s3)" by fastforce
  from fdt.remove_ok [OF assms(3), of fd] assms(4) obtain mp where
    rm: "remove_dzfd (shm M) fd (w_fdm w) = Some (0, mp)"
    by (auto simp: fdm_remove_def fdm_find_def)
  let ?p = "find_dzfd (shm M) fd (w_fdm w)"
  have "dzfile_close M fd w = Some (r3, w\<lparr>w_os := s3, w_h5 := h2, w_fdm := mp,
      w_heap := (w_heap w)(?p := None)\<rparr>)"
    using b c rm cl by (simp add: dzfile_close_def Let_def on_st_def hdf5_close_def on_os_def)
  then show ?thesis
    using t sys_close_same_files [OF cl] by (auto simp: touches_def same_files_def)
qed

section \<open>\<^verbatim>\<open>dzfile-get\<close> restores\<close>

lemma dvd_left:
  \<comment> \<open>a position in steps of the buffer leaves no partial buffer before a multiple of the block\<close>
  assumes "BUFLEN dvd t \<or> t = n" "H5_BUFSIZE dvd n" "t < n"
  shows "t + BUFLEN \<le> (n :: nat)"
proof -
  from assms(2) obtain b where n: "n = H5_BUFSIZE * b" by blast
  from assms(1,3) obtain a where t: "t = BUFLEN * a" by auto
  have "a < 8 * b" using assms(3) n t by simp
  then have "Suc a \<le> 8 * b" by simp
  then have "BUFLEN * Suc a \<le> BUFLEN * (8 * b)" by (rule mult_le_mono2)
  then show ?thesis using n t by simp
qed

lemma get_loop_restores:
  assumes "hdf5_contract (h5 M) hf hdat" "zstd_contract (codec M)" "length d \<le> 2 ^ 31" "k \<noteq> j"
    and "source M hf hdat fd j d w" "dest k dstfd (take t d) (w_os w)"
    and "BUFLEN dvd t \<or> t = length d" "t \<le> length d" "length d - t < fuel"
  shows "\<exists>s. get_loop M fuel fd dstfd (int t) w = Some (int (length d), w\<lparr>w_os := s\<rparr>) \<and>
    source M hf hdat fd j d (w\<lparr>w_os := s\<rparr>) \<and> dest k dstfd d s \<and> names s = names (w_os w)"
  using assms(5-9)
proof (induction fuel arbitrary: t w)
  case 0
  then show ?case by simp
next
  case (Suc fuel)
  let ?x = "take BUFLEN (drop t d)"
  have e: "env (w_os w) = []" using Suc.prems(2) by (simp add: dest_def)
  note rd = source_pread [OF assms(1,2) Suc.prems(1) e Suc.prems(4) assms(3), of BUFLEN]
  show ?case
  proof (cases "t = length d")
    case True
    with rd Suc.prems(1,2) show ?thesis by (intro exI [of _ "w_os w"]) (simp add: if_distrib)
  next
    case False
    with Suc.prems(4) have lt: "t < length d" by simp
    then have x: "?x \<noteq> []" "t + length ?x \<le> length d" by auto
    have rd': "dzfile_pread M fd BUFLEN (int t) w = Some ((int (length ?x), ?x), w)"
      using rd dvd_left [OF Suc.prems(3) _ lt] by auto
    have l: "length (take t d) = t" using lt by simp
    from dest_pwrite [OF Suc.prems(2), of ?x] l obtain s where
      s: "sys_pwrite dstfd ?x (int t) (w_os w) = (int (length ?x), s)" "dest k dstfd (take t d @ ?x) s"
        "names s = names (w_os w)" "\<And>i. i \<noteq> k \<Longrightarrow> inodes s i = inodes (w_os w) i"
      by auto
    let ?w = "w\<lparr>w_os := s\<rparr>"
    have "take t d @ ?x = take (t + length ?x) d"
      using lt by (simp add: take_add min_def)
    then have d2: "dest k dstfd (take (t + length ?x) d) (w_os ?w)" using s(2) by simp
    have s2: "source M hf hdat fd j d ?w"
      using assms(1,4) s(4) Suc.prems(1) by (intro source_frame) (simp_all add: hdf5_contract_def)
    have "BUFLEN dvd t" using Suc.prems(3) False by simp
    then have t2: "BUFLEN dvd t + length ?x \<or> t + length ?x = length d"
      using lt by (cases "t + BUFLEN \<le> length d") (auto simp: min_def)
    have "length d - (t + length ?x) < fuel"
    proof -
      have "0 < length ?x" using x(1) by (simp only: length_greater_0_conv not_False_eq_True)
      with lt Suc.prems(5) show ?thesis by arith
    qed
    from Suc.IH [OF s2 d2 t2 x(2) this] obtain s' where s':
      "get_loop M fuel fd dstfd (int (t + length ?x)) ?w = Some (int (length d), ?w\<lparr>w_os := s'\<rparr>)"
      "source M hf hdat fd j d (?w\<lparr>w_os := s'\<rparr>)" "dest k dstfd d s'" "names s' = names (w_os ?w)"
      by blast
    have pos: "0 < int (length ?x)" using x(1) by (simp only: of_nat_0_less_iff length_greater_0_conv not_False_eq_True)
    have "get_loop M (Suc fuel) fd dstfd (int t) w = get_loop M fuel fd dstfd (int (t + length ?x)) ?w"
      using rd' s(1) pos by (simp add: on_os_def del: length_take)
    with s' s(3) show ?thesis by (intro exI [of _ s']) simp
  qed
qed

text \<open>The two files of \<^verbatim>\<open>dzfile-get\<close> after they have been opened.\<close>

lemma get_start:
  assumes H: "hdf5_contract (h5 M) hf hdat"
    and w: "fdm_invar (shm M, w_fdm w1)" "0 < w_next w1" "env (w_os w1) = []"
    and pub: "public_path src" and hid: "node_at (w_os w1) (comps (hidden_name src)) = Some (j, m)" "\<not> i_dir m"
    and ar: "archive_node (codec M) hdat (w_os w1, w_h5 w1) j d"
    and src: "node_at (w_os w1) (comps src) = Some (i, n)"
    and op: "dzfile_open M (Some src) O_RDONLY 0 w1 = Some (fd, w2)" "0 < fd"
    and od: "sys_open dst GET_FLAGS 0x1A4 (w_os w2) = (dstfd, s3)" "0 \<le> dstfd"
    and ne: "node_at (w_os w1) (comps dst) \<noteq> Some (j, m)" "inodes (w_os w2) (nextino (w_os w2)) = None"
  obtains k where "k \<noteq> j" "dest k dstfd [] s3" "map_of (names s3) (comps dst) = Some k"
    "source M hf hdat fd j d (w2\<lparr>w_os := s3\<rparr>)" "fdm_invar (shm M, w_fdm w2)"
proof -
  have fr: "h5_frame_law hdat" using H by (simp add: hdf5_contract_def)
  have run: "open_hidden M src O_RDONLY 0 w1 = Some (fd, w2)"
    using op(1) by (simp add: dzfile_open_converted [OF pub w(3) hid])
  have "0 \<le> fd" using op(2) by simp
  from open_hidden_state [OF H w(1,2) pub w(3) hid(1) src ar run this] obtain h5fd where
    st: "find_dzfd (shm M) fd (w_fdm w2) = w_next w1"
    "w_heap w2 (w_next w1) = Some \<lparr>d_fd = fd, d_h5fd = h5fd, d_filename = None\<rparr>"
    "archive_fd (codec M) hf hdat (w_os w2, w_h5 w2) h5fd d" "env (w_os w2) = []"
    "fdm_invar (shm M, w_fdm w2)" "hf (w_h5 w2) h5fd = Some j"
    "archive_node (codec M) hdat (w_os w2, w_h5 w2) j d" "same_files (w_os w1) (w_os w2)"
    by blast
  have so: "source M hf hdat fd j d w2"
    using st(1-3,6,7) w(2) by (simp add: source_def archive_fd_def)
  note nd = same_files_node_at [OF st(8)]
  have j: "inodes (w_os w2) j = Some m" using hid(1) nd by (metis node_at_Some)
  from dest_open [OF od st(4)] obtain k where
    k: "dest k dstfd [] s3" "map_of (names s3) (comps dst) = Some k"
    "k = (case node_at (w_os w2) (comps dst) of Some (k, n) \<Rightarrow> k | None \<Rightarrow> nextino (w_os w2))"
    "\<And>i. i \<noteq> k \<Longrightarrow> inodes s3 i = inodes (w_os w2) i" by blast
  have "k \<noteq> j"
  proof (cases "node_at (w_os w2) (comps dst)")
    case None
    then show ?thesis using k(3) j ne(2) by auto
  next
    case (Some a)
    obtain k' b where a: "a = (k', b)" by fastforce
    with Some k(3) have "node_at (w_os w2) (comps dst) = Some (k, b)" by simp
    moreover from this have "inodes (w_os w2) k = Some b" by (simp only: node_at_Some)
    ultimately show ?thesis using j ne(1) nd by (metis option.inject)
  qed
  moreover have "source M hf hdat fd j d (w2\<lparr>w_os := s3\<rparr>)"
    using k(4) \<open>k \<noteq> j\<close> by (intro source_frame [OF fr so]) simp
  ultimately show ?thesis using that k(1,2) st(5) by blast
qed

text \<open>C8. \<^verbatim>\<open>dzfile-get\<close> on a converted file restores it, in a system without failing calls: the destination, which
  can be opened for writing and is not the archive itself, whether it existed or not,
  afterwards has the contents that the file had before its conversion, and \<open>dzfile_get\<close> returns 0. The file has at most 2 GiB,
  each of its blocks has been compressed to less than 4 MiB (\<open>archive_node\<close>; for other files \<open>h5fd_pread_incompressible\<close> and
  \<open>h5fd_pread_2GiB\<close> show that it cannot be read), and its hidden file and its source can be opened.\<close>

theorem get_restores:
  assumes "hdf5_contract (h5 M) hf hdat" "zstd_contract (codec M)"
    and "dzfile_init M fuel pmax (Some data) None w = Some (ret, w1)" "0 \<le> ret"
    and "fdm_invar (shm M, w_fdm w1)" "0 < w_next w1" "env (w_os w1) = []"
    and "public_path src" "node_at (w_os w1) (comps (hidden_name src)) = Some (j, m)" "\<not> i_dir m"
    and "archive_node (codec M) hdat (w_os w1, w_h5 w1) j d"
    and "node_at (w_os w1) (comps src) = Some (i, n)"
    and "dzfile_open M (Some src) O_RDONLY 0 w1 = Some (fd, w2)" "0 < fd"
    and "sys_open dst GET_FLAGS 0x1A4 (w_os w2) = (dstfd, s3)" "0 \<le> dstfd"
    and "node_at (w_os w1) (comps dst) \<noteq> Some (j, m)" "inodes (w_os w2) (nextino (w_os w2)) = None"
    and "length d \<le> 2 ^ 31" "length d < fuel"
  shows "\<exists>w' k n'. dzfile_get M fuel pmax data src dst w = Some (0, w') \<and>
    node_at (w_os w') (comps dst) = Some (k, n') \<and> i_data n' = d"
proof -
  have fr: "h5_frame_law hdat" using assms(1) by (simp add: hdf5_contract_def)
  obtain k where k: "k \<noteq> j" "dest k dstfd [] s3" "map_of (names s3) (comps dst) = Some k"
    "source M hf hdat fd j d (w2\<lparr>w_os := s3\<rparr>)" "fdm_invar (shm M, w_fdm w2)"
    by (rule get_start [OF assms(1,5-18)])
  let ?s4 = "snd (sys_fstat fd s3)"
  have q: "quiet s3 ?s4" by (rule quiet_sys_fstat) (rule surjective_pairing)
  have w4: "snd (dzfile_fstat fd (w2\<lparr>w_os := s3\<rparr>)) = w2\<lparr>w_os := ?s4\<rparr>"
    by (simp add: dzfile_fstat_def on_os_def split: prod.split)
  have so4: "source M hf hdat fd j d (w2\<lparr>w_os := ?s4\<rparr>)"
    using source_frame [OF fr k(4), of ?s4] by (simp add: quietD [OF q])
  have d4: "dest k dstfd (take 0 d) (w_os (w2\<lparr>w_os := ?s4\<rparr>))"
    using k(2) by (simp add: dest_def quiet_fd_file [OF q] quietD(8) [OF q])
  from get_loop_restores [OF assms(1,2,19) k(1) so4 d4, of fuel] assms(20) obtain s5 where
    s5: "get_loop M fuel fd dstfd 0 (w2\<lparr>w_os := ?s4\<rparr>) = Some (int (length d), w2\<lparr>w_os := s5\<rparr>)"
    "source M hf hdat fd j d (w2\<lparr>w_os := s5\<rparr>)" "dest k dstfd d s5" "names s5 = names ?s4" by auto
  have "fdm_invar (shm M, w_fdm (w2\<lparr>w_os := s5\<rparr>))" "0 \<le> fd" using k(5) assms(14) by simp_all
  from source_close [OF assms(1) s5(2) this] obtain r w6 where
    w6: "dzfile_close M fd (w2\<lparr>w_os := s5\<rparr>) = Some (r, w6)" "names (w_os w6) = names s5"
    "\<And>i. i \<noteq> j \<Longrightarrow> inodes (w_os w6) i = inodes s5 i" by auto
  have "dzfile_get M fuel pmax data src dst w = Some (0, w6)"
    using assms(3,4,13,14,15) w4 s5(1) w6(1) by (simp add: dzfile_get_def on_os_def Let_def)
  moreover obtain n' where "inodes s5 k = Some n'" "i_data n' = d"
    using s5(3) by (auto simp: dest_def fd_file_Some)
  moreover have "map_of (names (w_os w6)) (comps dst) = Some k"
    using w6(2) s5(4) k(3) by (simp add: quietD [OF q])
  ultimately show ?thesis using w6(3) k(1) by (auto simp: node_at_Some)
qed

section \<open>\<^verbatim>\<open>dzfile-put\<close> copies and counts\<close>

definition reads_at :: "int \<Rightarrow> nat \<Rightarrow> bytes \<Rightarrow> nat \<Rightarrow> os \<Rightarrow> bool" where
  \<comment> \<open>\<open>fd\<close> is open for reading at offset \<open>t\<close> of a file with contents \<open>d\<close> in an inode other than \<open>k\<close>\<close>
  "reads_at fd k d t s \<longleftrightarrow>
     (\<exists>f n. fd_file s fd = Some (f, n) \<and> of_off f = t \<and> of_ino f \<noteq> k \<and> readable (of_flags f) \<and>
        \<not> i_dir n \<and> i_data n = d)"

definition writes_at :: "int \<Rightarrow> nat \<Rightarrow> bytes \<Rightarrow> nat \<Rightarrow> os \<Rightarrow> bool" where
  "writes_at fd k bs t s \<longleftrightarrow>
     (\<exists>f n. fd_file s fd = Some (f, n) \<and> of_off f = t \<and> of_ino f = k \<and> writable (of_flags f) \<and>
        and (of_flags f) O_APPEND = 0 \<and> i_data n = bs)"

lemma seek_other_file:
  "fd_get s fd = Some g \<Longrightarrow> fd' \<noteq> fd \<Longrightarrow> fd_file (fd_seek fd f off s) fd' = fd_file s fd'"
  by (simp add: fd_file_def fd_get_seek split: option.split)

lemma read_step:
  assumes "env s = []" "reads_at fd k d t s"
  shows "\<exists>s'. sys_read fd c s = ((int (length (take c (drop t d))), take c (drop t d)), s') \<and> env s' = [] \<and>
    reads_at fd k d (t + length (take c (drop t d))) s' \<and> inodes s' = inodes s \<and> names s' = names s \<and>
    (\<forall>fd'. fd' \<noteq> fd \<longrightarrow> fd_file s' fd' = fd_file s fd')"
proof -
  let ?x = "take c (drop t d)"
  from assms(2) obtain f n where f: "fd_file s fd = Some (f, n)" "of_off f = t" "of_ino f \<noteq> k"
    "readable (of_flags f)" "\<not> i_dir n" "i_data n = d" by (auto simp: reads_at_def)
  let ?s = "fd_seek fd f (t + length ?x) s"
  have r: "sys_read fd c s = ((int (length ?x), ?x), ?s)"
    using assms(1) f by (simp add: sys_read_def Let_def)
  have "fd_file ?s fd = Some (f\<lparr>of_off := t + length ?x\<rparr>, n)"
    using f(1) by (simp add: fd_file_seek)
  then have "reads_at fd k d (t + length ?x) ?s" using f(3-6) by (simp add: reads_at_def)
  moreover have "\<forall>fd'. fd' \<noteq> fd \<longrightarrow> fd_file ?s fd' = fd_file s fd'"
    using f(1) by (auto simp: fd_file_Some seek_other_file)
  ultimately show ?thesis using r assms(1) by (intro exI [of _ ?s]) (simp del: length_take)
qed

lemma write_step:
  assumes "env s = []" "writes_at fd k bs t s" "t \<le> length bs"
  shows "\<exists>s'. sys_write fd x s = (int (length x), s') \<and> env s' = [] \<and>
    writes_at fd k (take t bs @ x @ drop (t + length x) bs) (t + length x) s' \<and> names s' = names s \<and>
    (\<forall>i. i \<noteq> k \<longrightarrow> inodes s' i = inodes s i) \<and> (\<forall>fd'. fd' \<noteq> fd \<longrightarrow> fd_get s' fd' = fd_get s fd')"
proof -
  from assms(2) obtain f n where f: "fd_file s fd = Some (f, n)" "of_off f = t" "of_ino f = k"
    "writable (of_flags f)" "and (of_flags f) O_APPEND = 0" "i_data n = bs" by (auto simp: writes_at_def)
  let ?d = "take t bs @ x @ drop (t + length x) bs"
  let ?t = "set_data k n ?d s"
  let ?s = "fd_seek fd f (t + length x) ?t"
  have w: "sys_write fd x s = (int (length x), ?s)"
    using assms(1,3) f by (simp add: sys_write_def Let_def splice_def)
  have ff: "fd_file ?t fd = Some (f, n\<lparr>i_data := ?d, i_mtime := now s\<rparr>)"
    using f by (intro fd_file_frame [OF _ _ f(1)]) (simp_all add: set_data_def)
  then have "fd_file ?s fd = Some (f\<lparr>of_off := t + length x\<rparr>, n\<lparr>i_data := ?d, i_mtime := now s\<rparr>)"
    by (simp add: fd_file_seek)
  then have "writes_at fd k ?d (t + length x) ?s" using f(3-5) by (simp add: writes_at_def)
  moreover have "fd_get ?t = fd_get s" by (rule fd_get_cong) (simp add: set_data_def)
  then have "\<forall>fd'. fd' \<noteq> fd \<longrightarrow> fd_get ?s fd' = fd_get s fd'"
    using ff by (auto simp: fd_file_Some fd_get_seek)
  ultimately show ?thesis using w assms(1) by (intro exI [of _ ?s]) (auto simp: set_data_def)
qed

lemma lockw_free:
  assumes "env s = []" "writes_at fd k bs t s" "0 < fuel"
  shows "dzfile_lockw fuel fd off [] s = Some (0, [], s)"
  using assms
  by (cases fuel) (auto simp: writes_at_def dzfile_lk_def now_held_def write_lock_def)

lemma dzfile_write_counted:
  assumes "write_ready M view fd w" "x \<noteq> []" "sys_write fd x (w_os w) = (int (length x), s)"
    and "0 \<le> v_written (view (w_db w))" "v_written (view (w_db w)) + int (length x) < 2 ^ 63"
  shows "\<exists>db. dzfile_write M fd x w = Some (int (length x), w\<lparr>w_os := s, w_db := db\<rparr>) \<and>
    write_ready M view fd (w\<lparr>w_os := s, w_db := db\<rparr>) \<and>
    v_written (view db) = v_written (view (w_db w)) + int (length x)"
proof -
  have R: "write_ready M view fd (w\<lparr>w_os := s\<rparr>)"
    using write_ready_upd [OF assms(1,3) write_ready_counting [OF assms(1)]] by simp
  have "int (length x) < 2 ^ 63" using assms(4,5) by linarith
  moreover have "fits_int64 (v_written (view (w_db (w\<lparr>w_os := s\<rparr>))) + int (length x))"
    using assms(4,5) by (simp add: fits_int64_def)
  ultimately obtain db where "add_writtenbytes M (int (length x)) (w\<lparr>w_os := s\<rparr>) =
      Some (0, w\<lparr>w_os := s, w_db := db\<rparr>)" "counting (sql M) db"
    "v_written (view db) = v_written (view (w_db w)) + int (length x)"
    using add_writtenbytes_ready [OF R, of "int (length x)"] by auto
  then show ?thesis
    using assms(2,3) write_ready_upd [OF assms(1,3), of db]
    by (intro exI [of _ db]) (simp add: dzfile_write_def count_written_def on_os_def)
qed

text \<open>One round of the loop, before the end of the source.\<close>

lemma put_step:
  assumes "sfd \<noteq> dfd" and R: "write_ready M view dfd w" and src: "reads_at sfd k d t (w_os w)"
    and dst: "writes_at dfd k (take t d @ drop t old) t (w_os w)" and lt: "t < length d"
    and v: "0 \<le> v_written (view (w_db w))" "v_written (view (w_db w)) + int (length d - t) < 2 ^ 63"
  shows "\<exists>s db t'. t < t' \<and> t' \<le> length d \<and>
    (\<forall>fuel. 0 < fuel \<longrightarrow> put_loop M (Suc fuel) sfd dfd (int t) [] w =
       put_loop M fuel sfd dfd (int t') [] (w\<lparr>w_os := s, w_db := db\<rparr>)) \<and>
    write_ready M view dfd (w\<lparr>w_os := s, w_db := db\<rparr>) \<and> reads_at sfd k d t' s \<and>
    writes_at dfd k (take t' d @ drop t' old) t' s \<and> names s = names (w_os w) \<and>
    v_written (view db) = v_written (view (w_db w)) + int (t' - t)"
proof -
  let ?x = "take BUFLEN (drop t d)"
  have e: "env (w_os w) = []" using R by (simp add: write_ready_def)
  from read_step [OF e src, of BUFLEN] obtain s1 where s1:
    "sys_read sfd BUFLEN (w_os w) = ((int (length ?x), ?x), s1)" "env s1 = []"
    "reads_at sfd k d (t + length ?x) s1" "inodes s1 = inodes (w_os w)" "names s1 = names (w_os w)"
    "\<And>fd'. fd' \<noteq> sfd \<Longrightarrow> fd_file s1 fd' = fd_file (w_os w) fd'" by blast
  have w1: "writes_at dfd k (take t d @ drop t old) t s1"
    using dst s1(6) assms(1) by (simp add: writes_at_def)
  from lt have x: "?x \<noteq> []" "t + length ?x \<le> length d" "take t d @ ?x = take (t + length ?x) d"
    by (auto simp: take_add min_def)
  then have l: "0 < length ?x" by (simp only: length_greater_0_conv not_False_eq_True)
  from write_step [OF s1(2) w1, of ?x] lt obtain s2 where s2:
    "sys_write dfd ?x s1 = (int (length ?x), s2)" "env s2 = []"
    "writes_at dfd k (take t (take t d @ drop t old) @ ?x @ drop (t + length ?x) (take t d @ drop t old))
      (t + length ?x) s2" "names s2 = names s1" "\<And>i. i \<noteq> k \<Longrightarrow> inodes s2 i = inodes s1 i"
    "\<And>fd'. fd' \<noteq> dfd \<Longrightarrow> fd_get s2 fd' = fd_get s1 fd'" by auto
  have R1: "write_ready M view dfd (w\<lparr>w_os := s1\<rparr>)"
    using R s1(2,6) assms(1) by (auto simp: write_ready_def db_ready_def)
  have "v_written (view (w_db w)) + int (length ?x) < 2 ^ 63" using x(2) v(2) by linarith
  with dzfile_write_counted [OF R1 x(1)] s2(1) v(1) obtain db where db:
    "dzfile_write M dfd ?x (w\<lparr>w_os := s1\<rparr>) = Some (int (length ?x), w\<lparr>w_os := s2, w_db := db\<rparr>)"
    "write_ready M view dfd (w\<lparr>w_os := s2, w_db := db\<rparr>)"
    "v_written (view db) = v_written (view (w_db w)) + int (length ?x)" by auto
  have "reads_at sfd k d (t + length ?x) s2"
    using s1(3) s2(5,6) assms(1) unfolding reads_at_def fd_file_Some by auto
  moreover have "take t (take t d @ drop t old) @ ?x @ drop (t + length ?x) (take t d @ drop t old) =
      take (t + length ?x) d @ drop (t + length ?x) old"
    using lt x(3) by (simp add: add.commute)
  with s2(3) have "writes_at dfd k (take (t + length ?x) d @ drop (t + length ?x) old) (t + length ?x) s2"
    by simp
  moreover have "put_loop M (Suc fuel) sfd dfd (int t) [] w =
      put_loop M fuel sfd dfd (int (t + length ?x)) [] (w\<lparr>w_os := s2, w_db := db\<rparr>)" if "0 < fuel" for fuel
    using s1(1) lockw_free [OF s1(2) w1 that] db(1) l by (simp add: on_os_def del: length_take)
  ultimately show ?thesis
    using l x(2) db(2,3) s1(5) s2(4)
    by (intro exI [of _ s2] exI [of _ db] exI [of _ "t + length ?x"]) (simp del: length_take)
qed

lemma put_loop_copies:
  assumes "sfd \<noteq> dfd" "write_ready M view dfd w" "reads_at sfd k d t (w_os w)"
    and "writes_at dfd k (take t d @ drop t old) t (w_os w)" "t \<le> length d"
    and "0 \<le> v_written (view (w_db w))"
    and "v_written (view (w_db w)) + int (length d - t) < 2 ^ 63" "Suc (length d - t) < fuel"
  shows "\<exists>s db. put_loop M fuel sfd dfd (int t) [] w = Some (int (length d), w\<lparr>w_os := s, w_db := db\<rparr>) \<and>
    env s = [] \<and> writes_at dfd k (d @ drop (length d) old) (length d) s \<and> names s = names (w_os w) \<and>
    v_written (view db) = v_written (view (w_db w)) + int (length d - t)"
  using assms(2-)
proof (induction fuel arbitrary: t w)
  case 0
  then show ?case by simp
next
  case (Suc fuel)
  let ?x = "take BUFLEN (drop t d)"
  have e: "env (w_os w) = []" using Suc.prems(1) by (simp add: write_ready_def)
  from read_step [OF e Suc.prems(2), of BUFLEN] obtain s1 where s1:
    "sys_read sfd BUFLEN (w_os w) = ((int (length ?x), ?x), s1)" "env s1 = []"
    "reads_at sfd k d (t + length ?x) s1" "inodes s1 = inodes (w_os w)" "names s1 = names (w_os w)"
    "\<And>fd'. fd' \<noteq> sfd \<Longrightarrow> fd_file s1 fd' = fd_file (w_os w) fd'" by blast
  have w1: "writes_at dfd k (take t d @ drop t old) t s1"
    using Suc.prems(3) s1(6) assms(1) by (simp add: writes_at_def)
  show ?case
  proof (cases "t = length d")
    case True
    have "put_loop M (Suc fuel) sfd dfd (int t) [] w = Some (int t, w\<lparr>w_os := s1\<rparr>)"
      using s1(1) True by (simp add: on_os_def)
    then show ?thesis
      using True s1(2,5) w1 by (intro exI [of _ s1] exI [of _ "w_db w"]) simp
  next
    case False
    with Suc.prems(4) have lt: "t < length d" by simp
    from put_step [OF assms(1) Suc.prems(1-3) lt Suc.prems(5,6)] obtain s2 db t' where
      t': "t < t'" "t' \<le> length d"
      "\<And>fuel. 0 < fuel \<Longrightarrow> put_loop M (Suc fuel) sfd dfd (int t) [] w =
         put_loop M fuel sfd dfd (int t') [] (w\<lparr>w_os := s2, w_db := db\<rparr>)"
      "write_ready M view dfd (w\<lparr>w_os := s2, w_db := db\<rparr>)" "reads_at sfd k d t' s2"
      "writes_at dfd k (take t' d @ drop t' old) t' s2" "names s2 = names (w_os w)"
      "v_written (view db) = v_written (view (w_db w)) + int (t' - t)" by blast
    let ?w = "w\<lparr>w_os := s2, w_db := db\<rparr>"
    have p: "reads_at sfd k d t' (w_os ?w)" "writes_at dfd k (take t' d @ drop t' old) t' (w_os ?w)"
      "0 \<le> v_written (view (w_db ?w))" "v_written (view (w_db ?w)) + int (length d - t') < 2 ^ 63"
      "Suc (length d - t') < fuel"
      using t' Suc.prems(5-7) by (simp_all add: of_nat_diff)
    from Suc.IH [OF t'(4) p(1,2) t'(2) p(3-5)] obtain s' db' where s':
      "put_loop M fuel sfd dfd (int t') [] ?w = Some (int (length d), w\<lparr>w_os := s', w_db := db'\<rparr>)"
      "env s' = []" "writes_at dfd k (d @ drop (length d) old) (length d) s'" "names s' = names s2"
      "v_written (view db') = v_written (view db) + int (length d - t')" by auto
    have "0 < fuel" using p(5) by simp
    from t'(3) [OF this] s' t'(1,2,7,8) show ?thesis
      by (intro exI [of _ s'] exI [of _ db']) (simp add: of_nat_diff)
  qed
qed

text \<open>C33. The loop of \<^verbatim>\<open>dzfile-put\<close>, on two open files and without other locks or failing calls, copies the source and adds its
  length to the counter of written bytes, where the database executes the updates of that counter (\<open>counting\<close>) and
  it stays below \<open>2 ^ 63\<close>. The destination is opened without \<^verbatim>\<open>O_TRUNC\<close>: of a longer
  file that was there, the rest stays behind the copy.\<close>

theorem put_copies:
  assumes "sfd \<noteq> dfd" "write_ready M view dfd w"
    and "reads_at sfd k d 0 (w_os w)" "writes_at dfd k old 0 (w_os w)"
    and "0 \<le> v_written (view (w_db w))" "v_written (view (w_db w)) + int (length d) < 2 ^ 63"
    and "Suc (length d) < fuel"
  shows "\<exists>w' n. put_loop M fuel sfd dfd 0 [] w = Some (int (length d), w') \<and>
    inodes (w_os w') k = Some n \<and> i_data n = d @ drop (length d) old \<and>
    v_written (view (w_db w')) = v_written (view (w_db w)) + int (length d)"
proof -
  have "writes_at dfd k (take 0 d @ drop 0 old) 0 (w_os w)" using assms(4) by simp
  from put_loop_copies [OF assms(1-3) this, of fuel] assms(5-7) obtain s db where
    l: "put_loop M fuel sfd dfd 0 [] w = Some (int (length d), w\<lparr>w_os := s, w_db := db\<rparr>)"
    "writes_at dfd k (d @ drop (length d) old) (length d) s"
    "v_written (view db) = v_written (view (w_db w)) + int (length d)" by auto
  from l(2) obtain n where "inodes s k = Some n" "i_data n = d @ drop (length d) old"
    by (auto simp: writes_at_def fd_file_Some)
  with l(1,3) show ?thesis by (intro exI [of _ "w\<lparr>w_os := s, w_db := db\<rparr>"] exI [of _ n]) simp
qed

section \<open>On a concrete directory\<close>

text \<open>A data directory with the database in it, the file \<^verbatim>\<open>/f\<close> converted, and a log.\<close>

definition demo_disk :: "ofile option list \<Rightarrow> os" where
  "demo_disk F =
     \<lparr>names = [([], 0), ([''f''], 1), ([''.f.DZF''], 2), ([''.dzs''], 3), ([''.dzs'', ''meta.db''], 4),
        ([''var'', ''log'', ''dzfile'', ''dzfile.log''], 5)],
      inodes = [0 \<mapsto> \<lparr>i_dir = True, i_perm = 0x1ED, i_data = [], i_mtime = 0\<rparr>,
        1 \<mapsto> \<lparr>i_dir = False, i_perm = 0x1A4, i_data = [0, 0, 0], i_mtime = 7\<rparr>,
        2 \<mapsto> \<lparr>i_dir = False, i_perm = 0x1A4, i_data = [], i_mtime = 7\<rparr>,
        3 \<mapsto> \<lparr>i_dir = True, i_perm = 0x1ED, i_data = [], i_mtime = 7\<rparr>,
        4 \<mapsto> \<lparr>i_dir = False, i_perm = 0x1A4, i_data = [], i_mtime = 7\<rparr>,
        5 \<mapsto> \<lparr>i_dir = False, i_perm = 0x1A4, i_data = [], i_mtime = 7\<rparr>],
      nextino = 6, fds = F, errno = 0, env = [], now = 7,
      vfs = \<lparr>f_bsize = 4096, f_blocks = 1000, f_bfree = 500, f_files = 2\<rparr>\<rparr>"

definition root_fd :: "ofile option" where
  "root_fd = Some \<lparr>of_ino = 0, of_off = 0, of_flags = 0\<rparr>"

definition log_fd :: "ofile option" where
  "log_fd = Some \<lparr>of_ino = 5, of_off = 0, of_flags = or O_WRONLY (or O_APPEND O_CREAT)\<rparr>"

definition demo_start :: "(h5sim, shm_sim, dbview, string list) world" where
  \<comment> \<open>before the initialisation\<close>
  "demo_start = demo_world\<lparr>w_os := demo_disk [root_fd], w_h5 := archive_h5 [1, 2, 3], w_priv := None\<rparr>"

definition demo_ready :: "(h5sim, shm_sim, dbview, string list) world" where
  "demo_ready = demo_start\<lparr>w_os := demo_disk [root_fd, log_fd], w_priv := Some (no_priv\<lparr>logfd := 1,
     logfile := Some ''/var/log/dzfile/dzfile.log'', loglevel := DZ_LOG_DEBUG,
     data_path := Some ''/'', path_max := 4096, mqcontext := True, mqsocket := True, db_open := True\<rparr>)\<rparr>"

lemma demo_comps:
  "comps ''/var/log/dzfile/dzfile.log'' = [''var'', ''log'', ''dzfile'', ''dzfile.log'']"
  "comps ''//.dzs/meta.db'' = [''.dzs'', ''meta.db'']" "comps ''//.dzs'' = [''.dzs'']"
  "dirname ''//.dzs/meta.db'' = ''//.dzs''" "comps ''/g'' = [''g'']"
  by code_simp+

lemma demo_openlog:
  "dz_openlog n (Some ''/var/log/dzfile/dzfile.log'') (demo_disk [root_fd]) = Some (1, demo_disk [root_fd, log_fd])"
  by (simp add: dz_openlog_def demo_disk_def os_eval Let_def demo_comps log_fd_def root_fd_def)

lemma demo_disk_stat:
  "sys_stat ''/'' (demo_disk F) = (Some (stat_of 0 \<lparr>i_dir = True, i_perm = 0x1ED, i_data = [], i_mtime = 0\<rparr>), demo_disk F)"
  "sys_stat ''//.dzs'' (demo_disk F) = (Some (stat_of 3 \<lparr>i_dir = True, i_perm = 0x1ED, i_data = [], i_mtime = 7\<rparr>), demo_disk F)"
  "sys_stat ''//.dzs/meta.db'' (demo_disk F) = (Some (stat_of 4 \<lparr>i_dir = False, i_perm = 0x1A4, i_data = [], i_mtime = 7\<rparr>), demo_disk F)"
  "sys_malloc (demo_disk F) = (True, demo_disk F)"
  by (simp_all add: demo_disk_def sys_stat_def sys_malloc_def demo_comps node_at_def)

lemma demo_init:
  "dzfile_init sim_libs (Suc n) 4096 (Some ''/'') None demo_start = Some (0, demo_ready)"
  by (simp add: dzfile_init_def demo_start_def demo_ready_def demo_world_def demo_openlog demo_disk_stat
      demo_comps init_services_def dz_openmq_def dz_opendb_def MAKE_REAL_PATH_def hashmap_init_def
      sim_zmq_def sim_sql_def sim_shm_def no_priv_def Let_def)

definition src_fd :: "ofile option" where
  "src_fd = Some \<lparr>of_ino = 1, of_off = 0, of_flags = O_RDONLY\<rparr>"

definition demo_opened :: "(h5sim, shm_sim, dbview, string list) world" where
  "demo_opened = demo_ready\<lparr>w_os := demo_disk [root_fd, log_fd, src_fd],
     w_h5 := \<lparr>h5_ids = [(2, 2), (1, 2)], h5_sets = \<lambda>i. sim_archive [1, 2, 3]\<rparr>,
     w_fdm := \<lparr>sm_map = [(2, 1)], sm_deleted = Some (-1)\<rparr>,
     w_heap := [1 \<mapsto> \<lparr>d_fd = 2, d_h5fd = 2, d_filename = None\<rparr>], w_next := 2\<rparr>"

lemma demo_ready_simps:
  "env (w_os demo_ready) = []" "w_next demo_ready = 1" "fdm_invar (sim_shm, w_fdm demo_ready)"
  "node_at (w_os demo_ready) (comps (hidden_name ''/f'')) =
     Some (2, \<lparr>i_dir = False, i_perm = 0x1A4, i_data = [], i_mtime = 7\<rparr>)"
  "node_at (w_os demo_ready) (comps ''/f'') =
     Some (1, \<lparr>i_dir = False, i_perm = 0x1A4, i_data = [0, 0, 0], i_mtime = 7\<rparr>)"
  "node_at (w_os demo_ready) (comps ''/g'') = None"
  using sim_shm_contract
  by (simp_all add: demo_ready_def demo_start_def demo_world_def demo_disk_def comps_demo demo_comps
    node_at_def fdm_invar_def sim_shm_def)

lemma demo_ready_archive:
  "archive_node sim_codec sim_data (w_os demo_ready, w_h5 demo_ready) 2 [1, 2, 3]"
  using sim_archive_fd [of "[1, 2, 3]" "w_os demo_ready"]
  by (auto simp: archive_fd_def archive_h5_def demo_ready_def demo_start_def split: if_splits)

lemma demo_ready_open:
  "dzfile_open sim_libs (Some ''/f'') O_RDONLY 0 demo_ready = Some (2, demo_opened)"
proof -
  have "dzfile_open sim_libs (Some ''/f'') O_RDONLY 0 demo_ready =
      open_hidden sim_libs ''/f'' O_RDONLY 0 demo_ready"
    by (rule dzfile_open_converted [OF demo_public demo_ready_simps(1,4)]) simp
  also have "\<dots> = Some (2, demo_opened)"
    by (simp add: open_hidden_def demo_opened_def demo_ready_def demo_start_def demo_world_def demo_disk_def
        buildHiddenFile_normal on_st_def hdf5_open_def sim_eval os_eval comps_demo archive_h5_def
        on_os_def Let_def add_dzfd_def sim_shm_def root_fd_def log_fd_def src_fd_def)
  finally show ?thesis .
qed

lemma demo_dest_open:
  "\<exists>s3. sys_open ''/g'' GET_FLAGS 0x1A4 (w_os demo_opened) = (3, s3)"
  by (simp add: demo_opened_def demo_disk_def os_eval demo_comps Let_def root_fd_def log_fd_def src_fd_def)

lemma get_restores_witness:
  "\<exists>w' k n'. dzfile_get sim_libs 4 4096 ''/'' ''/f'' ''/g'' demo_start = Some (0, w') \<and>
    node_at (w_os w') (comps ''/g'') = Some (k, n') \<and> i_data n' = [1, 2, 3]"
proof -
  obtain s3 where o: "sys_open ''/g'' GET_FLAGS 0x1A4 (w_os demo_opened) = (3, s3)"
    using demo_dest_open ..
  have i: "dzfile_init sim_libs 4 4096 (Some ''/'') None demo_start = Some (0, demo_ready)"
    using demo_init [of 3] by (simp add: numeral_eq_Suc)
  show ?thesis
    by (rule get_restores [where M = sim_libs and hf = sim_files and hdat = sim_data and ?w1.0 = demo_ready
          and ?w2.0 = demo_opened, OF _ _ i _ _ _ demo_ready_simps(1) demo_public _ _ _
          demo_ready_simps(5) demo_ready_open _ o])
      (simp_all add: sim_hdf5_contract sim_codec_zstd demo_ready_simps demo_ready_archive [simplified],
       (simp_all add: demo_opened_def demo_disk_def demo_ready_archive)?)
qed

definition demo_copy :: "(h5sim, shm_sim, dbview, string list) world" where
  \<comment> \<open>a source of three bytes and a destination of five are open\<close>
  "demo_copy = demo_world\<lparr>w_os := (demo_disk [src_fd, Some \<lparr>of_ino = 4, of_off = 0, of_flags = or O_WRONLY O_CREAT\<rparr>])
     \<lparr>inodes := [1 \<mapsto> \<lparr>i_dir = False, i_perm = 0x1A4, i_data = [1, 2, 3], i_mtime = 7\<rparr>,
                 4 \<mapsto> \<lparr>i_dir = False, i_perm = 0x1A4, i_data = [9, 8, 7, 6, 5], i_mtime = 7\<rparr>]\<rparr>\<rparr>"

lemma put_copies_witness:
  "\<exists>w' n. put_loop sim_libs 5 0 1 0 [] demo_copy = Some (3, w') \<and>
    inodes (w_os w') 4 = Some n \<and> i_data n = [1, 2, 3, 6, 5] \<and> v_written (w_db w') = 6"
proof -
  have r: "write_ready sim_libs (\<lambda>v. v) 1 demo_copy"
    by (simp add: write_ready_def sim_sql_contract sim_counting demo_copy_def demo_world_def demo_disk_def
        db_ready_def fd_file_def fd_get_def writable_def)
  have s: "reads_at 0 4 [1, 2, 3] 0 (w_os demo_copy)" "writes_at 1 4 [9, 8, 7, 6, 5] 0 (w_os demo_copy)"
    by (simp_all add: reads_at_def writes_at_def demo_copy_def demo_disk_def src_fd_def fd_file_def
        fd_get_def writable_def readable_def)
  show ?thesis
    using put_copies [OF _ r s, of 5] by (simp add: demo_copy_def demo_world_def)
qed

end
