(* ===== verification/ListTools.thy ===== *)
theory ListTools
  imports CopyTools Logging
begin

text \<open>
  The tools that show: \<^verbatim>\<open>src/dzfile-ls.c\<close>, \<^verbatim>\<open>src/dzfile-info.c\<close> and \<^verbatim>\<open>src/dzfile.c\<close>. Their output
  is a string, without the messages about failures and the line that \<^verbatim>\<open>verbose\<close> adds. Owners, groups, the numbers of links and the
  text of a time are parameters.
\<close>

section \<open>One entry of a listing\<close>

definition mode_string :: "32 word \<Rightarrow> string" where
  "mode_string m =
     [if and m S_IFDIR \<noteq> 0 then CHR ''d'' else CHR ''-'',
      if and m 0x100 \<noteq> 0 then CHR ''r'' else CHR ''-'',
      if and m 0x80 \<noteq> 0 then CHR ''w'' else CHR ''-'',
      if and m 0x40 \<noteq> 0 then if and m 0x800 \<noteq> 0 then CHR ''s'' else CHR ''x'' else CHR ''-'',
      if and m 0x20 \<noteq> 0 then CHR ''r'' else CHR ''-'',
      if and m 0x10 \<noteq> 0 then CHR ''w'' else CHR ''-'',
      if and m 0x8 \<noteq> 0 then if and m 0x400 \<noteq> 0 then CHR ''s'' else CHR ''x'' else CHR ''-'',
      if and m 0x4 \<noteq> 0 then CHR ''r'' else CHR ''-'',
      if and m 0x2 \<noteq> 0 then CHR ''w'' else CHR ''-'',
      if and m 0x1 \<noteq> 0 then if and m 0x200 \<noteq> 0 then CHR ''t'' else CHR ''x'' else CHR ''-'']"

text \<open>The inode's links, user and group, and the look-ups; \<open>ls_time\<close> is \<^verbatim>\<open>strftime\<close> with the format for
  old files or that for recent ones.\<close>

record ls_env =
  ls_meta :: "nat \<Rightarrow> int \<times> 32 word \<times> 32 word"
  getpwuid :: "32 word \<Rightarrow> string option"
  getgrgid :: "32 word \<Rightarrow> string option"
  ls_time :: "bool \<Rightarrow> int \<Rightarrow> string"
  current_time :: int

record ls_cache =
  \<comment> \<open>the static variables of \<^verbatim>\<open>listentry\<close>\<close>
  sav_uid :: "32 word"
  sav_uidstr :: string
  sav_gid :: "32 word"
  sav_gidstr :: string

definition ls_cache0 :: ls_cache where
  "ls_cache0 = \<lparr>sav_uid = -1, sav_uidstr = [], sav_gid = -1, sav_gidstr = []\<rparr>"

definition left_align :: "nat \<Rightarrow> string \<Rightarrow> string" where
  "left_align w str = str @ replicate (w - length str) CHR '' ''"

definition uid_string :: "ls_env \<Rightarrow> 32 word \<Rightarrow> string" where
  "uid_string E u = (case getpwuid E u of None \<Rightarrow> left_align 8 (dec (unat u)) | Some name \<Rightarrow> name)"

definition gid_string :: "ls_env \<Rightarrow> 32 word \<Rightarrow> string" where
  "gid_string E g = (case getgrgid E g of None \<Rightarrow> left_align 6 (dec (unat g)) | Some name \<Rightarrow> take 6 name)"

definition save_uid :: "ls_env \<Rightarrow> 32 word \<Rightarrow> ls_cache \<Rightarrow> ls_cache option" where
  \<comment> \<open>a string that does not fit \<^verbatim>\<open>sav_uidstr[255]\<close> is undefined\<close>
  "save_uid E u c =
     (if u = sav_uid c then Some c
      else do {
        guard_ub (length (uid_string E u) < 255);
        Some (c\<lparr>sav_uid := u, sav_uidstr := uid_string E u\<rparr>) })"

definition save_gid :: "ls_env \<Rightarrow> 32 word \<Rightarrow> ls_cache \<Rightarrow> ls_cache option" where
  \<comment> \<open>\<^verbatim>\<open>strncpy\<close> of a name into \<^verbatim>\<open>sav_gidstr[7]\<close> is safe, \<^verbatim>\<open>sprintf\<close> of a number is not\<close>
  "save_gid E g c =
     (if g = sav_gid c then Some c
      else do {
        guard_ub (length (gid_string E g) < 7);
        Some (c\<lparr>sav_gid := g, sav_gidstr := gid_string E g\<rparr>) })"

definition SIXMONTHS :: int where
  "SIXMONTHS = 6 * 30 * 24 * 60 * 60"

definition time_string :: "ls_env \<Rightarrow> int \<Rightarrow> string" where
  "time_string E t = ls_time E (t < current_time E - SIXMONTHS \<or> current_time E + 60 < t) t"

definition long_line :: "ls_env \<Rightarrow> string \<Rightarrow> string \<Rightarrow> stat \<Rightarrow> string" where
  \<comment> \<open>\<^verbatim>\<open>printf("%s %3d %-8.8s %-6.6s%20ld\t%s ")\<close>\<close>
  "long_line E uidstr gidstr st =
     mode_string (st_mode st) @ '' '' @ space_pad 3 (fst (ls_meta E (st_ino st))) @ '' '' @
     left_align 8 (take 8 uidstr) @ '' '' @ left_align 6 (take 6 gidstr) @ space_pad 20 (st_size st) @
     [CHR 0x09] @ time_string E (st_mtime st) @ '' ''"

definition listentry ::
    "ls_env \<Rightarrow> bool \<Rightarrow> bool \<Rightarrow> string \<Rightarrow> stat \<Rightarrow> ls_cache \<Rightarrow> (string \<times> ls_cache) option" where
  "listentry E iflag lflag path st c =
     (let ino = (if iflag then print_int (int (st_ino st)) @ '' '' else []) in
      if lflag
      then (case ls_meta E (st_ino st) of (links, uid, gid) \<Rightarrow> do {
          c1 \<leftarrow> save_uid E uid c;
          c2 \<leftarrow> save_gid E gid c1;
          Some (ino @ long_line E (sav_uidstr c2) (sav_gidstr c2) st @ path @ [CHR 0x0A], c2) })
      else Some (ino @ path @ [CHR 0x0A], c))"

section \<open>\<^verbatim>\<open>dzfile-ls\<close>\<close>

definition shown_name :: "string \<Rightarrow> bool" where
  "shown_name n \<longleftrightarrow> n \<noteq> ''.'' \<and> n \<noteq> ''..'' \<and> n \<noteq> ''.glusterfs''"

fun ls_loop ::
    "ls_env \<Rightarrow> bool \<Rightarrow> bool \<Rightarrow> string \<Rightarrow> nat \<Rightarrow> string list \<Rightarrow> ls_cache \<Rightarrow> int \<Rightarrow> string
      \<Rightarrow> ('h, 'm, 'd, 'q) world \<Rightarrow> ((int \<times> string) \<times> ('h, 'm, 'd, 'q) world) option" where
  \<comment> \<open>the \<^verbatim>\<open>ret\<close> of the last \<^verbatim>\<open>dzfile_stat\<close>, and the output; a name that does not fit
    \<^verbatim>\<open>entname[1024]\<close> is undefined\<close>
  "ls_loop E iflag lflag src_file 0 dirp c ret out w = None"
| "ls_loop E iflag lflag src_file (Suc fuel) dirp c ret out w =
     (case dzfile_readdir dirp of
        None \<Rightarrow> None
      | Some (None, rest) \<Rightarrow> Some ((ret, out), w)
      | Some (Some d_name, rest) \<Rightarrow>
          if \<not> shown_name d_name then ls_loop E iflag lflag src_file fuel rest c ret out w
          else if \<not> lflag \<and> \<not> iflag
          then ls_loop E iflag lflag src_file fuel rest c ret (out @ d_name @ '' '') w
          else do {
            guard_ub (length (data_file src_file d_name) < 1024);
            (case dzfile_stat (data_file src_file d_name) w of
               (None, w1) \<Rightarrow> ls_loop E iflag lflag src_file fuel rest c (-1) out w1
             | (Some st, w1) \<Rightarrow> do {
                 (line, c1) \<leftarrow> listentry E iflag lflag d_name st c;
                 ls_loop E iflag lflag src_file fuel rest c1 0 (out @ line) w1 }) })"

definition ls_main ::
    "('h, 'm, 'd, 'q) libs \<Rightarrow> ls_env \<Rightarrow> nat \<Rightarrow> int \<Rightarrow> string list \<Rightarrow> ('h, 'm, 'd, 'q) world
      \<Rightarrow> ((int \<times> string) \<times> ('h, 'm, 'd, 'q) world) option" where
  "ls_main M E fuel pmax args w =
     (case parse_options ls_switch ''hd:vlim'' args of
        (r, operands) \<Rightarrow>
          if 0 < o_err r \<or> o_help r then Some ((-1, []), w)
          else (case on_os sys_malloc w of
              (False, w1) \<Rightarrow> Some ((-1, []), w1)
            | (True, w1) \<Rightarrow> do {
                let src_file = data_file (data_dir_of r) (case operands of [] \<Rightarrow> [] | a # _ \<Rightarrow> a);
                (ret, w2) \<leftarrow> dzfile_init M fuel pmax (Some (data_dir_of r)) None w1;
                if ret < 0 then Some ((-1, []), w2)
                else do {
                  (res, w3) \<leftarrow>
                    (case dzfile_stat src_file w2 of
                       (None, w3) \<Rightarrow> Some ((-1, []), w3)
                     | (Some st, w3) \<Rightarrow>
                         if and (st_mode st) S_IFDIR = 0 \<or> o_m r
                         then map_option (\<lambda>(line, c). ((0, line), w3))
                                (listentry E (o_i r) (o_l r) src_file st ls_cache0)
                         else do {
                           (dirp, w4) \<leftarrow> dzfile_opendir src_file w3;
                           (case dirp of
                              None \<Rightarrow> Some ((0, []), w4)
                            | Some es \<Rightarrow> do {
                                ((ret, out), w5) \<leftarrow>
                                  ls_loop E (o_i r) (o_l r) src_file fuel es ls_cache0 0 [] w4;
                                Some ((ret, out @ (if o_l r \<or> o_i r then [] else [CHR 0x0A])), w5) }) });
                  (r6, w6) \<leftarrow> dzfile_fini M w3;
                  Some (res, w6) } }))"

section \<open>\<^verbatim>\<open>dzfile-info\<close>\<close>

text \<open>
  What is printed, as numbers: the ratio is the \<^verbatim>\<open>comratio\<close> of the structure, the last field
  \<^verbatim>\<open>saved_bytes\<close> with the numerator and the denominator of its percentage.
\<close>

record info_report =
  ir_capacity :: "64 word"
  ir_used :: "64 word"
  ir_files :: "64 word"
  ir_total :: "64 word"
  ir_disk :: "64 word"
  ir_ratio :: "64 word"
  ir_saved :: "(64 word \<times> 64 word \<times> 64 word) option"

definition info_report_of :: "dzfile_dinfo \<Rightarrow> info_report option" where
  \<comment> \<open>a counter that the database did not have is undefined\<close>
  "info_report_of d = do {
     files \<leftarrow> di_filenum d;
     total \<leftarrow> totalsize d;
     disk \<leftarrow> disksize d;
     let saved = total - disk;
     Some \<lparr>ir_capacity = capacity d div 1024, ir_used = usedspace d div 1024, ir_files = files,
       ir_total = total, ir_disk = disk, ir_ratio = comratio d,
       ir_saved = (if disk < total then Some (saved, saved * 100, total) else None)\<rparr> }"

definition info_main ::
    "('h, 'm, 'd, 'q) libs \<Rightarrow> nat \<Rightarrow> int \<Rightarrow> dzfile_dinfo \<Rightarrow> string list \<Rightarrow> ('h, 'm, 'd, 'q) world
      \<Rightarrow> ((int \<times> info_report option) \<times> ('h, 'm, 'd, 'q) world) option" where
  \<comment> \<open>\<open>junk\<close> is the structure before the call\<close>
  "info_main M fuel pmax junk args w =
     (case parse_options info_switch ''hm:c:vlid:'' args of
        (r, operands) \<Rightarrow>
          if 0 < o_err r \<or> o_help r then Some ((-1, None), w)
          else (case on_os sys_malloc w of
              (False, w1) \<Rightarrow> Some ((-1, None), w1)
            | (True, w1) \<Rightarrow> do {
                let src_file = data_file (data_dir_of r) (case operands of [] \<Rightarrow> ''/'' | a # _ \<Rightarrow> a);
                (ret, w2) \<leftarrow> dzfile_init M fuel pmax (Some (data_dir_of r)) None w1;
                if ret < 0 then Some ((-1, None), w2)
                else do {
                  ((ret, d), w3) \<leftarrow> dzfile_dstat M src_file junk w2;
                  rep \<leftarrow> (if ret < 0 then Some None else map_option Some (info_report_of d));
                  (r4, w4) \<leftarrow> dzfile_fini M w3;
                  Some ((ret, rep), w4) } }))"

section \<open>\<^verbatim>\<open>dzfile\<close>\<close>

definition version_main :: "string list \<Rightarrow> int \<times> nat" where
  \<comment> \<open>the exit code, and how often the version is printed\<close>
  "version_main args =
     (case parse_options version_switch ''Vvdh'' args of
        (r, operands) \<Rightarrow>
          if 0 < o_err r \<or> o_help r then (-1, o_ver r) else (0, Suc (o_ver r)))"

section \<open>The mode string can be read back\<close>

definition mode_char :: "char \<Rightarrow> 32 word \<Rightarrow> 32 word \<Rightarrow> 32 word" where
  \<comment> \<open>the bits that a character stands for, with an extra bit for \<^verbatim>\<open>s\<close> and \<^verbatim>\<open>t\<close>\<close>
  "mode_char c b extra =
     (if c = CHR ''-'' then 0 else if c = CHR ''s'' \<or> c = CHR ''t'' then or b extra else b)"

definition parse_mode :: "string \<Rightarrow> 32 word" where
  "parse_mode str = foldr or (map2 (\<lambda>c (b, extra). mode_char c b extra) str
     [(S_IFDIR, 0), (0x100, 0), (0x80, 0), (0x40, 0x800), (0x20, 0), (0x10, 0), (0x8, 0x400),
      (0x4, 0), (0x2, 0), (0x1, 0x200)]) 0"

definition plain_mode :: "32 word \<Rightarrow> bool" where
  \<comment> \<open>special bits only where there is a right to execute\<close>
  "plain_mode m \<longleftrightarrow> (and m 0x800 \<noteq> 0 \<longrightarrow> and m 0x40 \<noteq> 0) \<and>
     (and m 0x400 \<noteq> 0 \<longrightarrow> and m 0x8 \<noteq> 0) \<and> (and m 0x200 \<noteq> 0 \<longrightarrow> and m 0x1 \<noteq> 0)"

lemma single_bit:
  assumes "b = push_bit i (1 :: 32 word)"
  shows "and m b = (if and m b \<noteq> 0 then b else 0)"
proof (cases "bit m i")
  case True
  then have "and m b = b" using assms by (intro bit_word_eqI) (auto simp: bit_simps)
  then show ?thesis by simp
next
  case False
  then have "and m b = 0" using assms by (intro bit_word_eqI) (auto simp: bit_simps)
  then show ?thesis by simp
qed

lemma mode_char_plain: "c \<noteq> CHR ''-'' \<Longrightarrow> c \<noteq> CHR ''s'' \<Longrightarrow> c \<noteq> CHR ''t'' \<Longrightarrow> b = push_bit i 1 \<Longrightarrow>
    mode_char (if and m b \<noteq> 0 then c else CHR ''-'') b 0 = and m b"
  by (subst (2) single_bit [of b i]) (simp_all add: mode_char_def)

lemma mode_char_exec: "c = CHR ''s'' \<or> c = CHR ''t'' \<Longrightarrow> b = push_bit i 1 \<Longrightarrow> e = push_bit k 1 \<Longrightarrow>
    (and m e \<noteq> 0 \<longrightarrow> and m b \<noteq> 0) \<Longrightarrow>
    mode_char (if and m b \<noteq> 0 then if and m e \<noteq> 0 then c else CHR ''x'' else CHR ''-'') b e =
      or (and m b) (and m e)"
  using single_bit [of b i m] single_bit [of e k m] by (auto simp: mode_char_def)

text \<open>The permissions in a long listing of \<^verbatim>\<open>dzfile-ls\<close> can be read back: the string determines
  the twelve permission bits, if the special bits are only set where the right to execute is,
  and the bit of \<^verbatim>\<open>S_IFDIR\<close>, which block devices and sockets have too: they are shown as
  directories.\<close>

theorem ls_mode_roundtrip:
  assumes "plain_mode m"
  shows "parse_mode (mode_string m) = and m 0x4FFF"
proof -
  have p: "0x4000 = push_bit 14 (1 :: 32 word)" "0x100 = push_bit 8 (1 :: 32 word)" "0x80 = push_bit 7 (1 :: 32 word)"
    "0x40 = push_bit 6 (1 :: 32 word)" "0x20 = push_bit 5 (1 :: 32 word)" "0x10 = push_bit 4 (1 :: 32 word)"
    "0x8 = push_bit 3 (1 :: 32 word)" "0x4 = push_bit 2 (1 :: 32 word)" "0x2 = push_bit 1 (1 :: 32 word)"
    "0x1 = push_bit 0 (1 :: 32 word)" "0x800 = push_bit 11 (1 :: 32 word)" "0x400 = push_bit 10 (1 :: 32 word)"
    "0x200 = push_bit 9 (1 :: 32 word)" by simp_all
  have x: "and m 0x800 \<noteq> 0 \<longrightarrow> and m 0x40 \<noteq> 0" "and m 0x400 \<noteq> 0 \<longrightarrow> and m 0x8 \<noteq> 0"
    "and m 0x200 \<noteq> 0 \<longrightarrow> and m 0x1 \<noteq> 0" using assms unfolding plain_mode_def by blast+
  note cells = mode_char_plain [OF _ _ _ p(1), of "CHR ''d''" m] mode_char_plain [OF _ _ _ p(2), of "CHR ''r''" m]
    mode_char_plain [OF _ _ _ p(3), of "CHR ''w''" m] mode_char_plain [OF _ _ _ p(5), of "CHR ''r''" m]
    mode_char_plain [OF _ _ _ p(6), of "CHR ''w''" m] mode_char_plain [OF _ _ _ p(8), of "CHR ''r''" m]
    mode_char_plain [OF _ _ _ p(9), of "CHR ''w''" m]
    mode_char_exec [OF _ p(4) p(11) x(1), of "CHR ''s''"] mode_char_exec [OF _ p(7) p(12) x(2), of "CHR ''s''"]
    mode_char_exec [OF _ p(10) p(13) x(3), of "CHR ''t''"]
  have "parse_mode (mode_string m) =
      or (and m 0x4000) (or (and m 0x100) (or (and m 0x80) (or (or (and m 0x40) (and m 0x800)) (or (and m 0x20)
      (or (and m 0x10) (or (or (and m 0x8) (and m 0x400)) (or (and m 0x4) (or (and m 0x2)
      (or (and m 0x1) (and m 0x200))))))))))"
    unfolding parse_mode_def mode_string_def using cells by (simp del: if_split)
  also have "\<dots> = and m (or 0x4000 (or 0x100 (or 0x80 (or (or 0x40 0x800) (or 0x20
      (or 0x10 (or (or 0x8 0x400) (or 0x4 (or 0x2 (or 0x1 0x200))))))))))"
    by (simp only: bit.conj_disj_distrib)
  finally show ?thesis by simp
qed

lemma ls_mode_roundtrip_witness: "mode_string 0x49ED = ''drwsr-xr-x'' \<and> parse_mode (mode_string 0x49ED) = 0x49ED"
  using ls_mode_roundtrip [of "0x49ED"] by (simp add: plain_mode_def mode_string_def)

section \<open>The cache of the owners\<close>

fun list_entries ::
    "ls_env \<Rightarrow> bool \<Rightarrow> (string \<times> stat) list \<Rightarrow> ls_cache \<Rightarrow> (string \<times> ls_cache) option" where
  \<comment> \<open>a long listing of many entries\<close>
  "list_entries E iflag [] c = Some ([], c)"
| "list_entries E iflag ((path, st) # es) c = do {
     (line, c1) \<leftarrow> listentry E iflag True path st c;
     (lines, c2) \<leftarrow> list_entries E iflag es c1;
     Some (line @ lines, c2) }"

definition entry_line :: "ls_env \<Rightarrow> bool \<Rightarrow> string \<times> stat \<Rightarrow> string" where
  \<comment> \<open>specification: each line from its own entry\<close>
  "entry_line E iflag e =
     (case (e, ls_meta E (st_ino (snd e))) of ((path, st), (links, uid, gid)) \<Rightarrow>
        (if iflag then print_int (int (st_ino st)) @ '' '' else []) @
        long_line E (uid_string E uid) (gid_string E gid) st @ path @ [CHR 0x0A])"

definition good_owner :: "ls_env \<Rightarrow> stat \<Rightarrow> bool" where
  "good_owner E st = (case ls_meta E (st_ino st) of (links, uid, gid) \<Rightarrow>
     uid \<noteq> -1 \<and> gid \<noteq> -1 \<and> length (uid_string E uid) < 255 \<and> length (gid_string E gid) < 7)"

definition cache_ok :: "ls_env \<Rightarrow> ls_cache \<Rightarrow> bool" where
  "cache_ok E c \<longleftrightarrow> (sav_uid c \<noteq> -1 \<longrightarrow> sav_uidstr c = uid_string E (sav_uid c)) \<and>
     (sav_gid c \<noteq> -1 \<longrightarrow> sav_gidstr c = gid_string E (sav_gid c))"

lemma save_uid_ok:
  assumes "cache_ok E c" "uid \<noteq> -1" "length (uid_string E uid) < 255"
  shows "\<exists>c1. save_uid E uid c = Some c1 \<and> sav_uidstr c1 = uid_string E uid \<and> cache_ok E c1"
proof (cases "uid = sav_uid c")
  case True
  with assms show ?thesis by (intro exI [of _ c]) (simp add: save_uid_def cache_ok_def)
next
  case False
  with assms show ?thesis
    by (intro exI [of _ "c\<lparr>sav_uid := uid, sav_uidstr := uid_string E uid\<rparr>"]) (simp add: save_uid_def cache_ok_def)
qed

lemma save_gid_ok:
  assumes "cache_ok E c" "gid \<noteq> -1" "length (gid_string E gid) < 7"
  shows "\<exists>c1. save_gid E gid c = Some c1 \<and> sav_gidstr c1 = gid_string E gid \<and> cache_ok E c1 \<and>
    sav_uidstr c1 = sav_uidstr c"
proof (cases "gid = sav_gid c")
  case True
  with assms show ?thesis by (intro exI [of _ c]) (simp add: save_gid_def cache_ok_def)
next
  case False
  with assms show ?thesis
    by (intro exI [of _ "c\<lparr>sav_gid := gid, sav_gidstr := gid_string E gid\<rparr>"]) (simp add: save_gid_def cache_ok_def)
qed

lemma listentry_cached:
  assumes "cache_ok E c" "good_owner E st"
  shows "\<exists>c'. listentry E iflag True path st c = Some (entry_line E iflag (path, st), c') \<and> cache_ok E c'"
proof -
  obtain links uid gid where m: "ls_meta E (st_ino st) = (links, uid, gid)" by (metis prod_cases3)
  with assms(2) have g: "uid \<noteq> -1" "gid \<noteq> -1" "length (uid_string E uid) < 255" "length (gid_string E gid) < 7"
    by (simp_all add: good_owner_def)
  from save_uid_ok [OF assms(1) g(1,3)] obtain c1 where c1: "save_uid E uid c = Some c1"
    "sav_uidstr c1 = uid_string E uid" "cache_ok E c1" by blast
  from save_gid_ok [OF c1(3) g(2,4)] obtain c2 where c2: "save_gid E gid c1 = Some c2"
    "sav_gidstr c2 = gid_string E gid" "cache_ok E c2" "sav_uidstr c2 = sav_uidstr c1" by blast
  show ?thesis
    using m c1 c2 by (intro exI [of _ c2]) (simp add: listentry_def entry_line_def)
qed

lemma list_entries_cached:
  assumes "cache_ok E c" "\<forall>e\<in>set es. good_owner E (snd e)"
  shows "map_option fst (list_entries E iflag es c) = Some (concat (map (entry_line E iflag) es))"
  using assms
proof (induction es arbitrary: c)
  case Nil
  then show ?case by simp
next
  case (Cons e es)
  obtain path st where e: "e = (path, st)" by fastforce
  with Cons.prems listentry_cached [of E c st iflag path] obtain c1 where
    c1: "listentry E iflag True path st c = Some (entry_line E iflag e, c1)" "cache_ok E c1" by auto
  from Cons.IH [OF c1(2)] Cons.prems(2) obtain c2 where
    "list_entries E iflag es c1 = Some (concat (map (entry_line E iflag) es), c2)" by auto
  with c1(1) e show ?case by simp
qed

lemma length_dec_ge: "10 ^ k \<le> n \<Longrightarrow> k < length (dec n)"
proof (induction k arbitrary: n)
  case 0
  then show ?case by (subst dec.simps) simp
next
  case (Suc k)
  then have "10 * 10 ^ k \<le> n" by simp
  moreover have "1 \<le> (10 :: nat) ^ k" by simp
  ultimately have "10 \<le> n" by linarith
  moreover have "10 ^ k \<le> n div 10" using Suc.prems by (simp add: less_eq_div_iff_mult_less_eq mult.commute)
  with Suc.IH have "k < length (dec (n div 10))" .
  ultimately show ?case by (subst dec.simps) simp
qed

text \<open>C35. The static variables in which \<open>listentry\<close> keeps the last owner and group do not show: a long
  listing has for each entry the line that the entry alone determines, where the names or numbers of the
  owners fit into their buffers and none is -1, the value that marks the variables as empty. A group without a name
  whose number has seven digits or more overflows the buffer for it.\<close>

theorem ls_cache_transparent:
  assumes "\<forall>e\<in>set es. good_owner E (snd e)"
    and "ls_meta E (st_ino st) = (links, uid, gid)"
    and "getgrgid E gid = None" "10 ^ 6 \<le> unat gid" "gid \<noteq> -1"
  shows "map_option fst (list_entries E iflag es ls_cache0) = Some (concat (map (entry_line E iflag) es)) \<and>
    listentry E iflag True path st ls_cache0 = None"
proof
  have "cache_ok E ls_cache0" by (simp add: cache_ok_def ls_cache0_def)
  then show "map_option fst (list_entries E iflag es ls_cache0) = Some (concat (map (entry_line E iflag) es))"
    using assms(1) by (rule list_entries_cached)
  have "6 < length (dec (unat gid))" using assms(4) by (rule length_dec_ge)
  then have g: "save_gid E gid c = None" if "sav_gid c = -1" for c
    using assms(3,5) that by (simp add: save_gid_def gid_string_def left_align_def)
  show "listentry E iflag True path st ls_cache0 = None"
  proof (cases "save_uid E uid ls_cache0")
    case None
    then show ?thesis using assms(2) by (simp add: listentry_def)
  next
    case (Some c1)
    then have "sav_gid c1 = -1"
      by (auto simp: save_uid_def ls_cache0_def bind_eq_Some_conv split: if_splits)
    with Some g show ?thesis using assms(2) by (simp add: listentry_def)
  qed
qed

definition demo_ls :: ls_env where
  "demo_ls = \<lparr>ls_meta = (\<lambda>i. (1, of_nat i, if i = 9 then 1000000 else 7)),
     getpwuid = (\<lambda>u. if u = 1 then Some ''chyd'' else None), getgrgid = (\<lambda>g. None),
     ls_time = (\<lambda>old t. if old then ''Jan 01  1970'' else ''Jan 01 00:00''), current_time = 100\<rparr>"

definition demo_stat :: "nat \<Rightarrow> stat" where
  "demo_stat i = \<lparr>st_ino = i, st_mode = 0x81A4, st_size = 3, st_mtime = 7\<rparr>"

lemma demo_ls_lines:
  "concat (map (entry_line demo_ls False) [(''a'', demo_stat 1), (''b'', demo_stat 1), (''c'', demo_stat 2)]) =
    ''-rw-r--r--   1 chyd     7                        3'' @ [CHR 0x09] @ ''Jan 01 00:00 a'' @ [CHR 0x0A] @
    ''-rw-r--r--   1 chyd     7                        3'' @ [CHR 0x09] @ ''Jan 01 00:00 b'' @ [CHR 0x0A] @
    ''-rw-r--r--   1 2        7                        3'' @ [CHR 0x09] @ ''Jan 01 00:00 c'' @ [CHR 0x0A]"
  by code_simp

lemma demo_owners: "good_owner demo_ls (demo_stat 1)" "good_owner demo_ls (demo_stat 2)"
  by code_simp+

lemma ls_cache_transparent_witness:
  "map_option fst (list_entries demo_ls False
      [(''a'', demo_stat 1), (''b'', demo_stat 1), (''c'', demo_stat 2)] ls_cache0) = Some (
    ''-rw-r--r--   1 chyd     7                        3'' @ [CHR 0x09] @ ''Jan 01 00:00 a'' @ [CHR 0x0A] @
    ''-rw-r--r--   1 chyd     7                        3'' @ [CHR 0x09] @ ''Jan 01 00:00 b'' @ [CHR 0x0A] @
    ''-rw-r--r--   1 2        7                        3'' @ [CHR 0x09] @ ''Jan 01 00:00 c'' @ [CHR 0x0A]) \<and>
    listentry demo_ls False True ''d'' (demo_stat 9) ls_cache0 = None"
  unfolding demo_ls_lines [symmetric]
  by (rule ls_cache_transparent [where links = 1 and uid = 9 and gid = 1000000])
    (simp_all add: demo_owners [simplified], simp_all add: demo_ls_def demo_stat_def)

section \<open>What is listed\<close>

lemma ls_loop_names:
  "map_option fst (ls_loop E False False src fuel dirp c ret out w) =
    map_option (\<lambda>ns. (ret, out @ concat (map (\<lambda>n. n @ '' '') (filter shown_name ns)))) (readdir_all fuel dirp)"
proof (induction fuel arbitrary: dirp out)
  case 0
  then show ?case by simp
next
  case (Suc fuel)
  then show ?case by (auto split: option.split simp: option.map_comp comp_def)
qed

text \<open>\<^verbatim>\<open>dzfile-ls\<close> of a directory without options prints the names of its entries, but those of
  compressed files and their temporary files and \<^verbatim>\<open>.glusterfs\<close>, in their order. A short dotted
  name makes it undefined, as \<^verbatim>\<open>.dzs\<close> does: of the data directory itself there is no listing.\<close>

theorem ls_lists_visible:
  assumes "length dirp < fuel"
  shows "map_option fst (ls_loop E False False src fuel dirp c 0 [] w) =
    (if \<exists>n\<in>set dirp. n = ''.dzs'' \<or> reads_before_start n then None
     else Some (0, concat (map (\<lambda>n. n @ '' '')
       (filter (\<lambda>n. \<not> is_hidden_base (after_slash n) \<and> shown_name n) dirp))))"
  by (simp add: ls_loop_names readdir_all_visible [OF assms])

lemma ls_lists_visible_witness:
  "map_option fst (ls_loop demo_ls False False ''/'' 9 [''.'', ''..'', ''a.txt'', ''.a.txt.DZF'', ''b'']
      ls_cache0 0 [] demo_world) = Some (0, ''a.txt b '')"
proof -
  let ?d = "[''.'', ''..'', ''a.txt'', ''.a.txt.DZF'', ''b'']"
  have "\<not> (\<exists>n\<in>set ?d. n = ''.dzs'' \<or> reads_before_start n)" by code_simp
  moreover have "concat (map (\<lambda>n. n @ '' '') (filter (\<lambda>n. \<not> is_hidden_base (after_slash n) \<and> shown_name n) ?d)) =
    ''a.txt b ''" by code_simp
  moreover have "map_option fst (ls_loop demo_ls False False ''/'' 9 ?d ls_cache0 0 [] demo_world) =
    (if \<exists>n\<in>set ?d. n = ''.dzs'' \<or> reads_before_start n then None
     else Some (0, concat (map (\<lambda>n. n @ '' '') (filter (\<lambda>n. \<not> is_hidden_base (after_slash n) \<and> shown_name n) ?d))))"
    by (rule ls_lists_visible) simp
  ultimately show ?thesis by presburger
qed

section \<open>Statistics of a converted file\<close>

text \<open>The report of \<open>dzfile_dstat\<close> on a converted file.\<close>

lemma dstat_value:
  assumes "sqlite_contract (sql M) view" "w_priv w = Some p" "db_open p" "env (w_os w) = []"
    and "sql_table (sql M) select_stmt (w_db w) = (SQLITE_OK, nrow, az)"
    and "0 \<le> v_written (view (w_db w))" "0 \<le> v_disk (view (w_db w))" "0 \<le> v_num (view (w_db w))"
    and "public_path path" "node_at (w_os w) (comps (hidden_name path)) = Some (j, m)" "\<not> i_dir m"
    and "node_at (w_os w) (comps path) = Some (i, n)" "\<not> i_dir n" "length (i_data m) < 2 ^ 63"
  shows "dzfile_dstat M path junk w = (if i_data m = [] then None else
      Some ((0, \<lparr>capacity = f_bsize (vfs (w_os w)) * f_blocks (vfs (w_os w)),
         usedspace = f_bsize (vfs (w_os w)) * (f_blocks (vfs (w_os w)) - f_bfree (vfs (w_os w))),
         di_files = f_files (vfs (w_os w)), di_filenum = Some 1, totalsize = Some (of_nat (length (i_data n))),
         disksize = Some (of_nat (length (i_data m))),
         comratio = of_nat (length (i_data n)) div of_nat (length (i_data m))\<rparr>),
       w\<lparr>w_priv := Some (p\<lparr>dblock := dblock p - 1\<rparr>)\<rparr>))"
proof -
  let ?e = "\<lparr>writtenbytes = Some (word_of_int (v_written (view (w_db w)))),
      diskbytes = Some (word_of_int (v_disk (view (w_db w)))),
      filenum = Some (word_of_int (v_num (view (w_db w))))\<rparr>"
  have fs: "on_os (sys_statfs path) w = (Some (vfs (w_os w)), w)"
    using assms(4,12) by (simp add: on_os_def sys_statfs_def)
  have g: "get_space_entry M (Some no_entry) w = Some ((0, Some ?e), w\<lparr>w_priv := Some (p\<lparr>dblock := dblock p - 1\<rparr>)\<rparr>)"
    by (rule get_space_entry_counters [OF assms(1,2,3,5-8)])
  have st: "sys_stat path (w_os w) = (Some (stat_of i n), w_os w)"
    "sys_stat (hidden_name path) (w_os w) = (Some (stat_of j m), w_os w)"
    using assms(4,10,12) by (simp_all add: sys_stat_def)
  have size: "\<not> i_dir k \<Longrightarrow> st_size (stat_of q k) = int (length (i_data k))" for q k
    by (simp add: stat_of_def)
  have f: "findhiddenFile path (w_os w) = Some (1, w_os w)"
    by (rule findhiddenFile_public [OF assms(9,4,10,11)])
  have b: "buildHiddenFile path (w_os w) = Some (Some (hidden_name path), w_os w)"
    using assms(4,9) by (simp add: buildHiddenFile_normal public_path_def)
  have z: "(of_nat (length (i_data m)) :: 64 word) = 0 \<longleftrightarrow> i_data m = []"
    using unat_of_nat_small [OF assms(14)] by auto
  show ?thesis
    using assms(2,11,13) fs g st f b z
    by (simp add: dzfile_dstat_def Let_def on_os_def size)
qed

text \<open>\<open>dzfile_dstat\<close> of a converted file gives its size, the size of the hidden file as what it
  takes on disk, and their quotient as integers, whatever the counters say; an empty hidden file
  is a division by zero. \<^verbatim>\<open>dzfile-info\<close> prints what has been saved only where the file has become
  smaller.\<close>

theorem dstat_converted:
  assumes "sqlite_contract (sql M) view" "w_priv w = Some p" "db_open p" "env (w_os w) = []"
    and "sql_table (sql M) select_stmt (w_db w) = (SQLITE_OK, nrow, az)"
    and "0 \<le> v_written (view (w_db w))" "0 \<le> v_disk (view (w_db w))" "0 \<le> v_num (view (w_db w))"
    and "public_path path" "node_at (w_os w) (comps (hidden_name path)) = Some (j, m)" "\<not> i_dir m"
    and "node_at (w_os w) (comps path) = Some (i, n)" "\<not> i_dir n"
    and "length (i_data n) < 2 ^ 63" "length (i_data m) < 2 ^ 63"
  shows "(case dzfile_dstat M path junk w of
       None \<Rightarrow> i_data m = []
     | Some ((ret, d), w') \<Rightarrow>
         i_data m \<noteq> [] \<and> ret = 0 \<and>
         map_option (\<lambda>r. (unat (ir_total r), unat (ir_disk r), unat (ir_ratio r),
             map_option (\<lambda>s. unat (fst s)) (ir_saved r))) (info_report_of d) =
           Some (length (i_data n), length (i_data m), length (i_data n) div length (i_data m),
             if length (i_data m) < length (i_data n)
             then Some (length (i_data n) - length (i_data m)) else None))"
proof -
  let ?n = "of_nat (length (i_data n)) :: 64 word" and ?m = "of_nat (length (i_data m)) :: 64 word"
  note dstat_value [OF assms(1-13,15), of junk]
  moreover have n: "unat ?n = length (i_data n)" and m: "unat ?m = length (i_data m)"
    using assms(14,15) by (simp_all only: unat_of_nat_small)
  moreover have lt: "?m < ?n \<longleftrightarrow> length (i_data m) < length (i_data n)"
    by (simp only: word_less_nat_alt n m)
  moreover have "unat (?n - ?m) = length (i_data n) - length (i_data m)"
    if "length (i_data m) < length (i_data n)"
  proof -
    have "?m \<le> ?n" using that lt by simp
    then show ?thesis by (simp only: unat_sub n m)
  qed
  moreover have "unat (?n div ?m) = length (i_data n) div length (i_data m)"
    by (simp only: unat_div n m)
  ultimately show ?thesis by (simp add: info_report_of_def Let_def)
qed

definition demo_small :: "(h5sim, shm_sim, dbview, string list) world" where
  \<comment> \<open>the hidden file of \<^verbatim>\<open>/f\<close> has one byte\<close>
  "demo_small = demo_conv\<lparr>w_os := (w_os demo_conv)\<lparr>inodes := (inodes (w_os demo_conv))
     (2 := Some \<lparr>i_dir = False, i_perm = 0x1A4, i_data = [9], i_mtime = 7\<rparr>)\<rparr>\<rparr>"

definition junk_info :: dzfile_dinfo where
  "junk_info = \<lparr>capacity = 7, usedspace = 7, di_files = 7, di_filenum = None, totalsize = None,
     disksize = None, comratio = 7\<rparr>"

lemma dstat_converted_witness:
  "\<exists>d w'. dzfile_dstat sim_libs ''/f'' junk_info demo_small = Some ((0, d), w') \<and>
    map_option (\<lambda>r. (unat (ir_total r), unat (ir_disk r), unat (ir_ratio r),
      map_option (\<lambda>s. unat (fst s)) (ir_saved r))) (info_report_of d) = Some (3, 1, 3, Some 2)"
proof -
  have d: "node_at (w_os demo_small) (comps ''/f'') =
      Some (1, \<lparr>i_dir = False, i_perm = 0x1A4, i_data = [0, 0, 0], i_mtime = 7\<rparr>)"
    "node_at (w_os demo_small) (comps (hidden_name ''/f'')) =
      Some (2, \<lparr>i_dir = False, i_perm = 0x1A4, i_data = [9], i_mtime = 7\<rparr>)"
    by (simp_all add: demo_small_def demo_conv_def demo_after_def comps_demo node_at_def numeral_3_eq_3)
  have pr: "w_priv demo_small = Some (the (w_priv demo_world))" "db_open (the (w_priv demo_world))"
    "env (w_os demo_small) = []" "w_db demo_small = w_db demo_world"
    by (simp_all add: demo_small_def demo_conv_def demo_world_def demo_after_def)
  have c: "sqlite_contract (sql sim_libs) (\<lambda>v. v)" "0 \<le> v_written (w_db demo_world)"
    "0 \<le> v_disk (w_db demo_world)" "0 \<le> v_num (w_db demo_world)"
    by (simp_all add: sim_sql_contract demo_world_def)
  obtain az where az: "sql_table (sql sim_libs) select_stmt (w_db demo_small) = (SQLITE_OK, 1, az)"
    by (simp add: sim_sql_def)
  show ?thesis
    using dstat_converted [where junk = junk_info, OF c(1) pr(1-3) az c(2-4) [folded pr(4)] demo_public d(2) _ d(1)]
    by (cases "dzfile_dstat sim_libs ''/f'' junk_info demo_small") auto
qed

end
