(* ===== verification/ThreadPool.thy ===== *)
theory ThreadPool
  imports DZ_Prelude "HOL-Library.Multiset"
begin

text \<open>
  The pool of worker threads, \<^verbatim>\<open>src/threadPool.hh\<close>, as a step relation. The three critical
  sections of the mutex (a worker's check of its condition, the insertion of a task, the setting
  of \<^verbatim>\<open>stop\<close>) are one step each; the notifications, made after the mutex is released, are steps of
  their own, so that every worker may run between the two. A waiting worker may wake spuriously.
  The last three fields of the state record what has happened; no step reads them.
\<close>

section \<open>State and steps\<close>

datatype 'a worker =
    Ready       \<comment> \<open>about to take the mutex and check the condition\<close>
  | Waiting     \<comment> \<open>blocked in \<^verbatim>\<open>condition.wait\<close>\<close>
  | Running 'a
  | Returned

datatype client =
    Idle        \<comment> \<open>outside the pool's functions\<close>
  | Notifying   \<comment> \<open>in \<^verbatim>\<open>enqueue\<close>, before \<^verbatim>\<open>notify_one\<close>\<close>
  | Stopping    \<comment> \<open>in the destructor, before \<^verbatim>\<open>notify_all\<close>\<close>
  | Joining
  | Gone

record 'a pool =
  p_tasks :: "'a list"
  p_stop :: bool
  p_workers :: "'a worker list"
  p_client :: client
  p_submitted :: "'a list"
  p_started :: "'a list"
  p_finished :: "'a list"

definition new_pool :: "nat \<Rightarrow> 'a pool" where
  \<comment> \<open>the constructor\<close>
  "new_pool n = \<lparr>p_tasks = [], p_stop = False, p_workers = replicate n Ready, p_client = Idle,
     p_submitted = [], p_started = [], p_finished = []\<rparr>"

definition set_worker :: "nat \<Rightarrow> 'a worker \<Rightarrow> 'a pool \<Rightarrow> 'a pool" where
  "set_worker i v p = p\<lparr>p_workers := (p_workers p)[i := v]\<rparr>"

definition worker_at :: "'a pool \<Rightarrow> nat \<Rightarrow> 'a worker \<Rightarrow> bool" where
  "worker_at p i v \<longleftrightarrow> i < length (p_workers p) \<and> p_workers p ! i = v"

fun wake :: "'a worker \<Rightarrow> 'a worker" where
  "wake Waiting = Ready"
| "wake v = v"

datatype 'a event =
    Enqueue 'a | NotifyOne | SetStop | NotifyAll | Join
  | Wait nat | Take nat | Finish nat | Return nat | Spurious nat

inductive pool_step :: "'a event \<Rightarrow> 'a pool \<Rightarrow> 'a pool \<Rightarrow> bool" where
  enqueue: "p_client p = Idle \<Longrightarrow>
    pool_step (Enqueue x) p (p\<lparr>p_tasks := p_tasks p @ [x], p_client := Notifying,
                              p_submitted := p_submitted p @ [x]\<rparr>)"
| notify_one: "p_client p = Notifying \<Longrightarrow> worker_at p i Waiting \<Longrightarrow>
    pool_step NotifyOne p (set_worker i Ready p\<lparr>p_client := Idle\<rparr>)"
| notify_none: "p_client p = Notifying \<Longrightarrow> Waiting \<notin> set (p_workers p) \<Longrightarrow>
    pool_step NotifyOne p (p\<lparr>p_client := Idle\<rparr>)"
| set_stop: "p_client p = Idle \<Longrightarrow> pool_step SetStop p (p\<lparr>p_stop := True, p_client := Stopping\<rparr>)"
| notify_all: "p_client p = Stopping \<Longrightarrow>
    pool_step NotifyAll p (p\<lparr>p_workers := map wake (p_workers p), p_client := Joining\<rparr>)"
| join: "p_client p = Joining \<Longrightarrow> set (p_workers p) \<subseteq> {Returned} \<Longrightarrow>
    pool_step Join p (p\<lparr>p_client := Gone\<rparr>)"
| wait: "worker_at p i Ready \<Longrightarrow> \<not> (p_stop p \<or> p_tasks p \<noteq> []) \<Longrightarrow>
    pool_step (Wait i) p (set_worker i Waiting p)"
| return: "worker_at p i Ready \<Longrightarrow> p_stop p \<and> p_tasks p = [] \<Longrightarrow>
    pool_step (Return i) p (set_worker i Returned p)"
| take: "worker_at p i Ready \<Longrightarrow> p_tasks p = x # r \<Longrightarrow>
    pool_step (Take i) p (set_worker i (Running x) p\<lparr>p_tasks := r, p_started := p_started p @ [x]\<rparr>)"
| finish: "worker_at p i (Running x) \<Longrightarrow>
    pool_step (Finish i) p (set_worker i Ready p\<lparr>p_finished := p_finished p @ [x]\<rparr>)"
| spurious: "worker_at p i Waiting \<Longrightarrow> pool_step (Spurious i) p (set_worker i Ready p)"

inductive pool_reach :: "nat \<Rightarrow> 'a pool \<Rightarrow> bool" for n where
  start: "pool_reach n (new_pool n)"
| step: "pool_reach n p \<Longrightarrow> pool_step e p p' \<Longrightarrow> pool_reach n p'"

inductive_simps pool_step_simps:
  "pool_step (Enqueue x) p p'" "pool_step (Wait i) p p'" "pool_step (Take i) p p'"

section \<open>The invariant\<close>

fun running :: "'a worker \<Rightarrow> 'a multiset" where
  "running (Running x) = {#x#}"
| "running v = {#}"

definition total :: "('a worker \<Rightarrow> 'b::comm_monoid_add) \<Rightarrow> 'a pool \<Rightarrow> 'b" where
  "total f p = sum_list (map f (p_workers p))"

definition ready :: "'a worker \<Rightarrow> nat" where
  "ready v = (if v = Ready then 1 else 0)"

lemma wake_simps [simp]:
  "wake v \<noteq> Waiting" "Waiting \<noteq> wake v" "wake v = Returned \<longleftrightarrow> v = Returned"
  "Returned = wake v \<longleftrightarrow> v = Returned" "running (wake v) = running v"
  by (cases v, simp_all)+

lemma sum_list_map_update:
  "i < length ws \<Longrightarrow>
    sum_list (map f (ws[i := v])) + f (ws ! i) = sum_list (map f ws) + (f v :: 'b::comm_monoid_add)"
proof (induction ws arbitrary: i)
  case Nil
  then show ?case by simp
next
  case (Cons w ws)
  show ?case
  proof (cases i)
    case 0
    then show ?thesis by (simp add: ac_simps)
  next
    case (Suc j)
    with Cons show ?thesis by (simp add: add.assoc)
  qed
qed

lemma total_set_worker:
  "worker_at p i u \<Longrightarrow> total f (set_worker i v p) + f u = total f p + f v"
  by (auto simp: total_def worker_at_def set_worker_def sum_list_map_update)

lemma set_worker_simps [simp]:
  "p_tasks (set_worker i v p) = p_tasks p" "p_stop (set_worker i v p) = p_stop p"
  "p_client (set_worker i v p) = p_client p" "p_submitted (set_worker i v p) = p_submitted p"
  "p_started (set_worker i v p) = p_started p" "p_finished (set_worker i v p) = p_finished p"
  "length (p_workers (set_worker i v p)) = length (p_workers p)"
  by (simp_all add: set_worker_def)

lemma total_simps [simp]:
  "total f (p\<lparr>p_tasks := t\<rparr>) = total f p" "total f (p\<lparr>p_client := c\<rparr>) = total f p"
  "total f (p\<lparr>p_stop := b\<rparr>) = total f p" "total f (p\<lparr>p_submitted := s\<rparr>) = total f p"
  "total f (p\<lparr>p_started := s\<rparr>) = total f p" "total f (p\<lparr>p_finished := s\<rparr>) = total f p"
  by (simp_all add: total_def)

lemma set_worker_set: "v \<in> set (p_workers (set_worker i u p)) \<Longrightarrow> v = u \<or> v \<in> set (p_workers p)"
  using set_update_subset_insert [of "p_workers p" i u] by (auto simp: set_worker_def)

lemma worker_at_set: "worker_at p i v \<Longrightarrow> v \<in> set (p_workers p)"
  by (auto simp: worker_at_def)

text \<open>The tasks: none is lost, doubled or overtaken on the way to a worker.\<close>

definition tasks_inv :: "'a pool \<Rightarrow> bool" where
  "tasks_inv p \<longleftrightarrow> p_submitted p = p_started p @ p_tasks p \<and>
     mset (p_started p) = mset (p_finished p) + total running p"

text \<open>The wake-ups: while a worker waits, every task in the queue has a worker on its way.\<close>

definition wake_inv :: "'a pool \<Rightarrow> bool" where
  "wake_inv p \<longleftrightarrow> (Waiting \<in> set (p_workers p) \<longrightarrow>
     length (p_tasks p) \<le> total ready p + (if p_client p = Notifying then 1 else 0))"

text \<open>The end of the pool.\<close>

definition stop_inv :: "'a pool \<Rightarrow> bool" where
  "stop_inv p \<longleftrightarrow> (p_stop p \<longleftrightarrow> p_client p \<in> {Stopping, Joining, Gone}) \<and>
     (p_client p \<in> {Joining, Gone} \<longrightarrow> Waiting \<notin> set (p_workers p)) \<and>
     (Returned \<in> set (p_workers p) \<longrightarrow> p_stop p \<and> p_tasks p = []) \<and>
     (p_client p = Gone \<longrightarrow> set (p_workers p) \<subseteq> {Returned})"

lemma tasks_inv_step: "pool_step e p p' \<Longrightarrow> tasks_inv p \<Longrightarrow> tasks_inv p'"
proof (induction rule: pool_step.induct)
  case (notify_all p)
  then show ?case by (simp add: tasks_inv_def total_def o_def)
next
  case (take p i x r)
  with total_set_worker [OF take(1), of running "Running x"] show ?case by (simp add: tasks_inv_def)
next
  case (finish p i x)
  with total_set_worker [OF finish(1), of running Ready] show ?case by (simp add: tasks_inv_def)
next
  case (notify_one p i)
  with total_set_worker [OF notify_one(2), of running Ready] show ?case by (simp add: tasks_inv_def)
next
  case (wait p i)
  with total_set_worker [OF wait(1), of running Waiting] show ?case by (simp add: tasks_inv_def)
next
  case (return p i)
  with total_set_worker [OF return(1), of running Returned] show ?case by (simp add: tasks_inv_def)
next
  case (spurious p i)
  with total_set_worker [OF spurious(1), of running Ready] show ?case by (simp add: tasks_inv_def)
qed (simp_all add: tasks_inv_def)

lemma wake_inv_step: "pool_step e p p' \<Longrightarrow> wake_inv p \<Longrightarrow> stop_inv p \<Longrightarrow> wake_inv p'"
proof (induction rule: pool_step.induct)
  case (notify_all p)
  then show ?case by (auto simp: wake_inv_def)
next
  case (take p i x r)
  with total_set_worker [OF take(1), of ready "Running x"] show ?case
    by (auto simp: wake_inv_def ready_def dest: set_worker_set)
next
  case (finish p i x)
  with total_set_worker [OF finish(1), of ready Ready] show ?case
    by (auto simp: wake_inv_def ready_def dest: set_worker_set)
next
  case (notify_one p i)
  with total_set_worker [OF notify_one(2), of ready Ready] worker_at_set [OF notify_one(2)] show ?case
    by (auto simp: wake_inv_def ready_def)
next
  case (spurious p i)
  with total_set_worker [OF spurious(1), of ready Ready] worker_at_set [OF spurious(1)] show ?case
    by (auto simp: wake_inv_def ready_def)
next
  case (return p i)
  then show ?case by (auto simp: wake_inv_def)
qed (auto simp: wake_inv_def split: if_splits)

lemma stop_inv_step: "pool_step e p p' \<Longrightarrow> stop_inv p \<Longrightarrow> stop_inv p'"
proof (induction rule: pool_step.induct)
  case (notify_all p)
  then show ?case by (auto simp: stop_inv_def)
next
  case (take p i x r)
  then show ?case by (auto simp: stop_inv_def dest!: set_worker_set worker_at_set)
next
  case (finish p i x)
  then show ?case by (auto simp: stop_inv_def dest!: set_worker_set worker_at_set)
next
  case (return p i)
  then show ?case by (auto simp: stop_inv_def dest!: set_worker_set worker_at_set)
next
  case (wait p i)
  then show ?case by (auto simp: stop_inv_def dest!: set_worker_set worker_at_set)
next
  case (notify_one p i)
  then show ?case by (auto simp: stop_inv_def dest!: set_worker_set worker_at_set)
next
  case (spurious p i)
  then show ?case by (auto simp: stop_inv_def dest!: set_worker_set worker_at_set)
qed (auto simp: stop_inv_def)

definition pool_inv :: "nat \<Rightarrow> 'a pool \<Rightarrow> bool" where
  "pool_inv n p \<longleftrightarrow> length (p_workers p) = n \<and> tasks_inv p \<and> wake_inv p \<and> stop_inv p"

lemma workers_step: "pool_step e p p' \<Longrightarrow> length (p_workers p') = length (p_workers p)"
  by (induction rule: pool_step.induct) simp_all

lemma pool_reach_inv: "pool_reach n p \<Longrightarrow> pool_inv n p"
proof (induction rule: pool_reach.induct)
  case start
  have "total running (new_pool n) = {#}" by (induction n) (simp_all add: total_def new_pool_def)
  then show ?case by (simp add: pool_inv_def tasks_inv_def wake_inv_def stop_inv_def new_pool_def)
next
  case (step p e p')
  then show ?case
    by (auto simp: pool_inv_def workers_step intro: tasks_inv_step wake_inv_step stop_inv_step)
qed

section \<open>What a user of the pool relies on\<close>

text \<open>
  The contract of a pool, for a program that only submits tasks: they are started in the order in
  which they were submitted, and none more often than it was submitted.
\<close>

locale executor =
  fixes reach :: "'p \<Rightarrow> bool"
    and submitted started pending finished :: "'p \<Rightarrow> 'a list"
  assumes in_order: "reach p \<Longrightarrow> submitted p = started p @ pending p"
    and run_once: "reach p \<Longrightarrow> mset (finished p) \<subseteq># mset (started p)"
begin

lemma started_submitted: "reach p \<Longrightarrow> set (started p) \<subseteq> set (submitted p)"
  by (simp add: in_order)

lemma finished_submitted: "reach p \<Longrightarrow> mset (finished p) \<subseteq># mset (submitted p)"
  using run_once by (fastforce simp: in_order intro: subset_mset.order_trans)

lemma distinct_finished:
  assumes "reach p" "distinct (submitted p)"
  shows "distinct (finished p)"
proof -
  have "count (mset (finished p)) x \<le> count (mset (submitted p)) x" for x
    using finished_submitted [OF assms(1)] by (rule mset_subset_eq_count)
  moreover have "count (mset (submitted p)) x \<le> 1" for x
    using assms(2) by (simp add: distinct_count_atmost_1)
  ultimately have "count (mset (finished p)) x \<le> 1" for x by (meson order_trans)
  then show ?thesis by (simp add: distinct_count_atmost_1 le_Suc_eq)
qed

end

interpretation pool: executor "pool_reach n" p_submitted p_started p_tasks p_finished
proof unfold_locales
  fix p :: "'a pool"
  assume "pool_reach n p"
  then have "tasks_inv p" by (auto dest: pool_reach_inv simp: pool_inv_def)
  then show "p_submitted p = p_started p @ p_tasks p" "mset (p_finished p) \<subseteq># mset (p_started p)"
    by (simp_all add: tasks_inv_def)
qed

section \<open>Order, wake-ups and progress\<close>

text \<open>C19. The pool loses, doubles and reorders no task: in every reachable state the tasks submitted
  are those started, in the same order, and then the queue; what has been started is finished or
  in the hands of a worker; and a file submitted once is processed at most once.\<close>

theorem pool_keeps_tasks:
  assumes "pool_reach n p"
  shows "p_submitted p = p_started p @ p_tasks p \<and>
    mset (p_started p) = mset (p_finished p) + total running p \<and>
    (distinct (p_submitted p) \<longrightarrow> distinct (p_finished p))"
proof -
  have "tasks_inv p" using pool_reach_inv [OF assms] by (simp add: pool_inv_def)
  with pool.distinct_finished [OF assms] show ?thesis by (simp add: tasks_inv_def)
qed

text \<open>C25. No wake-up is lost, although \<^verbatim>\<open>notify_one\<close> is called after the mutex has been released:
  while some worker waits, there are at least as many workers on their way to the queue (one
  more, if the notification is still to come) as there are tasks in it.\<close>

theorem pool_no_lost_wakeup:
  assumes "pool_reach n p" "Waiting \<in> set (p_workers p)"
  shows "length (p_tasks p) \<le> total ready p + (if p_client p = Notifying then 1 else 0)"
  using pool_reach_inv [OF assms(1)] assms(2) by (simp add: pool_inv_def wake_inv_def)

text \<open>The steps that the pool makes by itself, and a measure of the work that is left.\<close>

fun internal_event :: "'a event \<Rightarrow> bool" where
  "internal_event (Enqueue x) = False"
| "internal_event SetStop = False"
| "internal_event (Spurious i) = False"
| "internal_event e = True"

definition internal :: "'a pool \<Rightarrow> 'a pool \<Rightarrow> bool" where
  "internal p p' \<longleftrightarrow> (\<exists>e. internal_event e \<and> pool_step e p p')"

fun weight :: "'a worker \<Rightarrow> nat" where
  "weight Ready = 1"
| "weight (Running x) = 2"
| "weight v = 0"

fun client_work :: "nat \<Rightarrow> client \<Rightarrow> nat" where
  "client_work n Notifying = 2"
| "client_work n Stopping = n + 2"
| "client_work n Joining = 1"
| "client_work n c = 0"

definition work :: "'a pool \<Rightarrow> nat" where
  "work p = 2 * length (p_tasks p) + total weight p + client_work (length (p_workers p)) (p_client p)"

lemma weight_wake_le: "sum_list (map (weight \<circ> wake) ws) \<le> sum_list (map weight ws) + length ws"
proof (induction ws)
  case (Cons v ws)
  have "weight (wake v) \<le> Suc (weight v)" by (cases v) simp_all
  with Cons show ?case by simp
qed simp

lemma internal_work: "internal p p' \<Longrightarrow> work p' < work p"
proof -
  assume "internal p p'"
  then obtain e where "pool_step e p p'" "internal_event e" by (auto simp: internal_def)
  then show ?thesis
  proof (induction rule: pool_step.induct)
    case (notify_one p i)
    with total_set_worker [of p i Waiting weight Ready] show ?case by (simp add: work_def)
  next
    case (notify_all p)
    with weight_wake_le [of "p_workers p"] show ?case by (simp add: work_def total_def o_def)
  next
    case (wait p i)
    with total_set_worker [of p i Ready weight Waiting] show ?case by (simp add: work_def)
  next
    case (return p i)
    with total_set_worker [of p i Ready weight Returned] show ?case by (simp add: work_def)
  next
    case (take p i x r)
    with total_set_worker [of p i Ready weight "Running x"] show ?case by (simp add: work_def)
  next
    case (finish p i x)
    with total_set_worker [of p i "Running x" weight Ready] show ?case by (simp add: work_def)
  qed (simp_all add: work_def)
qed

lemma no_infinite_internal: "\<not> (\<exists>f. f 0 = p \<and> (\<forall>k. internal (f k) (f (Suc k))))"
proof
  assume "\<exists>f. f 0 = p \<and> (\<forall>k. internal (f k) (f (Suc k)))"
  then obtain f where "f 0 = p" "\<forall>k. internal (f k) (f (Suc k))" by blast
  then have "\<forall>k. (f (Suc k), f k) \<in> measure work" by (simp add: internal_work)
  with wf_measure [of work] show False unfolding wf_iff_no_infinite_down_chain by blast
qed

lemma internalI: "pool_step e p p' \<Longrightarrow> internal_event e \<Longrightarrow> \<exists>p'. internal p p'"
  by (auto simp: internal_def)

lemma total_zero: "(\<And>v. v \<in> set (p_workers p) \<Longrightarrow> f v = 0) \<Longrightarrow> total f p = 0"
proof -
  have "(\<forall>v\<in>set ws. f v = 0) \<Longrightarrow> sum_list (map f ws) = 0" for ws by (induction ws) auto
  then show "(\<And>v. v \<in> set (p_workers p) \<Longrightarrow> f v = 0) \<Longrightarrow> total f p = 0" by (simp add: total_def)
qed

lemma worker_internal:
  assumes "v \<in> set (p_workers p)" "v = Ready \<or> running v \<noteq> {#}"
  shows "\<exists>p'. internal p p'"
proof -
  obtain i where i: "worker_at p i v" using assms(1) by (auto simp: in_set_conv_nth worker_at_def)
  show ?thesis
  proof (cases v)
    case Ready
    show ?thesis
    proof (cases "p_tasks p")
      case Nil
      then show ?thesis
        using i Ready internalI [OF pool_step.wait [of p i]] internalI [OF pool_step.return [of p i]]
        by (cases "p_stop p") simp_all
    next
      case (Cons x r)
      then show ?thesis using i Ready internalI [OF pool_step.take [of p i x r]] by simp
    qed
  next
    case (Running x)
    then show ?thesis using i internalI [OF pool_step.finish [of p i x]] by simp
  qed (use assms(2) in auto)
qed

lemma stuck_done:
  assumes I: "pool_inv n p" and n: "0 < n" and s: "\<nexists>p'. internal p p'"
  shows "mset (p_finished p) = mset (p_submitted p)" and "p_stop p \<Longrightarrow> p_client p = Gone"
proof -
  have inv: "tasks_inv p" "wake_inv p" "stop_inv p" "length (p_workers p) = n"
    using I by (simp_all add: pool_inv_def)
  have w: "v = Waiting \<or> v = Returned" if "v \<in> set (p_workers p)" for v
    using worker_internal [OF that] s by (cases v) auto
  have run: "total running p = {#}" by (rule total_zero) (use w in force)
  have rdy: "total ready p = 0" by (rule total_zero) (use w in \<open>force simp: ready_def\<close>)
  have "\<exists>i. worker_at p i Waiting" if "Waiting \<in> set (p_workers p)"
    using that by (auto simp: in_set_conv_nth worker_at_def)
  then have cl: "p_client p \<noteq> Notifying" "p_client p \<noteq> Stopping"
    using s internalI [OF pool_step.notify_none [of p]] internalI [OF pool_step.notify_one [of p]]
      internalI [OF pool_step.notify_all [of p]] by auto
  have tasks: "p_tasks p = []"
  proof (cases "Returned \<in> set (p_workers p)")
    case True
    with inv(3) show ?thesis by (simp add: stop_inv_def)
  next
    case False
    have "p_workers p \<noteq> []" using inv(4) n by auto
    with False w have "Waiting \<in> set (p_workers p)" by (metis last_in_set)
    with inv(2) rdy cl show ?thesis by (simp add: wake_inv_def)
  qed
  with inv(1) run show "mset (p_finished p) = mset (p_submitted p)" by (simp add: tasks_inv_def)
  show "p_client p = Gone" if st: "p_stop p"
  proof (rule ccontr)
    assume "p_client p \<noteq> Gone"
    with inv(3) cl st have j: "p_client p = Joining" by (simp add: stop_inv_def)
    with inv(3) w have "set (p_workers p) \<subseteq> {Returned}" by (auto simp: stop_inv_def)
    with j internalI [OF pool_step.join [of p]] s show False by simp
  qed
qed

lemma internal_ends: "\<exists>p'. internal\<^sup>*\<^sup>* p p' \<and> (\<nexists>q. internal p' q)"
proof (induction "work p" arbitrary: p rule: less_induct)
  case less
  show ?case
  proof (cases "\<exists>q. internal p q")
    case True
    then obtain q where q: "internal p q" by blast
    from less [OF internal_work [OF q]] q show ?thesis by (meson converse_rtranclp_into_rtranclp)
  qed blast
qed

lemma internal_keeps:
  assumes "internal p p'"
  shows "p_submitted p' = p_submitted p" "p_stop p' = p_stop p" "pool_reach n p \<Longrightarrow> pool_reach n p'"
proof -
  obtain e where e: "pool_step e p p'" "internal_event e" using assms by (auto simp: internal_def)
  then show "p_submitted p' = p_submitted p" "p_stop p' = p_stop p"
    by (induction rule: pool_step.induct) simp_all
  show "pool_reach n p'" if "pool_reach n p" using that e(1) by (rule pool_reach.step)
qed

lemma internals_keep:
  "internal\<^sup>*\<^sup>* p p' \<Longrightarrow> pool_reach n p \<Longrightarrow>
    p_submitted p' = p_submitted p \<and> p_stop p' = p_stop p \<and> pool_reach n p'"
  by (induction rule: rtranclp_induct) (auto simp: internal_keeps)

text \<open>C18. With at least one thread the pool drains: from every reachable state it makes only
  finitely many steps by itself, and where it can make no more, every task submitted has been
  processed and, if the destructor has been called, it has returned.\<close>

theorem pool_drains:
  assumes "pool_reach n p" "0 < n"
  shows "\<not> (\<exists>f. f 0 = p \<and> (\<forall>k. internal (f k) (f (Suc k)))) \<and>
    (\<forall>p'. internal\<^sup>*\<^sup>* p p' \<longrightarrow> (\<nexists>q. internal p' q) \<longrightarrow>
      mset (p_finished p') = mset (p_submitted p) \<and> (p_stop p \<longrightarrow> p_client p' = Gone))"
proof (intro conjI no_infinite_internal allI impI)
  fix p'
  assume st: "internal\<^sup>*\<^sup>* p p'" and stuck: "\<nexists>q. internal p' q"
  from internals_keep [OF st assms(1)] have k: "p_submitted p' = p_submitted p" "p_stop p' = p_stop p"
    "pool_inv n p'" by (auto dest: pool_reach_inv)
  from stuck_done [OF k(3) assms(2) stuck] k
  show "mset (p_finished p') = mset (p_submitted p)" "p_stop p \<Longrightarrow> p_client p' = Gone" by simp_all
qed

text \<open>A pool of no threads, which is what the daemon makes of a configuration without
  \<^verbatim>\<open>nbthread\<close>, never starts a task: the queue keeps all that was submitted.\<close>

theorem pool_without_threads:
  assumes "pool_reach 0 p"
  shows "p_started p = [] \<and> p_finished p = [] \<and> p_tasks p = p_submitted p"
proof -
  have "pool_reach 0 p \<Longrightarrow> p_started p = []" for p :: "'a pool"
  proof (induction rule: pool_reach.induct)
    case start
    then show ?case by (simp add: new_pool_def)
  next
    case (step p e p')
    have "p_workers p = []" using pool_reach_inv [OF step(1)] by (simp add: pool_inv_def)
    with step(2,3) show ?case
      by (induction rule: pool_step.induct) (simp_all add: worker_at_def)
  qed
  from this [OF assms] pool.in_order [OF assms] pool.run_once [OF assms] show ?thesis by simp
qed

text \<open>Two submissions of the same task can be with two workers at the same time.\<close>

lemma take_reach:
  assumes "pool_reach n p" "worker_at p i Ready" "p_tasks p = x # r"
  shows "\<exists>p'. pool_reach n p' \<and> p_workers p' = (p_workers p)[i := Running x] \<and> p_tasks p' = r"
  using pool_reach.step [OF assms(1) pool_step.take [OF assms(2,3)]]
  by (intro exI, intro conjI, assumption) (simp_all add: set_worker_def)

lemma pool_runs_twice:
  "\<exists>p. pool_reach (Suc (Suc n)) p \<and> worker_at p 0 (Running x) \<and> worker_at p 1 (Running x)"
proof -
  let ?p = "\<lambda>ws t c s. \<lparr>p_tasks = t, p_stop = False, p_workers = ws @ replicate n Ready, p_client = c,
     p_submitted = s, p_started = [], p_finished = []\<rparr>"
  let ?n = "Suc (Suc n)"
  have a: "pool_reach ?n (?p [Ready, Ready] [] Idle [])"
    using pool_reach.start [of ?n] by (simp add: new_pool_def)
  have b: "pool_reach ?n (?p [Ready, Ready] [x] Notifying [x])"
    using pool_reach.step [OF a pool_step.enqueue [of _ x]] by simp
  have c: "pool_reach ?n (?p [Ready, Ready] [x] Idle [x])"
    using pool_reach.step [OF b pool_step.notify_none] by simp
  have d: "pool_reach ?n (?p [Ready, Ready] [x, x] Notifying [x, x])"
    using pool_reach.step [OF c pool_step.enqueue [of _ x]] by simp
  have "worker_at (?p [Ready, Ready] [x, x] Notifying [x, x]) 0 Ready" by (simp add: worker_at_def)
  from take_reach [OF d this, of x "[x]"] obtain q where q: "pool_reach ?n q"
    "p_workers q = [Running x, Ready] @ replicate n Ready" "p_tasks q = [x]" by auto
  have "worker_at q 1 Ready" using q(2) by (simp add: worker_at_def)
  from take_reach [OF q(1) this q(3)] q(2) show ?thesis by (auto simp: worker_at_def)
qed

section \<open>A run of the pool\<close>

definition demo_pool :: "nat pool" where
  \<comment> \<open>two workers; the first waits, the second has not looked yet; a task has been submitted\<close>
  "demo_pool = \<lparr>p_tasks = [7], p_stop = False, p_workers = [Waiting, Ready], p_client = Notifying,
     p_submitted = [7], p_started = [], p_finished = []\<rparr>"

lemma demo_pool_reach: "pool_reach 2 demo_pool"
proof -
  let ?p = "set_worker 0 Waiting (new_pool 2 :: nat pool)"
  have "pool_step (Wait 0) (new_pool 2) ?p" "pool_step (Enqueue 7) ?p demo_pool"
    by (simp_all add: pool_step_simps worker_at_def new_pool_def set_worker_def demo_pool_def
        numeral_2_eq_2)
  from pool_reach.step [OF pool_reach.step [OF pool_reach.start this(1)] this(2)] show ?thesis .
qed

lemma pool_keeps_tasks_witness:
  "p_submitted demo_pool = p_started demo_pool @ p_tasks demo_pool \<and>
    mset (p_started demo_pool) = mset (p_finished demo_pool) + total running demo_pool \<and>
    distinct (p_finished demo_pool)"
  using pool_keeps_tasks [OF demo_pool_reach] by (simp add: demo_pool_def)

lemma pool_no_lost_wakeup_witness:
  "length (p_tasks demo_pool) \<le> total ready demo_pool + 1"
  using pool_no_lost_wakeup [OF demo_pool_reach] by (simp add: demo_pool_def)

lemma pool_drains_witness:
  "\<exists>p'. internal\<^sup>*\<^sup>* demo_pool p' \<and> (\<nexists>q. internal p' q) \<and> mset (p_finished p') = {#7#}"
proof -
  obtain p' where "internal\<^sup>*\<^sup>* demo_pool p'" "\<nexists>q. internal p' q" using internal_ends by blast
  with pool_drains [OF demo_pool_reach] show ?thesis by (auto simp: demo_pool_def)
qed

lemma pool_without_threads_witness:
  "p_started (new_pool 0 :: nat pool) = [] \<and> p_finished (new_pool 0 :: nat pool) = [] \<and>
    p_tasks (new_pool 0 :: nat pool) = p_submitted (new_pool 0)"
  by (rule pool_without_threads) (rule pool_reach.start)

end
