(* ===== verification/Walker.thy ===== *)
theory Walker
  imports Pread ThreadPool "HOL-Library.Sublist"
begin

text \<open>
  The daemon that converts the files of a directory, \<^verbatim>\<open>src/dzfile-walker.cc\<close>: its configuration,
  the black list of extensions, the work on one file, and one scan of the directory. The JSON
  library is a parameter. The threads are those of \<open>ThreadPool\<close>; what two of them do to the same
  file is stated at the end.
\<close>

section \<open>Configuration\<close>

record Policy =
  mtime_period :: int
  check_interval :: int
  low_size :: int
  nbthread :: int
  blacklist :: string

record Configure =
  data_dir :: string
  log_level :: string
  log_file :: string

text \<open>
  JsonCpp: \<open>None\<close> is an exception, which ends the process. \<open>json_get\<close> is \<^verbatim>\<open>node.get(key, default)\<close>
  with the default turned into a value of the library by \<open>json_int\<close> and \<open>json_str\<close>.
\<close>

record 'j json_lib =
  json_parse :: "bytes \<Rightarrow> 'j option"
  json_member :: "'j \<Rightarrow> string \<Rightarrow> 'j option"
  json_get :: "'j \<Rightarrow> string \<Rightarrow> 'j \<Rightarrow> 'j option"
  json_int :: "int \<Rightarrow> 'j"
  json_str :: "string \<Rightarrow> 'j"
  json_asInt :: "'j \<Rightarrow> int option"
  json_asString :: "'j \<Rightarrow> string option"

definition get_int :: "'j json_lib \<Rightarrow> 'j \<Rightarrow> string \<Rightarrow> int option" where
  "get_int J node key = do { v \<leftarrow> json_get J node key (json_int J 0); json_asInt J v }"

definition get_str :: "'j json_lib \<Rightarrow> 'j \<Rightarrow> string \<Rightarrow> string option" where
  "get_str J node key = do { v \<leftarrow> json_get J node key (json_str J []); json_asString J v }"

definition parseJsonFile ::
    "'j json_lib \<Rightarrow> string \<Rightarrow> Policy \<times> Configure \<Rightarrow> os \<Rightarrow> ((int \<times> Policy \<times> Configure) \<times> os) option" where
  "parseJsonFile J fileName pc s =
     (case sys_open fileName O_RDONLY 0 s of
        (fd, s1) \<Rightarrow>
          if fd < 0 then Some ((-1, pc), s1)
          else do {
            (f, n) \<leftarrow> fd_file s1 fd;
            root \<leftarrow> json_parse J (i_data n);
            p \<leftarrow> json_member J root ''policy'';
            mp \<leftarrow> get_int J p ''mtime_period'';
            ci \<leftarrow> get_int J p ''check_interval'';
            ls \<leftarrow> get_int J p ''low_size'';
            nt \<leftarrow> get_int J p ''nbthread'';
            bl \<leftarrow> get_str J p ''blacklist'';
            c \<leftarrow> json_member J root ''configure'';
            dd \<leftarrow> get_str J c ''data_dir'';
            ll \<leftarrow> get_str J c ''log_level'';
            lf \<leftarrow> get_str J c ''log_file'';
            Some ((0, \<lparr>mtime_period = mp, check_interval = ci, low_size = ls, nbthread = nt, blacklist = bl\<rparr>,
                   \<lparr>data_dir = dd, log_level = ll, log_file = lf\<rparr>), snd (sys_close fd s1)) })"

section \<open>The black list\<close>

definition after_dot :: "string \<Rightarrow> string" where
  \<comment> \<open>what follows the last dot, or all\<close>
  "after_dot s = (case strrchr s CHR ''.'' of None \<Rightarrow> s | Some i \<Rightarrow> drop (Suc i) s)"

text \<open>
  The loop that cuts the list at the semicolons, on what is left of it. The variable \<open>exts\<close> lives
  across the turns, and an empty entry pushes its old value again; the last entry keeps its dot.
\<close>

function ext_list :: "string \<Rightarrow> string \<Rightarrow> string list" where
  "ext_list exts r =
     (if CHR '';'' \<in> set r
      then (let e = takeWhile (\<lambda>c. c \<noteq> CHR '';'') r;
                exts' = (if e \<noteq> [] then after_dot e else exts)
            in exts' # ext_list exts' (tl (dropWhile (\<lambda>c. c \<noteq> CHR '';'') r)))
      else if r = [] then [] else [r])"
  by pat_completeness auto

lemma length_tl_dropWhile: "c \<in> set r \<Longrightarrow> length (dropWhile P r) - Suc 0 < length r"
  using length_dropWhile_le [of P r] by (cases r) simp_all

termination ext_list
  by (relation "measure (\<lambda>(exts, r). length r)") (auto intro: length_tl_dropWhile)

declare ext_list.simps [simp del]

definition match_extension :: "string \<Rightarrow> string \<Rightarrow> bool" where
  "match_extension filename extensions =
     (case strrchr filename CHR ''.'' of
        None \<Rightarrow> False
      | Some pos \<Rightarrow> drop (Suc pos) filename \<in> set (ext_list [] extensions))"

section \<open>The work on one file\<close>

definition process_file ::
    "'h hdf5_lib \<Rightarrow> codec_lib \<Rightarrow> Policy \<Rightarrow> int \<Rightarrow> int \<Rightarrow> nat \<Rightarrow> string \<Rightarrow> 'h st \<Rightarrow> 'h st option" where
  "process_file H L pol junk_src junk_h5 fuel f w =
     (case match_sysdir (Some f) (fst w) of
        (m, s1) \<Rightarrow> do {
          h \<leftarrow> (if m = 1 then Some 0 else match_hiddenfile (Some f));
          if m = 1 \<or> h = 1 then Some (s1, snd w)
          else (case sys_stat f s1 of
              (None, s2) \<Rightarrow> Some (s2, snd w)
            | (Some stbuf, s2) \<Rightarrow>
                if st_size stbuf < low_size pol then Some (s2, snd w)
                else do {
                  (ret, s3) \<leftarrow> findhiddenFile f s2;
                  if ret = 1 then Some (s3, snd w)
                  else if match_extension f (blacklist pol) then Some (s3, snd w)
                  else do {
                    (ret, w4) \<leftarrow> convert2h5 H L junk_src junk_h5 fuel (Some f) DZ_ALG_ZSTD (s3, snd w);
                    Some w4 } }) })"

section \<open>A scan of the directory\<close>

datatype scan = Exit int | Scanned "string list"
  \<comment> \<open>the process has exited, or the tasks put into the pool\<close>

definition entry_path :: "string \<Rightarrow> string \<Rightarrow> string" where
  \<comment> \<open>\<^verbatim>\<open>sprintf(file_path, "%s/%s", data_path, entry->d_name)\<close>\<close>
  "entry_path data_path d_name = data_path @ SLASH # d_name"

fun scan_entries :: "Policy \<Rightarrow> string \<Rightarrow> string list \<Rightarrow> string list \<Rightarrow> os \<Rightarrow> (scan \<times> os) option" where
  "scan_entries pol data_path [] q s = Some (Scanned q, s)"
| "scan_entries pol data_path (d_name # ds) q s = do {
     let file_path = entry_path data_path d_name;
     guard_ub (length file_path < 1024);
     (case sys_stat file_path s of
        (None, s1) \<Rightarrow> Some (Exit 1, s1)
      | (Some file_stat, s1) \<Rightarrow>
          scan_entries pol data_path ds
            (if now s1 - st_mtime file_stat > mtime_period pol then q @ [file_path] else q) s1) }"

definition scan_pass :: "Policy \<Rightarrow> string \<Rightarrow> os \<Rightarrow> (scan \<times> os) option" where
  \<comment> \<open>one turn of the loop of \<^verbatim>\<open>main\<close>\<close>
  "scan_pass pol data_path s =
     (case sys_opendir data_path s of
        (None, s1) \<Rightarrow> Some (Exit 1, s1)
      | (Some dir, s1) \<Rightarrow> scan_entries pol data_path dir [] s1)"

section \<open>The black list, as it works\<close>

lemma after_dot_no_dot [simp]: "CHR ''.'' \<notin> set s \<Longrightarrow> after_dot s = s"
  by (simp add: after_dot_def)

lemma after_dot_append [simp]: "CHR ''.'' \<notin> set e \<Longrightarrow> after_dot (s @ CHR ''.'' # e) = e"
  by (simp add: after_dot_def strrchr_append_last)

lemma after_dot_wf: "CHR ''.'' \<in> set s \<Longrightarrow> CHR ''.'' \<notin> set (after_dot s)"
  using split_list_last [of "CHR ''.''" s] by auto

lemma ext_list_item:
  "CHR '';'' \<notin> set e \<Longrightarrow> e \<noteq> [] \<Longrightarrow>
    ext_list exts (e @ CHR '';'' # r) = after_dot e # ext_list (after_dot e) r"
  by (subst ext_list.simps) (simp add: Let_def dropWhile_append)

lemma ext_list_last: "CHR '';'' \<notin> set l \<Longrightarrow> ext_list exts l = (if l = [] then [] else [l])"
  by (subst ext_list.simps) simp

lemma ext_list_patterns:
  assumes "\<forall>e\<in>set es. CHR '';'' \<notin> set e \<and> CHR ''.'' \<notin> set e" "CHR '';'' \<notin> set l"
  shows "ext_list exts (concat (map (\<lambda>e. ''*.'' @ e @ '';'') es) @ l) = es @ (if l = [] then [] else [l])"
  using assms
proof (induction es arbitrary: exts)
  case Nil
  then show ?case by (simp add: ext_list_last)
next
  case (Cons e es)
  have "after_dot (''*.'' @ e) = e" using Cons.prems after_dot_append [of e "''*''"] by simp
  with Cons ext_list_item [of "''*.'' @ e" exts] show ?case by simp
qed

text \<open>What a black list is meant to say: the file has one of these extensions.\<close>

definition of_type :: "string list \<Rightarrow> string \<Rightarrow> bool" where
  "of_type es f \<longleftrightarrow> list_ex (\<lambda>e. suffix (CHR ''.'' # e) f) es"

definition patterns :: "string list \<Rightarrow> string" where
  \<comment> \<open>\<^verbatim>\<open>*.e;\<close> for each of them\<close>
  "patterns es = concat (map (\<lambda>e. ''*.'' @ e @ '';'') es)"

lemma of_type_after_dot:
  assumes "\<And>e. e \<in> set es \<Longrightarrow> CHR ''.'' \<notin> set e"
  shows "of_type es f \<longleftrightarrow> CHR ''.'' \<in> set f \<and> after_dot f \<in> set es"
proof
  assume "of_type es f"
  then obtain e b where "e \<in> set es" "f = b @ CHR ''.'' # e" by (auto simp: of_type_def list_ex_iff suffix_def)
  with assms show "CHR ''.'' \<in> set f \<and> after_dot f \<in> set es" by simp
next
  assume f: "CHR ''.'' \<in> set f \<and> after_dot f \<in> set es"
  then obtain b e where b: "f = b @ CHR ''.'' # e" "CHR ''.'' \<notin> set e" by (metis split_list_last)
  then have "after_dot f = e" by simp
  with b f show "of_type es f" by (auto simp: of_type_def list_ex_iff suffix_def)
qed

text \<open>A list of patterns \<^verbatim>\<open>*.e\<close> closed by semicolons excludes exactly the files with one of
  these extensions. An entry after the last semicolon keeps its \<^verbatim>\<open>*.\<close> and excludes no file at
  all: of the list that is shipped with the program, the last one.\<close>

lemma match_extension_patterns:
  assumes "\<And>e. e \<in> set es \<Longrightarrow> CHR '';'' \<notin> set e \<and> CHR ''.'' \<notin> set e"
    and "CHR '';'' \<notin> set l" "l = [] \<or> CHR ''.'' \<in> set l"
  shows "match_extension f (patterns es @ l) \<longleftrightarrow> of_type es f"
proof (cases "CHR ''.'' \<in> set f")
  case True
  then obtain i where i: "strrchr f CHR ''.'' = Some i" by (metis strrchr_eq_None not_None_eq)
  then have a: "drop (Suc i) f = after_dot f" by (simp add: after_dot_def)
  have e: "\<forall>e\<in>set es. CHR '';'' \<notin> set e \<and> CHR ''.'' \<notin> set e" using assms(1) by blast
  have "after_dot f \<noteq> l \<or> l = []" using after_dot_wf [OF True] assms(3) by auto
  moreover have "match_extension f x \<longleftrightarrow> after_dot f \<in> set (ext_list [] x)" for x
    using i a by (simp add: match_extension_def)
  then have "match_extension f (patterns es @ l) \<longleftrightarrow> after_dot f \<in> set (es @ (if l = [] then [] else [l]))"
    unfolding patterns_def by (simp only: ext_list_patterns [OF e assms(2)])
  ultimately show ?thesis using True e by (auto simp: of_type_after_dot)
next
  case False
  then have "strrchr f CHR ''.'' = None" by simp
  with False assms(1) show ?thesis by (simp add: match_extension_def of_type_after_dot)
qed

theorem match_extension_spec:
  assumes "\<And>e. e \<in> set es \<Longrightarrow> CHR '';'' \<notin> set e \<and> CHR ''.'' \<notin> set e"
    and "CHR '';'' \<notin> set l" "l = [] \<or> CHR ''.'' \<in> set l"
  shows "match_extension f (patterns es @ l) \<longleftrightarrow> of_type es f"
  using assms by (rule match_extension_patterns)

definition shipped_types :: "string list" where
  \<comment> \<open>the extensions of \<^verbatim>\<open>etc/dzfile.conf\<close> but the last\<close>
  "shipped_types = [''gz'', ''rar'', ''h5'', ''jpg'', ''z7'']"

lemma shipped_types_plain: "e \<in> set shipped_types \<Longrightarrow> CHR '';'' \<notin> set e \<and> CHR ''.'' \<notin> set e"
  by (auto simp: shipped_types_def)

lemma of_type_shipped: "of_type shipped_types f \<longleftrightarrow> CHR ''.'' \<in> set f \<and> after_dot f \<in> set shipped_types"
  by (rule of_type_after_dot) (simp add: shipped_types_plain)

lemma match_extension_spec_witness:
  "\<not> match_extension ''/d/a.bz2'' ''*.gz;*.rar;*.h5;*.jpg;*.z7;*.bz2'' \<and>
    match_extension ''/d/a.gz'' ''*.gz;*.rar;*.h5;*.jpg;*.z7;*.bz2''"
proof -
  have "match_extension f (patterns shipped_types @ ''*.bz2'') \<longleftrightarrow> of_type shipped_types f" for f
    by (rule match_extension_spec [OF shipped_types_plain]) simp_all
  then show ?thesis
    unfolding of_type_shipped
    by (simp add: shipped_types_def patterns_def after_dot_def)
qed

section \<open>What happens to a file\<close>

lemma quiet_match_sysdir: "match_sysdir p s = (r, s') \<Longrightarrow> quiet s s' \<and> env s' = env s"
  by (auto simp: match_sysdir_def split: option.splits if_splits)

text \<open>When the code leaves a file alone.\<close>

definition left_alone :: "Policy \<Rightarrow> os \<Rightarrow> string \<Rightarrow> inode \<Rightarrow> bool" where
  "left_alone pol s f n \<longleftrightarrow>
     ''.dzs'' \<in> set (tokens SLASH f) \<or> is_hidden_base (after_slash f) \<or>
     int (length (i_data n)) < low_size pol \<or>
     (\<exists>j m. node_at s (comps (hidden_name f)) = Some (j, m) \<and> \<not> i_dir m) \<or>
     match_extension f (blacklist pol)"

lemma bind_snd: "Option.bind m (\<lambda>(ret, y). Some y) = map_option snd m"
  by (cases m) auto

lemma process_file_cases:
  assumes "cstring f" "SLASH \<in> set f" "\<not> reads_before_start f" "env s = []"
    and "node_at s (comps f) = Some (i, n)" "\<not> i_dir n"
  shows "\<exists>s'. quiet s s' \<and> env s' = [] \<and>
    process_file H L pol junk_src junk_h5 fuel f (s, h) =
      (if left_alone pol s f n then Some (s', h)
       else map_option snd (convert2h5 H L junk_src junk_h5 fuel (Some f) DZ_ALG_ZSTD (s', h)))"
proof -
  let ?go = "process_file H L pol junk_src junk_h5 fuel f (s, h)"
  have sz: "st_size (stat_of i n) = int (length (i_data n))" using assms(6) by (simp add: stat_of_def)
  have st: "sys_stat f s = (Some (stat_of i n), s)" using assms(4,5) by (simp add: sys_stat_def)
  consider (sys) "''.dzs'' \<in> set (tokens SLASH f)"
    | (hid) "''.dzs'' \<notin> set (tokens SLASH f)" "is_hidden_base (after_slash f)"
    | (plain) "''.dzs'' \<notin> set (tokens SLASH f)" "\<not> is_hidden_base (after_slash f)" by blast
  then show ?thesis
  proof cases
    case sys
    then have "?go = Some (s\<lparr>errno := EPERM\<rparr>, h)"
      by (simp add: process_file_def match_sysdir_def sysdir_loop_iff)
    with sys assms(4) show ?thesis by (intro exI [of _ "s\<lparr>errno := EPERM\<rparr>"]) (simp add: left_alone_def)
  next
    case hid
    then have "?go = Some (s, h)"
      using assms(3) by (simp add: process_file_def match_sysdir_def sysdir_loop_iff match_hiddenfile_eq)
    with hid assms(4) show ?thesis by (intro exI [of _ s]) (simp add: left_alone_def)
  next
    case plain
    show ?thesis
    proof (cases "int (length (i_data n)) < low_size pol")
      case True
      then have "?go = Some (s, h)"
        using plain assms(3) st sz
        by (simp add: process_file_def match_sysdir_def sysdir_loop_iff match_hiddenfile_eq)
      with True assms(4) show ?thesis by (intro exI [of _ s]) (simp add: left_alone_def)
    next
      case False
      let ?q = "node_at s (comps (hidden_name f))"
      obtain r s3 where fh: "findhiddenFile f s = Some (r, s3)" "quiet s s3" "env s3 = []"
        "r = 1 \<longleftrightarrow> (\<exists>j m. ?q = Some (j, m) \<and> \<not> i_dir m)"
      proof (cases ?q)
        case None
        show thesis
          using assms(1,2,4) None
          by (intro that [of _ "s\<lparr>errno := missing_errno s (comps (hidden_name f))\<rparr>"])
            (auto simp: findhiddenFile_normal Let_def split: if_splits)
      next
        case (Some x)
        then obtain j m where "?q = Some (j, m)" by (cases x) simp
        then show thesis
          using assms(1,2,4) by (intro that [of "if i_dir m then 2 else 1" s])
            (auto simp: findhiddenFile_normal)
      qed
      have go: "?go = (if r = 1 \<or> match_extension f (blacklist pol) then Some (s3, h)
          else map_option snd (convert2h5 H L junk_src junk_h5 fuel (Some f) DZ_ALG_ZSTD (s3, h)))"
        using plain assms(3) st sz False fh(1)
        by (simp add: process_file_def match_sysdir_def sysdir_loop_iff match_hiddenfile_eq
            bind_snd)
      show ?thesis
        using go fh plain False by (intro exI [of _ s3]) (auto simp: left_alone_def)
    qed
  qed
qed

text \<open>C21. A task of the pool, a path with a slash that names a regular file, is given to the
  conversion exactly if it does not lie below \<^verbatim>\<open>.dzs\<close>, is not hidden, has at least the smallest
  size, has no hidden file yet and has none of the extensions \<open>es\<close>, in a system without failing
  calls and for a black list \<^verbatim>\<open>*.e1;*.e2;...;l\<close>; otherwise nothing changes. The pattern \<open>l\<close> after
  the last semicolon, if any, counts for nothing: its files are converted like all others. How old the file
  is does not matter here: the scan asks that before it submits the task.\<close>

theorem process_file_selects:
  assumes "cstring f" "SLASH \<in> set f" "\<not> reads_before_start f" "env s = []"
    and "node_at s (comps f) = Some (i, n)" "\<not> i_dir n"
    and "blacklist pol = patterns es @ l" "CHR '';'' \<notin> set l" "l = [] \<or> CHR ''.'' \<in> set l"
    and "\<And>e. e \<in> set es \<Longrightarrow> CHR '';'' \<notin> set e \<and> CHR ''.'' \<notin> set e"
  shows "\<exists>s'. quiet s s' \<and> env s' = [] \<and>
    process_file H L pol junk_src junk_h5 fuel f (s, h) =
      (if ''.dzs'' \<in> set (tokens SLASH f) \<or> is_hidden_base (after_slash f) \<or>
          int (length (i_data n)) < low_size pol \<or>
          (\<exists>j m. node_at s (comps (hidden_name f)) = Some (j, m) \<and> \<not> i_dir m) \<or> of_type es f
       then Some (s', h)
       else map_option snd (convert2h5 H L junk_src junk_h5 fuel (Some f) DZ_ALG_ZSTD (s', h)))"
proof -
  have "match_extension f (blacklist pol) \<longleftrightarrow> of_type es f"
    unfolding assms(7) by (rule match_extension_patterns [OF assms(10,8,9)])
  with process_file_cases [OF assms(1-6), of H L pol junk_src junk_h5 fuel h] show ?thesis
    by (simp add: left_alone_def)
qed

text \<open>The work of the daemon on one file never loses its contents: they are in the file still,
  or in the hidden file.\<close>

theorem process_file_keeps_contents:
  assumes "hdf5_contract H hf hdat" "zstd_contract L"
    and "cstring f" "SLASH \<in> set f" "\<not> reads_before_start f" "env s = []"
    and "node_at s (comps f) = Some (i, n)" "\<not> i_dir n"
    and "\<And>q. map_of (names s) q = Some i \<Longrightarrow> q = comps f" "i \<notin> ran (hf h)"
    and "process_file H L pol junk_src junk_h5 fuel f (s, h) = Some w'"
  shows "inodes (fst w') i = Some n \<or> (\<exists>cs. archived L hdat w' (hidden_name f) (i_data n) cs)"
proof -
  from process_file_cases [OF assms(3-8), of H L pol junk_src junk_h5 fuel h] obtain s' where
    s': "quiet s s'" "env s' = []" "process_file H L pol junk_src junk_h5 fuel f (s, h) =
      (if left_alone pol s f n then Some (s', h)
       else map_option snd (convert2h5 H L junk_src junk_h5 fuel (Some f) DZ_ALG_ZSTD (s', h)))"
    by blast
  have nd: "node_at s' (comps f) = Some (i, n)" "names s' = names s" "inodes s' i = Some n"
    using s'(1) assms(7) by (simp_all add: quiet_node_at quiet_def node_at_Some)
  show ?thesis
  proof (cases "left_alone pol s f n")
    case True
    with s'(3) assms(11) nd(3) show ?thesis by auto
  next
    case False
    with s'(3) assms(11)
    have "map_option snd (convert2h5 H L junk_src junk_h5 fuel (Some f) DZ_ALG_ZSTD (s', h)) = Some w'"
      by simp
    then obtain ret where
      "convert2h5 H L junk_src junk_h5 fuel (Some f) DZ_ALG_ZSTD (s', h) = Some (ret, w')"
      unfolding map_option_eq_Some by force
    from convert2h5_contents [OF assms(1,2,3) nd(1) assms(8) _ assms(10) this] assms(9) nd(2)
    have "conversion_result H L hf hdat (s', h) (hidden_name f) i n ret w'" by simp
    with s'(2) show ?thesis by (auto simp: conversion_result_def)
  qed
qed

section \<open>Scans\<close>

definition vanished :: "os \<Rightarrow> string \<Rightarrow> string list \<Rightarrow> bool" where
  "vanished s dp ds \<longleftrightarrow> (\<exists>d\<in>set ds. node_at s (comps (entry_path dp d)) = None)"

definition old_file :: "Policy \<Rightarrow> os \<Rightarrow> string \<Rightarrow> bool" where
  "old_file pol s p \<longleftrightarrow>
     (case node_at s (comps p) of None \<Rightarrow> False | Some (i, n) \<Rightarrow> now s - i_mtime n > mtime_period pol)"

lemma scan_entries_result:
  assumes "env s = []" "\<forall>d\<in>set ds. length (entry_path dp d) < 1024"
  shows "\<exists>s'. quiet s s' \<and> scan_entries pol dp ds q s =
    Some (if vanished s dp ds then Exit 1
          else Scanned (q @ filter (old_file pol s) (map (entry_path dp) ds)), s')"
  using assms
proof (induction ds arbitrary: q)
  case Nil
  then show ?case by (auto simp: vanished_def)
next
  case (Cons d ds)
  show ?case
  proof (cases "node_at s (comps (entry_path dp d))")
    case None
    let ?s = "s\<lparr>errno := missing_errno s (comps (entry_path dp d))\<rparr>"
    have "scan_entries pol dp (d # ds) q s = Some (Exit 1, ?s)"
      using Cons.prems None by (simp add: sys_stat_def fail_with_def)
    with None show ?thesis by (intro exI [of _ ?s]) (simp add: vanished_def)
  next
    case (Some x)
    obtain i n where x: "x = (i, n)" by fastforce
    let ?q = "if old_file pol s (entry_path dp d) then q @ [entry_path dp d] else q"
    have e: "scan_entries pol dp (d # ds) q s = scan_entries pol dp ds ?q s"
      using Cons.prems Some x by (simp add: sys_stat_def stat_of_def old_file_def)
    have v: "vanished s dp (d # ds) = vanished s dp ds" using Some by (simp add: vanished_def)
    from Cons.IH [of ?q] Cons.prems obtain s' where "quiet s s'" "scan_entries pol dp ds ?q s =
      Some (if vanished s dp ds then Exit 1
            else Scanned (?q @ filter (old_file pol s) (map (entry_path dp) ds)), s')" by auto
    then show ?thesis unfolding e v by (intro exI [of _ s']) simp
  qed
qed

text \<open>A scan puts the entries that are old enough into the pool, in the order of the directory.
  If one of the entries has gone since the directory was opened, for example the temporary file
  of a conversion that a worker has just renamed, the daemon exits.\<close>

theorem scan_finds_old_files:
  assumes "env s = []" "\<forall>d\<in>set ds. length (entry_path dp d) < 1024"
  shows "\<exists>s'. quiet s s' \<and> scan_entries pol dp ds [] s =
    Some (if vanished s dp ds then Exit 1
          else Scanned (filter (old_file pol s) (map (entry_path dp) ds)), s')"
  using scan_entries_result [OF assms, of pol "[]"] unfolding append_Nil .

section \<open>Two workers on one file\<close>

text \<open>
  \<open>convert2h5\<close> first asks whether the hidden file or the temporary file exists, and then creates
  the temporary file: between the two another worker may run. \<open>convert_checks\<close> is the first part,
  \<open>Inl\<close> where it ends the call, \<open>Inr\<close> where it goes on to \<open>convert_open\<close>.
\<close>

definition convert_checks ::
    "'h hdf5_lib \<Rightarrow> int \<Rightarrow> int \<Rightarrow> string \<Rightarrow> 'h st \<Rightarrow> ((int + string) \<times> 'h st) option" where
  "convert_checks H junk_src junk_h5 p w =
     (case buildHiddenFile p (fst w) of
        None \<Rightarrow> None
      | Some (None, s1) \<Rightarrow> Some (Inl (-1), (s1, snd w))
      | Some (Some h5name, s1) \<Rightarrow>
          (case sys_stat h5name s1 of
             (Some st, s2) \<Rightarrow>
               (case convert_out H junk_src junk_h5 (-1) (s2\<lparr>errno := EEXIST\<rparr>, snd w) of
                  (ret, w') \<Rightarrow> Some (Inl ret, w'))
           | (None, s2) \<Rightarrow>
               (case sys_malloc s2 of
                  (False, s3) \<Rightarrow> None
                | (True, s3) \<Rightarrow>
                    (case sys_stat (tmp_name h5name) s3 of
                       (Some st, s4) \<Rightarrow>
                         (case convert_out H junk_src junk_h5 (-1) (s4\<lparr>errno := EEXIST\<rparr>, snd w) of
                            (ret, w') \<Rightarrow> Some (Inl ret, w'))
                     | (None, s4) \<Rightarrow> Some (Inr h5name, (s4, snd w))))))"

lemma convert2h5_split:
  "convert2h5 H L junk_src junk_h5 fuel (Some p) method w =
     (case convert_checks H junk_src junk_h5 p w of
        None \<Rightarrow> None
      | Some (Inl ret, w') \<Rightarrow> Some (ret, w')
      | Some (Inr h5name, w') \<Rightarrow>
          convert_open H L junk_h5 fuel p method h5name (tmp_name h5name) w')"
  by (simp add: convert2h5_def convert_checks_def split: option.split prod.split bool.split)

lemma convert_checks_go:
  assumes "cstring p" "env s = []" "convert_checks H junk_src junk_h5 p (s, h) = Some (Inr h5name, w')"
  shows "h5name = hidden_name p" "SLASH \<in> set p" "quiet s (fst w')" "snd w' = h"
    "node_at s (comps (hidden_name p)) = None"
    "node_at s (comps (tmp_name (hidden_name p))) = None"
proof -
  have s: "SLASH \<in> set p"
    using assms by (auto simp: convert_checks_def buildHiddenFile_normal split: if_splits)
  from assms s show "h5name = hidden_name p" "SLASH \<in> set p" "quiet s (fst w')" "snd w' = h"
    "node_at s (comps (hidden_name p)) = None" "node_at s (comps (tmp_name (hidden_name p))) = None"
    by (auto simp: convert_checks_def buildHiddenFile_normal sys_stat_def fail_with_def sys_malloc_def
        quiet_def split: option.splits prod.splits)
qed

text \<open>C11. Two workers on one file destroy its contents. Let the first worker be between its checks
  and the creation of its temporary file while the second converts the file from beginning to
  end, and let it then go on: both report success, and afterwards the hidden file holds as many
  zeros as the file had bytes, as does the file. The daemon puts a file into the pool at every
  scan until its hidden file exists, so two workers can hold it at the same time.\<close>

theorem concurrent_conversions_lose_data:
  assumes "hdf5_contract H hf hdat" "zstd_contract L" "cstring p" "env s = []"
    and "node_at s (comps p) = Some (i, n)" "\<not> i_dir n"
    and "\<And>q. map_of (names s) q = Some i \<Longrightarrow> q = comps p" "i \<notin> ran (hf h)"
    and "convert_checks H junk_src junk_h5 p (s, h) = Some (Inr h5name, w0)"
    and "convert2h5 H L junk_src junk_h5 fuel (Some p) DZ_ALG_ZSTD w0 = Some (0, w1)"
    and "node_at (fst w1) (comps p) = Some (i, n1)"
    and "\<And>q. map_of (names (fst w1)) q = Some i \<Longrightarrow> q = comps p" "i \<notin> ran (hf (snd w1))"
    and "convert_open H L junk_h5 fuel p DZ_ALG_ZSTD h5name (tmp_name h5name) w1 = Some (0, w2)"
  shows "(\<exists>cs. archived L hdat w2 (hidden_name p) (replicate (length (i_data n)) 0) cs) \<and>
    (\<exists>m. inodes (fst w2) i = Some (n\<lparr>i_data := replicate (length (i_data n)) 0, i_mtime := m\<rparr>))"
proof -
  let ?z = "replicate (length (i_data n)) 0"
  note g = convert_checks_go [OF assms(3,4,9)]
  obtain s0 where w0: "w0 = (s0, h)" using g(4) by (cases w0) simp
  have q: "quiet s s0" using g(3) w0 by simp
  have nd: "node_at s0 (comps p) = Some (i, n)" "names s0 = names s"
    using q assms(5) by (simp_all add: quiet_node_at quietD)
  have "conversion_result H L hf hdat (s0, h) (hidden_name p) i n 0 w1"
    using assms(1-3,6-8,10) nd w0 by (intro convert2h5_contents [where junk_src = junk_src
          and ?junk_h5.0 = junk_h5 and fuel = fuel]) auto
  then obtain m where "inodes (fst w1) i = Some (n\<lparr>i_data := ?z, i_mtime := m\<rparr>)"
    by (auto simp: conversion_result_def)
  with assms(11) have n1: "n1 = n\<lparr>i_data := ?z, i_mtime := m\<rparr>" by (simp add: node_at_Some)
  have "conversion_result H L hf hdat w1 (hidden_name p) i n1 0 w2"
    using assms(6) n1 names_distinct [OF g(2)] assms(14) g(1)
    by (intro convert_open_result [OF assms(1,2,11) _ assms(12,13)]) (auto dest: sym)
  moreover have "env s0 = []" using q assms(4) by (auto simp: quiet_def)
  then have "env (fst w1) = []"
    using convert2h5_leaves [OF assms(1,3) nd(1) assms(6), of L junk_src junk_h5 fuel h 0 w1] assms(10) w0 leavesD(7)
    by fastforce
  ultimately show ?thesis by (auto simp: conversion_result_def n1)
qed

section \<open>The properties on a concrete directory\<close>

definition demo_policy :: Policy where
  "demo_policy = \<lparr>mtime_period = 5, check_interval = 5, low_size = 2, nbthread = 5, blacklist = ''*.gz''\<rparr>"

lemma demo_plain: "cstring ''/f''" "\<not> reads_before_start ''/f''" "\<not> is_hidden_base (after_slash ''/f'')"
  "tokens SLASH ''/f'' = [''f'']" "\<not> match_extension ''/f'' ''*.gz''"
  by (simp, code_simp+)

lemma demo_not_left: "\<not> left_alone demo_policy (demo_os [1, 2, 3]) ''/f'' demo_inode"
  using demo_plain by (simp add: left_alone_def demo_policy_def demo_inode_def demo_os_def comps_demo node_at_def)

lemma process_file_selects_witness:
  "\<exists>s'. quiet (demo_os [1, 2, 3]) s' \<and> env s' = [] \<and>
    process_file sim_hdf5 sim_codec (demo_policy\<lparr>blacklist := ''*.gz;*.rar;*.h5;*.jpg;*.z7;*.bz2''\<rparr>)
        0 0 9 ''/f'' (demo_os [1, 2, 3], demo_h5) =
      map_option snd (convert2h5 sim_hdf5 sim_codec 0 0 9 (Some ''/f'') DZ_ALG_ZSTD (s', demo_h5))"
proof -
  let ?pol = "demo_policy\<lparr>blacklist := ''*.gz;*.rar;*.h5;*.jpg;*.z7;*.bz2''\<rparr>"
  have "blacklist ?pol = patterns shipped_types @ ''*.bz2''" by (simp add: patterns_def shipped_types_def)
  moreover have "\<not> of_type shipped_types ''/f''"
    unfolding of_type_shipped by simp
  moreover have "env (demo_os [1, 2, 3]) = []" "node_at (demo_os [1, 2, 3]) (comps (hidden_name ''/f'')) = None"
    by (simp_all add: demo_os_def node_at_def comps_demo)
  ultimately show ?thesis
    using process_file_selects [OF demo_plain(1) _ demo_plain(2) _ demo_node, of ?pol shipped_types "''*.bz2''"
        sim_hdf5 sim_codec 0 0 9 demo_h5] demo_plain shipped_types_plain
    by (simp add: demo_inode_def demo_policy_def)
qed

lemma demo_convert_enoent:
  "convert2h5 sim_hdf5 sim_codec 0 0 (Suc (Suc 0)) (Some ''/f'') DZ_ALG_ZSTD
     ((demo_os [1, 2, 3])\<lparr>errno := ENOENT\<rparr>, demo_h5) = Some (0, demo_after)"
  by (simp add: convert2h5_def buildHiddenFile_normal demo_os_def demo_h5_def demo_after_def
      convert_out_def os_eval sim_eval comps_demo convert_open_def Let_def hdf5_open_def
      convert_write_def alg_version_def hdf5_writestr_def compress_data_def
      compressdata_zstd_def hdf5_writedata_def uninit_out_def as_int_def convert_finish_def)

lemma demo_process:
  "process_file sim_hdf5 sim_codec demo_policy 0 0 (Suc (Suc 0)) ''/f'' (demo_os [1, 2, 3], demo_h5) =
    Some demo_after"
proof -
  have f: "findhiddenFile ''/f'' (demo_os [1, 2, 3]) = Some (0, (demo_os [1, 2, 3])\<lparr>errno := ENOENT\<rparr>)"
    by (simp add: findhiddenFile_normal demo_os_def comps_demo node_at_def missing_errno_def)
  have st: "sys_stat ''/f'' (demo_os [1, 2, 3]) = (Some (stat_of 1 demo_inode), demo_os [1, 2, 3])"
    using demo_node by (simp add: sys_stat_def demo_os_def)
  show ?thesis
    using demo_plain f st demo_convert_enoent
    by (simp add: process_file_def match_sysdir_def sysdir_loop_iff match_hiddenfile_eq demo_policy_def
        stat_of_def demo_inode_def)
qed

lemma process_file_keeps_contents_witness:
  "inodes (fst demo_after) 1 = Some demo_inode \<or>
    (\<exists>cs. archived sim_codec sim_data demo_after (hidden_name ''/f'') (i_data demo_inode) cs)"
  by (rule process_file_keeps_contents [OF sim_hdf5_contract sim_codec_zstd demo_plain(1) _ demo_plain(2)
        _ demo_node _ demo_only_name _ demo_process])
    (simp_all add: demo_inode_def demo_h5_def demo_os_def)

lemma scan_finds_old_files_witness:
  "\<exists>s'. quiet (demo_os [1]) s' \<and> scan_entries demo_policy [] [''f''] [] (demo_os [1]) =
    Some (Scanned [''/f''], s')"
  using scan_finds_old_files [of "demo_os [1]" "[''f'']" "[]" demo_policy]
  by (simp add: demo_os_def entry_path_def vanished_def old_file_def comps_demo node_at_def demo_policy_def)

lemma demo_race:
  "\<exists>w2. convert_open sim_hdf5 sim_codec 0 (Suc (Suc 0)) ''/f'' DZ_ALG_ZSTD (hidden_name ''/f'')
    (tmp_name (hidden_name ''/f'')) demo_after = Some (0, w2)"
  by (simp add: demo_after_def convert_out_def os_eval sim_eval comps_demo convert_open_def Let_def
      dec_3 bytes_of_string_def hdf5_open_def convert_write_def alg_version_def hdf5_writestr_def compress_data_def
      compressdata_zstd_def hdf5_writedata_def uninit_out_def as_int_def convert_finish_def)

lemma demo_checks:
  "convert_checks sim_hdf5 0 0 ''/f'' (demo_os [1, 2, 3], demo_h5) =
    Some (Inr (hidden_name ''/f''), ((demo_os [1, 2, 3])\<lparr>errno := ENOENT\<rparr>, demo_h5))"
  by (simp add: convert_checks_def buildHiddenFile_normal demo_os_def os_eval comps_demo)

lemma concurrent_conversions_lose_data_witness:
  "\<exists>w2. convert_open sim_hdf5 sim_codec 0 (Suc (Suc 0)) ''/f'' DZ_ALG_ZSTD (hidden_name ''/f'')
      (tmp_name (hidden_name ''/f'')) demo_after = Some (0, w2) \<and>
    (\<exists>cs. archived sim_codec sim_data w2 (hidden_name ''/f'') [0, 0, 0] cs) \<and>
    (\<exists>m. inodes (fst w2) 1 = Some (demo_inode\<lparr>i_data := [0, 0, 0], i_mtime := m\<rparr>))"
proof -
  obtain w2 where w2: "convert_open sim_hdf5 sim_codec 0 (Suc (Suc 0)) ''/f'' DZ_ALG_ZSTD (hidden_name ''/f'')
      (tmp_name (hidden_name ''/f'')) demo_after = Some (0, w2)" using demo_race by blast
  have one: "q = comps ''/f''" if "map_of (names (fst demo_after)) q = Some 1" for q
    using that by (simp add: demo_after_def comps_demo split: if_splits)
  have n1: "node_at (fst demo_after) (comps ''/f'') = Some (1, demo_inode\<lparr>i_data := [0, 0, 0], i_mtime := 7\<rparr>)"
    by (simp add: demo_after_def comps_demo node_at_def demo_inode_def numeral_3_eq_3)
  have "(\<exists>cs. archived sim_codec sim_data w2 (hidden_name ''/f'') (replicate (length (i_data demo_inode)) 0) cs) \<and>
    (\<exists>m. inodes (fst w2) 1 = Some (demo_inode\<lparr>i_data := replicate (length (i_data demo_inode)) 0, i_mtime := m\<rparr>))"
    by (rule concurrent_conversions_lose_data [OF sim_hdf5_contract sim_codec_zstd demo_plain(1) _ demo_node _
          demo_only_name _ demo_checks demo_convert_enoent n1 one _ w2])
      (simp_all add: demo_inode_def demo_h5_def demo_os_def demo_after_def)
  then have "(\<exists>cs. archived sim_codec sim_data w2 (hidden_name ''/f'') [0, 0, 0] cs) \<and>
    (\<exists>m. inodes (fst w2) 1 = Some (demo_inode\<lparr>i_data := [0, 0, 0], i_mtime := m\<rparr>))"
    by (simp add: demo_inode_def)
  with w2 show ?thesis by blast
qed

end
