(* ===== verification/Daemon.thy ===== *)
theory Daemon
  imports Walker Frame Api Getopt
begin

text \<open>
  The daemon as a whole: the start of its \<^verbatim>\<open>main\<close>, and what a worker that takes task after task
  does to a directory. While one worker works at a time, no file loses its contents.
\<close>

section \<open>The start\<close>

datatype start = Exits int | Runs Policy string
  \<comment> \<open>the process has exited, or goes on to scan a directory\<close>

text \<open>
  \<^verbatim>\<open>main\<close> before its loop. \<open>pid\<close>, \<open>sid\<close> and \<open>chd\<close> are what \<^verbatim>\<open>fork\<close>, \<^verbatim>\<open>setsid\<close> and \<^verbatim>\<open>chdir\<close> return. Only the
  parser of the configuration can throw an exception, which is undefined here. That the
  initialisation has failed is not taken notice of.
\<close>

definition go_background :: "bool \<Rightarrow> int \<Rightarrow> int \<Rightarrow> int \<Rightarrow> os \<Rightarrow> int option \<times> os" where
  \<comment> \<open>the exit code of the process, if it exits\<close>
  "go_background bg pid sid chd s =
     (if \<not> bg then (None, s)
      else if pid < 0 then (Some 1, s)
      else if 0 < pid then (Some 0, s)
      else if sid < 0 then (Some 1, s)
      else if chd < 0 then (Some 1, s)
      else (None, snd (sys_close 2 (snd (sys_close 1 (snd (sys_close 0 s)))))))"

definition walker_start ::
    "('h, 'm, 'd, 'q) libs \<Rightarrow> 'j json_lib \<Rightarrow> Policy \<times> Configure \<Rightarrow> nat \<Rightarrow> int \<Rightarrow> int \<Rightarrow> int \<Rightarrow> int
      \<Rightarrow> string list \<Rightarrow> ('h, 'm, 'd, 'q) world \<Rightarrow> (start \<times> ('h, 'm, 'd, 'q) world) option" where
  "walker_start M J globals fuel pmax pid sid chd args w =
     (case parse_options walker_switch ''Vvd:hc:d'' args of
        (r, operands) \<Rightarrow>
          if 0 < o_err r \<or> o_help r then Some (Exits (-1), w)
          else do {
            let conf_file = (if o_conf r = [] then ''/etc/dzfile.conf'' else o_conf r);
            ((ret, policy, configure), s1) \<leftarrow> parseJsonFile J conf_file globals (w_os w);
            if ret < 0 then Some (Exits (-1), w\<lparr>w_os := s1\<rparr>)
            else (case go_background (o_bg r) pid sid chd s1 of
                (Some code, s2) \<Rightarrow> Some (Exits code, w\<lparr>w_os := s2\<rparr>)
              | (None, s2) \<Rightarrow> do {
                  (ret, w3) \<leftarrow> dzfile_init M fuel pmax (Some (data_dir configure)) None (w\<lparr>w_os := s2\<rparr>);
                  Some (Runs policy (data_dir configure), w3) }) })"

text \<open>The option \<^verbatim>\<open>-d\<close>, which sends the daemon to the background, is declared twice, first with an
  argument. Alone it is an error, and \<^verbatim>\<open>-d -c conf\<close> swallows the \<^verbatim>\<open>-c\<close>: the daemon goes to the
  background with the default configuration. It takes \<^verbatim>\<open>-c conf\<close> before \<^verbatim>\<open>-d\<close> and some argument of it.\<close>

theorem daemon_background_options:
  assumes "take 1 conf \<noteq> ''-''"
  shows "walker_start M J globals fuel pmax pid sid chd [''-d''] w = Some (Exits (-1), w) \<and>
    walker_start M J globals fuel pmax pid sid chd [''-d'', ''-c'', conf] w =
      walker_start M J globals fuel pmax pid sid chd [''-c'', ''/etc/dzfile.conf'', ''-d'', ''x''] w \<and>
    parse_options walker_switch ''Vvd:hc:d'' [''-c'', conf, ''-d'', ''x''] =
      (no_opts\<lparr>o_conf := conf, o_bg := True\<rparr>, [])"
proof -
  have c: "parse_options walker_switch ''Vvd:hc:d'' [''-c'', c, ''-d'', ''x''] =
      (no_opts\<lparr>o_conf := c, o_bg := True\<rparr>, [])" for c
    by (simp add: parse_options_def takes_argument_def)
  moreover have "parse_options walker_switch ''Vvd:hc:d'' [''-d''] = (no_opts\<lparr>o_err := 1\<rparr>, [])"
    by (simp add: parse_options_def takes_argument_def no_opts_def)
  moreover have "parse_options walker_switch ''Vvd:hc:d'' [''-d'', ''-c'', conf] =
      (no_opts\<lparr>o_bg := True\<rparr>, [conf])"
    using assms getopt_operands [of "[conf]" "''Vvd:hc:d''" std_longopts]
    by (simp add: parse_options_def takes_argument_def)
  moreover have "o_conf (no_opts\<lparr>o_bg := b\<rparr>) = []" "o_err (no_opts\<lparr>o_bg := b\<rparr>) = 0"
    "\<not> o_help (no_opts\<lparr>o_bg := b\<rparr>)" for b
    by (simp_all add: no_opts_def)
  moreover have "o_err (no_opts\<lparr>o_conf := f, o_bg := b\<rparr>) = 0"
    "\<not> o_help (no_opts\<lparr>o_conf := f, o_bg := b\<rparr>)" for f b
    by (simp_all add: no_opts_def)
  ultimately show ?thesis unfolding walker_start_def by (simp cong: if_cong)
qed

lemma daemon_background_options_witness:
  "parse_options walker_switch ''Vvd:hc:d'' [''-c'', ''/a.conf'', ''-d'', ''x''] =
      (no_opts\<lparr>o_conf := ''/a.conf'', o_bg := True\<rparr>, [])"
proof -
  have "take 1 ''/a.conf'' \<noteq> ''-''" by simp
  from daemon_background_options [OF this] show ?thesis by (rule conjunct2 [OF conjunct2])
qed

section \<open>One worker\<close>

fun run_tasks ::
    "'h hdf5_lib \<Rightarrow> codec_lib \<Rightarrow> Policy \<Rightarrow> int \<Rightarrow> int \<Rightarrow> nat \<Rightarrow> string list \<Rightarrow> 'h st \<Rightarrow> 'h st option" where
  \<comment> \<open>a worker that takes the tasks of the queue in order\<close>
  "run_tasks H L pol junk_src junk_h5 fuel [] w = Some w"
| "run_tasks H L pol junk_src junk_h5 fuel (f # fs) w = do {
     w1 \<leftarrow> process_file H L pol junk_src junk_h5 fuel f w;
     run_tasks H L pol junk_src junk_h5 fuel fs w1 }"

text \<open>The files of a directory: their own three names meet those of no other file.\<close>

definition own_names :: "string \<Rightarrow> string list set" where
  "own_names f = {comps f, comps (hidden_name f), comps (tmp_name (hidden_name f))}"

definition good_paths :: "string set \<Rightarrow> bool" where
  "good_paths F \<longleftrightarrow>
     (\<forall>f\<in>F. cstring f \<and> SLASH \<in> set f \<and> \<not> reads_before_start f) \<and>
     (\<forall>f\<in>F. \<forall>g\<in>F. f \<noteq> g \<longrightarrow> own_names f \<inter> own_names g = {})"

definition file_ok ::
    "codec_lib \<Rightarrow> 'h h5data \<Rightarrow> 'h st \<Rightarrow> string \<Rightarrow> bytes \<Rightarrow> bool" where
  \<comment> \<open>the contents \<open>d\<close> are where \<open>dzfile_open\<close> looks for them: in the hidden file, as the blocks that
    \<open>h5fd_pread\<close> expects, if there is one, and else in the file\<close>
  "file_ok L hdat w f d \<longleftrightarrow>
     (\<exists>i n. node_at (fst w) (comps f) = Some (i, n) \<and> \<not> i_dir n \<and>
        (node_at (fst w) (comps (hidden_name f)) = None \<longrightarrow> i_data n = d)) \<and>
     (\<forall>j m. node_at (fst w) (comps (hidden_name f)) = Some (j, m) \<longrightarrow>
        \<not> i_dir m \<and> (\<exists>cs. archived L hdat w (hidden_name f) d cs \<and> aligned d cs))"

definition dir_ok ::
    "codec_lib \<Rightarrow> 'h h5files \<Rightarrow> 'h h5data \<Rightarrow> (string \<Rightarrow> bytes option) \<Rightarrow> 'h st \<Rightarrow> bool" where
  \<comment> \<open>all files of a directory have their contents, and no compressed file is open\<close>
  "dir_ok L hf hdat D w \<longleftrightarrow>
     env (fst w) = [] \<and> hf (snd w) = Map.empty \<and> wf_fs (fst w) \<and>
     (\<forall>f d. D f = Some d \<longrightarrow> file_ok L hdat w f d)"

lemma wf_fs_node:
  "wf_fs s \<Longrightarrow> map_of (names s) cs = Some j \<Longrightarrow> \<exists>m. node_at s cs = Some (j, m)"
  unfolding wf_fs_def node_at_def by (auto split: option.split)

lemma wf_fs_inj:
  "wf_fs s \<Longrightarrow> map_of (names s) cs = Some j \<Longrightarrow> map_of (names s) cs' = Some j \<Longrightarrow> cs = cs'"
  unfolding wf_fs_def by blast

lemma hidden_stays_regular:
  assumes l: "leaves hdat Q K w w'" and wf: "wf_fs (fst w)"
    and h: "\<forall>j m. node_at (fst w) cs = Some (j, m) \<longrightarrow> \<not> i_dir m"
  shows "\<forall>j m. node_at (fst w') cs = Some (j, m) \<longrightarrow> \<not> i_dir m"
proof (intro allI impI)
  fix j m assume "node_at (fst w') cs = Some (j, m)"
  then have m: "map_of (names (fst w')) cs = Some j" "inodes (fst w') j = Some m"
    by (simp_all add: node_at_Some)
  from leavesD(5) [OF l] m(1) consider "map_of (names (fst w)) cs = Some j"
    | n where "inodes (fst w') j = Some n" "\<not> i_dir n" unfolding binds_regular_def by blast
  then show "\<not> i_dir m"
  proof cases
    case 1
    with wf_fs_node [OF wf] obtain m0 where "node_at (fst w) cs = Some (j, m0)" by blast
    with h have "\<not> i_dir m0" "inodes (fst w) j = Some m0" by (auto simp: node_at_Some)
    with leavesD(4) [OF l] m(2) show ?thesis unfolding keeps_kinds_def by fastforce
  qed (use m(2) in simp)
qed

text \<open>A file whose names and inodes are left alone.\<close>

lemma file_ok_frame:
  assumes l: "leaves hdat Q K w w'" and wf: "wf_fs (fst w)" and ok: "file_ok L hdat w f d"
    and Q: "comps f \<notin> Q" "comps (hidden_name f) \<notin> Q"
    and K: "\<And>k. map_of (names (fst w)) (comps f) = Some k \<Longrightarrow> k \<notin> K"
      "\<And>k. map_of (names (fst w)) (comps (hidden_name f)) = Some k \<Longrightarrow> k \<notin> K"
  shows "file_ok L hdat w' f d"
proof -
  let ?hid = "comps (hidden_name f)"
  have keep: "node_at (fst w') cs = node_at (fst w) cs" if "cs \<in> {comps f, ?hid}" for cs
  proof (cases "map_of (names (fst w)) cs")
    case None
    then show ?thesis using leavesD(1) [OF l, of cs] Q that by (auto simp: node_at_def)
  next
    case (Some k)
    from wf_fs_node [OF wf this] obtain m where "inodes (fst w) k = Some m" by (auto simp: node_at_Some)
    moreover have "k \<notin> K" using K Some that by auto
    ultimately have "inodes (fst w') k = Some m" using leavesD(2) [OF l] by blast
    with Some \<open>inodes (fst w) k = Some m\<close> show ?thesis
      using leavesD(1) [OF l, of cs] Q that by (auto simp: node_at_def)
  qed
  have "archived L hdat w' (hidden_name f) d cs" if "archived L hdat w (hidden_name f) d cs" for cs
  proof -
    from that obtain j where j: "map_of (names (fst w)) ?hid = Some j" by (auto simp: archived_def)
    from wf_fs_node [OF wf j] obtain m where "inodes (fst w) j = Some m" by (auto simp: node_at_Some)
    from leavesD(3) [OF l this K(2) [OF j]] leavesD(1) [OF l Q(2)] j that
    show ?thesis by (simp add: archived_def)
  qed
  moreover have "node_at (fst w') (comps f) = node_at (fst w) (comps f)" "node_at (fst w') ?hid = node_at (fst w) ?hid"
    using keep by simp_all
  ultimately show ?thesis using ok unfolding file_ok_def by (metis (no_types, lifting))
qed

text \<open>A conversion of \<open>g\<close> on a directory of good paths: the other files, and \<open>g\<close> itself.\<close>

lemma conversion_other_file:
  assumes H: "hdf5_contract H hf hdat" and g: "cstring g" and hf: "hf (snd w) = Map.empty"
    and n: "node_at (fst w) (comps g) = Some (i, n)" "\<not> i_dir n"
    and c: "convert2h5 H L junk_src junk_h5 fuel (Some g) DZ_ALG_ZSTD w = Some (ret, w')"
    and wf: "wf_fs (fst w)" and ok: "file_ok L hdat w f d" and disj: "own_names f \<inter> own_names g = {}"
  shows "file_ok L hdat w' f d"
proof -
  let ?hid = "comps (hidden_name g)" and ?tmp = "comps (tmp_name (hidden_name g))"
  have i: "map_of (names (fst w)) (comps g) = Some i" using n(1) by (simp add: node_at_Some)
  have c': "convert2h5 H L junk_src junk_h5 fuel (Some g) DZ_ALG_ZSTD (fst w, snd w) = Some (ret, w')"
    using c by simp
  from convert2h5_leaves [OF H g n c'] hf
  have l: "leaves hdat {?hid, ?tmp} ({i} \<union> bound (fst w) ?tmp) w w'" by auto
  from disj have ne: "p \<noteq> p'" if "p \<in> {comps f, comps (hidden_name f)}" "p' \<in> {comps g, ?hid, ?tmp}" for p p'
    using that unfolding own_names_def by blast
  have out: "k \<notin> {i} \<union> bound (fst w) ?tmp"
    if "map_of (names (fst w)) p = Some k" "p \<in> {comps f, comps (hidden_name f)}" for p k
  proof
    assume "k \<in> {i} \<union> bound (fst w) ?tmp"
    then have "k = i \<or> map_of (names (fst w)) ?tmp = Some k" by (auto simp: bound_def node_at_Some)
    then have "p = comps g \<or> p = ?tmp" using that(1) i wf_fs_inj [OF wf] by blast
    with ne [OF that(2)] show False by blast
  qed
  have q: "comps f \<notin> {?hid, ?tmp}" "comps (hidden_name f) \<notin> {?hid, ?tmp}" using ne by blast+
  show ?thesis
    by (rule file_ok_frame [OF l wf ok q out [OF _ insertI1] out [OF _ insertI2 [OF insertI1]]])
qed

lemma conversion_own_file:
  assumes H: "hdf5_contract H hf hdat" and Z: "zstd_contract L" and g: "cstring g" "SLASH \<in> set g"
    and hf: "hf (snd w) = Map.empty" and wf: "wf_fs (fst w)" "env (fst w) = []" and ok: "file_ok L hdat w g d"
    and hid: "node_at (fst w) (comps (hidden_name g)) = None"
    and c: "convert2h5 H L junk_src junk_h5 fuel (Some g) DZ_ALG_ZSTD w = Some (ret, w')"
  shows "file_ok L hdat w' g d"
proof -
  let ?hid = "comps (hidden_name g)" and ?tmp = "comps (tmp_name (hidden_name g))"
  from ok hid obtain i n where n: "node_at (fst w) (comps g) = Some (i, n)" "\<not> i_dir n" and dn: "i_data n = d"
    by (auto simp: file_ok_def)
  have one: "\<And>p. map_of (names (fst w)) p = Some i \<Longrightarrow> p = comps g"
    using wf_fs_inj [OF wf(1)] n(1) by (simp add: node_at_Some)
  have none: "map_of (names (fst w)) ?hid = None"
    using wf_fs_node [OF wf(1), of ?hid] hid by (cases "map_of (names (fst w)) ?hid") auto
  have c': "convert2h5 H L junk_src junk_h5 fuel (Some g) DZ_ALG_ZSTD (fst w, snd w) = Some (ret, w')"
    using c by simp
  from convert2h5_leaves [OF H g(1) n c'] hf
  have l: "leaves hdat {?hid, ?tmp} ({i} \<union> bound (fst w) ?tmp) w w'" by auto
  have "comps g \<notin> {?hid, ?tmp}" using names_distinct [OF g(2)] by auto
  from leaves_node [OF l n this] obtain n2 where
    n2: "node_at (fst w') (comps g) = Some (i, n2)" "\<not> i_dir n2" by auto
  have "i \<notin> ran (hf (snd w))" using hf by simp
  from convert2h5_contents [OF H Z g(1) n one this c'] wf(2) none
  consider "inodes (fst w') i = Some n" "map_of (names (fst w')) ?hid = None"
    | cs where "archived L hdat w' (hidden_name g) d cs" "aligned d cs"
    using dn by (auto simp: conversion_result_def)
  then show ?thesis
  proof cases
    case 1
    have "n2 = n" using 1(1) n2(1) by (simp add: node_at_Some)
    moreover have "node_at (fst w') ?hid = None" using 1(2) by (simp add: node_at_def)
    ultimately show ?thesis using n2 dn by (simp add: file_ok_def)
  next
    case 2
    then obtain j where "map_of (names (fst w')) ?hid = Some j" by (auto simp: archived_def)
    with wf_fs_node [OF _ this] leavesD(6) [OF l wf(1)] have "node_at (fst w') ?hid \<noteq> None" by auto
    moreover have "\<forall>j m. node_at (fst w) ?hid = Some (j, m) \<longrightarrow> \<not> i_dir m" using hid by simp
    note hidden_stays_regular [OF l wf(1) this]
    ultimately show ?thesis using n2 2 unfolding file_ok_def by (metis (no_types))
  qed
qed

lemma process_file_step:
  assumes H: "hdf5_contract H hf hdat" and Z: "zstd_contract L"
    and F: "good_paths (dom D)" and J: "dir_ok L hf hdat D w" and g: "g \<in> dom D"
    and run: "process_file H L pol junk_src junk_h5 fuel g w = Some w'"
  shows "dir_ok L hf hdat D w'"
proof -
  have fr: "h5_frame_law hdat" using H by (simp add: hdf5_contract_def)
  obtain s h where w: "w = (s, h)" by fastforce
  from J w have e: "env s = []" and hf: "hf h = Map.empty" and wf: "wf_fs s"
    and ok: "\<And>f d. D f = Some d \<Longrightarrow> file_ok L hdat (s, h) f d"
    by (auto simp: dir_ok_def)
  from g obtain dg where dg: "D g = Some dg" by auto
  from F g have gp: "cstring g" "SLASH \<in> set g" "\<not> reads_before_start g" by (auto simp: good_paths_def)
  from ok [OF dg] obtain i n where n: "node_at s (comps g) = Some (i, n)" "\<not> i_dir n"
    and reg: "\<And>j m. node_at s (comps (hidden_name g)) = Some (j, m) \<Longrightarrow> \<not> i_dir m"
    by (auto simp: file_ok_def)
  from process_file_cases [OF gp e n, of H L pol junk_src junk_h5 fuel h] obtain s' where
    s': "quiet s s'" "env s' = []" "process_file H L pol junk_src junk_h5 fuel g (s, h) =
      (if left_alone pol s g n then Some (s', h)
       else map_option snd (convert2h5 H L junk_src junk_h5 fuel (Some g) DZ_ALG_ZSTD (s', h)))" by blast
  have q: "leaves hdat {} {} (s, h) (s', h)" using leaves_quiet [OF fr, of "(s, h)" s'] s'(1) by simp
  have wf': "wf_fs (fst (s', h))" using leavesD(6) [OF q] wf by simp
  have ok': "file_ok L hdat (s', h) f d" if "D f = Some d" for f d
    using q _ ok [OF that] by (rule file_ok_frame) (simp_all add: wf)
  show ?thesis
  proof (cases "left_alone pol s g n")
    case True
    with s'(3) run w have "w' = (s', h)" by simp
    with s'(2) hf wf' ok' show ?thesis by (simp add: dir_ok_def)
  next
    case False
    with s'(3) run w obtain ret where
      c: "convert2h5 H L junk_src junk_h5 fuel (Some g) DZ_ALG_ZSTD (s', h) = Some (ret, w')"
      by auto
    have n': "node_at (fst (s', h)) (comps g) = Some (i, n)" using n(1) s'(1) by (simp add: quiet_node_at)
    have hid: "node_at (fst (s', h)) (comps (hidden_name g)) = None"
    proof (cases "node_at s (comps (hidden_name g))")
      case (Some x)
      with False reg show ?thesis by (cases x) (auto simp: left_alone_def)
    qed (simp add: quiet_node_at [OF s'(1)])
    have hf': "hf (snd (s', h)) = Map.empty" "env (fst (s', h)) = []" using hf s'(2) by simp_all
    have "file_ok L hdat w' f d" if d: "D f = Some d" for f d
    proof (cases "f = g")
      case True
      with conversion_own_file [OF H Z gp(1,2) hf'(1) wf' hf'(2) ok' [OF dg] hid c] dg d show ?thesis by simp
    next
      case False
      with F g d have "own_names f \<inter> own_names g = {}" by (auto simp: good_paths_def)
      with conversion_other_file [OF H gp(1) hf'(1) n' n(2) c wf' ok' [OF d]] show ?thesis .
    qed
    moreover from convert2h5_leaves [OF H gp(1) _ n(2) c] n' hf
    have "wf_fs (fst w')" "env (fst w') = []" "hf (snd w') = Map.empty"
      using wf' s'(2) by (auto dest: leavesD(6,7))
    ultimately show ?thesis by (simp add: dir_ok_def)
  qed
qed

text \<open>While one worker at a time takes the tasks, in whatever order and however often a file comes
  up, no file of the directory loses its contents, whichever calls of the libraries fail: as long as it
  has no hidden file it has them itself, and from then on its hidden file has them, in the blocks that a
  reader expects. No file harms another.\<close>

theorem daemon_keeps_all_files:
  assumes "hdf5_contract H hf hdat" "zstd_contract L" "good_paths (dom D)"
    and "dir_ok L hf hdat D w" "set tasks \<subseteq> dom D"
    and "run_tasks H L pol junk_src junk_h5 fuel tasks w = Some w'"
  shows "dir_ok L hf hdat D w'"
  using assms(4-6)
proof (induction tasks arbitrary: w)
  case Nil
  then show ?case by simp
next
  case (Cons f fs)
  from Cons.prems(3) obtain w1 where w1: "process_file H L pol junk_src junk_h5 fuel f w = Some w1"
    "run_tasks H L pol junk_src junk_h5 fuel fs w1 = Some w'" by (auto simp: bind_eq_Some_conv)
  have "dir_ok L hf hdat D w1"
    using process_file_step [OF assms(1-3) Cons.prems(1) _ w1(1)] Cons.prems(2) by simp
  with Cons.IH w1(2) Cons.prems(2) show ?case by simp
qed

section \<open>On a concrete directory\<close>

definition pair_os :: os where
  \<comment> \<open>two files, \<^verbatim>\<open>/f\<close> and \<^verbatim>\<open>/g\<close>, the second too small to be converted\<close>
  "pair_os = (demo_os [1, 2, 3])\<lparr>names := [([], 0), ([''f''], 1), ([''g''], 2)],
     inodes := (inodes (demo_os [1, 2, 3]))(2 \<mapsto> \<lparr>i_dir = False, i_perm = 0x1A4, i_data = [4], i_mtime = 0\<rparr>),
     nextino := 3\<rparr>"

definition pair_contents :: "string \<Rightarrow> bytes option" where
  "pair_contents = [''/f'' \<mapsto> [1, 2, 3], ''/g'' \<mapsto> [4]]"

lemma pair_names: "comps ''/g'' = [''g'']" "comps (hidden_name ''/g'') = [''.g.DZF'']"
  "comps (tmp_name (hidden_name ''/g'')) = [''.g.DZF.tmp'']" "\<not> reads_before_start ''/g''"
  "\<not> is_hidden_base (after_slash ''/g'')" "tokens SLASH ''/g'' = [''g'']"
  by code_simp+

lemma pair_paths: "good_paths (dom pair_contents)"
  using demo_plain pair_names comps_demo by (simp add: good_paths_def pair_contents_def own_names_def)

lemma pair_start: "dir_ok sim_codec sim_files sim_data pair_contents (pair_os, demo_h5)"
  using comps_demo pair_names
  by (auto simp: dir_ok_def file_ok_def pair_os_def demo_os_def demo_h5_def wf_fs_def node_at_def
      pair_contents_def split: if_splits)

lemma pair_convert:
  "\<exists>w'. convert2h5 sim_hdf5 sim_codec 0 0 (Suc (Suc 0)) (Some ''/f'') DZ_ALG_ZSTD
     (pair_os\<lparr>errno := ENOENT\<rparr>, demo_h5) = Some (0, w') \<and>
     node_at (fst w') (comps ''/g'') = Some (2, \<lparr>i_dir = False, i_perm = 0x1A4, i_data = [4], i_mtime = 0\<rparr>) \<and>
     env (fst w') = []"
  by (simp add: convert2h5_def buildHiddenFile_normal pair_os_def demo_os_def demo_h5_def
      convert_out_def os_eval sim_eval comps_demo pair_names convert_open_def Let_def hdf5_open_def
      convert_write_def alg_version_def hdf5_writestr_def compress_data_def
      compressdata_zstd_def hdf5_writedata_def uninit_out_def as_int_def convert_finish_def)

lemma pair_run:
  "\<exists>w'. run_tasks sim_hdf5 sim_codec demo_policy 0 0 (Suc (Suc 0)) [''/f'', ''/g''] (pair_os, demo_h5) = Some w'"
proof -
  obtain w1 where w1: "convert2h5 sim_hdf5 sim_codec 0 0 (Suc (Suc 0)) (Some ''/f'') DZ_ALG_ZSTD
      (pair_os\<lparr>errno := ENOENT\<rparr>, demo_h5) = Some (0, w1)" "env (fst w1) = []"
    "node_at (fst w1) (comps ''/g'') = Some (2, \<lparr>i_dir = False, i_perm = 0x1A4, i_data = [4], i_mtime = 0\<rparr>)"
    using pair_convert by blast
  have f: "findhiddenFile ''/f'' pair_os = Some (0, pair_os\<lparr>errno := ENOENT\<rparr>)"
    by (simp add: findhiddenFile_normal pair_os_def demo_os_def comps_demo node_at_def missing_errno_def)
  have st: "sys_stat ''/f'' pair_os = (Some (stat_of 1 demo_inode), pair_os)"
    by (simp add: sys_stat_def pair_os_def demo_os_def node_at_def comps_demo demo_inode_def)
  have "process_file sim_hdf5 sim_codec demo_policy 0 0 (Suc (Suc 0)) ''/f'' (pair_os, demo_h5) = Some w1"
    using demo_plain f st w1(1)
    by (simp add: process_file_def match_sysdir_def sysdir_loop_iff match_hiddenfile_eq demo_policy_def
        stat_of_def demo_inode_def)
  moreover have "\<exists>w2. process_file sim_hdf5 sim_codec demo_policy 0 0 (Suc (Suc 0)) ''/g'' w1 = Some w2"
    using pair_names w1(2,3)
    by (simp add: process_file_def match_sysdir_def sysdir_loop_iff match_hiddenfile_eq demo_policy_def
        sys_stat_def stat_of_def)
  ultimately show ?thesis by auto
qed

lemma daemon_keeps_all_files_witness:
  "\<exists>w'. run_tasks sim_hdf5 sim_codec demo_policy 0 0 (Suc (Suc 0)) [''/f'', ''/g''] (pair_os, demo_h5) = Some w' \<and>
    dir_ok sim_codec sim_files sim_data pair_contents w'"
proof -
  obtain w' where w': "run_tasks sim_hdf5 sim_codec demo_policy 0 0 (Suc (Suc 0)) [''/f'', ''/g'']
      (pair_os, demo_h5) = Some w'" using pair_run ..
  have "set [''/f'', ''/g''] \<subseteq> dom pair_contents" by (simp add: pair_contents_def)
  from daemon_keeps_all_files [OF sim_hdf5_contract sim_codec_zstd pair_paths pair_start this w'] w'
  show ?thesis by blast
qed

end
