(* ===== verification/Workers.thy ===== *)
theory Workers
  imports Daemon
begin

text \<open>
  Workers that convert different files at the same time: \<open>convert2h5\<close> of
  \<^verbatim>\<open>src/dzfile-intern.cc\<close> cut into the steps between which another worker may run, and any number
  of workers, of one process, whose steps interleave. They share the disk, the descriptors and the HDF5 library.
\<close>

section \<open>A conversion in steps\<close>

text \<open>Where a worker is in \<open>convert2h5\<close>, with its local variables.\<close>

datatype job =
    Checks string                          \<comment> \<open>before \<open>buildHiddenFile\<close> and the two \<^verbatim>\<open>stat\<close>\<close>
  | OpenSource string string
  | CreateTemp string string int           \<comment> \<open>with \<^verbatim>\<open>srcfd\<close>\<close>
  | WriteVersion string string int int     \<comment> \<open>and with \<^verbatim>\<open>h5fd\<close>\<close>
  | NextBlock string string int int nat
  | RenameTemp string string int int
  | StatSource string int int
  | TruncateSource string int int int
  | ExtendSource string int int int
  | AtOut string int int int               \<comment> \<open>at the label \<^verbatim>\<open>out\<close>, with \<^verbatim>\<open>ret\<close>\<close>
  | Converted string int

fun job_path :: "job \<Rightarrow> string" where
  "job_path (Checks p) = p"
| "job_path (OpenSource p h5name) = p"
| "job_path (CreateTemp p h5name srcfd) = p"
| "job_path (WriteVersion p h5name srcfd h5fd) = p"
| "job_path (NextBlock p h5name srcfd h5fd k) = p"
| "job_path (RenameTemp p h5name srcfd h5fd) = p"
| "job_path (StatSource p srcfd h5fd) = p"
| "job_path (TruncateSource p srcfd h5fd sz) = p"
| "job_path (ExtendSource p srcfd h5fd sz) = p"
| "job_path (AtOut p ret srcfd h5fd) = p"
| "job_path (Converted p ret) = p"

fun convert_step ::
    "'h hdf5_lib \<Rightarrow> codec_lib \<Rightarrow> dz_alg \<Rightarrow> int \<Rightarrow> int \<Rightarrow> job \<Rightarrow> 'h st \<Rightarrow> (job \<times> 'h st) option" where
  "convert_step H L alg junk_src junk_h5 (Checks p) w =
     (case convert_checks H junk_src junk_h5 p w of
        None \<Rightarrow> None
      | Some (Inl ret, w') \<Rightarrow> Some (Converted p ret, w')
      | Some (Inr h5name, w') \<Rightarrow> Some (OpenSource p h5name, w'))"
| "convert_step H L alg junk_src junk_h5 (OpenSource p h5name) w =
     (case sys_open p O_RDONLY 0 (fst w) of
        (srcfd, s1) \<Rightarrow>
          Some (if srcfd < 0 then AtOut p (-1) srcfd junk_h5 else CreateTemp p h5name srcfd, (s1, snd w)))"
| "convert_step H L alg junk_src junk_h5 (CreateTemp p h5name srcfd) w =
     (case hdf5_open H (Some (tmp_name h5name)) H5_WRITE w of
        (h5fd, w2) \<Rightarrow>
          Some (if h5fd < 0 then AtOut p (-1) srcfd h5fd else WriteVersion p h5name srcfd h5fd, w2))"
| "convert_step H L alg junk_src junk_h5 (WriteVersion p h5name srcfd h5fd) w =
     (case (case alg_version L alg of
              None \<Rightarrow> (-1, w)
            | Some version \<Rightarrow> hdf5_writestr H h5fd (Some ''algorithm'') (Some version) w) of
        (ret, w1) \<Rightarrow> Some (if ret < 0 then AtOut p ret srcfd h5fd else NextBlock p h5name srcfd h5fd 0, w1))"
| "convert_step H L alg junk_src junk_h5 (NextBlock p h5name srcfd h5fd k) w =
     (case convert_turn H L alg srcfd h5fd k w of
        (None, w') \<Rightarrow> Some (NextBlock p h5name srcfd h5fd (Suc k), w')
      | (Some None, w') \<Rightarrow> Some (RenameTemp p h5name srcfd h5fd, w')
      | (Some (Some ret), w') \<Rightarrow> Some (AtOut p ret srcfd h5fd, w'))"
| "convert_step H L alg junk_src junk_h5 (RenameTemp p h5name srcfd h5fd) w =
     (case sys_rename (tmp_name h5name) h5name (fst w) of
        (ret, s1) \<Rightarrow>
          Some (if ret < 0 then AtOut p ret srcfd h5fd else StatSource p srcfd h5fd, (s1, snd w)))"
| "convert_step H L alg junk_src junk_h5 (StatSource p srcfd h5fd) w =
     (case sys_stat p (fst w) of
        (None, s2) \<Rightarrow> Some (AtOut p (-1) srcfd h5fd, (s2, snd w))
      | (Some stbuf, s2) \<Rightarrow> Some (TruncateSource p srcfd h5fd (st_size stbuf), (s2, snd w)))"
| "convert_step H L alg junk_src junk_h5 (TruncateSource p srcfd h5fd sz) w =
     (case sys_truncate p 0 (fst w) of
        (ret, s3) \<Rightarrow>
          Some (if ret < 0 then AtOut p ret srcfd h5fd else ExtendSource p srcfd h5fd sz, (s3, snd w)))"
| "convert_step H L alg junk_src junk_h5 (ExtendSource p srcfd h5fd sz) w =
     (case sys_truncate p sz (fst w) of (ret, s4) \<Rightarrow> Some (AtOut p ret srcfd h5fd, (s4, snd w)))"
| "convert_step H L alg junk_src junk_h5 (AtOut p ret srcfd h5fd) w =
     (case convert_out H srcfd h5fd ret w of (ret, w') \<Rightarrow> Some (Converted p ret, w'))"
| "convert_step H L alg junk_src junk_h5 (Converted p ret) w = None"

text \<open>The steps of a worker that is alone, one after the other.\<close>

inductive convert_steps ::
    "'h hdf5_lib \<Rightarrow> codec_lib \<Rightarrow> dz_alg \<Rightarrow> int \<Rightarrow> int \<Rightarrow> job \<times> 'h st \<Rightarrow> job \<times> 'h st \<Rightarrow> bool"
  for H L alg junk_src junk_h5
where
  no_step: "convert_steps H L alg junk_src junk_h5 x x"
| next_step: "convert_step H L alg junk_src junk_h5 t w = Some y \<Longrightarrow>
    convert_steps H L alg junk_src junk_h5 y z \<Longrightarrow>
    convert_steps H L alg junk_src junk_h5 (t, w) z"

lemma convert_step_path: "convert_step H L alg junk_src junk_h5 t w = Some (t', w') \<Longrightarrow> job_path t' = job_path t"
  by (cases t) (auto split: option.splits prod.splits sum.splits if_splits)

lemma convert_steps_path: "convert_steps H L alg junk_src junk_h5 x y \<Longrightarrow> job_path (fst y) = job_path (fst x)"
  by (induction rule: convert_steps.induct) (auto dest: convert_step_path simp del: convert_step.simps)

text \<open>The steps are those of the function.\<close>

lemma out_steps:
  assumes "convert_out H srcfd h5fd ret w = (r, w')"
  shows "convert_steps H L alg junk_src junk_h5 (AtOut p ret srcfd h5fd, w) (Converted p r, w')"
  by (rule next_step) (simp add: assms, rule no_step)

lemma finish_steps:
  assumes "convert_finish p (tmp_name h5name) h5name (fst w) = (ret, s)"
    and "convert_out H srcfd h5fd ret (s, snd w) = (r, w')"
  shows "convert_steps H L alg junk_src junk_h5 (RenameTemp p h5name srcfd h5fd, w) (Converted p r, w')"
proof -
  let ?S = "convert_steps H L alg junk_src junk_h5"
  note out = out_steps [OF assms(2), of L alg junk_src junk_h5 p]
  obtain r1 s1 where r1: "sys_rename (tmp_name h5name) h5name (fst w) = (r1, s1)" by fastforce
  obtain st s2 where st: "sys_stat p s1 = (st, s2)" by fastforce
  obtain r3 s3 where r3: "sys_truncate p 0 s2 = (r3, s3)" by fastforce
  show ?thesis
  proof (cases "r1 < 0")
    case True
    with assms(1) r1 out show ?thesis by (intro next_step) (auto simp: convert_finish_def)
  next
    case r1n: False
    have "?S (StatSource p srcfd h5fd, (s1, snd w)) (Converted p r, w')"
    proof (cases st)
      case None
      with assms(1) r1 r1n st out show ?thesis by (intro next_step) (auto simp: convert_finish_def)
    next
      case (Some stbuf)
      have "?S (TruncateSource p srcfd h5fd (st_size stbuf), (s2, snd w)) (Converted p r, w')"
      proof (cases "r3 < 0")
        case True
        with assms(1) r1 r1n st Some r3 out show ?thesis by (intro next_step) (auto simp: convert_finish_def)
      next
        case False
        with assms(1) r1 r1n st Some r3 have "sys_truncate p (st_size stbuf) s3 = (ret, s)"
          by (simp add: convert_finish_def)
        with out have "?S (ExtendSource p srcfd h5fd (st_size stbuf), (s3, snd w)) (Converted p r, w')"
          by (intro next_step) auto
        with r3 False show ?thesis by (intro next_step) auto
      qed
      with st Some show ?thesis by (intro next_step) auto
    qed
    with r1 r1n show ?thesis by (intro next_step) auto
  qed
qed

lemma loop_steps:
  assumes "convert_loop H L alg srcfd h5fd fuel k w = Some (jump, w1)"
    and "convert_steps H L alg junk_src junk_h5
      (case jump of None \<Rightarrow> RenameTemp p h5name srcfd h5fd | Some ret \<Rightarrow> AtOut p ret srcfd h5fd, w1) z"
  shows "convert_steps H L alg junk_src junk_h5 (NextBlock p h5name srcfd h5fd k, w) z"
  using assms
proof (induction fuel arbitrary: k w)
  case (Suc fuel)
  obtain r v where t: "convert_turn H L alg srcfd h5fd k w = (r, v)" by (metis surj_pair)
  show ?case
  proof (cases r)
    case None
    with t Suc.prems have "convert_steps H L alg junk_src junk_h5
        (NextBlock p h5name srcfd h5fd (Suc k), v) z"
      by (intro Suc.IH) (simp_all add: convert_loop_turn del: convert_loop.simps)
    with t None show ?thesis by (intro next_step) auto
  next
    case (Some x)
    with t Suc.prems show ?thesis
      by (intro next_step) (auto simp: convert_loop_turn simp del: convert_loop.simps split: option.splits)
  qed
qed simp


lemma write_steps:
  assumes "convert_write H L fuel p alg h5name (tmp_name h5name) srcfd h5fd w = Some (ret, w')"
  shows "convert_steps H L alg junk_src junk_h5 (WriteVersion p h5name srcfd h5fd, w) (Converted p ret, w')"
proof -
  let ?S = "convert_steps H L alg junk_src junk_h5"
  obtain r1 w1 where v: "(case alg_version L alg of None \<Rightarrow> (-1, w)
      | Some version \<Rightarrow> hdf5_writestr H h5fd (Some ''algorithm'') (Some version) w) = (r1, w1)" by (metis surj_pair)
  show ?thesis
  proof (cases "r1 < 0")
    case True
    with assms v have "convert_out H srcfd h5fd r1 w1 = (ret, w')" by (simp add: convert_write_def)
    from out_steps [OF this] v True show ?thesis by (intro next_step) auto
  next
    case False
    with assms v obtain jump w2 where l: "convert_loop H L alg srcfd h5fd fuel 0 w1 = Some (jump, w2)"
      by (auto simp: convert_write_def split: option.splits)
    have "?S (case jump of None \<Rightarrow> RenameTemp p h5name srcfd h5fd | Some r \<Rightarrow> AtOut p r srcfd h5fd, w2)
        (Converted p ret, w')"
    proof (cases jump)
      case None
      obtain r3 s3 where f: "convert_finish p (tmp_name h5name) h5name (fst w2) = (r3, s3)" by fastforce
      with assms v False l None have "convert_out H srcfd h5fd r3 (s3, snd w2) = (ret, w')"
        by (simp add: convert_write_def)
      from finish_steps [OF f this] None show ?thesis by simp
    next
      case (Some r)
      with assms v False l have "convert_out H srcfd h5fd r w2 = (ret, w')" by (simp add: convert_write_def)
      from out_steps [OF this] Some show ?thesis by simp
    qed
    from loop_steps [OF l this] v False show ?thesis by (intro next_step) auto
  qed
qed

lemma open_steps:
  assumes "convert_open H L junk_h5 fuel p alg h5name (tmp_name h5name) w = Some (ret, w')"
  shows "convert_steps H L alg junk_src junk_h5 (OpenSource p h5name, w) (Converted p ret, w')"
proof -
  obtain srcfd s1 where so: "sys_open p O_RDONLY 0 (fst w) = (srcfd, s1)" by fastforce
  obtain h5fd w2 where ho: "hdf5_open H (Some (tmp_name h5name)) H5_WRITE (s1, snd w) = (h5fd, w2)"
    by (metis surj_pair)
  show ?thesis
  proof (cases "srcfd < 0")
    case True
    with assms so have "convert_out H srcfd junk_h5 (-1) (s1, snd w) = (ret, w')" by (simp add: convert_open_def)
    from out_steps [OF this] so True show ?thesis by (intro next_step) auto
  next
    case src: False
    have "convert_steps H L alg junk_src junk_h5 (CreateTemp p h5name srcfd, (s1, snd w)) (Converted p ret, w')"
    proof (cases "h5fd < 0")
      case True
      with assms so src ho have "convert_out H srcfd h5fd (-1) w2 = (ret, w')" by (simp add: convert_open_def)
      from out_steps [OF this] ho True show ?thesis by (intro next_step) auto
    next
      case False
      with assms so src ho
      have "convert_write H L fuel p alg h5name (tmp_name h5name) srcfd h5fd w2 = Some (ret, w')"
        by (simp add: convert_open_def)
      from write_steps [OF this] ho False show ?thesis by (intro next_step) auto
    qed
    with so src show ?thesis by (intro next_step) auto
  qed
qed

lemma convert2h5_steps:
  assumes "convert2h5 H L junk_src junk_h5 fuel (Some p) alg w = Some (ret, w')"
  shows "convert_steps H L alg junk_src junk_h5 (Checks p, w) (Converted p ret, w')"
proof -
  obtain r v where c: "convert_checks H junk_src junk_h5 p w = Some (r, v)"
    using assms by (auto simp: convert2h5_split split: option.splits)
  show ?thesis
  proof (cases r)
    case (Inl x)
    with assms c have "x = ret" "v = w'" by (simp_all add: convert2h5_split)
    with c Inl show ?thesis by (intro next_step) (auto intro: no_step)
  next
    case (Inr h5name)
    with assms c have "convert_open H L junk_h5 fuel p alg h5name (tmp_name h5name) v = Some (ret, w')"
      by (simp add: convert2h5_split)
    from open_steps [OF this] c Inr show ?thesis by (intro next_step) auto
  qed
qed

text \<open>
  And the other way round: what is left of the function from each place on. A step and then the rest
  are the rest from before the step, where the loop has one turn more.
\<close>

definition finish_rest ::
    "'h hdf5_lib \<Rightarrow> int \<Rightarrow> int \<Rightarrow> int \<times> os \<Rightarrow> 'h \<Rightarrow> (int \<times> 'h st) option" where
  "finish_rest H srcfd h5fd r h = Some (convert_out H srcfd h5fd (fst r) (snd r, h))"

fun convert_rest ::
    "'h hdf5_lib \<Rightarrow> codec_lib \<Rightarrow> dz_alg \<Rightarrow> int \<Rightarrow> int \<Rightarrow> nat \<Rightarrow> job \<Rightarrow> 'h st \<Rightarrow> (int \<times> 'h st) option" where
  "convert_rest H L alg junk_src junk_h5 fuel (Checks p) w =
     convert2h5 H L junk_src junk_h5 fuel (Some p) alg w"
| "convert_rest H L alg junk_src junk_h5 fuel (OpenSource p h5name) w =
     convert_open H L junk_h5 fuel p alg h5name (tmp_name h5name) w"
| "convert_rest H L alg junk_src junk_h5 fuel (CreateTemp p h5name srcfd) w =
     (case hdf5_open H (Some (tmp_name h5name)) H5_WRITE w of
        (h5fd, w2) \<Rightarrow>
          if h5fd < 0 then Some (convert_out H srcfd h5fd (-1) w2)
          else convert_write H L fuel p alg h5name (tmp_name h5name) srcfd h5fd w2)"
| "convert_rest H L alg junk_src junk_h5 fuel (WriteVersion p h5name srcfd h5fd) w =
     convert_write H L fuel p alg h5name (tmp_name h5name) srcfd h5fd w"
| "convert_rest H L alg junk_src junk_h5 fuel (NextBlock p h5name srcfd h5fd k) w =
     (case convert_loop H L alg srcfd h5fd fuel k w of
        None \<Rightarrow> None
      | Some (Some ret, w2) \<Rightarrow> Some (convert_out H srcfd h5fd ret w2)
      | Some (None, w2) \<Rightarrow>
          finish_rest H srcfd h5fd (convert_finish p (tmp_name h5name) h5name (fst w2)) (snd w2))"
| "convert_rest H L alg junk_src junk_h5 fuel (RenameTemp p h5name srcfd h5fd) w =
     finish_rest H srcfd h5fd (convert_finish p (tmp_name h5name) h5name (fst w)) (snd w)"
| "convert_rest H L alg junk_src junk_h5 fuel (StatSource p srcfd h5fd) w =
     finish_rest H srcfd h5fd
       (case sys_stat p (fst w) of
          (None, s2) \<Rightarrow> (-1, s2)
        | (Some stbuf, s2) \<Rightarrow>
            (case sys_truncate p 0 s2 of
               (ret, s3) \<Rightarrow> if ret < 0 then (ret, s3) else sys_truncate p (st_size stbuf) s3)) (snd w)"
| "convert_rest H L alg junk_src junk_h5 fuel (TruncateSource p srcfd h5fd sz) w =
     finish_rest H srcfd h5fd
       (case sys_truncate p 0 (fst w) of
          (ret, s3) \<Rightarrow> if ret < 0 then (ret, s3) else sys_truncate p sz s3) (snd w)"
| "convert_rest H L alg junk_src junk_h5 fuel (ExtendSource p srcfd h5fd sz) w =
     finish_rest H srcfd h5fd (sys_truncate p sz (fst w)) (snd w)"
| "convert_rest H L alg junk_src junk_h5 fuel (AtOut p ret srcfd h5fd) w = Some (convert_out H srcfd h5fd ret w)"
| "convert_rest H L alg junk_src junk_h5 fuel (Converted p ret) w = Some (ret, w)"

lemma convert_rest_step:
  assumes "convert_step H L alg junk_src junk_h5 t w = Some (t', w')"
    and "convert_rest H L alg junk_src junk_h5 fuel t' w' = Some r"
  shows "\<exists>fuel'. convert_rest H L alg junk_src junk_h5 fuel' t w = Some r"
proof (cases t)
  case (Checks p)
  with assms show ?thesis
    by (intro exI [of _ fuel]) (auto simp: convert2h5_split split: option.splits sum.splits)
next
  case (OpenSource p h5name)
  with assms show ?thesis
    by (intro exI [of _ fuel]) (auto simp: convert_open_def split: prod.splits if_splits)
next
  case (CreateTemp p h5name srcfd)
  with assms show ?thesis by (intro exI [of _ fuel]) (auto split: prod.splits if_splits)
next
  case (WriteVersion p h5name srcfd h5fd)
  obtain x v where x: "(case alg_version L alg of None \<Rightarrow> (-1, w)
      | Some version \<Rightarrow> hdf5_writestr H h5fd (Some ''algorithm'') (Some version) w) = (x, v)" by (metis surj_pair)
  with WriteVersion assms show ?thesis
    by (intro exI [of _ fuel])
      (auto simp: convert_write_def finish_rest_def simp del: convert_loop.simps split: if_splits option.splits prod.splits)
next
  case (NextBlock p h5name srcfd h5fd k)
  obtain x v where "convert_turn H L alg srcfd h5fd k w = (x, v)" by (metis surj_pair)
  with NextBlock assms show ?thesis
    by (intro exI [of _ "Suc fuel"])
      (auto simp: convert_loop_turn simp del: convert_loop.simps split: option.splits)
next
  case (RenameTemp p h5name srcfd h5fd)
  with assms show ?thesis
    by (intro exI [of _ fuel]) (auto simp: convert_finish_def finish_rest_def split: prod.splits if_splits)
next
  case (StatSource p srcfd h5fd)
  with assms show ?thesis
    by (intro exI [of _ fuel]) (auto simp: finish_rest_def split: option.splits prod.splits)
next
  case (TruncateSource p srcfd h5fd sz)
  with assms show ?thesis
    by (intro exI [of _ fuel]) (auto simp: finish_rest_def split: prod.splits if_splits)
next
  case (ExtendSource p srcfd h5fd sz)
  with assms show ?thesis
    by (intro exI [of _ fuel]) (auto simp: finish_rest_def split: prod.splits)
next
  case (AtOut p ret srcfd h5fd)
  with assms show ?thesis by (auto split: prod.splits)
qed (use assms in auto)

lemma convert_steps_rest:
  assumes "convert_steps H L alg junk_src junk_h5 x (Converted p ret, w')"
  shows "\<exists>fuel. convert_rest H L alg junk_src junk_h5 fuel (fst x) (snd x) = Some (ret, w')"
  using assms
proof (induction x "(Converted p ret, w')")
  case (next_step t w y)
  then obtain fuel where "convert_rest H L alg junk_src junk_h5 fuel (fst y) (snd y) = Some (ret, w')" by blast
  with convert_rest_step [of H L alg junk_src junk_h5 t w "fst y" "snd y"] next_step(1) show ?case by simp
qed simp

text \<open>The steps are the function: a worker that is alone makes the steps of \<open>convert_step\<close> from the checks to
  its end in a state \<open>w'\<close> with the result \<open>ret\<close> exactly if \<open>convert2h5\<close>, with turns enough for its loop, returns \<open>ret\<close> in \<open>w'\<close>.\<close>

theorem convert2h5_in_steps:
  "convert_steps H L alg junk_src junk_h5 (Checks p, w) (Converted p ret, w') \<longleftrightarrow>
     (\<exists>fuel. convert2h5 H L junk_src junk_h5 fuel (Some p) alg w = Some (ret, w'))"
proof
  assume "convert_steps H L alg junk_src junk_h5 (Checks p, w) (Converted p ret, w')"
  from convert_steps_rest [OF this] show "\<exists>fuel. convert2h5 H L junk_src junk_h5 fuel (Some p) alg w = Some (ret, w')"
    by simp
next
  assume "\<exists>fuel. convert2h5 H L junk_src junk_h5 fuel (Some p) alg w = Some (ret, w')"
  then show "convert_steps H L alg junk_src junk_h5 (Checks p, w) (Converted p ret, w')"
    using convert2h5_steps by blast
qed

section \<open>Workers side by side\<close>

inductive workers_step ::
    "'h hdf5_lib \<Rightarrow> codec_lib \<Rightarrow> int \<Rightarrow> int \<Rightarrow> string set \<Rightarrow> job option list \<times> 'h st \<Rightarrow> job option list \<times> 'h st \<Rightarrow> bool"
  for H L junk_src junk_h5 F
where
  begin_task: "i < length js \<Longrightarrow> js ! i = None \<Longrightarrow> f \<in> F \<Longrightarrow> \<forall>t. Some t \<in> set js \<longrightarrow> job_path t \<noteq> f \<Longrightarrow>
    workers_step H L junk_src junk_h5 F (js, w) (js[i := Some (Checks f)], w)"
    \<comment> \<open>no two workers on one file\<close>
| work_on: "i < length js \<Longrightarrow> js ! i = Some t \<Longrightarrow>
    convert_step H L DZ_ALG_ZSTD junk_src junk_h5 t w = Some (t', w') \<Longrightarrow>
    workers_step H L junk_src junk_h5 F (js, w) (js[i := Some t'], w')"
| end_task: "i < length js \<Longrightarrow> js ! i = Some (Converted f ret) \<Longrightarrow>
    workers_step H L junk_src junk_h5 F (js, w) (js[i := None], w)"

section \<open>What a worker has in hand\<close>

fun job_src :: "job \<Rightarrow> int option" where
  "job_src (CreateTemp p h5name srcfd) = Some srcfd"
| "job_src (WriteVersion p h5name srcfd h5fd) = Some srcfd"
| "job_src (NextBlock p h5name srcfd h5fd k) = Some srcfd"
| "job_src (RenameTemp p h5name srcfd h5fd) = Some srcfd"
| "job_src (StatSource p srcfd h5fd) = Some srcfd"
| "job_src (TruncateSource p srcfd h5fd sz) = Some srcfd"
| "job_src (ExtendSource p srcfd h5fd sz) = Some srcfd"
| "job_src (AtOut p ret srcfd h5fd) = (if 0 < srcfd then Some srcfd else None)"
| "job_src _ = None"

fun job_h5 :: "job \<Rightarrow> int option" where
  "job_h5 (WriteVersion p h5name srcfd h5fd) = Some h5fd"
| "job_h5 (NextBlock p h5name srcfd h5fd k) = Some h5fd"
| "job_h5 (RenameTemp p h5name srcfd h5fd) = Some h5fd"
| "job_h5 (StatSource p srcfd h5fd) = Some h5fd"
| "job_h5 (TruncateSource p srcfd h5fd sz) = Some h5fd"
| "job_h5 (ExtendSource p srcfd h5fd sz) = Some h5fd"
| "job_h5 (AtOut p ret srcfd h5fd) = (if 0 < h5fd then Some h5fd else None)"
| "job_h5 _ = None"

text \<open>
  The descriptor of a worker is open, and its HDF5 file is the one under the temporary or the hidden
  name of its file.
\<close>

definition regular_at :: "os \<Rightarrow> string list \<Rightarrow> nat \<Rightarrow> bool" where
  "regular_at s cs j \<longleftrightarrow> (\<exists>m. node_at s cs = Some (j, m) \<and> \<not> i_dir m)"

definition holds :: "'h h5files \<Rightarrow> job \<Rightarrow> 'h st \<Rightarrow> bool" where
  "holds hf t w \<longleftrightarrow>
     (\<forall>fd. job_src t = Some fd \<longrightarrow> fd_get (fst w) fd \<noteq> None) \<and>
     (\<forall>fd. job_h5 t = Some fd \<longrightarrow> 0 < fd \<and> (\<exists>j. hf (snd w) fd = Some j \<and>
        (regular_at (fst w) (comps (hidden_name (job_path t))) j \<or>
         regular_at (fst w) (comps (tmp_name (hidden_name (job_path t)))) j)))"

definition at_source :: "string \<Rightarrow> bytes \<Rightarrow> int \<Rightarrow> nat \<Rightarrow> os \<Rightarrow> bool" where
  \<comment> \<open>the descriptor stands at \<open>off\<close> in the file, which has its contents\<close>
  "at_source p d srcfd off s \<longleftrightarrow> off \<le> length d \<and>
     (\<exists>i n. node_at s (comps p) = Some (i, n) \<and> \<not> i_dir n \<and> i_data n = d \<and>
        fd_get s srcfd = Some \<lparr>of_ino = i, of_off = off, of_flags = O_RDONLY\<rparr>)"

definition written :: "codec_lib \<Rightarrow> 'h h5data \<Rightarrow> string \<Rightarrow> bytes list \<Rightarrow> 'h st \<Rightarrow> bool" where
  \<comment> \<open>the temporary file holds the pieces\<close>
  "written L hdat p cs w \<longleftrightarrow> (\<exists>j. map_of (names (fst w)) (comps (tmp_name (hidden_name p))) = Some j \<and>
     stored L (hdat (fst w) (snd w) j) cs \<and>
     hdat (fst w) (snd w) j ''algorithm'' = Some (bytes_of_string (''zstd '' @ ZSTD_versionString L)))"

fun job_ok :: "codec_lib \<Rightarrow> 'h h5files \<Rightarrow> 'h h5data \<Rightarrow> bytes \<Rightarrow> job \<Rightarrow> 'h st \<Rightarrow> bool" where
  "job_ok L hf hdat d (OpenSource p h5name) w \<longleftrightarrow>
     h5name = hidden_name p \<and> map_of (names (fst w)) (comps h5name) = None"
| "job_ok L hf hdat d (CreateTemp p h5name srcfd) w \<longleftrightarrow>
     h5name = hidden_name p \<and> map_of (names (fst w)) (comps h5name) = None \<and> at_source p d srcfd 0 (fst w)"
| "job_ok L hf hdat d (WriteVersion p h5name srcfd h5fd) w \<longleftrightarrow>
     h5name = hidden_name p \<and> map_of (names (fst w)) (comps h5name) = None \<and> at_source p d srcfd 0 (fst w) \<and>
     (\<exists>j. map_of (names (fst w)) (comps (tmp_name h5name)) = Some j \<and> hdat (fst w) (snd w) j = Map.empty)"
| "job_ok L hf hdat d (NextBlock p h5name srcfd h5fd k) w \<longleftrightarrow>
     h5name = hidden_name p \<and> map_of (names (fst w)) (comps h5name) = None \<and>
     (\<exists>off cs. at_source p d srcfd off (fst w) \<and> length cs = k \<and> written L hdat p cs w \<and>
        concat cs = take off d \<and> in_step d off cs)"
| "job_ok L hf hdat d (RenameTemp p h5name srcfd h5fd) w \<longleftrightarrow>
     h5name = hidden_name p \<and> map_of (names (fst w)) (comps h5name) = None \<and>
     (\<exists>cs. written L hdat p cs w \<and> concat cs = d \<and> aligned d cs)"
| "job_ok L hf hdat d (StatSource p srcfd h5fd) w \<longleftrightarrow>
     map_of (names (fst w)) (comps (hidden_name p)) \<noteq> None"
| "job_ok L hf hdat d (TruncateSource p srcfd h5fd sz) w \<longleftrightarrow>
     map_of (names (fst w)) (comps (hidden_name p)) \<noteq> None"
| "job_ok L hf hdat d (ExtendSource p srcfd h5fd sz) w \<longleftrightarrow>
     map_of (names (fst w)) (comps (hidden_name p)) \<noteq> None"
| "job_ok L hf hdat d (AtOut p ret srcfd h5fd) w \<longleftrightarrow>
     (0 \<le> ret \<longrightarrow> map_of (names (fst w)) (comps (hidden_name p)) \<noteq> None)"
| "job_ok L hf hdat d (Converted p ret) w \<longleftrightarrow>
     (0 \<le> ret \<longrightarrow> map_of (names (fst w)) (comps (hidden_name p)) \<noteq> None)"
| "job_ok L hf hdat d (Checks p) w \<longleftrightarrow> True"

end
