(* ===== verification/JobSteps.thy ===== *)
theory JobSteps
  imports Workers
begin

text \<open>
  What one step of a worker (\<open>convert_step\<close> of \<open>Workers\<close>) does to the disk, the descriptors and
  the HDF5 files: nothing to the workers on other files (\<open>beside\<close>), and it keeps the worker and its
  file in order (\<open>stepped\<close>), step by step from the checks to the rename.
\<close>

section \<open>What a step leaves to the others\<close>

definition own_inodes :: "string \<Rightarrow> os \<Rightarrow> nat set" where
  "own_inodes p s = {k. \<exists>q\<in>own_names p. map_of (names s) q = Some k}"

definition beside :: "'h h5files \<Rightarrow> 'h h5data \<Rightarrow> job \<Rightarrow> 'h st \<Rightarrow> 'h st \<Rightarrow> bool" where
  "beside hf hdat t w w' \<longleftrightarrow>
     leaves hdat {comps (hidden_name (job_path t)), comps (tmp_name (hidden_name (job_path t)))}
       (own_inodes (job_path t) (fst w)) w w' \<and>
     (\<forall>fd. fd_get (fst w) fd \<noteq> None \<longrightarrow> job_src t \<noteq> Some fd \<longrightarrow> fd_get (fst w') fd = fd_get (fst w) fd) \<and>
     (\<forall>fd. hf (snd w) fd \<noteq> None \<longrightarrow> job_h5 t \<noteq> Some fd \<longrightarrow> hf (snd w') fd = hf (snd w) fd)"

definition apart :: "job \<Rightarrow> job \<Rightarrow> bool" where
  "apart t u \<longleftrightarrow> own_names (job_path t) \<inter> own_names (job_path u) = {} \<and>
     (\<forall>fd. job_src u = Some fd \<longrightarrow> job_src t \<noteq> Some fd) \<and> (\<forall>fd. job_h5 u = Some fd \<longrightarrow> job_h5 t \<noteq> Some fd)"

lemma beside_others:
  assumes b: "beside hf hdat t w w'" and wf: "wf_fs (fst w)"
    and disj: "own_names (job_path t) \<inter> own_names p = {}" and q: "q \<in> own_names p"
  shows "map_of (names (fst w')) q = map_of (names (fst w)) q" "node_at (fst w') q = node_at (fst w) q"
    and "map_of (names (fst w)) q = Some k \<Longrightarrow> hdat (fst w') (snd w') k = hdat (fst w) (snd w) k"
proof -
  note l = b [unfolded beside_def, THEN conjunct1]
  have "q \<notin> {comps (hidden_name (job_path t)), comps (tmp_name (hidden_name (job_path t)))}"
    using disj q by (auto simp: own_names_def)
  then show nm: "map_of (names (fst w')) q = map_of (names (fst w)) q" by (rule leavesD(1) [OF l])
  have k: "k \<notin> own_inodes (job_path t) (fst w)" if "map_of (names (fst w)) q = Some k" for k
  proof
    assume "k \<in> own_inodes (job_path t) (fst w)"
    then obtain q' where "q' \<in> own_names (job_path t)" "map_of (names (fst w)) q' = Some k"
      by (auto simp: own_inodes_def)
    with wf_fs_inj [OF wf that] disj q show False by blast
  qed
  show "node_at (fst w') q = node_at (fst w) q"
  proof (cases "map_of (names (fst w)) q")
    case None
    with nm show ?thesis by (simp add: node_at_def)
  next
    case (Some k)
    with wf_fs_node [OF wf] obtain m where m: "inodes (fst w) k = Some m" by (fastforce simp: node_at_Some)
    from leavesD(2) [OF l this k [OF Some]] m Some nm show ?thesis by (simp add: node_at_def)
  qed
  assume s: "map_of (names (fst w)) q = Some k"
  with wf_fs_node [OF wf] obtain m where m: "inodes (fst w) k = Some m" by (fastforce simp: node_at_Some)
  from leavesD(3) [OF l m k [OF s]] show "hdat (fst w') (snd w') k = hdat (fst w) (snd w) k" .
qed

lemma own_names_simps:
  "comps p \<in> own_names p" "comps (hidden_name p) \<in> own_names p" "comps (tmp_name (hidden_name p)) \<in> own_names p"
  by (simp_all add: own_names_def)

lemma beside_at_source:
  assumes b: "beside hf hdat t w w'" and wf: "wf_fs (fst w)"
    and disj: "own_names (job_path t) \<inter> own_names p = {}" and a: "at_source p d fd off (fst w)" "job_src t \<noteq> Some fd"
  shows "at_source p d fd off (fst w')"
proof -
  have "fd_get (fst w') fd = fd_get (fst w) fd" using b a by (auto simp: beside_def at_source_def)
  with a(1) beside_others(2) [OF b wf disj own_names_simps(1)] show ?thesis by (simp add: at_source_def)
qed

lemma beside_written:
  assumes b: "beside hf hdat t w w'" and wf: "wf_fs (fst w)"
    and disj: "own_names (job_path t) \<inter> own_names p = {}" and a: "written L hdat p cs w"
  shows "written L hdat p cs w'"
  using a beside_others(1,3) [OF b wf disj own_names_simps(3)] by (auto simp: written_def)

lemma beside_holds:
  assumes b: "beside hf hdat t w w'" and wf: "wf_fs (fst w)" and ap: "apart t u" and h: "holds hf u w"
  shows "holds hf u w'"
proof -
  have disj: "own_names (job_path t) \<inter> own_names (job_path u) = {}" using ap by (simp add: apart_def)
  note nd = beside_others(2) [OF b wf disj]
  have "fd_get (fst w') fd \<noteq> None" if "job_src u = Some fd" for fd
    using b ap h that by (auto simp: beside_def apart_def holds_def)
  moreover have "hf (snd w') fd = hf (snd w) fd" if "job_h5 u = Some fd" for fd
    using b ap h that by (auto simp: beside_def apart_def holds_def)
  ultimately show ?thesis
    using h nd [OF own_names_simps(2)] nd [OF own_names_simps(3)] unfolding holds_def regular_at_def by auto
qed

lemma beside_job_ok:
  assumes b: "beside hf hdat t w w'" and wf: "wf_fs (fst w)" and ap: "apart t u" and j: "job_ok L hf hdat d u w"
  shows "job_ok L hf hdat d u w'"
proof -
  have disj: "own_names (job_path t) \<inter> own_names (job_path u) = {}"
    and src: "\<And>fd. job_src u = Some fd \<Longrightarrow> job_src t \<noteq> Some fd" using ap by (auto simp: apart_def)
  note nm = beside_others(1) [OF b wf disj own_names_simps(2)] beside_others(1) [OF b wf disj own_names_simps(3)]
  note hd = beside_others(3) [OF b wf disj own_names_simps(3)]
  have at: "at_source (job_path u) d fd off (fst w')"
    if "at_source (job_path u) d fd off (fst w)" "job_src u = Some fd" for fd off
    using beside_at_source [OF b wf disj that(1) src [OF that(2)]] .
  note wr = beside_written [OF b wf disj]
  show ?thesis
  proof (cases u)
    case (NextBlock p h5name srcfd h5fd k)
    with j obtain off cs where "at_source (job_path u) d srcfd off (fst w)" "written L hdat (job_path u) cs w"
      and "length cs = k" "concat cs = take off d" "in_step d off cs" by auto
    with at [of srcfd off] wr [of L cs] have "at_source p d srcfd off (fst w')" "written L hdat p cs w'"
      "length cs = k" "concat cs = take off d" "in_step d off cs" using NextBlock by auto
    moreover have "h5name = hidden_name p" "map_of (names (fst w')) (comps h5name) = None"
      using NextBlock j nm(1) by auto
    ultimately show ?thesis unfolding NextBlock job_ok.simps by blast
  next
    case (RenameTemp p h5name srcfd h5fd)
    with j obtain cs where "written L hdat (job_path u) cs w" and "concat cs = d" "aligned d cs" by auto
    with wr [of L cs] have "written L hdat p cs w'" "concat cs = d" "aligned d cs" using RenameTemp by auto
    moreover have "h5name = hidden_name p" "map_of (names (fst w')) (comps h5name) = None"
      using RenameTemp j nm(1) by auto
    ultimately show ?thesis unfolding RenameTemp job_ok.simps by blast
  qed (use j nm hd at in auto)
qed

lemma beside_file_ok:
  assumes b: "beside hf hdat t w w'" and wf: "wf_fs (fst w)"
    and disj: "own_names (job_path t) \<inter> own_names f = {}" and ok: "file_ok L hdat w f d"
  shows "file_ok L hdat w' f d"
proof -
  note nd = beside_others(2) [OF b wf disj own_names_simps(1)] beside_others(2) [OF b wf disj own_names_simps(2)]
  have "archived L hdat w' (hidden_name f) d cs" if "archived L hdat w (hidden_name f) d cs" for cs
    using that beside_others(1,3) [OF b wf disj own_names_simps(2)] by (auto simp: archived_def)
  with ok nd show ?thesis unfolding file_ok_def by metis
qed


section \<open>The steps of a worker\<close>

definition sound :: "codec_lib \<Rightarrow> 'h h5data \<Rightarrow> string \<Rightarrow> bytes \<Rightarrow> 'h st \<Rightarrow> bool" where
  "sound L hdat p d w \<longleftrightarrow> env (fst w) = [] \<and> wf_fs (fst w) \<and> cstring p \<and> SLASH \<in> set p \<and> file_ok L hdat w p d"

definition stepped ::
    "codec_lib \<Rightarrow> 'h h5files \<Rightarrow> 'h h5data \<Rightarrow> bytes \<Rightarrow> job \<Rightarrow> 'h st \<Rightarrow> job \<Rightarrow> 'h st \<Rightarrow> bool" where
  \<comment> \<open>what a step achieves: the worker is in order, and has taken nothing that was in use\<close>
  "stepped L hf hdat d t w t' w' \<longleftrightarrow>
     job_path t' = job_path t \<and> beside hf hdat t w w' \<and> holds hf t' w' \<and> job_ok L hf hdat d t' w' \<and>
     file_ok L hdat w' (job_path t) d \<and>
     (\<forall>fd. job_src t' = Some fd \<longrightarrow> job_src t = Some fd \<or> fd_get (fst w) fd = None) \<and>
     (\<forall>fd. job_h5 t' = Some fd \<longrightarrow> job_h5 t = Some fd \<or> hf (snd w) fd = None)"

lemma quiet_view:
  assumes "h5_frame_law hdat" "quiet (fst w) s'"
  shows "job_ok L hf hdat d t (s', snd w) = job_ok L hf hdat d t w" "holds hf t (s', snd w) = holds hf t w"
    and "file_ok L hdat (s', snd w) p d = file_ok L hdat w p d" "beside hf hdat u w (s', snd w)"
proof -
  have e: "names s' = names (fst w)" "node_at s' = node_at (fst w)" "fd_get s' = fd_get (fst w)"
    using assms(2) by (auto simp: quiet_node_at quiet_fd_get quietD)
  have h: "hdat s' (snd w) = hdat (fst w) (snd w)"
    using assms(2) by (intro ext hdat_cong [OF assms(1), THEN fun_cong]) (simp add: quiet_def)
  show "job_ok L hf hdat d t (s', snd w) = job_ok L hf hdat d t w"
    by (cases t) (simp_all add: e h at_source_def written_def)
  show "holds hf t (s', snd w) = holds hf t w" by (simp add: holds_def regular_at_def e)
  show "file_ok L hdat (s', snd w) p d = file_ok L hdat w p d" by (simp add: file_ok_def archived_def e h)
  show "beside hf hdat u w (s', snd w)"
    using leaves_quiet [OF assms] by (simp add: beside_def e)
qed

lemma quiet_stepped:
  assumes "h5_frame_law hdat" "quiet (fst w) s'" "sound L hdat (job_path t) d w"
    and "job_path t' = job_path t" "holds hf t' w" "job_ok L hf hdat d t' w"
    and "job_src t' = job_src t \<or> job_src t' = None" "job_h5 t' = job_h5 t \<or> job_h5 t' = None"
  shows "stepped L hf hdat d t w t' (s', snd w)"
  using assms(3-) by (auto simp: stepped_def quiet_view [OF assms(1,2)] sound_def)

lemma checks_quiet:
  assumes "convert_checks H junk_src junk_h5 p w = Some (r, w')" "junk_src \<le> 0" "junk_h5 \<le> 0"
  shows "quiet (fst w) (fst w') \<and> snd w' = snd w \<and> (\<forall>ret. r = Inl ret \<longrightarrow> ret < 0)"
proof -
  have o: "convert_out H junk_src junk_h5 ret v = (ret, v)" for ret v
    using assms(2,3) by (simp add: convert_out_def)
  show ?thesis
    using assms(1)
    by (auto simp: convert_checks_def o split: option.splits prod.splits bool.splits
        dest!: quiet_buildHiddenFile quiet_sys_stat quiet_sys_malloc) (auto simp: quiet_def)
qed

lemma Checks_step:
  assumes H: "hdf5_contract H hf hdat" and S: "sound L hdat p d w" and J: "junk_src \<le> 0" "junk_h5 \<le> 0"
    and run: "convert_step H L DZ_ALG_ZSTD junk_src junk_h5 (Checks p) w = Some (t', w')"
  shows "stepped L hf hdat d (Checks p) w t' w'"
proof -
  have fr: "h5_frame_law hdat" using H by (simp add: hdf5_contract_def)
  from run obtain r where c: "convert_checks H junk_src junk_h5 p w = Some (r, w')"
    and t': "t' = (case r of Inl ret \<Rightarrow> Converted p ret | Inr h5name \<Rightarrow> OpenSource p h5name)"
    by (auto split: option.splits sum.splits)
  from checks_quiet [OF c J] have q: "quiet (fst w) (fst w')" "w' = (fst w', snd w)" by (auto simp: prod_eq_iff)
  have "stepped L hf hdat d (Checks p) w t' (fst w', snd w)"
  proof (cases r)
    case (Inl ret)
    with checks_quiet [OF c J] have "ret < 0" by simp
    with S t' Inl show ?thesis by (intro quiet_stepped [OF fr q(1)]) (simp_all add: holds_def)
  next
    case (Inr h5name)
    have "convert_checks H junk_src junk_h5 p (fst w, snd w) = Some (Inr h5name, w')" using c Inr by simp
    from convert_checks_go [OF _ _ this] S
    have g: "h5name = hidden_name p" "node_at (fst w) (comps (hidden_name p)) = None" by (simp_all add: sound_def)
    from g(2) S wf_fs_node [of "fst w" "comps (hidden_name p)"]
    have "map_of (names (fst w)) (comps (hidden_name p)) = None"
      by (cases "map_of (names (fst w)) (comps (hidden_name p))") (auto simp: sound_def)
    with S t' Inr g(1) show ?thesis by (intro quiet_stepped [OF fr q(1)]) (simp_all add: holds_def)
  qed
  with q(2) show ?thesis by metis
qed

lemma StatSource_step:
  assumes H: "hdf5_contract H hf hdat" and S: "sound L hdat p d w"
    and I: "holds hf (StatSource p srcfd h5fd) w" "job_ok L hf hdat d (StatSource p srcfd h5fd) w"
    and run: "convert_step H L DZ_ALG_ZSTD junk_src junk_h5 (StatSource p srcfd h5fd) w = Some (t', w')"
  shows "stepped L hf hdat d (StatSource p srcfd h5fd) w t' w'"
proof -
  have fr: "h5_frame_law hdat" using H by (simp add: hdf5_contract_def)
  obtain st s2 where st: "sys_stat p (fst w) = (st, s2)" by fastforce
  then have q: "quiet (fst w) s2" by (rule quiet_sys_stat)
  from run st have w': "w' = (s2, snd w)"
    and t': "t' = (case st of None \<Rightarrow> AtOut p (-1) srcfd h5fd | Some stb \<Rightarrow> TruncateSource p srcfd h5fd (st_size stb))"
    by (auto split: option.splits)
  show ?thesis
    unfolding w' using S I t'
    by (intro quiet_stepped [OF fr q]) (auto simp: holds_def split: option.splits)
qed


text \<open>Opening the source, and the temporary file.\<close>

lemma alloc_fd_fresh:
  assumes "alloc_fd i fl s = (fd, s')"
  shows "fd_get s fd = None" "fd_get s fd' \<noteq> None \<Longrightarrow> fd_get s' fd' = fd_get s fd'"
proof -
  have s': "fd = int (first_free (fds s))"
    "fds s' = (let n = first_free (fds s); f = \<lparr>of_ino = i, of_off = 0, of_flags = fl\<rparr> in
      if n < length (fds s) then (fds s)[n := Some f] else fds s @ [Some f])"
    using assms by (auto simp: alloc_fd_def Let_def)
  then show none: "fd_get s fd = None" using first_free_None [of "fds s"] by (auto simp: fd_get_def)
  assume "fd_get s fd' \<noteq> None"
  with none have "fd' \<noteq> fd" "0 \<le> fd'" "nat fd' < length (fds s)" by (auto simp: fd_get_def split: if_splits)
  moreover from this s'(1) have "nat fd' \<noteq> first_free (fds s)" by auto
  ultimately show "fd_get s' fd' = fd_get s fd'" using s'(2) by (simp add: fd_get_def Let_def nth_append)
qed

lemma open_source:
  assumes "env s = []" "node_at s (comps p) = Some (i, n)"
  obtains fd s' where "sys_open p O_RDONLY 0 s = (fd, s')" "0 \<le> fd" "same_files s s'" "fd_get s fd = None"
    "fd_get s' fd = Some \<lparr>of_ino = i, of_off = 0, of_flags = O_RDONLY\<rparr>"
    "\<And>fd'. fd_get s fd' \<noteq> None \<Longrightarrow> fd_get s' fd' = fd_get s fd'"
proof -
  obtain fd s' where a: "alloc_fd i O_RDONLY s = (fd, s')" by fastforce
  have "sys_open p O_RDONLY 0 s = (fd, s')" using assms a by (simp add: sys_open_def)
  moreover from fd_get_alloc [OF a] have "0 \<le> fd" "same_files s s'"
    "fd_get s' fd = Some \<lparr>of_ino = i, of_off = 0, of_flags = O_RDONLY\<rparr>" by simp_all
  ultimately show ?thesis using alloc_fd_fresh [OF a] that by metis
qed

lemma sound_source:
  assumes "sound L hdat p d w" "map_of (names (fst w)) (comps (hidden_name p)) = None"
  obtains i n where "node_at (fst w) (comps p) = Some (i, n)" "\<not> i_dir n" "i_data n = d"
proof -
  have "node_at (fst w) (comps (hidden_name p)) = None" using assms(2) by (simp add: node_at_def)
  with assms(1) that show ?thesis by (auto simp: sound_def file_ok_def)
qed

lemma OpenSource_step:
  assumes H: "hdf5_contract H hf hdat" and S: "sound L hdat p d w"
    and I: "job_ok L hf hdat d (OpenSource p h5name) w" and J: "junk_h5 \<le> 0"
    and run: "convert_step H L DZ_ALG_ZSTD junk_src junk_h5 (OpenSource p h5name) w = Some (t', w')"
  shows "stepped L hf hdat d (OpenSource p h5name) w t' w'"
proof -
  have fr: "h5_frame_law hdat" using H by (simp add: hdf5_contract_def)
  from I have h5: "h5name = hidden_name p" "map_of (names (fst w)) (comps (hidden_name p)) = None" by auto
  obtain i n where n: "node_at (fst w) (comps p) = Some (i, n)" "\<not> i_dir n" "i_data n = d"
    using sound_source [OF S h5(2)] .
  have "env (fst w) = []" using S by (simp add: sound_def)
  then obtain fd s' where so: "sys_open p O_RDONLY 0 (fst w) = (fd, s')" "0 \<le> fd" and sf: "same_files (fst w) s'"
    and fd: "fd_get (fst w) fd = None" "fd_get s' fd = Some \<lparr>of_ino = i, of_off = 0, of_flags = O_RDONLY\<rparr>"
      "\<And>fd'. fd_get (fst w) fd' \<noteq> None \<Longrightarrow> fd_get s' fd' = fd_get (fst w) fd'"
    using open_source [OF _ n(1)] by metis
  from run so have t': "t' = CreateTemp p h5name fd" and w': "w' = (s', snd w)" by auto
  have e: "names s' = names (fst w)" "node_at s' = node_at (fst w)"
    using sf by (auto simp: same_files_def same_files_node_at)
  have hd: "hdat s' (snd w) = hdat (fst w) (snd w)"
    using sf by (intro ext hdat_cong [OF fr, THEN fun_cong]) (simp add: same_files_def)
  have "beside hf hdat (OpenSource p h5name) w w'"
    using leaves_same_files [OF fr sf] fd(3) by (simp add: beside_def w')
  moreover have "file_ok L hdat w' p d"
    using S by (simp add: w' sound_def file_ok_def archived_def e hd)
  ultimately show ?thesis
    using h5 n fd(1,2) by (simp add: stepped_def t' w' holds_def at_source_def e)
qed


lemma beside_leaves:
  assumes "leaves hdat Q K w w'" "Q \<subseteq> {comps (hidden_name (job_path t)), comps (tmp_name (hidden_name (job_path t)))}"
    and "K \<subseteq> own_inodes (job_path t) (fst w)"
    and "\<And>fd. fd_get (fst w) fd \<noteq> None \<Longrightarrow> job_src t \<noteq> Some fd \<Longrightarrow> fd_get (fst w') fd = fd_get (fst w) fd"
    and "\<And>fd. hf (snd w) fd \<noteq> None \<Longrightarrow> job_h5 t \<noteq> Some fd \<Longrightarrow> hf (snd w') fd = hf (snd w) fd"
  shows "beside hf hdat t w w'"
  using assms(4,5) leaves_wider [OF assms(1-3)] by (auto simp: beside_def)

lemma bound_own: "q \<in> own_names p \<Longrightarrow> bound s q \<subseteq> own_inodes p s"
  by (auto simp: bound_def own_inodes_def node_at_Some)

lemma named_own: "map_of (names s) q = Some j \<Longrightarrow> q \<in> own_names p \<Longrightarrow> {j} \<subseteq> own_inodes p s"
  by (auto simp: own_inodes_def)

text \<open>Only the temporary name, and what it stands for, has changed.\<close>

lemma sound_temp:
  assumes S: "sound L hdat p d w" and l: "leaves hdat {comps (tmp_name (hidden_name p))} K w w'"
    and K: "\<And>k q. k \<in> K \<Longrightarrow> map_of (names (fst w)) q = Some k \<Longrightarrow> q = comps (tmp_name (hidden_name p))"
  shows "file_ok L hdat w' p d"
    and "map_of (names (fst w')) (comps (hidden_name p)) = map_of (names (fst w)) (comps (hidden_name p))"
    and "node_at (fst w) (comps p) = Some (i, n) \<Longrightarrow> node_at (fst w') (comps p) = Some (i, n)"
proof -
  let ?tmp = "comps (tmp_name (hidden_name p))"
  from S have wf: "wf_fs (fst w)" and sl: "SLASH \<in> set p" and ok: "file_ok L hdat w p d"
    by (simp_all add: sound_def)
  note nd = names_distinct [OF sl]
  have Q: "comps p \<notin> {?tmp}" "comps (hidden_name p) \<notin> {?tmp}" using nd by auto
  show "file_ok L hdat w' p d"
    by (rule file_ok_frame [OF l wf ok Q]) (use K nd in metis)+
  show "map_of (names (fst w')) (comps (hidden_name p)) = map_of (names (fst w)) (comps (hidden_name p))"
    using Q(2) by (rule leavesD(1) [OF l])
  assume "node_at (fst w) (comps p) = Some (i, n)"
  then have i: "map_of (names (fst w)) (comps p) = Some i" "inodes (fst w) i = Some n" by (simp_all add: node_at_Some)
  have "i \<notin> K" using K [OF _ i(1)] nd(2) by metis
  from leavesD(2) [OF l i(2) this] leavesD(1) [OF l Q(1)] i(1) show "node_at (fst w') (comps p) = Some (i, n)"
    by (simp add: node_at_Some)
qed

lemma CreateTemp_step:
  assumes H: "hdf5_contract H hf hdat" and S: "sound L hdat p d w"
    and I: "holds hf (CreateTemp p h5name srcfd) w" "job_ok L hf hdat d (CreateTemp p h5name srcfd) w"
    and run: "convert_step H L DZ_ALG_ZSTD junk_src junk_h5 (CreateTemp p h5name srcfd) w = Some (t', w')"
  shows "stepped L hf hdat d (CreateTemp p h5name srcfd) w t' w'"
proof -
  let ?tmp = "comps (tmp_name (hidden_name p))"
  from I have h5: "h5name = hidden_name p" "map_of (names (fst w)) (comps (hidden_name p)) = None"
    and a: "at_source p d srcfd 0 (fst w)" by auto
  obtain fd s2 h2 where cf: "H5Fcreate H (tmp_name h5name) (fst w) (snd w) = (fd, s2, h2)" by (metis prod_cases3)
  have cr: "h5_create_law H hf hdat" using H by (simp add: hdf5_contract_def)
  have law: "if 0 < fd then \<exists>j. creates ?tmp j (fst w) s2 \<and> hf (snd w) fd = None \<and>
        hf h2 = (hf (snd w))(fd \<mapsto> j) \<and> hdat s2 h2 j = Map.empty
      else spares ?tmp (fst w) s2 \<and> hf h2 = hf (snd w)"
    using cr cf [unfolded h5(1)] unfolding h5_create_law_def by (simp split: if_splits) blast
  note l = create_leaves [OF H cf, unfolded h5(1), THEN conjunct1]
  have wf: "wf_fs (fst w)" using S by (simp add: sound_def)
  have K: "q = ?tmp" if "k \<in> bound (fst w) ?tmp" "map_of (names (fst w)) q = Some k" for k q
    using that wf_fs_inj [OF wf] by (auto simp: bound_def node_at_Some)
  note kept = sound_temp [OF S l K]
  have fds: "fd_get s2 = fd_get (fst w)"
    using law by (auto simp: spares_def creates_def intro: fd_get_cong split: if_splits)
  have a2: "at_source p d srcfd 0 s2" using a kept(3) by (auto simp: at_source_def fds)
  have w': "w' = (s2, h2)" and t': "t' = (if 0 < fd then WriteVersion p h5name srcfd fd else AtOut p (-1) srcfd (-1))"
    using run cf by (auto simp: hdf5_open_def split: if_splits)
  have b: "beside hf hdat (CreateTemp p h5name srcfd) w w'"
  proof (rule beside_leaves [OF l [folded w']])
    show "bound (fst w) ?tmp \<subseteq> own_inodes (job_path (CreateTemp p h5name srcfd)) (fst w)"
      by (simp add: bound_own own_names_simps)
  qed (use law fds w' in \<open>auto split: if_splits\<close>)
  show ?thesis
  proof (cases "0 < fd")
    case False
    with b kept(1) t' w' a2 show ?thesis by (auto simp: stepped_def holds_def at_source_def)
  next
    case True
    with law obtain j where c: "creates ?tmp j (fst w) s2" "hf (snd w) fd = None"
      "hf h2 = (hf (snd w))(fd \<mapsto> j)" "hdat s2 h2 j = Map.empty" by auto
    then have "map_of (names s2) ?tmp = Some j" "regular_at s2 ?tmp j"
      by (auto simp: creates_def regular_at_def node_at_Some)
    with True b kept(1,2) t' w' a2 c h5 show ?thesis by (auto simp: stepped_def holds_def at_source_def)
  qed
qed


text \<open>Writing to the temporary file.\<close>

lemma temp_in_hand:
  assumes "holds hf t w" "job_h5 t = Some h5fd" "job_path t = p"
    and "map_of (names (fst w)) (comps (hidden_name p)) = None"
  obtains j where "0 < h5fd" "hf (snd w) h5fd = Some j"
    "map_of (names (fst w)) (comps (tmp_name (hidden_name p))) = Some j"
    "regular_at (fst w) (comps (tmp_name (hidden_name p))) j"
  using assms by (auto simp: holds_def regular_at_def node_at_Some)

lemma regular_at_leaves:
  assumes "leaves hdat Q K w w'" "map_of (names (fst w')) cs = map_of (names (fst w)) cs" "regular_at (fst w) cs j"
  shows "regular_at (fst w') cs j"
  using assms(2,3) leavesD(4) [OF assms(1)] by (fastforce simp: regular_at_def node_at_Some keeps_kinds_def)

lemma holds_leaves:
  assumes "holds hf t w" "leaves hdat Q K w w'" "names (fst w') = names (fst w)" "hf (snd w') = hf (snd w)"
    and "\<And>fd. fd_get (fst w) fd \<noteq> None \<Longrightarrow> fd_get (fst w') fd \<noteq> None" "job_path t' = job_path t"
    and "job_src t' = job_src t \<or> job_src t' = None" "job_h5 t' = job_h5 t \<or> job_h5 t' = None"
  shows "holds hf t' w'"
  using assms(1,3-) regular_at_leaves [OF assms(2)] unfolding holds_def by (metis option.distinct(1))

lemma writes_temp:
  assumes S: "sound L hdat (job_path t) d w"
    and j: "hf (snd w) h5fd = Some j" "map_of (names (fst w)) (comps (tmp_name (hidden_name (job_path t)))) = Some j"
    and l: "leaves hdat {comps (tmp_name (hidden_name (job_path t)))} {j} w w'" and hf: "hf (snd w') = hf (snd w)"
    and fds: "\<And>fd. job_src t \<noteq> Some fd \<Longrightarrow> fd_get (fst w') fd = fd_get (fst w) fd"
  shows "beside hf hdat t w w'" "file_ok L hdat w' (job_path t) d"
    and "map_of (names (fst w')) (comps (hidden_name (job_path t))) =
      map_of (names (fst w)) (comps (hidden_name (job_path t)))"
    and "node_at (fst w) (comps (job_path t)) = Some (i, n) \<Longrightarrow> node_at (fst w') (comps (job_path t)) = Some (i, n)"
proof -
  have wf: "wf_fs (fst w)" using S by (simp add: sound_def)
  have K: "q = comps (tmp_name (hidden_name (job_path t)))" if "k \<in> {j}" "map_of (names (fst w)) q = Some k" for k q
    using that wf_fs_inj [OF wf] j(2) by auto
  note kept = sound_temp [OF S l K]
  from kept show "file_ok L hdat w' (job_path t) d"
    "map_of (names (fst w')) (comps (hidden_name (job_path t))) =
      map_of (names (fst w)) (comps (hidden_name (job_path t)))"
    "node_at (fst w) (comps (job_path t)) = Some (i, n) \<Longrightarrow> node_at (fst w') (comps (job_path t)) = Some (i, n)"
    by simp_all
  show "beside hf hdat t w w'"
    by (rule beside_leaves [OF l]) (use fds hf named_own [OF j(2) own_names_simps(3)] in auto)
qed

lemma WriteVersion_step:
  assumes H: "hdf5_contract H hf hdat" and S: "sound L hdat p d w"
    and I: "holds hf (WriteVersion p h5name srcfd h5fd) w" "job_ok L hf hdat d (WriteVersion p h5name srcfd h5fd) w"
    and run: "convert_step H L DZ_ALG_ZSTD junk_src junk_h5 (WriteVersion p h5name srcfd h5fd) w = Some (t', w')"
  shows "stepped L hf hdat d (WriteVersion p h5name srcfd h5fd) w t' w'"
proof -
  let ?t = "WriteVersion p h5name srcfd h5fd" and ?ver = "''zstd '' @ ZSTD_versionString L"
    and ?tmp = "comps (tmp_name (hidden_name p))"
  from I(2) have h5: "h5name = hidden_name p" "map_of (names (fst w)) (comps (hidden_name p)) = None"
    and a: "at_source p d srcfd 0 (fst w)" by auto
  obtain j where j: "0 < h5fd" "hf (snd w) h5fd = Some j" "map_of (names (fst w)) ?tmp = Some j"
    using temp_in_hand [OF I(1) _ _ h5(2)] by (metis job_h5.simps(1) job_path.simps(4))
  from I(2) h5(1) j(3) have e: "hdat (fst w) (snd w) j = Map.empty" by auto
  obtain ret w1 where ws: "hdf5_writestr H h5fd (Some ''algorithm'') (Some ?ver) w = (ret, w1)" by (metis surj_pair)
  from run ws have w': "w' = w1" and t': "t' = (if ret < 0 then AtOut p ret srcfd h5fd else NextBlock p h5name srcfd h5fd 0)"
    by (auto simp: alg_version_def)
  note ok = hdf5_writestr_ok [OF H j(2) ws]
  from writestr_leaves [OF H j(2) ws] have l: "leaves hdat {?tmp} {j} w w'" "hf (snd w') = hf (snd w)"
    by (simp_all add: w')
  have nf: "names (fst w') = names (fst w)" "fd_get (fst w') = fd_get (fst w)"
    using ok w' by (auto simp: touches_def intro: fd_get_cong)
  have S': "sound L hdat (job_path ?t) d w" using S by simp
  have "map_of (names (fst w)) (comps (tmp_name (hidden_name (job_path ?t)))) = Some j" using j(3) by simp
  note kept = writes_temp [OF S' j(2) this _ l(2), simplified job_path.simps, OF l(1)]
  have a2: "at_source p d srcfd 0 (fst w')" using a kept(4) nf by (auto simp: at_source_def)
  have wr: "written L hdat p [] w'" if "\<not> ret < 0"
  proof -
    have "hdat (fst w') (snd w') j = [''algorithm'' \<mapsto> bytes_of_string ?ver]" using ok that e w' by auto
    then show ?thesis using j(3) by (auto simp: written_def nf intro!: stored_empty)
  qed
  have "job_ok L hf hdat d t' w'"
    using t' a2 wr h5 nf by (auto intro!: exI [of _ 0] exI [of _ "[]"])
  moreover have "holds hf t' w'"
    by (rule holds_leaves [OF I(1) l(1) nf(1) l(2)]) (use nf(2) t' j(1) in auto)
  ultimately show ?thesis using kept(1,2) nf t' by (auto simp: stepped_def)
qed

lemma NextBlock_step:
  assumes H: "hdf5_contract H hf hdat" and Z: "zstd_contract L" and S: "sound L hdat p d w"
    and I: "holds hf (NextBlock p h5name srcfd h5fd k) w" "job_ok L hf hdat d (NextBlock p h5name srcfd h5fd k) w"
    and run: "convert_step H L DZ_ALG_ZSTD junk_src junk_h5 (NextBlock p h5name srcfd h5fd k) w = Some (t', w')"
  shows "stepped L hf hdat d (NextBlock p h5name srcfd h5fd k) w t' w'"
proof -
  let ?t = "NextBlock p h5name srcfd h5fd k" and ?tmp = "comps (tmp_name (hidden_name p))"
  from I(2) obtain off cs where h5: "h5name = hidden_name p" "map_of (names (fst w)) (comps (hidden_name p)) = None"
    and a: "at_source p d srcfd off (fst w)" and cs: "length cs = k" "written L hdat p cs w"
      "concat cs = take off d" "in_step d off cs" by auto
  obtain j where j: "0 < h5fd" "hf (snd w) h5fd = Some j" "map_of (names (fst w)) ?tmp = Some j"
    using temp_in_hand [OF I(1) _ _ h5(2)] by (metis job_h5.simps(2) job_path.simps(5))
  have st: "stored L (hdat (fst w) (snd w) j) cs"
    "hdat (fst w) (snd w) j ''algorithm'' = Some (bytes_of_string (''zstd '' @ ZSTD_versionString L))"
    using cs(2) j(3) by (auto simp: written_def)
  from a obtain i n where n: "node_at (fst w) (comps p) = Some (i, n)" "\<not> i_dir n" "i_data n = d" "off \<le> length d"
    "fd_get (fst w) srcfd = Some \<lparr>of_ino = i, of_off = off, of_flags = O_RDONLY\<rparr>" by (auto simp: at_source_def)
  let ?f = "\<lparr>of_ino = i, of_off = off, of_flags = O_RDONLY\<rparr>"
  have ff: "fd_file (fst w) srcfd = Some (?f, n)" using n by (simp add: fd_file_Some node_at_Some)
  have wf: "wf_fs (fst w)" and e: "env (fst w) = []" and sl: "SLASH \<in> set p" using S by (simp_all add: sound_def)
  have "i \<noteq> j" using wf_fs_inj [OF wf _ j(3)] n(1) names_distinct(2) [OF sl] by (auto simp: node_at_Some)
  then have ij: "of_ino ?f \<noteq> j" by simp
  obtain r v where tn: "convert_turn H L DZ_ALG_ZSTD srcfd h5fd k w = (r, v)" by (metis surj_pair)
  from run tn have w': "w' = v" and t': "t' = (case r of None \<Rightarrow> NextBlock p h5name srcfd h5fd (Suc k)
      | Some None \<Rightarrow> RenameTemp p h5name srcfd h5fd | Some (Some ret) \<Rightarrow> AtOut p ret srcfd h5fd)"
    by (auto split: option.splits)
  from convert_turn_leaves [OF H j(2) tn] have l: "leaves hdat {?tmp} {j} w w'" "hf (snd w') = hf (snd w)"
    by (simp_all add: w')
  have S': "sound L hdat (job_path ?t) d w" using S by simp
  have j': "map_of (names (fst w)) (comps (tmp_name (hidden_name (job_path ?t)))) = Some j" using j(3) by simp
  have result: "stepped L hf hdat d ?t w t' w'"
    if oc: "only_changes j srcfd (fst w) (fst w')" and ok: "job_ok L hf hdat d t' w'"
  proof -
    from oc have nf: "names (fst w') = names (fst w)" "fd_get (fst w') srcfd \<noteq> None"
      "\<And>fd. fd \<noteq> srcfd \<Longrightarrow> fd_get (fst w') fd = fd_get (fst w) fd"
      using n(5) by (auto simp: only_changes_def)
    note kept = writes_temp [OF S' j(2) j' _ l(2), simplified job_path.simps, OF l(1)]
    have "holds hf t' w'"
    proof (rule holds_leaves [OF I(1) l(1) nf(1) l(2)])
      show "fd_get (fst w') fd \<noteq> None" if "fd_get (fst w) fd \<noteq> None" for fd
        using nf(2,3) that by (cases "fd = srcfd") simp_all
    qed (use t' j(1) in \<open>auto split: option.splits\<close>)
    then show ?thesis using kept(1,2) nf t' ok by (auto simp: stepped_def split: option.splits if_splits)
  qed
  show ?thesis
  proof (cases rule: convert_turn_cases [OF H Z j(2) ff ij, of k])
    case (1 v')
    with tn have v: "r = Some None" "v' = w'" by (simp_all add: w')
    with 1 n(3,4) have "off = length d" by simp
    then have "concat cs = d" "aligned d cs" using cs(3,4) by (simp_all add: in_step_def)
    moreover have "written L hdat p cs w'"
      using cs(2) 1 v j(3) by (auto simp: written_def only_changes_def)
    ultimately have "job_ok L hf hdat d t' w'" using t' v(1) h5 1(2) v(2) by (auto simp: only_changes_def)
    with 1(2) v(2) show ?thesis by (intro result) simp_all
  next
    case (2 ret v')
    with tn have v: "r = Some (Some ret)" "v' = w'" by (simp_all add: w')
    with 2(2,4) t' show ?thesis by (intro result) simp_all
  next
    case (3 w3 z q)
    with tn have v: "r = None" "w3 = w'" by (simp_all add: w')
    let ?b = "take H5_BUFSIZE (drop off d)"
    have q: "q = H5_BUFSIZE" using 3(8) e by simp
    have off: "off < length d" using 3(9) n(3) by simp
    have "stored L (hdat (fst w') (snd w') j) (cs @ [?b])"
      using stored_snoc [OF st(1), of z ?b] 3(4,5) v(2) q n(3) cs(1) by simp
    moreover have "names (fst w') = names (fst w)" using 3(2) v(2) by (simp add: only_changes_def)
    moreover have "hdat (fst w') (snd w') j ''algorithm'' = Some (bytes_of_string (''zstd '' @ ZSTD_versionString L))"
      using 3(4) v(2) st(2) by simp
    ultimately have wr: "written L hdat p (cs @ [?b]) w'" using j(3) by (auto simp: written_def)
    have fd: "fd_get (fst w') srcfd = Some \<lparr>of_ino = i, of_off = off + length ?b, of_flags = O_RDONLY\<rparr>"
      using 3(10) v(2) q n(3) by (simp add: fd_file_Some)
    have "node_at (fst w') (comps p) = Some (i, n)"
      using writes_temp(4) [OF S' j(2) j' _ l(2), simplified job_path.simps, OF l(1)] n(1) 3(2) v(2)
      by (simp add: only_changes_def)
    moreover have "off + length ?b \<le> length d" using off by (auto simp: min_def)
    ultimately have a2: "at_source p d srcfd (off + length ?b) (fst w')"
      using fd n(2,3) unfolding at_source_def by blast
    have cc: "concat (cs @ [?b]) = take (off + length ?b) d" using cs(3) by (simp add: take_add min_def)
    have "length (cs @ [?b]) = Suc k" using cs(1) by simp
    with a2 wr cc in_step_snoc [OF cs(4) off]
    have "\<exists>off cs. at_source p d srcfd off (fst w') \<and> length cs = Suc k \<and> written L hdat p cs w' \<and>
        concat cs = take off d \<and> in_step d off cs" by blast
    moreover have "map_of (names (fst w')) (comps h5name) = None"
      using h5 3(2) v(2) by (simp add: only_changes_def)
    ultimately have "job_ok L hf hdat d t' w'" using t' v(1) h5(1) by simp
    with 3(2) v(2) show ?thesis by (intro result) simp_all
  qed
qed


text \<open>From the rename on: the hidden name appears with all of the contents, and then the source goes.\<close>

lemma rename_keeps_fds: "sys_rename p q s = (r, s') \<Longrightarrow> fd_get s' = fd_get s"
  by (rule fd_get_cong) (auto simp: sys_rename_def attempt_def fail_with_def
      split: option.splits list.splits outcome.splits if_splits prod.splits)

lemma truncate_keeps_fds: "sys_truncate p n s = (r, s') \<Longrightarrow> fd_get s' = fd_get s"
  by (rule fd_get_cong) (auto simp: sys_truncate_def attempt_def fail_with_def set_data_def
      split: option.splits list.splits outcome.splits if_splits prod.splits)

lemma RenameTemp_step:
  assumes H: "hdf5_contract H hf hdat" and S: "sound L hdat p d w"
    and I: "holds hf (RenameTemp p h5name srcfd h5fd) w" "job_ok L hf hdat d (RenameTemp p h5name srcfd h5fd) w"
    and run: "convert_step H L DZ_ALG_ZSTD junk_src junk_h5 (RenameTemp p h5name srcfd h5fd) w = Some (t', w')"
  shows "stepped L hf hdat d (RenameTemp p h5name srcfd h5fd) w t' w'"
proof -
  let ?t = "RenameTemp p h5name srcfd h5fd"
    and ?tmp = "comps (tmp_name (hidden_name p))" and ?hid = "comps (hidden_name p)"
  have fr: "h5_frame_law hdat" using H by (simp add: hdf5_contract_def)
  from I(2) obtain cs where h5: "h5name = hidden_name p" "map_of (names (fst w)) ?hid = None"
    and cs: "written L hdat p cs w" "concat cs = d" "aligned d cs" by auto
  obtain j where j: "0 < h5fd" "hf (snd w) h5fd = Some j" "map_of (names (fst w)) ?tmp = Some j"
      "regular_at (fst w) ?tmp j"
    using temp_in_hand [OF I(1) _ _ h5(2)] by (metis job_h5.simps(3) job_path.simps(6))
  from j(4) obtain m where m: "node_at (fst w) ?tmp = Some (j, m)" "\<not> i_dir m" by (auto simp: regular_at_def)
  have sl: "SLASH \<in> set p" using S by (simp add: sound_def)
  note nd = names_distinct [OF sl]
  obtain n i where n: "node_at (fst w) (comps p) = Some (i, n)" "\<not> i_dir n" using sound_source [OF S h5(2)] by metis
  obtain r s1 where rn: "sys_rename (tmp_name (hidden_name p)) (hidden_name p) (fst w) = (r, s1)" by fastforce
  from run rn h5(1) have w': "w' = (s1, snd w)"
    and t': "t' = (if r < 0 then AtOut p r srcfd h5fd else StatSource p srcfd h5fd)" by auto
  from rename_leaves [OF fr rn m nd(3)] have l: "leaves hdat {?tmp, ?hid} {} w w'" by (simp add: w')
  note fd = rename_keeps_fds [OF rn]
  have b: "beside hf hdat ?t w w'"
    by (rule beside_leaves [OF l]) (auto simp: w' fd)
  from sys_rename_cases [OF rn m(1) nd(3)] consider "r < 0" "quiet (fst w) s1"
    | "r = 0" "inodes s1 = inodes (fst w)" "map_of (names s1) = (map_of (names (fst w)))(?hid \<mapsto> j, ?tmp := None)"
    by blast
  then show ?thesis
  proof cases
    case 1
    with S I(1) t' show ?thesis
      unfolding w' by (intro quiet_stepped [OF fr]) (auto simp: holds_def)
  next
    case 2
    have hd: "hdat s1 (snd w) k = hdat (fst w) (snd w) k" for k using 2(2) by (intro hdat_cong [OF fr]) simp
    have hid: "map_of (names s1) ?hid = Some j" using 2(3) nd(3) by simp
    then have reg: "regular_at s1 ?hid j" using m 2(2) by (simp add: regular_at_def node_at_Some)
    have "archived L hdat w' (hidden_name p) d cs"
      using cs j(3) hid by (auto simp: archived_def written_def w' hd)
    moreover have "node_at s1 (comps p) = Some (i, n)" using n(1) 2 nd by (simp add: node_at_Some)
    moreover have "node_at s1 ?hid = Some (j, m)" using hid m 2(2) by (simp add: node_at_Some)
    ultimately have "file_ok L hdat w' p d"
      using n(2) m(2) cs(3) unfolding file_ok_def w' by auto
    moreover have "holds hf t' w'"
      using I(1) t' j 2(1) reg by (auto simp: holds_def w' fd)
    ultimately show ?thesis using b t' 2(1) hid by (auto simp: stepped_def w')
  qed
qed

end
