(* ===== verification/Parallel.thy ===== *)
theory Parallel
  imports JobSteps
begin

text \<open>
  The last steps of a worker (the two \<^verbatim>\<open>truncate\<close> of the source and the exit), and any number of workers
  that convert the files of a directory at the same time, whatever the order of their steps.
\<close>

section \<open>The last steps of a worker\<close>

lemma truncates_source:
  assumes H: "hdf5_contract H hf hdat" and S: "sound L hdat p d w"
    and I: "map_of (names (fst w)) (comps (hidden_name p)) \<noteq> None"
    and run: "sys_truncate p n (fst w) = (r, s1)" and t: "job_path t = p"
  shows "beside hf hdat t w (s1, snd w)" "file_ok L hdat (s1, snd w) p d"
    and "map_of (names s1) = map_of (names (fst w))" "leaves hdat {} (own_inodes p (fst w)) w (s1, snd w)"
proof -
  let ?hid = "comps (hidden_name p)"
  have fr: "h5_frame_law hdat" using H by (simp add: hdf5_contract_def)
  from S have wf: "wf_fs (fst w)" and sl: "SLASH \<in> set p" and ok: "file_ok L hdat w p d" by (simp_all add: sound_def)
  from ok obtain i n where n: "node_at (fst w) (comps p) = Some (i, n)" "\<not> i_dir n" by (auto simp: file_ok_def)
  from I obtain j where j: "map_of (names (fst w)) ?hid = Some j" by auto
  from wf_fs_node [OF wf this] obtain m where m: "node_at (fst w) ?hid = Some (j, m)" by blast
  with ok obtain cs where cs: "\<not> i_dir m" "archived L hdat w (hidden_name p) d cs" "aligned d cs"
    by (auto simp: file_ok_def)
  have i: "map_of (names (fst w)) (comps p) = Some i" using n(1) by (simp add: node_at_Some)
  have ij: "i \<noteq> j" using wf_fs_inj [OF wf i] j names_distinct(1) [OF sl] by metis
  note l = truncate_leaves [OF fr run n]
  have nm: "map_of (names s1) = map_of (names (fst w))" using leavesD(1) [OF l [of "{}"]] by auto
  then show "map_of (names s1) = map_of (names (fst w))" .
  have own: "{i} \<subseteq> own_inodes p (fst w)" by (rule named_own [OF i own_names_simps(1)])
  show "leaves hdat {} (own_inodes p (fst w)) w (s1, snd w)" by (rule leaves_wider [OF l subset_refl own])
  show "beside hf hdat t w (s1, snd w)"
    by (rule beside_leaves [OF l [of "{}"]]) (use own t in \<open>simp_all add: truncate_keeps_fds [OF run]\<close>)
  have "inodes (fst w) j = Some m" using m by (simp add: node_at_Some)
  from leavesD(2,3) [OF l this] ij have m1: "inodes s1 j = Some m" "hdat s1 (snd w) j = hdat (fst w) (snd w) j"
    by auto
  from leaves_node [OF l [of "{}"] n] obtain n1 where "node_at s1 (comps p) = Some (i, n1)" "\<not> i_dir n1" by auto
  moreover have "node_at s1 ?hid = Some (j, m)" using m1(1) j nm by (simp add: node_at_Some)
  moreover have "archived L hdat (s1, snd w) (hidden_name p) d cs"
    using cs(2) j m1(2) nm by (auto simp: archived_def)
  ultimately show "file_ok L hdat (s1, snd w) p d" using cs unfolding file_ok_def by auto
qed

lemma truncate_step:
  assumes H: "hdf5_contract H hf hdat" and S: "sound L hdat p d w"
    and I: "holds hf t w" "map_of (names (fst w)) (comps (hidden_name p)) \<noteq> None" "job_path t = p"
    and run: "sys_truncate p n (fst w) = (r, s1)"
    and t': "job_path t' = p" "job_src t' = job_src t \<or> job_src t' = None" "job_h5 t' = job_h5 t \<or> job_h5 t' = None"
      "job_ok L hf hdat d t' (s1, snd w)"
  shows "stepped L hf hdat d t w t' (s1, snd w)"
proof -
  note ts = truncates_source [OF H S I(2) run I(3)]
  have reg: "regular_at s1 cs j" if "regular_at (fst w) cs j" for cs j
    using regular_at_leaves [OF ts(4) _ that] ts(3) by simp
  have fd: "fd_get s1 = fd_get (fst w)" by (rule truncate_keeps_fds [OF run])
  have src: "fd_get s1 fd \<noteq> None" if "job_src t' = Some fd" for fd
    using I(1) t'(2) that by (auto simp: holds_def fd)
  have h5: "0 < fd \<and> (\<exists>j. hf (snd w) fd = Some j \<and>
      (regular_at s1 (comps (hidden_name p)) j \<or> regular_at s1 (comps (tmp_name (hidden_name p))) j))"
    if "job_h5 t' = Some fd" for fd
  proof -
    from t'(3) that have "job_h5 t = Some fd" by auto
    with I(1,3) have "0 < fd" "\<exists>j. hf (snd w) fd = Some j \<and> (regular_at (fst w) (comps (hidden_name p)) j \<or>
        regular_at (fst w) (comps (tmp_name (hidden_name p))) j)" by (simp_all add: holds_def)
    with reg show ?thesis by blast
  qed
  have "holds hf t' (s1, snd w)" unfolding holds_def t'(1) fst_conv snd_conv using src h5 by blast
  moreover have "job_src t' = Some fd \<Longrightarrow> job_src t = Some fd" "job_h5 t' = Some fd \<Longrightarrow> job_h5 t = Some fd" for fd
    using t'(2,3) by auto
  ultimately show ?thesis using ts(1,2) t'(1,4) I(3) unfolding stepped_def by simp
qed

lemma TruncateSource_step:
  assumes "hdf5_contract H hf hdat" "sound L hdat p d w"
    and "holds hf (TruncateSource p srcfd h5fd sz) w" "job_ok L hf hdat d (TruncateSource p srcfd h5fd sz) w"
    and "convert_step H L DZ_ALG_ZSTD junk_src junk_h5 (TruncateSource p srcfd h5fd sz) w = Some (t', w')"
  shows "stepped L hf hdat d (TruncateSource p srcfd h5fd sz) w t' w'"
proof -
  obtain r s1 where r: "sys_truncate p 0 (fst w) = (r, s1)" by fastforce
  with assms(5) have w': "w' = (s1, snd w)"
    and t': "t' = (if r < 0 then AtOut p r srcfd h5fd else ExtendSource p srcfd h5fd sz)" by auto
  have hid: "map_of (names (fst w)) (comps (hidden_name p)) \<noteq> None" using assms(4) by simp
  have "map_of (names s1) = map_of (names (fst w))"
    using truncates_source(3) [OF assms(1,2) hid r job_path.simps(8)] .
  with hid t' show ?thesis
    unfolding w' by (intro truncate_step [OF assms(1-3) hid _ r]) auto
qed

lemma ExtendSource_step:
  assumes "hdf5_contract H hf hdat" "sound L hdat p d w"
    and "holds hf (ExtendSource p srcfd h5fd sz) w" "job_ok L hf hdat d (ExtendSource p srcfd h5fd sz) w"
    and "convert_step H L DZ_ALG_ZSTD junk_src junk_h5 (ExtendSource p srcfd h5fd sz) w = Some (t', w')"
  shows "stepped L hf hdat d (ExtendSource p srcfd h5fd sz) w t' w'"
proof -
  obtain r s1 where r: "sys_truncate p sz (fst w) = (r, s1)" by fastforce
  with assms(5) have w': "w' = (s1, snd w)" and t': "t' = AtOut p r srcfd h5fd" by auto
  have hid: "map_of (names (fst w)) (comps (hidden_name p)) \<noteq> None" using assms(4) by simp
  have "map_of (names s1) = map_of (names (fst w))"
    using truncates_source(3) [OF assms(1,2) hid r job_path.simps(9)] .
  with hid t' show ?thesis unfolding w' by (intro truncate_step [OF assms(1-3) hid _ r]) auto
qed

text \<open>The exit.\<close>

lemma out_others:
  assumes H: "hdf5_contract H hf hdat" and run: "convert_out H srcfd h5fd ret w = (r, w')"
    and fd: "\<not> (0 < srcfd \<and> fd = srcfd)"
  shows "fd_get (fst w') fd = fd_get (fst w) fd"
proof -
  define w1 where "w1 = (if 0 < srcfd then (snd (sys_close srcfd (fst w)), snd w) else w)"
  have w': "w' = (if 0 < h5fd then snd (H5Fclose H h5fd (fst w1) (snd w1)) else w1)"
    using run by (auto simp: convert_out_def w1_def Let_def)
  have "fd_get (fst w1) fd = fd_get (fst w) fd"
    using fd sys_close_others [of srcfd "fst w"] by (auto simp: w1_def prod_eq_iff)
  moreover have "fd_get (fst w') fd = fd_get (fst w1) fd"
  proof (cases "0 < h5fd")
    case True
    obtain rr s2 h2 where c: "H5Fclose H h5fd (fst w1) (snd w1) = (rr, s2, h2)" by (metis prod_cases3)
    have "h5_close_law H hf hdat" using H by (simp add: hdf5_contract_def)
    from h5_close_lawD(1) [OF this c] have "fd_get s2 = fd_get (fst w1)"
      by (auto simp: quiet_fd_get touches_fd_get split: option.splits)
    with w' True c show ?thesis by simp
  qed (simp add: w')
  ultimately show ?thesis by simp
qed

lemma AtOut_step:
  assumes H: "hdf5_contract H hf hdat" and S: "sound L hdat p d w"
    and I: "holds hf (AtOut p ret srcfd h5fd) w" "job_ok L hf hdat d (AtOut p ret srcfd h5fd) w"
    and run: "convert_step H L DZ_ALG_ZSTD junk_src junk_h5 (AtOut p ret srcfd h5fd) w = Some (t', w')"
  shows "stepped L hf hdat d (AtOut p ret srcfd h5fd) w t' w'"
proof -
  let ?hid = "comps (hidden_name p)" and ?tmp = "comps (tmp_name (hidden_name p))"
    and ?K = "{k. 0 < h5fd \<and> hf (snd w) h5fd = Some k}"
  from S have wf: "wf_fs (fst w)" and sl: "SLASH \<in> set p" and ok: "file_ok L hdat w p d" by (simp_all add: sound_def)
  from run obtain r where o: "convert_out H srcfd h5fd ret w = (r, w')" and t': "t' = Converted p r"
    by (auto split: prod.splits)
  note l = convert_out_leaves [OF H o]
  from convert_out_rests(1) [OF H o] have rs: "names (fst w') = names (fst w)"
    "\<And>k. k \<notin> ?K \<Longrightarrow> inodes (fst w') k = inodes (fst w) k"
    "\<And>k. hdat (fst w') (snd w') k = hdat (fst w) (snd w) k"
    using S by (auto simp: rests_def sound_def)
  have K: "map_of (names (fst w)) ?hid = Some k \<or> map_of (names (fst w)) ?tmp = Some k" if "k \<in> ?K" for k
  proof -
    have "job_h5 (AtOut p ret srcfd h5fd) = Some h5fd" using that by simp
    with I(1) obtain j where "hf (snd w) h5fd = Some j" "regular_at (fst w) ?hid j \<or> regular_at (fst w) ?tmp j"
      unfolding holds_def job_path.simps by blast
    moreover from this(1) that have "j = k" by simp
    ultimately show ?thesis unfolding regular_at_def node_at_Some by blast
  qed
  have b: "beside hf hdat (AtOut p ret srcfd h5fd) w w'"
  proof (rule beside_leaves [OF l [THEN conjunct1]])
    show "?K \<subseteq> own_inodes (job_path (AtOut p ret srcfd h5fd)) (fst w)"
      using K own_names_simps(2,3) [of p] unfolding own_inodes_def job_path.simps by blast
    show "{} \<subseteq> {comps (hidden_name (job_path (AtOut p ret srcfd h5fd))),
        comps (tmp_name (hidden_name (job_path (AtOut p ret srcfd h5fd))))}" by simp
    show "fd_get (fst w') fd = fd_get (fst w) fd" if "job_src (AtOut p ret srcfd h5fd) \<noteq> Some fd" for fd
      using out_others [OF H o, of fd] that by (simp split: if_splits)
    show "hf (snd w') fd = hf (snd w) fd" if "job_h5 (AtOut p ret srcfd h5fd) \<noteq> Some fd" for fd
      using l that by (auto split: if_splits)
  qed
  from ok obtain i n where n: "node_at (fst w) (comps p) = Some (i, n)" "\<not> i_dir n"
    "node_at (fst w) ?hid = None \<Longrightarrow> i_data n = d" by (auto simp: file_ok_def)
  have pi: "map_of (names (fst w)) (comps p) = Some i" using n(1) by (simp add: node_at_Some)
  have "i \<notin> ?K"
    using K [of i] wf_fs_inj [OF wf pi, of ?hid] wf_fs_inj [OF wf pi, of ?tmp] names_distinct [OF sl] by metis
  with rs have n': "node_at (fst w') (comps p) = Some (i, n)" using n(1) by (simp add: node_at_Some)
  have hid: "\<not> i_dir m' \<and> (\<exists>cs. archived L hdat w' (hidden_name p) d cs \<and> aligned d cs)"
    if "node_at (fst w') ?hid = Some (j, m')" for j m'
  proof -
    have j: "map_of (names (fst w)) ?hid = Some j" "inodes (fst w') j = Some m'"
      using that rs(1) by (simp_all add: node_at_Some)
    from wf_fs_node [OF wf j(1)] obtain m where m: "node_at (fst w) ?hid = Some (j, m)" by blast
    with ok have "\<not> i_dir m" "\<exists>cs. archived L hdat w (hidden_name p) d cs \<and> aligned d cs"
      by (auto simp: file_ok_def)
    moreover have "i_dir m' = i_dir m"
      using leavesD(4) [OF l [THEN conjunct1]] m j(2) unfolding keeps_kinds_def node_at_Some by fastforce
    ultimately show ?thesis by (auto simp: archived_def rs(1,3))
  qed
  have "node_at (fst w) ?hid = None" if none: "node_at (fst w') ?hid = None"
  proof (cases "node_at (fst w) ?hid")
    case (Some x)
    then obtain j m where "map_of (names (fst w)) ?hid = Some j" "inodes (fst w) j = Some m"
      by (metis node_at_Some surj_pair)
    moreover from this(2) leavesD(4) [OF l [THEN conjunct1]] obtain m' where "inodes (fst w') j = Some m'"
      by (auto simp: keeps_kinds_def)
    ultimately have "node_at (fst w') ?hid = Some (j, m')" using rs(1) by (simp add: node_at_Some)
    with none show ?thesis by simp
  qed
  then have "node_at (fst w') ?hid = None \<longrightarrow> i_data n = d" using n(3) by simp
  with n(2) n' have "\<exists>i n. node_at (fst w') (comps p) = Some (i, n) \<and> \<not> i_dir n \<and>
      (node_at (fst w') ?hid = None \<longrightarrow> i_data n = d)" by metis
  with hid have "file_ok L hdat w' p d" unfolding file_ok_def by simp
  moreover have "r = ret" using convert_out_rests(1) [OF H o] by blast
  ultimately show ?thesis using b t' I(2) by (simp add: stepped_def holds_def rs(1))
qed

text \<open>Every step.\<close>

lemma convert_step_stepped:
  assumes H: "hdf5_contract H hf hdat" and Z: "zstd_contract L" and J: "junk_src \<le> 0" "junk_h5 \<le> 0"
    and S: "sound L hdat (job_path t) d w" and I: "holds hf t w" "job_ok L hf hdat d t w"
    and run: "convert_step H L DZ_ALG_ZSTD junk_src junk_h5 t w = Some (t', w')"
  shows "stepped L hf hdat d t w t' w'"
proof (cases t)
  case (Checks p)
  show ?thesis
    unfolding Checks by (rule Checks_step [OF H S [unfolded Checks job_path.simps] J run [unfolded Checks]])
next
  case (OpenSource p h5name)
  show ?thesis
    unfolding OpenSource by (rule OpenSource_step [OF H S [unfolded OpenSource job_path.simps] I(2) [unfolded OpenSource] J(2) run [unfolded OpenSource]])
next
  case (CreateTemp p h5name srcfd)
  show ?thesis
    unfolding CreateTemp by (rule CreateTemp_step [OF H S [unfolded CreateTemp job_path.simps] I [unfolded CreateTemp] run [unfolded CreateTemp]])
next
  case (WriteVersion p h5name srcfd h5fd)
  show ?thesis
    unfolding WriteVersion by (rule WriteVersion_step [OF H S [unfolded WriteVersion job_path.simps] I [unfolded WriteVersion] run [unfolded WriteVersion]])
next
  case (NextBlock p h5name srcfd h5fd k)
  show ?thesis
    unfolding NextBlock by (rule NextBlock_step [OF H Z S [unfolded NextBlock job_path.simps] I [unfolded NextBlock] run [unfolded NextBlock]])
next
  case (RenameTemp p h5name srcfd h5fd)
  show ?thesis
    unfolding RenameTemp by (rule RenameTemp_step [OF H S [unfolded RenameTemp job_path.simps] I [unfolded RenameTemp] run [unfolded RenameTemp]])
next
  case (StatSource p srcfd h5fd)
  show ?thesis
    unfolding StatSource by (rule StatSource_step [OF H S [unfolded StatSource job_path.simps] I [unfolded StatSource] run [unfolded StatSource]])
next
  case (TruncateSource p srcfd h5fd sz)
  show ?thesis
    unfolding TruncateSource by (rule TruncateSource_step [OF H S [unfolded TruncateSource job_path.simps] I [unfolded TruncateSource] run [unfolded TruncateSource]])
next
  case (ExtendSource p srcfd h5fd sz)
  show ?thesis
    unfolding ExtendSource by (rule ExtendSource_step [OF H S [unfolded ExtendSource job_path.simps] I [unfolded ExtendSource] run [unfolded ExtendSource]])
next
  case (AtOut p ret srcfd h5fd)
  show ?thesis
    unfolding AtOut by (rule AtOut_step [OF H S [unfolded AtOut job_path.simps] I [unfolded AtOut] run [unfolded AtOut]])
next
  case (Converted p ret)
  with run show ?thesis by simp
qed

section \<open>All workers\<close>

definition workers_ok ::
    "codec_lib \<Rightarrow> 'h h5files \<Rightarrow> 'h h5data \<Rightarrow> (string \<Rightarrow> bytes option) \<Rightarrow> job option list \<Rightarrow> 'h st \<Rightarrow> bool" where
  "workers_ok L hf hdat D js w \<longleftrightarrow>
     env (fst w) = [] \<and> wf_fs (fst w) \<and> (\<forall>f d. D f = Some d \<longrightarrow> file_ok L hdat w f d) \<and>
     (\<forall>i t. i < length js \<longrightarrow> js ! i = Some t \<longrightarrow>
        (\<exists>d. D (job_path t) = Some d \<and> holds hf t w \<and> job_ok L hf hdat d t w)) \<and>
     (\<forall>i j t u. i < length js \<longrightarrow> j < length js \<longrightarrow> i \<noteq> j \<longrightarrow> js ! i = Some t \<longrightarrow> js ! j = Some u \<longrightarrow> apart t u)"

lemma workers_okD:
  assumes "workers_ok L hf hdat D js w"
  shows "env (fst w) = []" "wf_fs (fst w)" "D f = Some d \<Longrightarrow> file_ok L hdat w f d"
    and "i < length js \<Longrightarrow> js ! i = Some t \<Longrightarrow> \<exists>d. D (job_path t) = Some d \<and> holds hf t w \<and> job_ok L hf hdat d t w"
    and "i < length js \<Longrightarrow> j < length js \<Longrightarrow> i \<noteq> j \<Longrightarrow> js ! i = Some t \<Longrightarrow> js ! j = Some u \<Longrightarrow> apart t u"
  using assms unfolding workers_ok_def by blast+

lemma apart_sym: "apart t u \<Longrightarrow> apart u t"
  unfolding apart_def by blast

lemma good_paths_apart:
  "good_paths F \<Longrightarrow> f \<in> F \<Longrightarrow> g \<in> F \<Longrightarrow> f \<noteq> g \<Longrightarrow> own_names f \<inter> own_names g = {}"
  unfolding good_paths_def by blast

text \<open>A worker that has begun, or has ended, has nothing in hand.\<close>

lemma begin_workers_ok:
  assumes ok: "workers_ok L hf hdat D js w" and F: "good_paths (dom D)" and f: "f \<in> dom D"
    and i: "i < length js" "\<forall>t. Some t \<in> set js \<longrightarrow> job_path t \<noteq> f"
  shows "workers_ok L hf hdat D (js[i := Some (Checks f)]) w"
proof -
  have new: "apart (Checks f) u" if "j < length js" "js ! j = Some u" for j u
  proof -
    have "Some u \<in> set js" using that nth_mem by metis
    with i(2) have "f \<noteq> job_path u" by blast
    moreover have "job_path u \<in> dom D" using workers_okD(4) [OF ok that] by blast
    ultimately show ?thesis using good_paths_apart [OF F f] by (simp add: apart_def)
  qed
  have "\<exists>d. D (job_path t) = Some d \<and> holds hf t w \<and> job_ok L hf hdat d t w"
    if "j < length js" "js[i := Some (Checks f)] ! j = Some t" for j t
    using that workers_okD(4) [OF ok, of j t] f by (cases "j = i") (auto simp: holds_def)
  moreover have "apart t u"
    if "j < length js" "k < length js" "j \<noteq> k" "js[i := Some (Checks f)] ! j = Some t"
      "js[i := Some (Checks f)] ! k = Some u" for j k t u
    using that new workers_okD(5) [OF ok that(1-3)] apart_sym by (cases "j = i"; cases "k = i") auto
  ultimately show ?thesis
    using workers_okD(1-3) [OF ok] unfolding workers_ok_def length_list_update by blast
qed

lemma end_workers_ok:
  assumes ok: "workers_ok L hf hdat D js w"
  shows "workers_ok L hf hdat D (js[i := None]) w"
proof -
  have upd: "j \<noteq> i \<and> js ! j = Some t" if "j < length js" "js[i := None] ! j = Some t" for j t
    using that by (cases "j = i") auto
  show ?thesis
    using workers_okD [OF ok] upd unfolding workers_ok_def length_list_update by blast
qed

lemma converted_archived:
  assumes ok: "workers_ok L hf hdat D js w" and i: "i < length js" "js ! i = Some (Converted f ret)" "0 \<le> ret"
  shows "\<exists>d cs. D f = Some d \<and> archived L hdat w (hidden_name f) d cs \<and> aligned d cs"
proof -
  obtain d where d: "D f = Some d" "map_of (names (fst w)) (comps (hidden_name f)) \<noteq> None"
    using workers_okD(4) [OF ok i(1,2)] i(3) by auto
  then obtain j m where "node_at (fst w) (comps (hidden_name f)) = Some (j, m)"
    using wf_fs_node [OF workers_okD(2) [OF ok]] by blast
  with workers_okD(3) [OF ok d(1)] d(1) show ?thesis unfolding file_ok_def by blast
qed

text \<open>A step of one worker keeps all in order.\<close>

lemma work_workers_ok:
  assumes H: "hdf5_contract H hf hdat" and Z: "zstd_contract L" and J: "junk_src \<le> 0" "junk_h5 \<le> 0"
    and F: "good_paths (dom D)" and ok: "workers_ok L hf hdat D js w" and i: "i < length js" "js ! i = Some t"
    and run: "convert_step H L DZ_ALG_ZSTD junk_src junk_h5 t w = Some (t', w')"
  shows "workers_ok L hf hdat D (js[i := Some t']) w'"
proof -
  obtain d where d: "D (job_path t) = Some d" "holds hf t w" "job_ok L hf hdat d t w"
    using workers_okD(4) [OF ok i] by blast
  have wf: "wf_fs (fst w)" by (rule workers_okD(2) [OF ok])
  have p: "job_path t \<in> dom D" using d(1) by blast
  with F have "cstring (job_path t)" "SLASH \<in> set (job_path t)" by (auto simp: good_paths_def)
  then have "sound L hdat (job_path t) d w"
    using workers_okD(1-3) [OF ok] d(1) by (simp add: sound_def)
  from convert_step_stepped [OF H Z J this d(2,3) run] have st: "stepped L hf hdat d t w t' w'" .
  then have path: "job_path t' = job_path t" and b: "beside hf hdat t w w'" and own: "holds hf t' w'" "job_ok L hf hdat d t' w'"
    and own_file: "file_ok L hdat w' (job_path t) d"
    and fresh: "\<forall>fd. job_src t' = Some fd \<longrightarrow> job_src t = Some fd \<or> fd_get (fst w) fd = None"
      "\<forall>fd. job_h5 t' = Some fd \<longrightarrow> job_h5 t = Some fd \<or> hf (snd w) fd = None"
    by (simp_all add: stepped_def)
  note l = b [unfolded beside_def, THEN conjunct1]
  have others: "holds hf u w \<and> apart t u" if "j < length js" "j \<noteq> i" "js ! j = Some u" for j u
    using workers_okD(4) [OF ok that(1,3)] workers_okD(5) [OF ok i(1) that(1) _ i(2) that(3)] that(2) by metis
  have new: "apart t' u" if j: "j < length js" "j \<noteq> i" "js ! j = Some u" for j u
  proof -
    have u: "holds hf u w" "apart t u" using others [OF j] by blast+
    have "job_src t' \<noteq> Some fd" if s: "job_src u = Some fd" for fd
      using fresh(1) u s unfolding holds_def apart_def by blast
    moreover have "job_h5 t' \<noteq> Some fd" if s: "job_h5 u = Some fd" for fd
      using fresh(2) u s unfolding holds_def apart_def by (metis option.distinct(1))
    ultimately show ?thesis using u(2) path by (simp add: apart_def)
  qed
  have files: "file_ok L hdat w' f e" if "D f = Some e" for f e
  proof (cases "f = job_path t")
    case True
    with that d(1) own_file show ?thesis by simp
  next
    case False
    then have "own_names (job_path t) \<inter> own_names f = {}"
      using good_paths_apart [OF F p, of f] that by blast
    from beside_file_ok [OF b wf this workers_okD(3) [OF ok that]] show ?thesis .
  qed
  have jobs: "\<exists>e. D (job_path u) = Some e \<and> holds hf u w' \<and> job_ok L hf hdat e u w'"
    if "j < length js" "js[i := Some t'] ! j = Some u" for j u
  proof (cases "j = i")
    case True
    with that i have "u = t'" by simp
    with d(1) path own show ?thesis by auto
  next
    case False
    note j = that(1)
    from False that have u: "js ! j = Some u" by simp
    obtain e where "D (job_path u) = Some e" "holds hf u w" "job_ok L hf hdat e u w"
      using workers_okD(4) [OF ok j u] by blast
    moreover have "apart t u" using others [OF j False u] by blast
    ultimately show ?thesis using beside_holds [OF b wf] beside_job_ok [OF b wf] by blast
  qed
  have "apart u v"
    if "j < length js" "k < length js" "j \<noteq> k" "js[i := Some t'] ! j = Some u" "js[i := Some t'] ! k = Some v" for j k u v
    using that new workers_okD(5) [OF ok that(1-3)] apart_sym by (cases "j = i"; cases "k = i") auto
  with files jobs show ?thesis
    using leavesD(6,7) [OF l] workers_okD(1,2) [OF ok] unfolding workers_ok_def length_list_update by blast
qed

lemma workers_step_ok:
  assumes "workers_step H L junk_src junk_h5 (dom D) (js, w) (js', w')"
    and "hdf5_contract H hf hdat" "zstd_contract L" "junk_src \<le> 0" "junk_h5 \<le> 0"
    and "good_paths (dom D)" "workers_ok L hf hdat D js w"
  shows "workers_ok L hf hdat D js' w'"
  using assms(1)
proof cases
  case (begin_task i f)
  with begin_workers_ok [OF assms(7,6)] show ?thesis by simp
next
  case (work_on i t t')
  with work_workers_ok [OF assms(2-7)] show ?thesis by simp
next
  case (end_task i f ret)
  with end_workers_ok [OF assms(7)] show ?thesis by simp
qed

lemma workers_step_length: "workers_step H L junk_src junk_h5 F (js, w) (js', w') \<Longrightarrow> length js' = length js"
  by (erule workers_step.cases) auto

lemma convert_checks_defined:
  assumes "cstring p" "env (fst w) = []"
  shows "convert_checks H junk_src junk_h5 p w \<noteq> None"
  using assms
  by (auto simp: convert_checks_def buildHiddenFile_normal sys_stat_def fail_with_def sys_malloc_def
      split: option.split prod.split)

lemma convert_step_defined:
  assumes "cstring (job_path t)" "env (fst w) = []" "convert_step H L method junk_src junk_h5 t w = None"
  shows "\<exists>f ret. t = Converted f ret"
  using assms convert_checks_defined [of "job_path t" w H junk_src junk_h5]
  by (cases t) (auto split: option.splits prod.splits sum.splits)

lemma workers_steps_ok:
  assumes "(workers_step H L junk_src junk_h5 (dom D))\<^sup>*\<^sup>* x y"
    and "hdf5_contract H hf hdat" "zstd_contract L" "junk_src \<le> 0" "junk_h5 \<le> 0" "good_paths (dom D)"
    and "workers_ok L hf hdat D (fst x) (snd x)"
  shows "length (fst y) = length (fst x) \<and> workers_ok L hf hdat D (fst y) (snd y)"
  using assms(1)
proof (induction rule: rtranclp_induct)
  case (step y z)
  then have s: "workers_step H L junk_src junk_h5 (dom D) (fst y, snd y) (fst z, snd z)" by simp
  from step.IH workers_step_ok [OF s assms(2-6)] workers_step_length [OF s] show ?case by simp
qed (use assms(7) in simp)

text \<open>C6. Workers on different files do not disturb each other, if the variables \<^verbatim>\<open>srcfd\<close> and \<^verbatim>\<open>h5fd\<close>, which \<^verbatim>\<open>convert2h5\<close>
  closes on its early exits without having set them, hold no positive number: a positive one would
  be a descriptor of another worker (\<open>convert2h5_refuses\<close>). From a directory in order, with the
  workers idle and no system call failing, after any number of their steps in any order every file has its contents where
  \<open>dzfile_open\<close> looks for them, a conversion that has reported success has
  put them into the hidden file, and no worker is stuck at something undefined: each is idle, at the end of its
  conversion, or has a next step. Calls of the libraries may fail.\<close>

theorem parallel_conversions_keep_files:
  assumes "hdf5_contract H hf hdat" "zstd_contract L" "junk_src \<le> 0" "junk_h5 \<le> 0"
    and "good_paths (dom D)" "dir_ok L hf hdat D w"
    and "(workers_step H L junk_src junk_h5 (dom D))\<^sup>*\<^sup>* (replicate k None, w) (js, w')"
  shows "(\<forall>f d. D f = Some d \<longrightarrow> file_ok L hdat w' f d) \<and>
    (\<forall>i<k. \<forall>f ret. js ! i = Some (Converted f ret) \<longrightarrow> 0 \<le> ret \<longrightarrow>
      (\<exists>d cs. D f = Some d \<and> archived L hdat w' (hidden_name f) d cs \<and> aligned d cs)) \<and>
    (\<forall>i<k. js ! i = None \<or> (\<exists>f ret. js ! i = Some (Converted f ret)) \<or>
      (\<exists>t y. js ! i = Some t \<and> convert_step H L DZ_ALG_ZSTD junk_src junk_h5 t w' = Some y))"
proof -
  have "workers_ok L hf hdat D (replicate k None) w"
    using assms(6) by (simp add: workers_ok_def dir_ok_def)
  with workers_steps_ok [OF assms(7,1-5)] have "length js = k \<and> workers_ok L hf hdat D js w'" by simp
  then have len: "length js = k" and ok: "workers_ok L hf hdat D js w'" by simp_all
  have "js ! i = None \<or> (\<exists>f ret. js ! i = Some (Converted f ret)) \<or>
      (\<exists>t y. js ! i = Some t \<and> convert_step H L DZ_ALG_ZSTD junk_src junk_h5 t w' = Some y)" if "i < k" for i
  proof (cases "js ! i")
    case (Some t)
    with workers_okD(4) [OF ok, of i t] that len have "job_path t \<in> dom D" by blast
    with assms(5) have "cstring (job_path t)" by (simp add: good_paths_def)
    with convert_step_defined [OF _ workers_okD(1) [OF ok]] Some show ?thesis by blast
  qed simp
  moreover have "\<exists>d cs. D f = Some d \<and> archived L hdat w' (hidden_name f) d cs \<and> aligned d cs"
    if "i < k" "js ! i = Some (Converted f ret)" "0 \<le> ret" for i f ret
    using converted_archived [OF ok _ that(2,3)] that(1) len by simp
  ultimately show ?thesis using workers_okD(3) [OF ok] by blast
qed

section \<open>On a concrete directory\<close>

text \<open>A worker that works alone for a while.\<close>

lemma work_alone:
  assumes "convert_steps H L DZ_ALG_ZSTD junk_src junk_h5 x y" "i < length js" "js ! i = Some (fst x)"
  shows "(workers_step H L junk_src junk_h5 F)\<^sup>*\<^sup>* (js, snd x) (js[i := Some (fst y)], snd y)"
  using assms
proof (induction arbitrary: js)
  case (no_step x)
  then have "js[i := Some (fst x)] = js" by (metis list_update_id)
  then show ?case by simp
next
  case (next_step t w y z)
  have "workers_step H L junk_src junk_h5 F (js, w) (js[i := Some (fst y)], snd y)"
    using next_step work_on [of i js t H L junk_src junk_h5 w "fst y" "snd y"] by simp
  moreover have "(workers_step H L junk_src junk_h5 F)\<^sup>*\<^sup>* (js[i := Some (fst y)], snd y)
      (js[i := Some (fst y), i := Some (fst z)], snd z)"
    using next_step by (intro next_step.IH) simp_all
  ultimately show ?case by (simp add: converse_rtranclp_into_rtranclp)
qed

text \<open>One worker has made its checks on \<^verbatim>\<open>/g\<close> while the other converts \<^verbatim>\<open>/f\<close> from beginning to end.\<close>

lemma pair_workers:
  "\<exists>w'. (workers_step sim_hdf5 sim_codec 0 0 (dom pair_contents))\<^sup>*\<^sup>* (replicate 2 None, (pair_os, demo_h5))
     ([Some (Converted ''/f'' 0), Some (OpenSource ''/g'' ''/.g.DZF'')], w')"
proof -
  let ?S = "workers_step sim_hdf5 sim_codec 0 0 (dom pair_contents)"
  have hid: "hidden_name ''/g'' = ''/.g.DZF''" by code_simp
  obtain w' where c: "convert2h5 sim_hdf5 sim_codec 0 0 (Suc (Suc 0)) (Some ''/f'') DZ_ALG_ZSTD
      (pair_os\<lparr>errno := ENOENT\<rparr>, demo_h5) = Some (0, w')"
    using pair_convert by blast
  have s1: "?S ([None, None], (pair_os, demo_h5)) ([None, None][1 := Some (Checks ''/g'')], (pair_os, demo_h5))"
    using begin_task [of 1 "[None, None]" "''/g''" "dom pair_contents"] by (simp add: pair_contents_def)
  have g: "convert_step sim_hdf5 sim_codec DZ_ALG_ZSTD 0 0 (Checks ''/g'') (pair_os, demo_h5) =
      Some (OpenSource ''/g'' ''/.g.DZF'', (pair_os\<lparr>errno := ENOENT\<rparr>, demo_h5))"
    by (simp add: convert_checks_def buildHiddenFile_normal pair_os_def demo_os_def os_eval comps_demo pair_names hid [symmetric])
  have s2: "?S ([None, Some (Checks ''/g'')], (pair_os, demo_h5))
      ([None, Some (Checks ''/g'')][1 := Some (OpenSource ''/g'' ''/.g.DZF'')], (pair_os\<lparr>errno := ENOENT\<rparr>, demo_h5))"
    by (rule work_on [rotated 2, OF g]) simp_all
  have s3: "?S ([None, Some (OpenSource ''/g'' ''/.g.DZF'')], (pair_os\<lparr>errno := ENOENT\<rparr>, demo_h5))
      ([None, Some (OpenSource ''/g'' ''/.g.DZF'')][0 := Some (Checks ''/f'')], (pair_os\<lparr>errno := ENOENT\<rparr>, demo_h5))"
    by (rule begin_task) (simp_all add: pair_contents_def)
  from work_alone [OF convert2h5_steps [OF c], of 0
      "[Some (Checks ''/f''), Some (OpenSource ''/g'' ''/.g.DZF'')]" "dom pair_contents"]
  have s4: "?S\<^sup>*\<^sup>* ([Some (Checks ''/f''), Some (OpenSource ''/g'' ''/.g.DZF'')], (pair_os\<lparr>errno := ENOENT\<rparr>, demo_h5))
      ([Some (Converted ''/f'' 0), Some (OpenSource ''/g'' ''/.g.DZF'')], w')" by simp
  note s3' = converse_rtranclp_into_rtranclp [OF s3 [simplified] s4]
  note s2' = converse_rtranclp_into_rtranclp [OF s2 [simplified] s3']
  have idle: "replicate 2 None = [None, None :: job option]" by (simp add: numeral_2_eq_2)
  from converse_rtranclp_into_rtranclp [OF s1 [simplified] s2'] show ?thesis unfolding idle by blast
qed

lemma parallel_conversions_keep_files_witness:
  "\<exists>w'. (workers_step sim_hdf5 sim_codec 0 0 (dom pair_contents))\<^sup>*\<^sup>* (replicate 2 None, (pair_os, demo_h5))
     ([Some (Converted ''/f'' 0), Some (OpenSource ''/g'' ''/.g.DZF'')], w') \<and>
   (\<exists>cs. archived sim_codec sim_data w' (hidden_name ''/f'') [1, 2, 3] cs) \<and> file_ok sim_codec sim_data w' ''/g'' [4]"
proof -
  obtain w' where w': "(workers_step sim_hdf5 sim_codec 0 0 (dom pair_contents))\<^sup>*\<^sup>* (replicate 2 None, (pair_os, demo_h5))
      ([Some (Converted ''/f'' 0), Some (OpenSource ''/g'' ''/.g.DZF'')], w')" using pair_workers by blast
  have "pair_contents ''/f'' = Some [1, 2, 3]" "pair_contents ''/g'' = Some [4]" by (simp_all add: pair_contents_def)
  note c = this
  note r = parallel_conversions_keep_files [OF sim_hdf5_contract sim_codec_zstd order_refl order_refl pair_paths pair_start w']
  from r [THEN conjunct2, THEN conjunct1, rule_format, of 0 "''/f''" 0]
  obtain d cs where "pair_contents ''/f'' = Some d" "archived sim_codec sim_data w' (hidden_name ''/f'') d cs" by auto
  with c(1) have "\<exists>cs. archived sim_codec sim_data w' (hidden_name ''/f'') [1, 2, 3] cs" by (metis option.inject)
  moreover have "file_ok sim_codec sim_data w' ''/g'' [4]" using r [THEN conjunct1] c(2) by blast
  ultimately show ?thesis using w' by blast
qed

end
