(* ===== verification/Lifetime.thy ===== *)
theory Lifetime
  imports Daemon
begin

text \<open>
  The daemon at work: the scans of the main thread (\<^verbatim>\<open>src/dzfile-walker.cc\<close>), the pool they submit
  to (\<^verbatim>\<open>src/threadPool.hh\<close>) and the workers that take the tasks and convert the files
  (\<^verbatim>\<open>src/dzfile-intern.cc\<close>), as one step relation over the pool and the disk. The main thread may
  be overtaken after each entry of the directory. The work on one file is one step: these are the
  runs in which no two workers convert at the same time, as with a pool of one thread.
\<close>

section \<open>State and steps\<close>

record 'h daemon =
  d_pool :: "string pool"
  d_disk :: "'h st"
  d_scan :: "string list option"   \<comment> \<open>what \<^verbatim>\<open>readdir\<close> has still to return, during a scan\<close>
  d_exit :: "int option"   \<comment> \<open>the status that the process has exited with\<close>

definition new_daemon :: "nat \<Rightarrow> 'h st \<Rightarrow> 'h daemon" where
  "new_daemon threads w = \<lparr>d_pool = new_pool threads, d_disk = w, d_scan = None, d_exit = None\<rparr>"

text \<open>
  A failing \<^verbatim>\<open>opendir\<close>, and a failing \<^verbatim>\<open>stat\<close> of a name that \<^verbatim>\<open>readdir\<close> has returned, end the process with
  all its threads, wherever the workers are: nothing happens in a daemon that has exited. (While
  \<^verbatim>\<open>exit\<close> runs its handlers the workers may still go on; that is a run in which they have done so before.)
\<close>

inductive main_step :: "Policy \<Rightarrow> string \<Rightarrow> 'h daemon \<Rightarrow> 'h daemon \<Rightarrow> bool"
  for pol dp
where
  \<comment> \<open>what is done to the directory and the pool, the work on the files aside\<close>
  open_dir: "d_exit x = None \<Longrightarrow> d_scan x = None \<Longrightarrow> sys_opendir dp (fst (d_disk x)) = (Some dir, s) \<Longrightarrow>
    main_step pol dp x (x\<lparr>d_scan := Some dir, d_disk := (s, snd (d_disk x))\<rparr>)"
| no_dir: "d_exit x = None \<Longrightarrow> d_scan x = None \<Longrightarrow> sys_opendir dp (fst (d_disk x)) = (None, s) \<Longrightarrow>
    main_step pol dp x (x\<lparr>d_exit := Some 1, d_disk := (s, snd (d_disk x))\<rparr>)"
| young: "d_exit x = None \<Longrightarrow> d_scan x = Some (n # ns) \<Longrightarrow>
    scan_entries pol dp [n] [] (fst (d_disk x)) = Some (Scanned [], s) \<Longrightarrow>
    main_step pol dp x (x\<lparr>d_scan := Some ns, d_disk := (s, snd (d_disk x))\<rparr>)"
| submit: "d_exit x = None \<Longrightarrow> d_scan x = Some (n # ns) \<Longrightarrow>
    scan_entries pol dp [n] [] (fst (d_disk x)) = Some (Scanned [f], s) \<Longrightarrow>
    pool_step (Enqueue f) (d_pool x) p \<Longrightarrow>
    main_step pol dp x (x\<lparr>d_scan := Some ns, d_disk := (s, snd (d_disk x)), d_pool := p\<rparr>)"
| gone: "d_exit x = None \<Longrightarrow> d_scan x = Some (n # ns) \<Longrightarrow>
    scan_entries pol dp [n] [] (fst (d_disk x)) = Some (Exit c, s) \<Longrightarrow>
    main_step pol dp x (x\<lparr>d_exit := Some c, d_disk := (s, snd (d_disk x))\<rparr>)"
| close_dir: "d_exit x = None \<Longrightarrow> d_scan x = Some [] \<Longrightarrow> main_step pol dp x (x\<lparr>d_scan := None\<rparr>)"
| pool_event: "d_exit x = None \<Longrightarrow> pool_step e (d_pool x) p \<Longrightarrow>
    e \<in> {NotifyOne} \<union> range Wait \<union> range Take \<union> range Spurious \<Longrightarrow>
    main_step pol dp x (x\<lparr>d_pool := p\<rparr>)"

inductive daemon_step ::
    "'h hdf5_lib \<Rightarrow> codec_lib \<Rightarrow> Policy \<Rightarrow> string \<Rightarrow> 'h daemon \<Rightarrow> 'h daemon \<Rightarrow> bool"
  for H L pol dp
where
  main: "main_step pol dp x y \<Longrightarrow> daemon_step H L pol dp x y"
| work: "d_exit x = None \<Longrightarrow> worker_at (d_pool x) i (Running f) \<Longrightarrow> pool_step (Finish i) (d_pool x) p \<Longrightarrow>
    process_file H L pol junk_src junk_h5 fuel f (d_disk x) = Some w \<Longrightarrow>
    daemon_step H L pol dp x (x\<lparr>d_pool := p, d_disk := w\<rparr>)"

inductive daemon_reach ::
    "'h hdf5_lib \<Rightarrow> codec_lib \<Rightarrow> Policy \<Rightarrow> string \<Rightarrow> nat \<Rightarrow> 'h st \<Rightarrow> 'h daemon \<Rightarrow> bool"
  for H L pol dp threads w0
where
  start: "daemon_reach H L pol dp threads w0 (new_daemon threads w0)"
| step: "daemon_reach H L pol dp threads w0 x \<Longrightarrow> daemon_step H L pol dp x y \<Longrightarrow>
    daemon_reach H L pol dp threads w0 y"

section \<open>The directory\<close>

text \<open>A name in the directory is that of a file of \<open>D\<close>, or one that \<open>process_file\<close> refuses.\<close>

definition entry_ok :: "(string \<Rightarrow> bytes option) \<Rightarrow> string \<Rightarrow> string \<Rightarrow> bool" where
  "entry_ok D dp n \<longleftrightarrow>
     SLASH \<notin> set n \<and> (entry_path dp n \<in> dom D \<or> n = ''.dzs'' \<or> is_hidden_base n)"

definition only_entries :: "(string \<Rightarrow> bytes option) \<Rightarrow> string \<Rightarrow> os \<Rightarrow> bool" where
  "only_entries D dp s \<longleftrightarrow> (\<forall>n. map_of (names s) (comps dp @ [n]) \<noteq> None \<longrightarrow> entry_ok D dp n)"

definition flat_dir :: "(string \<Rightarrow> bytes option) \<Rightarrow> string \<Rightarrow> bool" where
  "flat_dir D dp \<longleftrightarrow> good_paths (dom D) \<and> (\<forall>f\<in>dom D. \<exists>b. f = entry_path dp b \<and> SLASH \<notin> set b)"

definition task_ok :: "(string \<Rightarrow> bytes option) \<Rightarrow> string \<Rightarrow> bool" where
  "task_ok D f \<longleftrightarrow> f \<in> dom D \<or> ''.dzs'' \<in> set (tokens SLASH f) \<or> is_hidden_base (after_slash f)"

lemma task_ok_entry: "entry_ok D dp n \<Longrightarrow> task_ok D (entry_path dp n)"
  by (auto simp: entry_ok_def task_ok_def entry_path_def tokens_delim tokens_plain)

lemma dir_entries_ok:
  assumes "only_entries D dp s" "n \<in> set (dir_entries s (comps dp))"
  shows "entry_ok D dp n"
proof -
  from assms(2) consider "n = ''.'' \<or> n = ''..''"
    | q where "q \<in> fst ` set (names s)" "q \<noteq> []" "butlast q = comps dp" "n = last q"
    by (auto simp: dir_entries_def)
  then show ?thesis
  proof cases
    case 1
    then show ?thesis by (auto simp: entry_ok_def is_hidden_base_def)
  next
    case (2 q)
    then have "q = comps dp @ [n]" by (metis append_butlast_last_id)
    moreover have "map_of (names s) q \<noteq> None" using 2(1) by (simp add: map_of_eq_None_iff)
    ultimately show ?thesis using assms(1) by (simp add: only_entries_def)
  qed
qed

text \<open>A task that is refused.\<close>

lemma refused_task:
  assumes "''.dzs'' \<in> set (tokens SLASH f) \<or> is_hidden_base (after_slash f)"
    and "process_file H L pol junk_src junk_h5 fuel f w = Some w'"
  shows "quiet (fst w) (fst w') \<and> snd w' = snd w"
  using assms
  by (auto simp: process_file_def match_sysdir_def sysdir_loop_iff match_hiddenfile_eq split: if_splits)

lemma hidden_base_names: "is_hidden_base (''.'' @ b @ ''.DZF'')" "is_hidden_base (''.'' @ b @ ''.DZF.tmp'')"
  by (simp_all add: is_hidden_base_def ends_with_def)

lemma only_entries_cong: "names s' = names s \<Longrightarrow> only_entries D dp s \<Longrightarrow> only_entries D dp s'"
  by (simp add: only_entries_def)

lemma dir_ok_quiet:
  assumes "h5_frame_law hdat" "dir_ok L hf hdat D w" "quiet (fst w) s'"
  shows "dir_ok L hf hdat D (s', snd w)"
proof -
  have q: "leaves hdat {} {} w (s', snd w)" using assms(1,3) by (rule leaves_quiet)
  have "file_ok L hdat (s', snd w) f d" if "D f = Some d" for f d
    using assms(2) that by (intro file_ok_frame [OF q]) (auto simp: dir_ok_def)
  then show ?thesis
    using assms(2) leavesD(6,7) [OF q] by (simp add: dir_ok_def)
qed

text \<open>The work on a file of the directory makes no names but hidden ones.\<close>

lemma leaves_entries:
  assumes l: "leaves hdat {comps (hidden_name g), comps (tmp_name (hidden_name g))} K w w'"
    and F: "flat_dir D dp" and g: "g \<in> dom D" and E: "only_entries D dp (fst w)"
  shows "only_entries D dp (fst w')"
  unfolding only_entries_def
proof (intro allI impI)
  fix x
  assume x: "map_of (names (fst w')) (comps dp @ [x]) \<noteq> None"
  from F g obtain b where b: "g = dp @ SLASH # b" "SLASH \<notin> set b"
    by (auto simp: flat_dir_def entry_path_def)
  show "entry_ok D dp x"
  proof (cases "x = ''.'' @ b @ ''.DZF'' \<or> x = ''.'' @ b @ ''.DZF.tmp''")
    case True
    then show ?thesis using b(2) hidden_base_names [of b] by (auto simp: entry_ok_def)
  next
    case False
    then have "comps dp @ [x] \<notin> {comps (hidden_name g), comps (tmp_name (hidden_name g))}"
      by (simp add: comps_hidden [OF b] comps_tmp_hidden [OF b])
    from leavesD(1) [OF l this] x E show ?thesis by (simp add: only_entries_def)
  qed
qed

lemma process_file_entries:
  assumes H: "hdf5_contract H hf hdat" and F: "flat_dir D dp" and J: "dir_ok L hf hdat D w"
    and E: "only_entries D dp (fst w)" and g: "g \<in> dom D"
    and run: "process_file H L pol junk_src junk_h5 fuel g w = Some w'"
  shows "only_entries D dp (fst w')"
proof -
  obtain s h where w: "w = (s, h)" by fastforce
  from F g have gp: "cstring g" "SLASH \<in> set g" "\<not> reads_before_start g"
    by (auto simp: flat_dir_def good_paths_def)
  from J g w have e: "env s = []" by (simp add: dir_ok_def)
  from J g w obtain i n where n: "node_at s (comps g) = Some (i, n)" "\<not> i_dir n"
    by (fastforce simp: dir_ok_def file_ok_def)
  from process_file_cases [OF gp e n, of H L pol junk_src junk_h5 fuel h] obtain s' where
    s': "quiet s s'" "process_file H L pol junk_src junk_h5 fuel g (s, h) =
      (if left_alone pol s g n then Some (s', h)
       else map_option snd (convert2h5 H L junk_src junk_h5 fuel (Some g) DZ_ALG_ZSTD (s', h)))" by blast
  have E': "only_entries D dp s'" using E s'(1) w by (auto simp: quiet_def intro: only_entries_cong)
  show ?thesis
  proof (cases "left_alone pol s g n")
    case True
    with s'(2) run w have "w' = (s', h)" by simp
    with E' show ?thesis by simp
  next
    case False
    with s'(2) run w obtain ret where
      c: "convert2h5 H L junk_src junk_h5 fuel (Some g) DZ_ALG_ZSTD (s', h) = Some (ret, w')" by auto
    have n': "node_at s' (comps g) = Some (i, n)" using n(1) s'(1) by (simp add: quiet_node_at)
    from convert2h5_leaves [OF H gp(1) n' n(2) c] obtain K where
      l: "leaves hdat {comps (hidden_name g), comps (tmp_name (hidden_name g))} K (s', h) w'" by blast
    from leaves_entries [OF l F g] E' show ?thesis by simp
  qed
qed

section \<open>The invariant\<close>

definition in_hand :: "'a pool \<Rightarrow> 'a set" where
  "in_hand p = {f. Running f \<in> set (p_workers p)} \<union> set (p_tasks p)"

definition daemon_inv ::
    "codec_lib \<Rightarrow> 'h h5files \<Rightarrow> 'h h5data \<Rightarrow> (string \<Rightarrow> bytes option) \<Rightarrow> string \<Rightarrow> 'h daemon \<Rightarrow> bool" where
  "daemon_inv L hf hdat D dp x \<longleftrightarrow>
     dir_ok L hf hdat D (d_disk x) \<and> only_entries D dp (fst (d_disk x)) \<and>
     (\<forall>ns. d_scan x = Some ns \<longrightarrow> (\<forall>n\<in>set ns. entry_ok D dp n)) \<and>
     (\<forall>f\<in>in_hand (d_pool x). task_ok D f)"

lemma in_hand_new: "in_hand (new_pool n) = {}"
  by (simp add: in_hand_def new_pool_def)

lemma wake_Running: "Running x = wake v \<longleftrightarrow> v = Running x"
  by (cases v) auto

lemma in_hand_event:
  assumes "pool_step e p p'"
  shows "in_hand p' \<subseteq> in_hand p \<union> {f. e = Enqueue f}"
  using assms
  by (induction rule: pool_step.induct)
    (auto simp: in_hand_def worker_at_def wake_Running dest!: set_worker_set)

lemma scan_one:
  assumes "scan_entries pol dp [n] [] s = Some (Scanned q, s')" "env s = []"
  shows "quiet s s' \<and> set q \<subseteq> {entry_path dp n}"
proof -
  obtain st s1 where st: "sys_stat (entry_path dp n) s = (st, s1)" by fastforce
  then have "quiet s s1" by (rule quiet_sys_stat)
  with assms st show ?thesis
    by (auto simp: Let_def bind_eq_Some_conv split: option.splits if_splits)
qed

lemma opendir_names:
  assumes "sys_opendir p s = (Some ns, s')" "env s = []"
  shows "s' = s \<and> ns = dir_entries s (comps p)"
  using assms by (auto simp: sys_opendir_def fail_with_def split: option.splits if_splits)

lemma quiet_opendir: "sys_opendir p s = (None, s') \<Longrightarrow> quiet s s'"
  by (auto simp: sys_opendir_def fail_with_def attempt_def quiet_def
      split: option.splits if_splits list.splits outcome.splits)

lemma quiet_scan_exit: "scan_entries pol dp [n] [] s = Some (Exit c, s') \<Longrightarrow> quiet s s'"
  using quiet_sys_stat by (fastforce simp: Let_def bind_eq_Some_conv split: option.splits prod.splits if_splits)

text \<open>What the main thread and the pool do keeps the invariant but for the disk, which they leave alone.\<close>

definition entries_inv :: "(string \<Rightarrow> bytes option) \<Rightarrow> string \<Rightarrow> 'h daemon \<Rightarrow> bool" where
  "entries_inv D dp x \<longleftrightarrow> only_entries D dp (fst (d_disk x)) \<and>
     (\<forall>ns. d_scan x = Some ns \<longrightarrow> (\<forall>n\<in>set ns. entry_ok D dp n)) \<and>
     (\<forall>f\<in>in_hand (d_pool x). task_ok D f)"

lemma daemon_inv_split: "daemon_inv L hf hdat D dp x \<longleftrightarrow> dir_ok L hf hdat D (d_disk x) \<and> entries_inv D dp x"
  by (simp add: daemon_inv_def entries_inv_def)

lemma main_entries_inv:
  assumes st: "main_step pol dp x y" and e: "env (fst (d_disk x)) = []" and I: "entries_inv D dp x"
  shows "entries_inv D dp y \<and> quiet (fst (d_disk x)) (fst (d_disk y)) \<and> snd (d_disk y) = snd (d_disk x)"
proof -
  have E: "only_entries D dp (fst (d_disk x))"
    and S: "\<And>ns n. d_scan x = Some ns \<Longrightarrow> n \<in> set ns \<Longrightarrow> entry_ok D dp n"
    and T: "\<And>f. f \<in> in_hand (d_pool x) \<Longrightarrow> task_ok D f"
    using I by (auto simp: entries_inv_def)
  have disk: "only_entries D dp s" if "quiet (fst (d_disk x)) s" for s
    using that E by (auto simp: quiet_def intro: only_entries_cong)
  from st show ?thesis
  proof cases
    case (open_dir dir s)
    with opendir_names [OF open_dir(4) e] dir_entries_ok [OF E] I show ?thesis
      by (auto simp: entries_inv_def)
  next
    case (no_dir s)
    from quiet_opendir [OF no_dir(4)] no_dir(1) disk [of s] I show ?thesis by (simp add: entries_inv_def)
  next
    case (young n ns s)
    with scan_one [OF young(4) e] disk [of s] S T show ?thesis by (auto simp: entries_inv_def)
  next
    case (gone n ns c s)
    from quiet_scan_exit [OF gone(4)] gone(1) disk [of s] I show ?thesis by (simp add: entries_inv_def)
  next
    case (submit n ns f s p)
    from scan_one [OF submit(4) e] have q: "quiet (fst (d_disk x)) s" "f = entry_path dp n" by auto
    have "entry_ok D dp n" using S [OF submit(3)] by simp
    with q(2) have "task_ok D f" by (simp add: task_ok_entry)
    with in_hand_event [OF submit(5)] T have "\<forall>g\<in>in_hand p. task_ok D g" by auto
    with submit disk [OF q(1)] q(1) S show ?thesis by (auto simp: entries_inv_def)
  next
    case close_dir
    with I show ?thesis by (simp add: entries_inv_def)
  next
    case (pool_event ev p)
    from pool_event(4) have "{f. ev = Enqueue f} = {}" by auto
    with in_hand_event [OF pool_event(3)] have "in_hand p \<subseteq> in_hand (d_pool x)" by simp
    with I pool_event(1) show ?thesis by (auto simp: entries_inv_def)
  qed
qed

lemma daemon_inv_step:
  assumes H: "hdf5_contract H hf hdat" and Z: "zstd_contract L" and F: "flat_dir D dp"
    and st: "daemon_step H L pol dp x y" and I: "daemon_inv L hf hdat D dp x"
  shows "daemon_inv L hf hdat D dp y"
proof -
  have fr: "h5_frame_law hdat" using H by (simp add: hdf5_contract_def)
  have J: "dir_ok L hf hdat D (d_disk x)" and E: "only_entries D dp (fst (d_disk x))"
    and T: "\<And>f. f \<in> in_hand (d_pool x) \<Longrightarrow> task_ok D f"
    using I by (auto simp: daemon_inv_def)
  have e: "env (fst (d_disk x)) = []" using J by (simp add: dir_ok_def)
  have disk: "dir_ok L hf hdat D (s, snd (d_disk x)) \<and> only_entries D dp s" if "quiet (fst (d_disk x)) s" for s
    using dir_ok_quiet [OF fr J that] that E by (auto simp: quiet_def intro: only_entries_cong)
  from st show ?thesis
  proof cases
    case main
    from I have "entries_inv D dp x" by (simp add: daemon_inv_split)
    from main_entries_inv [OF main e this] disk [of "fst (d_disk y)"] show ?thesis
      unfolding daemon_inv_split by (metis prod.collapse)
  next
    case (work i f p junk_src junk_h5 fuel w)
    have "f \<in> in_hand (d_pool x)" using worker_at_set [OF work(3)] by (simp add: in_hand_def)
    then have f: "task_ok D f" by (rule T)
    have p: "in_hand p \<subseteq> in_hand (d_pool x)" using in_hand_event [OF work(4)] by simp
    have "dir_ok L hf hdat D w \<and> only_entries D dp (fst w)"
    proof (cases "f \<in> dom D")
      case True
      from F have "good_paths (dom D)" by (simp add: flat_dir_def)
      from process_file_step [OF H Z this J True work(5)] process_file_entries [OF H F J E True work(5)]
      show ?thesis ..
    next
      case False
      with f have "''.dzs'' \<in> set (tokens SLASH f) \<or> is_hidden_base (after_slash f)" by (simp add: task_ok_def)
      from refused_task [OF this work(5)] disk [of "fst w"] show ?thesis by (metis prod.collapse)
    qed
    with work(1) p I show ?thesis by (auto simp: daemon_inv_def)
  qed
qed

lemma daemon_inv_reach:
  assumes "hdf5_contract H hf hdat" "zstd_contract L" "flat_dir D dp"
    and "dir_ok L hf hdat D w0" "only_entries D dp (fst w0)"
    and "daemon_reach H L pol dp threads w0 x"
  shows "daemon_inv L hf hdat D dp x"
  using assms(6)
proof induction
  case start
  then show ?case using assms(4,5) by (simp add: daemon_inv_def in_hand_new new_daemon_def)
next
  case (step x y)
  then show ?case using assms(1-3) by (blast intro: daemon_inv_step)
qed

lemma daemon_keeps_dir:
  assumes "hdf5_contract H hf hdat" "zstd_contract L" "flat_dir D dp"
    and "dir_ok L hf hdat D w0" "only_entries D dp (fst w0)"
    and "daemon_reach H L pol dp threads w0 x"
  shows "dir_ok L hf hdat D (d_disk x)"
  using daemon_inv_reach [OF assms] by (simp add: daemon_inv_def)

text \<open>The whole daemon, with its scans, its pool of any number of threads and its conversions, keeps the
  contents of every file of its directory for as long as it runs, as long as no two workers convert at
  the same time and whichever calls of the libraries fail: a file has them itself until it has a hidden
  file, and then the hidden file has them. What it has submitted to the pool are entries of the
  directory: its files, or names that \<open>process_file\<close> refuses.\<close>

theorem daemon_lifetime:
  assumes "hdf5_contract H hf hdat" "zstd_contract L" "flat_dir D dp"
    and "dir_ok L hf hdat D w0" "only_entries D dp (fst w0)"
    and "daemon_reach H L pol dp threads w0 x"
  shows "dir_ok L hf hdat D (d_disk x) \<and> in_hand (d_pool x) \<subseteq> Collect (task_ok D)"
  using daemon_inv_reach [OF assms] by (auto simp: daemon_inv_def)

section \<open>On a concrete directory\<close>

definition life_os :: os where
  \<comment> \<open>the file \<^verbatim>\<open>f\<close> of the root directory is old, the directory has just been changed\<close>
  "life_os = (demo_os [1, 2, 3])\<lparr>
     inodes := (inodes (demo_os [1, 2, 3]))(0 \<mapsto> \<lparr>i_dir = True, i_perm = 0x1ED, i_data = [], i_mtime = 7\<rparr>)\<rparr>"

definition life_contents :: "string \<Rightarrow> bytes option" where
  "life_contents = [''//f'' \<mapsto> [1, 2, 3]]"

lemma life_names:
  "comps ''/'' = []" "comps ''//f'' = [''f'']" "comps ''//.'' = []" "comps ''//..'' = []"
  "comps (hidden_name ''//f'') = [''.f.DZF'']" "comps (tmp_name (hidden_name ''//f'')) = [''.f.DZF.tmp'']"
  "\<not> reads_before_start ''//f''" "\<not> is_hidden_base (after_slash ''//f'')"
  "tokens SLASH ''//f'' = [''f'']" "\<not> match_extension ''//f'' ''*.gz''"
  by code_simp+

lemma life_start:
  "dir_ok sim_codec sim_files sim_data life_contents (life_os, demo_h5)" "flat_dir life_contents ''/''"
  "only_entries life_contents ''/'' life_os"
proof -
  show "dir_ok sim_codec sim_files sim_data life_contents (life_os, demo_h5)"
    using life_names
    by (auto simp: dir_ok_def file_ok_def life_os_def demo_os_def demo_h5_def wf_fs_def node_at_def
        life_contents_def split: if_splits)
  show "flat_dir life_contents ''/''"
    using life_names
    by (simp add: flat_dir_def good_paths_def life_contents_def own_names_def entry_path_def)
  show "only_entries life_contents ''/'' life_os"
    by (simp add: only_entries_def life_os_def demo_os_def life_names entry_ok_def entry_path_def life_contents_def)
qed

definition life_after :: "h5sim st" where
  \<comment> \<open>after the conversion\<close>
  "life_after =
     ((fst demo_after)\<lparr>inodes :=
        [0 \<mapsto> \<lparr>i_dir = True, i_perm = 0x1ED, i_data = [], i_mtime = 7\<rparr>,
         2 \<mapsto> \<lparr>i_dir = False, i_perm = 0x1A4, i_data = [], i_mtime = 7\<rparr>,
         1 \<mapsto> \<lparr>i_dir = False, i_perm = 0x1A4, i_data = replicate 3 0, i_mtime = 7\<rparr>]\<rparr>, snd demo_after)"

lemma life_convert:
  "process_file sim_hdf5 sim_codec demo_policy 0 0 (Suc (Suc 0)) ''//f'' (life_os, demo_h5) = Some life_after"
proof -
  have f: "findhiddenFile ''//f'' life_os = Some (0, life_os\<lparr>errno := ENOENT\<rparr>)"
    by (simp add: findhiddenFile_normal life_os_def demo_os_def life_names node_at_def missing_errno_def)
  have st: "sys_stat ''//f'' life_os = (Some (stat_of 1 demo_inode), life_os)"
    by (simp add: sys_stat_def life_os_def demo_os_def node_at_def life_names demo_inode_def)
  have "convert2h5 sim_hdf5 sim_codec 0 0 (Suc (Suc 0)) (Some ''//f'') DZ_ALG_ZSTD
     (life_os\<lparr>errno := ENOENT\<rparr>, demo_h5) = Some (0, life_after)"
    by (simp add: convert2h5_def buildHiddenFile_normal life_os_def demo_os_def demo_h5_def
      convert_out_def os_eval sim_eval life_names convert_open_def Let_def hdf5_open_def
      convert_write_def alg_version_def hdf5_writestr_def compress_data_def
      compressdata_zstd_def hdf5_writedata_def uninit_out_def as_int_def convert_finish_def
      life_after_def demo_after_def)
  then show ?thesis
    using life_names f st
    by (simp add: process_file_def match_sysdir_def sysdir_loop_iff match_hiddenfile_eq demo_policy_def
        stat_of_def demo_inode_def)
qed

text \<open>A scan of the directory, which finds the file old enough, and its conversion by the only worker.\<close>

lemma life_scan:
  "sys_opendir ''/'' life_os = (Some [''.'', ''..'', ''f''], life_os)"
  "scan_entries demo_policy ''/'' [''.''] [] life_os = Some (Scanned [], life_os)"
  "scan_entries demo_policy ''/'' [''..''] [] life_os = Some (Scanned [], life_os)"
  "scan_entries demo_policy ''/'' [''f''] [] life_os = Some (Scanned [''//f''], life_os)"
  by (simp_all add: sys_opendir_def sys_stat_def life_os_def demo_os_def node_at_def life_names dir_entries_def
      entry_path_def demo_policy_def stat_of_def)

definition life_pool :: "string pool" where
  \<comment> \<open>when the worker has taken the file\<close>
  "life_pool = \<lparr>p_tasks = [], p_stop = False, p_workers = [Running ''//f''], p_client = Notifying,
     p_submitted = [''//f''], p_started = [''//f''], p_finished = []\<rparr>"

definition life_submitted :: "h5sim daemon" where
  \<comment> \<open>the scan has come to its end\<close>
  "life_submitted = \<lparr>d_pool = life_pool, d_disk = (life_os, demo_h5), d_scan = Some [], d_exit = None\<rparr>"

lemma life_submits:
  "(main_step demo_policy ''/'')\<^sup>*\<^sup>* (new_daemon 1 (life_os, demo_h5)) life_submitted"
proof -
  let ?M = "main_step demo_policy ''/'' :: h5sim daemon \<Rightarrow> h5sim daemon \<Rightarrow> bool"
  define w where "w = (life_os, demo_h5)"
  define p q :: "string pool" where "p = new_pool 1"
    and "q = p\<lparr>p_tasks := p_tasks p @ [''//f''], p_client := Notifying, p_submitted := p_submitted p @ [''//f'']\<rparr>"
  let ?x = "\<lambda>p sc. \<lparr>d_pool = p, d_disk = w, d_scan = sc, d_exit = None\<rparr> :: h5sim daemon"
  have 1: "?M (?x p None) (?x p (Some [''.'', ''..'', ''f'']))"
    using open_dir [of "?x p None"] life_scan(1) by (simp add: w_def)
  have 2: "?M (?x p (Some [''.'', ''..'', ''f''])) (?x p (Some [''..'', ''f'']))"
    using young [of "?x p (Some [''.'', ''..'', ''f''])"] life_scan(2) by (simp add: w_def)
  have 3: "?M (?x p (Some [''..'', ''f''])) (?x p (Some [''f'']))"
    using young [of "?x p (Some [''..'', ''f''])"] life_scan(3) by (simp add: w_def)
  have "pool_step (Enqueue ''//f'') p q" unfolding q_def by (rule pool_step.enqueue) (simp add: p_def new_pool_def)
  then have 4: "?M (?x p (Some [''f''])) (?x q (Some []))"
    using submit [of "?x p (Some [''f''])"] life_scan(4) by (simp add: w_def)
  have lp: "life_pool = set_worker 0 (Running ''//f'') q\<lparr>p_tasks := [], p_started := p_started q @ [''//f'']\<rparr>"
    by (simp add: life_pool_def set_worker_def q_def p_def new_pool_def)
  have "pool_step (Take 0) q life_pool"
    unfolding lp by (rule pool_step.take) (simp_all add: q_def p_def new_pool_def worker_at_def)
  then have 5: "?M (?x q (Some [])) (?x life_pool (Some []))"
    using pool_event [of "?x q (Some [])" "Take 0"] by simp
  from 1 2 3 4 5 have "?M\<^sup>*\<^sup>* (?x p None) (?x life_pool (Some []))"
    by (meson converse_rtranclp_into_rtranclp rtranclp.rtrancl_refl)
  then show ?thesis by (simp add: p_def w_def new_daemon_def life_submitted_def)
qed

lemma main_steps_reach:
  assumes "(main_step pol dp)\<^sup>*\<^sup>* x y" "daemon_reach H L pol dp threads w0 x"
  shows "daemon_reach H L pol dp threads w0 y"
  using assms by induction (auto intro: daemon_reach.step main)

lemma life_run:
  "\<exists>x. daemon_reach sim_hdf5 sim_codec demo_policy ''/'' 1 (life_os, demo_h5) x \<and>
    p_finished (d_pool x) = [''//f''] \<and> d_disk x = life_after"
proof -
  let ?r = "daemon_reach sim_hdf5 sim_codec demo_policy ''/'' 1 (life_os, demo_h5)"
  let ?x = life_submitted
  let ?p = "set_worker 0 Ready life_pool\<lparr>p_finished := p_finished life_pool @ [''//f'']\<rparr>"
  have r: "?r ?x" by (rule main_steps_reach [OF life_submits daemon_reach.start])
  have f: "worker_at life_pool 0 (Running ''//f'')" by (simp add: life_pool_def worker_at_def)
  then have "pool_step (Finish 0) life_pool ?p" by (rule pool_step.finish)
  then have "daemon_step sim_hdf5 sim_codec demo_policy ''/'' ?x (?x\<lparr>d_pool := ?p, d_disk := life_after\<rparr>)"
    using work [of ?x 0 "''//f''" ?p] f life_convert by (simp add: life_submitted_def)
  from daemon_reach.step [OF r this] show ?thesis
    by (intro exI [of _ "?x\<lparr>d_pool := ?p, d_disk := life_after\<rparr>"]) (simp add: life_pool_def)
qed

lemma daemon_lifetime_witness:
  "\<exists>x :: h5sim daemon. p_finished (d_pool x) = [''//f''] \<and> d_disk x = life_after \<and>
    dir_ok sim_codec sim_files sim_data life_contents life_after"
proof -
  obtain x where x: "p_finished (d_pool x) = [''//f'']" "d_disk x = life_after"
    "daemon_reach sim_hdf5 sim_codec demo_policy ''/'' 1 (life_os, demo_h5) x" using life_run by blast
  from life_start(3) have "only_entries life_contents ''/'' (fst (life_os, demo_h5))" by simp
  from daemon_lifetime [OF sim_hdf5_contract sim_codec_zstd life_start(2,1) this x(3)] x(1,2) show ?thesis
    by metis
qed

end
