(* ===== verification/Tasks.thy ===== *)
theory Tasks
  imports Parallel Lifetime
begin

text \<open>
  The daemon whose workers work at the same time: \<open>process_file\<close> of \<^verbatim>\<open>src/dzfile-walker.cc\<close> in steps, with
  the steps of \<open>convert2h5\<close> at its end, and one step relation over the main thread, the pool
  and the workers, each somewhere in its task. \<open>Crowd\<close> holds what is shown of it.
\<close>

section \<open>A task in steps\<close>

datatype task =
    Filter string      \<comment> \<open>before \<open>match_sysdir\<close> and \<open>match_hiddenfile\<close>\<close>
  | StatFile string
  | FindHidden string
  | Converting job
  | Processed string

fun task_path :: "task \<Rightarrow> string" where
  "task_path (Filter f) = f"
| "task_path (StatFile f) = f"
| "task_path (FindHidden f) = f"
| "task_path (Converting t) = job_path t"
| "task_path (Processed f) = f"

fun task_step ::
    "'h hdf5_lib \<Rightarrow> codec_lib \<Rightarrow> Policy \<Rightarrow> int \<Rightarrow> int \<Rightarrow> task \<Rightarrow> 'h st \<Rightarrow> (task \<times> 'h st) option" where
  "task_step H L pol junk_src junk_h5 (Filter f) w =
     (case match_sysdir (Some f) (fst w) of
        (m, s1) \<Rightarrow> do {
          h \<leftarrow> (if m = 1 then Some 0 else match_hiddenfile (Some f));
          Some (if m = 1 \<or> h = 1 then Processed f else StatFile f, (s1, snd w)) })"
| "task_step H L pol junk_src junk_h5 (StatFile f) w =
     (case sys_stat f (fst w) of
        (None, s2) \<Rightarrow> Some (Processed f, (s2, snd w))
      | (Some stbuf, s2) \<Rightarrow>
          Some (if st_size stbuf < low_size pol then Processed f else FindHidden f, (s2, snd w)))"
| "task_step H L pol junk_src junk_h5 (FindHidden f) w = do {
     (ret, s3) \<leftarrow> findhiddenFile f (fst w);
     Some (if ret = 1 \<or> match_extension f (blacklist pol) then Processed f else Converting (Checks f), (s3, snd w)) }"
| "task_step H L pol junk_src junk_h5 (Converting t) w =
     (case t of
        Converted f ret \<Rightarrow> Some (Processed f, w)
      | _ \<Rightarrow> do {
          (t', w') \<leftarrow> convert_step H L DZ_ALG_ZSTD junk_src junk_h5 t w;
          Some (Converting t', w') })"
| "task_step H L pol junk_src junk_h5 (Processed f) w = None"

inductive task_steps ::
    "'h hdf5_lib \<Rightarrow> codec_lib \<Rightarrow> Policy \<Rightarrow> int \<Rightarrow> int \<Rightarrow> task \<times> 'h st \<Rightarrow> task \<times> 'h st \<Rightarrow> bool"
  for H L pol junk_src junk_h5
where
  no_step: "task_steps H L pol junk_src junk_h5 x x"
| next_step: "task_step H L pol junk_src junk_h5 t w = Some y \<Longrightarrow> task_steps H L pol junk_src junk_h5 y z \<Longrightarrow>
    task_steps H L pol junk_src junk_h5 (t, w) z"

lemma task_step_convert:
  "convert_step H L DZ_ALG_ZSTD junk_src junk_h5 t w = Some (t', w') \<Longrightarrow>
    task_step H L pol junk_src junk_h5 (Converting t) w = Some (Converting t', w')"
  by (cases t) simp_all

lemma converting_steps:
  assumes "convert_steps H L DZ_ALG_ZSTD junk_src junk_h5 x y"
    and "task_steps H L pol junk_src junk_h5 (Converting (fst y), snd y) z"
  shows "task_steps H L pol junk_src junk_h5 (Converting (fst x), snd x) z"
  using assms
proof induction
  case (next_step t w y z')
  then have "task_steps H L pol junk_src junk_h5 (Converting (fst y), snd y) z" by blast
  moreover have "task_step H L pol junk_src junk_h5 (Converting t) w = Some (Converting (fst y), snd y)"
    using next_step.hyps(1) by (intro task_step_convert) simp
  ultimately show ?case by (auto intro: task_steps.next_step)
qed

text \<open>The steps are those of the function.\<close>

lemma process_file_steps:
  assumes run: "process_file H L pol junk_src junk_h5 fuel f w = Some w'"
  shows "task_steps H L pol junk_src junk_h5 (Filter f, w) (Processed f, w')"
proof -
  let ?S = "task_steps H L pol junk_src junk_h5"
  obtain m s1 where m: "match_sysdir (Some f) (fst w) = (m, s1)" by fastforce
  from run m obtain h where h: "(if m = 1 then Some 0 else match_hiddenfile (Some f)) = Some h"
    by (auto simp: process_file_def bind_eq_Some_conv)
  have fs: "task_step H L pol junk_src junk_h5 (Filter f) w =
      Some (if m = 1 \<or> h = 1 then Processed f else StatFile f, (s1, snd w))"
    using m h by simp
  show ?thesis
  proof (cases "m = 1 \<or> h = 1")
    case True
    with run m h have "w' = (s1, snd w)" by (simp add: process_file_def)
    with True fs show ?thesis by (auto intro: task_steps.intros)
  next
    case plain: False
    obtain st s2 where st: "sys_stat f s1 = (st, s2)" by fastforce
    have "?S (StatFile f, (s1, snd w)) (Processed f, w')"
    proof (cases "\<exists>b. st = Some b \<and> \<not> st_size b < low_size pol")
      case False
      with run m h plain st have "w' = (s2, snd w)" by (auto simp: process_file_def split: option.splits)
      moreover have "task_step H L pol junk_src junk_h5 (StatFile f) (s1, snd w) = Some (Processed f, (s2, snd w))"
        using False st by (auto split: option.split)
      ultimately show ?thesis by (auto intro: task_steps.intros)
    next
      case True
      with run m h plain st obtain ret s3 where fh: "findhiddenFile f s2 = Some (ret, s3)"
        by (auto simp: process_file_def bind_eq_Some_conv)
      have "?S (FindHidden f, (s2, snd w)) (Processed f, w')"
      proof (cases "ret = 1 \<or> match_extension f (blacklist pol)")
        case True
        with run m h plain st \<open>\<exists>b. st = Some b \<and> \<not> st_size b < low_size pol\<close> fh have "w' = (s3, snd w)"
          by (auto simp: process_file_def split: if_splits)
        with True fh show ?thesis by (intro task_steps.next_step) (auto intro: no_step)
      next
        case False
        with run m h plain st \<open>\<exists>b. st = Some b \<and> \<not> st_size b < low_size pol\<close> fh obtain r where
          "convert2h5 H L junk_src junk_h5 fuel (Some f) DZ_ALG_ZSTD (s3, snd w) = Some (r, w')"
          by (auto simp: process_file_def bind_eq_Some_conv split: if_splits)
        note steps = convert2h5_steps [OF this]
        have "?S (Converting (Converted f r), w') (Processed f, w')"
          by (rule task_steps.next_step [OF _ task_steps.no_step]) simp
        with converting_steps [OF steps] have "?S (Converting (Checks f), (s3, snd w)) (Processed f, w')" by simp
        with False fh show ?thesis by (intro task_steps.next_step) auto
      qed
      moreover have "task_step H L pol junk_src junk_h5 (StatFile f) (s1, snd w) = Some (FindHidden f, (s2, snd w))"
        using True st by auto
      ultimately show ?thesis by (auto intro: task_steps.next_step)
    qed
    with fs plain show ?thesis by (auto intro: task_steps.next_step)
  qed
qed

section \<open>The daemon with its workers at work\<close>

type_synonym 'h crowd = "'h daemon \<times> task option list"
  \<comment> \<open>for each worker, where it is in the task that it is running\<close>

inductive crowd_step ::
    "'h hdf5_lib \<Rightarrow> codec_lib \<Rightarrow> Policy \<Rightarrow> string \<Rightarrow> int \<Rightarrow> int \<Rightarrow> 'h crowd \<Rightarrow> 'h crowd \<Rightarrow> bool"
  for H L pol dp junk_src junk_h5
where
  main_thread: "main_step pol dp x y \<Longrightarrow> crowd_step H L pol dp junk_src junk_h5 (x, ts) (y, ts)"
| begin_file: "d_exit x = None \<Longrightarrow> worker_at (d_pool x) i (Running f) \<Longrightarrow> i < length ts \<Longrightarrow> ts ! i = None \<Longrightarrow>
    crowd_step H L pol dp junk_src junk_h5 (x, ts) (x, ts[i := Some (Filter f)])"
| work_on_file: "d_exit x = None \<Longrightarrow> i < length ts \<Longrightarrow> ts ! i = Some t \<Longrightarrow>
    task_step H L pol junk_src junk_h5 t (d_disk x) = Some (t', w) \<Longrightarrow>
    crowd_step H L pol dp junk_src junk_h5 (x, ts) (x\<lparr>d_disk := w\<rparr>, ts[i := Some t'])"
| end_file: "d_exit x = None \<Longrightarrow> i < length ts \<Longrightarrow> ts ! i = Some (Processed f) \<Longrightarrow> pool_step (Finish i) (d_pool x) p \<Longrightarrow>
    crowd_step H L pol dp junk_src junk_h5 (x, ts) (x\<lparr>d_pool := p\<rparr>, ts[i := None])"

text \<open>
  The states of the runs in which the pool is always as \<open>P\<close> says. \<open>one_each\<close>: no two workers are running
  the same file; the pool does not see to that.
\<close>

inductive crowd_reach ::
    "(string pool \<Rightarrow> bool) \<Rightarrow> 'h hdf5_lib \<Rightarrow> codec_lib \<Rightarrow> Policy \<Rightarrow> string \<Rightarrow> int \<Rightarrow> int \<Rightarrow> nat \<Rightarrow> 'h st \<Rightarrow> 'h crowd \<Rightarrow> bool"
  for P H L pol dp junk_src junk_h5 threads w0
where
  start: "crowd_reach P H L pol dp junk_src junk_h5 threads w0
    (new_daemon threads w0, replicate threads None)"
| step: "crowd_reach P H L pol dp junk_src junk_h5 threads w0 x \<Longrightarrow>
    crowd_step H L pol dp junk_src junk_h5 x y \<Longrightarrow> P (d_pool (fst y)) \<Longrightarrow>
    crowd_reach P H L pol dp junk_src junk_h5 threads w0 y"

definition one_each :: "string pool \<Rightarrow> bool" where
  "one_each p \<longleftrightarrow> (\<forall>i j f. worker_at p i (Running f) \<longrightarrow> worker_at p j (Running f) \<longrightarrow> i = j)"

end
