(* ===== verification/Client.thy ===== *)
theory Client
  imports CopyTools
begin

text \<open>
  Sessions of a program that uses the interface of \<^verbatim>\<open>src/dzfile-api.c\<close>: any sequence of its calls,
  between \<open>dzfile_init\<close> and \<open>dzfile_fini\<close>, with any arguments and any failures of the
  system. The well-formedness of the state that ties the map of the compressed files, the blocks
  on the heap, the open descriptors of the system and the open files of the HDF5 library together
  is stated here and shown to be kept by every call.
\<close>

section \<open>Open descriptors stay open\<close>

definition fds_grow :: "os \<Rightarrow> os \<Rightarrow> bool" where
  "fds_grow s s' \<longleftrightarrow> (\<forall>fd. fd_get s fd \<noteq> None \<longrightarrow> fd_get s' fd \<noteq> None)"

named_theorems grows

lemma fds_grow_refl [grows]: "fds_grow s s"
  by (simp add: fds_grow_def)

lemma fds_grow_trans: "fds_grow s t \<Longrightarrow> fds_grow t u \<Longrightarrow> fds_grow s u"
  by (simp add: fds_grow_def)

lemma fds_grow_cong: "fds s' = fds s \<Longrightarrow> fds_grow s s'"
  by (simp add: fds_grow_def fd_get_def)

lemma fds_grow_env: "fds_grow (s\<lparr>env := r\<rparr>) t = fds_grow s t" "fds_grow (s\<lparr>errno := e\<rparr>) t = fds_grow s t"
  by (simp_all add: fds_grow_def fd_get_def)

lemma fds_grow_quiet: "quiet s s' \<Longrightarrow> fds_grow s s'"
  by (simp add: fds_grow_cong quiet_def)

lemma fds_grow_attempt [grows]:
  assumes "\<And>s. fds_grow s (snd (act s))"
  shows "fds_grow s (snd (attempt fl act s))"
proof (rule attempt_induct)
  fix s'
  assume "s' = s\<lparr>env := env s'\<rparr>"
  then have "fds_grow s s'" by (metis fds_grow_env(1) fds_grow_refl)
  then show "fds_grow s (snd (act s'))" using assms by (rule fds_grow_trans)
qed (simp add: fds_grow_cong)

lemma fds_grow_fail [grows]: "fds_grow s (snd (fail_with e r s))"
  by (simp add: fail_with_def fds_grow_cong)

lemma fds_grow_set_data [grows]: "fds_grow s (set_data i n d s)"
  by (simp add: fds_grow_cong set_data_def)

lemma fds_grow_seek [grows]: "fds_grow s (fd_seek fd f off s)"
  by (auto simp: fds_grow_def fd_get_def fd_seek_def) (metis nth_list_update_eq nth_list_update_neq)

lemma fds_grow_write [grows]: "fds_grow s (fd_seek fd f off (set_data i n d s))"
  using fds_grow_set_data fds_grow_seek by (rule fds_grow_trans)

lemma fds_grow_new_file: "fds_grow s (new_file cs b m s)"
  by (simp add: fds_grow_cong new_file_def)

lemma fds_grow_alloc: "fds_grow s (snd (alloc_fd i fl s))"
  by (auto simp: fds_grow_def fd_get_def alloc_fd_def Let_def nth_list_update nth_append first_free_None)

lemma fds_grow_sys [grows]:
  "fds_grow s (snd (sys_stat p s))" "fds_grow s (snd (sys_fstat fd s))"
  "fds_grow s (snd (sys_read fd c s))" "fds_grow s (snd (sys_pread fd c off s))"
  "fds_grow s (snd (sys_write fd b s))" "fds_grow s (snd (sys_pwrite fd b off s))"
  "fds_grow s (snd (sys_truncate p k s))" "fds_grow s (snd (sys_ftruncate fd k s))"
  "fds_grow s (snd (sys_unlink p s))" "fds_grow s (snd (sys_mkdir p m s))"
  "fds_grow s (snd (sys_malloc s))" "fds_grow s (snd (sys_opendir p s))"
  "fds_grow s (snd (sys_lseek fd k wh s))" "fds_grow s (snd (sys_fsync fd s))"
  "fds_grow s (snd (sys_statfs p s))" "fds_grow s (snd (sys_fstatfs fd s))"
  "fds_grow s (snd (dzfile_lk fd cmd l oth s))"
  unfolding sys_stat_def sys_fstat_def sys_read_def sys_pread_def sys_write_def sys_pwrite_def
    sys_truncate_def sys_ftruncate_def sys_unlink_def sys_mkdir_def sys_malloc_def sys_opendir_def
    sys_lseek_def sys_fsync_def sys_statfs_def sys_fstatfs_def dzfile_lk_def
    Let_def
  by (rule fds_grow_attempt;
      auto split: option.split list.split intro!: grows fds_grow_new_file intro: fds_grow_cong)+

lemma fds_grow_fallocate [grows]: "fds_grow s (snd (sys_posix_fallocate fd off len s))"
  by (auto simp: sys_posix_fallocate_def set_data_def Let_def intro!: fds_grow_cong
      split: list.split outcome.split option.split)

lemma fds_grow_open [grows]: "fds_grow s (snd (sys_open p fl m s))"
proof -
  have "fds_grow s (snd (alloc_fd i fl s'))" if "fds_grow s s'" for i s s'
    using that fds_grow_alloc by (rule fds_grow_trans)
  then show ?thesis
    unfolding sys_open_def
    by (intro fds_grow_attempt) (auto split: option.split intro!: grows fds_grow_new_file)
qed

lemma fds_grow_creat [grows]: "fds_grow s (snd (sys_creat p m s))"
  by (simp add: sys_creat_def fds_grow_open)

section \<open>Calls that leave the table alone\<close>

definition keeps :: "('h, 'm, 'd, 'q) world \<Rightarrow> ('h, 'm, 'd, 'q) world \<Rightarrow> bool" where
  "keeps w w' \<longleftrightarrow> w_fdm w' = w_fdm w \<and> w_heap w' = w_heap w \<and> w_next w' = w_next w \<and>
     w_h5 w' = w_h5 w \<and> fds_grow (w_os w) (w_os w')"

definition kept :: "('h, 'm, 'd, 'q) world \<Rightarrow> ('a \<times> ('h, 'm, 'd, 'q) world) option \<Rightarrow> bool" where
  \<comment> \<open>whatever the call returns, where it is defined\<close>
  "kept w r \<longleftrightarrow> (case r of None \<Rightarrow> True | Some (x, w') \<Rightarrow> keeps w w')"

named_theorems kept_intros

lemma keeps_refl [simp]: "keeps w w"
  by (simp add: keeps_def fds_grow_refl)

lemma keeps_trans: "keeps w v \<Longrightarrow> keeps v u \<Longrightarrow> keeps w u"
  by (auto simp: keeps_def intro: fds_grow_trans)

lemma keeps_os: "fds_grow (w_os w) s \<Longrightarrow> keeps w (w\<lparr>w_os := s\<rparr>)"
  by (simp add: keeps_def)

lemma kept_simps [simp]: "kept w None" "kept w (Some r) = keeps w (snd r)"
  by (simp_all add: kept_def split: prod.split)

lemma keeps_wrap [simp]:
  "keeps w (set_errno e v) = keeps w v" "keeps w (lock_db k v) = keeps w v"
  "keeps w (v\<lparr>w_db := d\<rparr>) = keeps w v" "keeps w (v\<lparr>w_mq := q\<rparr>) = keeps w v"
proof -
  have "fds_grow s (t\<lparr>errno := e\<rparr>) = fds_grow s t" for s t by (simp add: fds_grow_def fd_get_def)
  then show "keeps w (set_errno e v) = keeps w v" by (simp add: keeps_def set_errno_def)
qed (simp_all add: keeps_def lock_db_def)

lemma kept_trans: "keeps w v \<Longrightarrow> kept v r \<Longrightarrow> kept w r"
  by (auto simp: kept_def intro: keeps_trans split: option.splits)

lemma kept_bind:
  assumes "kept w r" "\<And>x v. r = Some (x, v) \<Longrightarrow> kept v (f (x, v))"
  shows "kept w (r \<bind> f)"
  using assms by (cases r) (auto intro: kept_trans)

lemma kept_case:
  assumes "kept w r" "\<And>x v. r = Some (x, v) \<Longrightarrow> kept v (f x v)"
  shows "kept w (case r of None \<Rightarrow> None | Some (x, v) \<Rightarrow> f x v)"
  using assms by (cases r) (auto intro: kept_trans)

lemma keeps_on_os: "fds_grow (w_os w) (snd (f (w_os w))) \<Longrightarrow> keeps w (snd (on_os f w))"
  by (simp add: on_os_def case_prod_unfold keeps_os)

lemma keeps_exec_locked [simp]: "keeps w (snd (exec_locked M stmt w))"
  by (simp add: exec_locked_def Let_def case_prod_unfold)

lemma keeps_not_ready [simp]: "keeps w (not_ready w)"
  by (simp add: not_ready_def split: option.split)

lemma keeps_notifymq [simp]: "keeps w (snd (dz_notifymq M p w))"
  by (simp add: dz_notifymq_def case_prod_unfold split: option.split)

lemma kept_space_update: "kept w (space_update M field k fl w)"
  by (simp add: space_update_def Let_def split: option.split)

lemma kept_space [kept_intros]:
  "kept w (add_writtenbytes M k w)" "kept w (sub_writtenbytes M k w)"
  "kept w (add_diskbytes M k w)" "kept w (sub_diskbytes M k w)"
  "kept w (add_filenum M k w)" "kept w (sub_filenum M k w)"
  by (simp_all add: add_writtenbytes_def sub_writtenbytes_def add_diskbytes_def sub_diskbytes_def
      add_filenum_def sub_filenum_def kept_space_update)

lemma kept_fmt_entry_insert [kept_intros]: "kept w (fmt_entry_insert M p w)"
  by (auto simp: fmt_entry_insert_def case_prod_unfold split: option.split
      intro: kept_trans [OF keeps_exec_locked kept_space(5)])

lemma kept_get_space_entry [kept_intros]: "kept w (get_space_entry M e w)"
  by (auto simp: get_space_entry_def Let_def guard_ub_def split: option.split prod.split)

text \<open>Steps that the calls share: the checks of the name, and a system call.\<close>

lemma fds_grow_sysdir: "match_sysdir p s = (r, s') \<Longrightarrow> fds_grow s s'"
  by (auto simp: match_sysdir_def intro!: fds_grow_cong split: option.splits if_splits)

lemma fds_grow_build: "buildHiddenFile f s = Some (x, s') \<Longrightarrow> fds_grow s s'"
  by (intro fds_grow_quiet quiet_buildHiddenFile)

lemma fds_grow_find:
  assumes "findhiddenFile f s = Some (y, s')"
  shows "fds_grow s s'"
proof -
  from assms obtain hf s1 where b: "buildHiddenFile f s = Some (hf, s1)"
    by (auto simp: findhiddenFile_def bind_eq_Some_conv)
  obtain st s2 where st: "sys_stat (the hf) s1 = (st, s2)" by fastforce
  have "fds_grow s1 s2" using fds_grow_sys(1) [of s1 "the hf"] st by simp
  moreover have "s' = (if hf = None then s1 else s2)"
    using assms b st by (auto simp: findhiddenFile_def split: option.splits if_splits)
  ultimately show ?thesis using fds_grow_build [OF b] by (auto intro: fds_grow_trans)
qed

lemma kept_os_step:
  assumes "fds_grow (w_os w) s" "kept (w\<lparr>w_os := s\<rparr>) r"
  shows "kept w r"
  using keeps_os [OF assms(1)] assms(2) by (rule kept_trans)

lemma kept_on_os:
  assumes "\<And>s. fds_grow s (snd (f s))" "\<And>x v. on_os f w = (x, v) \<Longrightarrow> kept v (g x v)"
  shows "kept w (case on_os f w of (x, v) \<Rightarrow> g x v)"
proof -
  have "keeps w (snd (on_os f w))" using assms(1) by (rule keeps_on_os)
  moreover have "kept (snd (on_os f w)) (g (fst (on_os f w)) (snd (on_os f w)))"
    using assms(2) surjective_pairing by blast
  ultimately show ?thesis unfolding case_prod_unfold by (rule kept_trans)
qed

lemma keeps_call [simp]:
  "(\<And>s. fds_grow s (snd (f s))) \<Longrightarrow> keeps w v \<Longrightarrow> keeps w (snd (on_os f v))"
  using keeps_on_os keeps_trans by blast

lemma kept_find:
  assumes "w_os w = s0" "\<And>r s. findhiddenFile f s0 = Some (r, s) \<Longrightarrow> kept (w\<lparr>w_os := s\<rparr>) (g (r, s))"
  shows "kept w (findhiddenFile f s0 \<bind> g)"
  using assms by (cases "findhiddenFile f s0")
    (auto intro: kept_os_step dest: fds_grow_find)

lemma kept_build:
  assumes "w_os w = s0" "\<And>r s. buildHiddenFile f s0 = Some (r, s) \<Longrightarrow> kept (w\<lparr>w_os := s\<rparr>) (g (r, s))"
  shows "kept w (buildHiddenFile f s0 \<bind> g)"
  using assms by (cases "buildHiddenFile f s0")
    (auto intro: kept_os_step dest: fds_grow_build)

lemma kept_sysdir:
  assumes "w_os w = s0" "\<And>r s. kept (w\<lparr>w_os := s\<rparr>) (g r s)"
  shows "kept w (case match_sysdir p s0 of (r, s) \<Rightarrow> g r s)"
  using assms by (auto split: prod.split intro: kept_os_step dest: fds_grow_sysdir)

text \<open>One rule for each construct that the calls are written with, the specific ones first.\<close>

lemma kept_if: "(P \<Longrightarrow> kept w a) \<Longrightarrow> (\<not> P \<Longrightarrow> kept w b) \<Longrightarrow> kept w (if P then a else b)"
  by simp

lemma kept_let: "kept w (f a) \<Longrightarrow> kept w (let x = a in f x)"
  by simp

lemma kept_notify:
  assumes "\<And>v. kept v (f v)"
  shows "kept w (let v = snd (dz_notifymq M p w) in f v)"
  unfolding Let_def using keeps_notifymq assms by (rule kept_trans)

lemma kept_pair: "(\<And>a b. kept w (f a b v)) \<Longrightarrow> kept w ((case x of (a, b) \<Rightarrow> f a b) v)"
  by (cases x) simp

lemma kept_pure: "(\<And>x. m = Some x \<Longrightarrow> kept w (f x)) \<Longrightarrow> kept w (m \<bind> f)"
  by (cases m) simp_all

lemma kept_option: "kept w a \<Longrightarrow> (\<And>x. kept w (f x)) \<Longrightarrow> kept w (case m of None \<Rightarrow> a | Some x \<Rightarrow> f x)"
  by (cases m) simp_all

lemma kept_bind_space:
  assumes "\<And>w. kept w (call w)" "\<And>x v. kept v (f (x, v))"
  shows "kept w (call w \<bind> f)"
  using assms(1) by (rule kept_bind) (rule assms(2))

lemma kept_case_space:
  assumes "\<And>w. kept w (call w)" "\<And>x v. kept v (f x v)"
  shows "kept w (case call w of None \<Rightarrow> None | Some (x, v) \<Rightarrow> f x v)"
  using assms(1) by (rule kept_case) (rule assms(2))

lemma kept_case_find:
  assumes "w_os w = s0" "\<And>r s. kept (w\<lparr>w_os := s\<rparr>) (g r s)"
  shows "kept w (case findhiddenFile f s0 of None \<Rightarrow> None | Some (r, s) \<Rightarrow> g r s)"
  using assms by (auto split: option.split intro: kept_os_step dest: fds_grow_find)

lemma kept_case_build:
  assumes "w_os w = s0" "kept w x"
    "\<And>s. kept (w\<lparr>w_os := s\<rparr>) (a s)" "\<And>r s. kept (w\<lparr>w_os := s\<rparr>) (g r s)"
  shows "kept w (case buildHiddenFile f s0 of None \<Rightarrow> x | Some (None, s) \<Rightarrow> a s | Some (Some r, s) \<Rightarrow> g r s)"
  using assms by (auto split: option.split prod.split intro: kept_os_step dest: fds_grow_build)

lemmas kept_rules =
  kept_notify kept_let kept_if kept_sysdir kept_find kept_build kept_case_find kept_case_build kept_on_os
lemmas kept_loose = kept_pure kept_option

section \<open>The calls that leave the table alone\<close>

lemma kept_unlink_source [kept_intros]: "kept w (unlink_source M f w)"
  unfolding unlink_source_def
  by (rule kept_rules grows kept_case kept_space kept_loose | simp)+

lemma kept_truncate [kept_intros]: "kept w (dzfile_truncate p k w)"
  unfolding dzfile_truncate_def
  by (rule kept_rules | simp add: grows)+

lemma kept_creat [kept_intros]: "kept w (dzfile_creat M f m w)"
  unfolding dzfile_creat_def
  by (rule kept_rules kept_bind [OF kept_fmt_entry_insert] kept_pure | simp add: grows)+

lemma kept_unlink [kept_intros]: "kept w (dzfile_unlink M f w)"
  unfolding dzfile_unlink_def
  by (rule kept_rules kept_case [OF kept_space(4)] kept_unlink_source kept_loose | simp add: grows)+

lemma kept_mkdir: "keeps w (snd (dzfile_mkdir p m w))"
  by (auto simp: dzfile_mkdir_def grows keeps_os split: prod.split dest: fds_grow_sysdir)

lemma kept_opendir [kept_intros]: "kept w (dzfile_opendir p w)"
  unfolding dzfile_opendir_def
  by (rule kept_rules kept_pure | simp add: grows)+

lemma kept_dstat [kept_intros]: "kept w (dzfile_dstat M p d w)"
  unfolding dzfile_dstat_def
  by (rule kept_rules kept_bind [OF kept_get_space_entry] kept_pair kept_loose | simp add: grows)+

lemma kept_count_written:
  assumes "keeps w (snd rw)"
  shows "kept w (count_written M rw)"
  using assms unfolding count_written_def
  by (cases rw) (auto intro!: kept_trans [OF _ kept_case] kept_space)

lemma kept_write [kept_intros]: "kept w (dzfile_write M fd buf w)" "kept w (dzfile_pwrite M fd buf off w)"
  unfolding dzfile_write_def dzfile_pwrite_def by (simp_all add: kept_count_written grows)

lemma kept_writev_loop: "kept w (writev_loop M fd iov k w)"
  by (induction iov arbitrary: k w) (auto intro!: kept_case kept_write)

lemma kept_pwritev_loop: "kept w (pwritev_loop M fd iov off k w)"
  by (induction iov arbitrary: off k w) (auto intro!: kept_case kept_write)

lemma kept_writev [kept_intros]: "kept w (dzfile_writev M fd iov w)" "kept w (dzfile_pwritev M fd iov off w)"
  using kept_writev_loop [of w M fd iov 0] kept_pwritev_loop [of w M fd iov off 0]
  by (auto simp: dzfile_writev_def dzfile_pwritev_def kept_count_written split: option.split)

lemma keeps_readv_loop: "keeps w (snd (readv_loop M fd iov k acc w))"
proof (induction iov arbitrary: k acc w)
  case (Cons c iov)
  obtain r bs v where r: "dzfile_read M fd c w = ((r, bs), v)" by (metis surj_pair)
  then have "keeps w v" using keeps_call [of "sys_read fd c" w w] by (simp add: dzfile_read_def grows)
  with r Cons show ?case by (auto intro: keeps_trans)
qed simp

lemma keeps_readv: "keeps w (snd (dzfile_readv M fd iov w))"
  by (simp add: dzfile_readv_def keeps_readv_loop)

text \<open>Reading a compressed file changes nothing of the HDF5 library.\<close>

lemma hdf5_readstr_keeps:
  "hdf5_readstr H h5fd name len w = (r, w') \<Longrightarrow> fds_grow (fst w) (fst w') \<and> snd w' = snd w"
  using grows
  by (auto simp: hdf5_readstr_def Let_def intro: fds_grow_refl dest!: quiet_sys_malloc [THEN fds_grow_quiet]
      split: option.splits if_splits prod.splits bool.splits)

lemma getAlgorithm_keeps:
  "getAlgorithm H h5fd w = (m, w') \<Longrightarrow> fds_grow (fst w) (fst w') \<and> snd w' = snd w"
  by (auto simp: getAlgorithm_def Let_def dest!: hdf5_readstr_keeps split: option.splits prod.splits if_splits)

lemma quiet_decompressdata_zlib:
  assumes "decompressdata_zlib L out z s = Some (r, s')"
  shows "quiet s s'"
proof -
  obtain ok s1 where m: "sys_malloc s = (ok, s1)" by fastforce
  then have q: "quiet s s1" by (rule quiet_sys_malloc)
  then have e: "quiet s (s1\<lparr>errno := e\<rparr>)" for e by (rule quiet_trans) simp
  show ?thesis
    using assms m q e
    by (auto simp: decompressdata_zlib_def bind_eq_Some_conv split: if_splits bool.splits prod.splits)
qed

lemma decompress_keeps: "decompress_data L m out z s = Some (r, s') \<Longrightarrow> quiet s s'"
  by (auto simp: decompress_data_def split: dz_alg.splits
      intro: quiet_decompressdata_zlib quiet_decompressdata_zstd)

lemma pread_loop_keeps:
  assumes "pread_loop H L m h5fd c off out acc w = Some (r, w')"
  shows "fds_grow (fst w) (fst w') \<and> snd w' = snd w"
  using assms
proof (induction "c - length acc" arbitrary: off out acc w rule: less_induct)
  case less
  let ?b = "block_of off"
  obtain n z where rd: "hdf5_readdata H h5fd (block_int_name ?b) H5_BUFSIZE w = (n, z)" by fastforce
  note run = less.prems [unfolded pread_loop.simps [of H L m h5fd c off out acc w], unfolded Let_def rd prod.case]
  consider "w' = w" | "length acc < c" "0 < n" using run by (force split: if_splits)
  then show ?case
  proof cases
    case 1
    then show ?thesis by (simp add: fds_grow_refl)
  next
    case 2
    with run obtain ret o1 s1 where d: "decompress_data L m out (take (nat n) z) (fst w) = Some ((ret, o1), s1)"
      by (auto split: option.splits)
    then have g: "fds_grow (fst w) s1" by (intro fds_grow_quiet decompress_keeps)
    consider "w' = (s1, snd w)"
      | k out' acc' where "length acc < length acc'"
          "pread_loop H L m h5fd c (off + k) out' acc' (s1, snd w) = Some (r, w')"
      using run 2 d by (force split: if_splits option.splits list.splits)
    then show ?thesis
    proof cases
      case 1
      with g show ?thesis by simp
    next
      case (2 k out' acc')
      with \<open>length acc < c\<close> have "c - length acc' < c - length acc" by simp
      from less.hyps [OF this 2(2)] g show ?thesis by (auto intro: fds_grow_trans)
    qed
  qed
qed

lemma h5fd_pread_keeps:
  assumes "h5fd_pread H L h5fd c off w = Some (r, w')"
  shows "fds_grow (fst w) (fst w') \<and> snd w' = snd w"
proof (cases "h5fd \<le> 0")
  case True
  with assms show ?thesis by (simp add: h5fd_pread_def fds_grow_refl)
next
  case False
  obtain m w1 where m: "getAlgorithm H h5fd w = (m, w1)" by (metis surj_pair)
  note g = getAlgorithm_keeps [OF m]
  from assms False m consider "w' = w1" | "pread_loop H L m h5fd c off uninit_out [] w1 = Some (r, w')"
    by (auto simp: h5fd_pread_def split: if_splits)
  then show ?thesis
  proof cases
    case 2
    from pread_loop_keeps [OF this] g show ?thesis by (auto intro: fds_grow_trans)
  qed (use g in simp)
qed

lemma kept_pread [kept_intros]: "kept w (dzfile_pread M fd c off w)"
proof (cases "find_dzfd (shm M) fd (w_fdm w) = 0")
  case True
  then show ?thesis by (simp add: dzfile_pread_def grows)
next
  case False
  have "keeps w v" if "dzfile_pread M fd c off w = Some (r, v)" for r v
  proof -
    from that False obtain d :: dzfd and st where
      "h5fd_pread (h5 M) (codec M) (d_h5fd d) c off (w_os w, w_h5 w) = Some (r, st)"
      "v = w\<lparr>w_os := fst st, w_h5 := snd st\<rparr>"
      by (auto simp: dzfile_pread_def Let_def bind_eq_Some_conv)
    with h5fd_pread_keeps [OF this(1)] show ?thesis by (simp add: keeps_def)
  qed
  then show ?thesis by (auto simp: kept_def split: option.split)
qed

lemma kept_preadv_loop: "kept w (preadv_loop M fd iov off k acc w)"
proof (induction iov arbitrary: off k acc w)
  case (Cons c iov)
  show ?case
  proof (cases "dzfile_pread M fd c off w")
    case (Some r)
    then obtain n bs v where r: "dzfile_pread M fd c off w = Some ((n, bs), v)" by (metis surj_pair)
    with kept_pread [of w M fd c off] have "keeps w v" by simp
    with r Cons show ?thesis by (auto intro: kept_trans)
  qed simp
qed simp

lemma kept_preadv [kept_intros]: "kept w (dzfile_preadv M fd iov off w)"
  by (simp add: dzfile_preadv_def kept_preadv_loop)

section \<open>The table\<close>

text \<open>
  A well-formed table: the map is set up, a descriptor in it leads to a block that is allocated
  and carries that descriptor, and every allocated block is in the map, with its descriptor open
  in the system and its HDF5 file open, which it shares with no other block.
\<close>

definition block_ok :: "('h, 'm, 'd, 'q) libs \<Rightarrow> 'h h5files \<Rightarrow> ('h, 'm, 'd, 'q) world \<Rightarrow> nat \<Rightarrow> dzfd \<Rightarrow> bool" where
  "block_ok M hf w p d \<longleftrightarrow> 0 < p \<and> p < w_next w \<and> find_dzfd (shm M) (d_fd d) (w_fdm w) = p \<and>
     fd_get (w_os w) (d_fd d) \<noteq> None \<and> hf (w_h5 w) (d_h5fd d) \<noteq> None"

definition table_ok :: "('h, 'm, 'd, 'q) libs \<Rightarrow> 'h h5files \<Rightarrow> ('h, 'm, 'd, 'q) world \<Rightarrow> bool" where
  "table_ok M hf w \<longleftrightarrow> fdm_invar (shm M, w_fdm w) \<and> 0 < w_next w \<and>
     (\<forall>p d. w_heap w p = Some d \<longrightarrow> block_ok M hf w p d) \<and>
     (\<forall>p q d e. w_heap w p = Some d \<longrightarrow> w_heap w q = Some e \<longrightarrow> d_h5fd d = d_h5fd e \<longrightarrow> p = q) \<and>
     (\<forall>fd. find_dzfd (shm M) fd (w_fdm w) \<noteq> 0 \<longrightarrow>
        (\<exists>d. w_heap w (find_dzfd (shm M) fd (w_fdm w)) = Some d \<and> d_fd d = fd))"

lemma table_okD:
  assumes "table_ok M hf w"
  shows "fdm_invar (shm M, w_fdm w)" "0 < w_next w"
    and "w_heap w p = Some d \<Longrightarrow> block_ok M hf w p d"
    and "w_heap w p = Some d \<Longrightarrow> w_heap w q = Some e \<Longrightarrow> d_h5fd d = d_h5fd e \<Longrightarrow> p = q"
    and "find_dzfd (shm M) fd (w_fdm w) = q \<Longrightarrow> q \<noteq> 0 \<Longrightarrow> \<exists>d. w_heap w q = Some d \<and> d_fd d = fd"
  using assms unfolding table_ok_def by blast+

lemma table_okI:
  assumes "fdm_invar (shm M, w_fdm w)" "0 < w_next w"
    and "\<And>p d. w_heap w p = Some d \<Longrightarrow> block_ok M hf w p d"
    and "\<And>p q d e. w_heap w p = Some d \<Longrightarrow> w_heap w q = Some e \<Longrightarrow> d_h5fd d = d_h5fd e \<Longrightarrow> p = q"
    and "\<And>fd. find_dzfd (shm M) fd (w_fdm w) \<noteq> 0 \<Longrightarrow>
      \<exists>d. w_heap w (find_dzfd (shm M) fd (w_fdm w)) = Some d \<and> d_fd d = fd"
  shows "table_ok M hf w"
  using assms unfolding table_ok_def by blast

lemma table_ok_keeps:
  assumes "table_ok M hf w" "keeps w w'"
  shows "table_ok M hf w'"
  using assms by (auto simp: table_ok_def keeps_def block_ok_def fds_grow_def)

lemma table_ok_kept: "table_ok M hf w \<Longrightarrow> kept w r \<Longrightarrow> r = Some (x, w') \<Longrightarrow> table_ok M hf w'"
  by (auto intro: table_ok_keeps)

text \<open>Opening more descriptors and HDF5 files does no harm.\<close>

lemma table_ok_more:
  assumes "table_ok M hf w" "w_fdm w' = w_fdm w" "w_heap w' = w_heap w" "w_next w' = w_next w"
    and "fds_grow (w_os w) (w_os w')" "\<And>k. hf (w_h5 w) k \<noteq> None \<Longrightarrow> hf (w_h5 w') k \<noteq> None"
  shows "table_ok M hf w'"
  using assms by (auto simp: table_ok_def block_ok_def fds_grow_def)

definition opens_fresh :: "os \<Rightarrow> int \<times> os \<Rightarrow> bool" where
  \<comment> \<open>failure, or a descriptor that was not open\<close>
  "opens_fresh s r \<longleftrightarrow> fst r = -1 \<or> fd_get s (fst r) = None \<and> fd_get (snd r) (fst r) \<noteq> None"

lemma opens_fresh_alloc:
  assumes "fds t = fds s"
  shows "opens_fresh s (alloc_fd i fl t)"
  using first_free_le [of "fds s"] assms
  by (auto simp: opens_fresh_def alloc_fd_def Let_def fd_get_def nth_append first_free_None)

lemma opens_fresh_fail: "opens_fresh s (fail_with e (-1) t)"
  by (simp add: opens_fresh_def fail_with_def)

lemma sys_open_fresh: "opens_fresh s (sys_open p fl m s)"
  unfolding sys_open_def
proof (rule attempt_induct)
  fix t
  assume "t = s\<lparr>env := env t\<rparr>"
  then have "fds t = fds s" by (metis os.select_convs(4) os.surjective os.update_convs(6))
  then show "opens_fresh s (case node_at t (comps p) of
       None \<Rightarrow> if and fl O_CREAT = 0 \<or> \<not> dir_at t (butlast (comps p))
               then fail_with (missing_errno t (comps p)) (-1) t
               else alloc_fd (nextino t) fl (new_file (comps p) False m t)
     | Some (i, n) \<Rightarrow> if i_dir n \<and> (and fl O_ACCMODE \<noteq> O_RDONLY \<or> and fl O_CREAT \<noteq> 0)
         then fail_with EISDIR (-1) t
         else alloc_fd i fl (if and fl O_TRUNC \<noteq> 0 \<and> \<not> i_dir n then set_data i n [] t else t))"
    by (auto simp: new_file_def set_data_def opens_fresh_fail intro: opens_fresh_alloc split: option.split)
qed (simp add: opens_fresh_def)

text \<open>A new block: its descriptor is not in the map, its HDF5 file is not that of another block.\<close>

lemma table_ok_enter:
  assumes T: "table_ok M hf w"
    and fd: "find_dzfd (shm M) fd (w_fdm w) = 0" "fd_get (w_os w) fd \<noteq> None"
    and h: "hf (w_h5 w) h \<noteq> None" "\<And>p d. w_heap w p = Some d \<Longrightarrow> d_h5fd d \<noteq> h"
    and add: "add_dzfd (shm M) fd (w_next w) (w_fdm w) = Some (rc, m)"
  shows "table_ok M hf (w\<lparr>w_heap := (w_heap w)(w_next w \<mapsto> \<lparr>d_fd = fd, d_h5fd = h, d_filename = None\<rparr>),
    w_next := Suc (w_next w), w_fdm := m\<rparr>)"
proof -
  note inv = table_okD(1,2) [OF T]
  have "fd \<noteq> -1" using fd(2) by (auto simp: fd_get_def)
  with fdt.add_ok [OF inv(1), of fd "w_next w"] inv(2) add
  have m: "fdm_invar (shm M, m)"
    "\<And>fd'. find_dzfd (shm M) fd' m = (if fd' = fd then w_next w else find_dzfd (shm M) fd' (w_fdm w))"
    by (auto simp: fdm_add_def fdm_find_def)
  have below: "p \<noteq> w_next w \<and> d_fd d \<noteq> fd" if "w_heap w p = Some d" for p d
    using table_okD(3) [OF T that] fd(1) by (auto simp: block_ok_def)
  let ?w = "w\<lparr>w_heap := (w_heap w)(w_next w \<mapsto> \<lparr>d_fd = fd, d_h5fd = h, d_filename = None\<rparr>),
    w_next := Suc (w_next w), w_fdm := m\<rparr>"
  have blocks: "block_ok M hf ?w p d" if "w_heap ?w p = Some d" for p d
    using that below table_okD(3) [OF T, of p d] m(2) inv(2) fd(2) h(1)
    by (auto simp: block_ok_def split: if_splits)
  have distinct: "p = q" if "w_heap ?w p = Some d" "w_heap ?w q = Some e" "d_h5fd d = d_h5fd e" for p q d e
  proof -
    have old: "w_heap w k = Some x" if "w_heap ?w k = Some x" "k \<noteq> w_next w" for k x
      using that by simp
    have new: "d_h5fd x = h" if "w_heap ?w (w_next w) = Some x" for x using that by auto
    show ?thesis
    proof (cases "p = w_next w")
      case True
      then have "d_h5fd e = h" using new [of d] that by simp
      then show ?thesis using True h(2) [OF old [OF that(2)]] by auto
    next
      case False
      note p = old [OF that(1) False]
      then have "d_h5fd e \<noteq> h" using h(2) [OF p] that(3) by simp
      then have "q \<noteq> w_next w" using new [of e] that(2) by auto
      from table_okD(4) [OF T p old [OF that(2) this] that(3)] show ?thesis .
    qed
  qed
  have live: "\<exists>d. w_heap ?w (find_dzfd (shm M) k m) = Some d \<and> d_fd d = k"
    if "find_dzfd (shm M) k m \<noteq> 0" for k
  proof (cases "k = fd")
    case False
    with that m(2) [of k] table_okD(5) [OF T refl, of k] obtain d where
      d: "w_heap w (find_dzfd (shm M) k m) = Some d" "d_fd d = k" by auto
    from below [OF d(1)] d show ?thesis by simp
  qed (simp add: m(2))
  show ?thesis
  proof (rule table_okI)
    show "fdm_invar (shm M, w_fdm ?w)" using m(1) by simp
    show "0 < w_next ?w" by simp
    show "\<exists>d. w_heap ?w (find_dzfd (shm M) k (w_fdm ?w)) = Some d \<and> d_fd d = k"
      if "find_dzfd (shm M) k (w_fdm ?w) \<noteq> 0" for k
      using live [of k] that by simp
  qed (fact blocks, fact distinct)
qed

text \<open>Removing a block and closing its files.\<close>

lemma table_ok_leave:
  assumes T: "table_ok M hf w" and d: "w_heap w p = Some d"
    and rem: "remove_dzfd (shm M) (d_fd d) (w_fdm w) = Some (rc, m)"
    and w': "w_fdm w' = m" "w_heap w' = (w_heap w)(p := None)" "w_next w' = w_next w"
      "\<And>x. x \<noteq> d_h5fd d \<Longrightarrow> hf (w_h5 w') x = hf (w_h5 w) x"
      "\<And>fd. fd \<noteq> d_fd d \<Longrightarrow> fd_get (w_os w) fd \<noteq> None \<Longrightarrow> fd_get (w_os w') fd \<noteq> None"
  shows "table_ok M hf w'"
proof -
  have ok: "block_ok M hf w p d" using T d by (rule table_okD)
  then have "d_fd d \<noteq> -1" by (auto simp: block_ok_def fd_get_def)
  with fdt.remove_ok [OF table_okD(1) [OF T], of "d_fd d"] rem
  have m: "fdm_invar (shm M, m)"
    "\<And>fd'. find_dzfd (shm M) fd' m = (if fd' = d_fd d then 0 else find_dzfd (shm M) fd' (w_fdm w))"
    by (auto simp: fdm_remove_def fdm_find_def)
  have "block_ok M hf w' q e" if e: "w_heap w' q = Some e" for q e
  proof -
    have e': "w_heap w q = Some e" "q \<noteq> p" using e w'(2) by (auto split: if_splits)
    note b = table_okD(3) [OF T e'(1)]
    from b ok e'(2) have "d_fd e \<noteq> d_fd d" by (auto simp: block_ok_def)
    moreover from table_okD(4) [OF T e'(1) d] e'(2) have "d_h5fd e \<noteq> d_h5fd d" by blast
    ultimately show ?thesis using b m(2) w' by (simp add: block_ok_def)
  qed
  moreover have "a = b" if "w_heap w' a = Some x" "w_heap w' b = Some y" "d_h5fd x = d_h5fd y" for a b x y
    using that w'(2) table_okD(4) [OF T, of a x b y] by (auto split: if_splits)
  moreover have "\<exists>e. w_heap w' (find_dzfd (shm M) k m) = Some e \<and> d_fd e = k"
    if "find_dzfd (shm M) k m \<noteq> 0" for k
  proof -
    from that m(2) have k: "k \<noteq> d_fd d" "find_dzfd (shm M) k m = find_dzfd (shm M) k (w_fdm w)"
      by (auto split: if_splits)
    with table_okD(5) [OF T refl, of k] that obtain e where
      e: "w_heap w (find_dzfd (shm M) k (w_fdm w)) = Some e" "d_fd e = k" by auto
    with k(1) d have "find_dzfd (shm M) k (w_fdm w) \<noteq> p" by auto
    with e k(2) w'(2) show ?thesis by auto
  qed
  ultimately show ?thesis
    using m(1) w'(1,3) table_okD(2) [OF T] by (simp add: table_ok_def)
qed

section \<open>Opening and closing\<close>

lemma hdf5_open_table:
  assumes H: "hdf5_contract (h5 M) hf hdat" and T: "table_ok M hf w"
    and o: "on_st (hdf5_open (h5 M) (Some p) H5_READ) w = (h5fd, w')"
  shows "table_ok M hf w'"
    and "0 < h5fd \<Longrightarrow> hf (w_h5 w') h5fd \<noteq> None"
    and "0 < h5fd \<Longrightarrow> w_heap w' q = Some d \<Longrightarrow> d_h5fd d \<noteq> h5fd"
proof -
  obtain k s2 h2 where k: "H5Fopen (h5 M) p (w_os w) (w_h5 w) = (k, s2, h2)" by (metis prod_cases3)
  have "h5_open_law (h5 M) hf hdat" using H by (simp add: hdf5_contract_def)
  with k have law: "quiet (w_os w) s2" "0 < k \<Longrightarrow> hf (w_h5 w) k = None \<and> (\<exists>i. hf h2 = (hf (w_h5 w))(k \<mapsto> i))"
    "\<not> 0 < k \<Longrightarrow> hf h2 = hf (w_h5 w)"
    unfolding h5_open_law_def by (metis (no_types, lifting))+
  have w': "w' = w\<lparr>w_os := s2, w_h5 := h2\<rparr>" "0 < h5fd \<Longrightarrow> h5fd = k"
    using o k by (auto simp: on_st_def hdf5_open_def split: if_splits)
  have "hf h2 j \<noteq> None" if "hf (w_h5 w) j \<noteq> None" for j
    using law(2,3) that by (cases "0 < k") auto
  then show "table_ok M hf w'"
    using T w' law(1) by (intro table_ok_more [OF T]) (simp_all add: fds_grow_quiet)
  show "0 < h5fd \<Longrightarrow> hf (w_h5 w') h5fd \<noteq> None"
    using law(2) w' by auto
  show "d_h5fd d \<noteq> h5fd" if "0 < h5fd" "w_heap w' q = Some d"
    using table_okD(3) [OF T, of q d] that w' law(2) by (auto simp: block_ok_def)
qed

lemma open_hidden_table:
  assumes H: "hdf5_contract (h5 M) hf hdat" and T: "table_ok M hf w"
    and run: "open_hidden M f flags mode w = Some (r, w')"
  shows "table_ok M hf w'"
proof -
  have err: ?thesis if "w' = v" "keeps u v" "table_ok M hf u" for u v
    using that by (auto intro: table_ok_keeps)
  consider "w' = set_errno EACCES w"
    | s1 where "buildHiddenFile f (w_os w) = Some (None, s1)" "w' = w\<lparr>w_os := s1\<rparr>"
    | hn s1 where "and flags O_ACCMODE = O_RDONLY" "buildHiddenFile f (w_os w) = Some (Some hn, s1)"
    using run by (auto simp: open_hidden_def split: if_splits option.splits)
  then show ?thesis
  proof cases
    case 1
    then show ?thesis using T by (intro err [of "set_errno EACCES w" w]) (simp_all only: keeps_wrap keeps_refl)
  next
    case 2
    with T show ?thesis by (intro err [of _ w]) (auto intro: keeps_os dest: fds_grow_build)
  next
    case (3 hn s1)
    have T1: "table_ok M hf (w\<lparr>w_os := s1\<rparr>)"
      using T 3(2) by (auto intro: table_ok_keeps keeps_os dest: fds_grow_build)
    obtain h5fd w2 where o: "on_st (hdf5_open (h5 M) (Some hn) H5_READ) (w\<lparr>w_os := s1\<rparr>) = (h5fd, w2)"
      by (metis surj_pair)
    note T2 = hdf5_open_table [OF H T1 o]
    obtain ok w3 where m: "on_os sys_malloc w2 = (ok, w3)" by (metis surj_pair)
    obtain fd w4 where so: "on_os (sys_open f flags mode) w3 = (fd, w4)" by (metis surj_pair)
    have k3: "keeps w2 w3" using keeps_call [of sys_malloc w2 w2] m by (simp add: grows)
    have k4: "keeps w3 w4" using keeps_call [of "sys_open f flags mode" w3 w3] so by (simp add: grows)
    have fresh: "fd = -1 \<or> fd_get (w_os w3) fd = None \<and> fd_get (w_os w4) fd \<noteq> None"
      using sys_open_fresh [of "w_os w3" f flags mode] so
      by (auto simp: on_os_def opens_fresh_def split: prod.splits)
    consider "w' = w2" | "w' = w3"
      | rc mm where "0 < h5fd" "add_dzfd (shm M) fd (w_next w4) (w_fdm w4) = Some (rc, mm)"
        "w' = w4\<lparr>w_heap := (w_heap w4)(w_next w4 \<mapsto> \<lparr>d_fd = fd, d_h5fd = h5fd, d_filename = None\<rparr>),
               w_next := Suc (w_next w4), w_fdm := mm\<rparr>"
      using run 3 o m so
      by (auto simp: open_hidden_def Let_def split: if_splits bool.splits option.splits)
    then show ?thesis
    proof cases
      case 1
      then show ?thesis using T2(1) by simp
    next
      case 2
      then show ?thesis using T2(1) k3 by (auto intro: table_ok_keeps)
    next
      case (3 rc mm)
      have T3: "table_ok M hf w3" using T2(1) k3 by (rule table_ok_keeps)
      then have T4: "table_ok M hf w4" using k4 by (rule table_ok_keeps)
      have "fd \<noteq> -1"
        using fdt.add_bad [OF table_okD(1) [OF T4], of "w_next w4"] table_okD(2) [OF T4] 3(2)
        by (auto simp: fdm_add_def)
      with fresh have f: "fd_get (w_os w3) fd = None" "fd_get (w_os w4) fd \<noteq> None" by auto
      have "find_dzfd (shm M) fd (w_fdm w3) = 0"
      proof (rule ccontr)
        assume "find_dzfd (shm M) fd (w_fdm w3) \<noteq> 0"
        from table_okD(5) [OF T3 refl this] obtain d where
          d: "w_heap w3 (find_dzfd (shm M) fd (w_fdm w3)) = Some d" "d_fd d = fd" by blast
        from table_okD(3) [OF T3 d(1)] d(2) f(1) show False by (simp add: block_ok_def)
      qed
      then have "find_dzfd (shm M) fd (w_fdm w4) = 0" using k4 by (simp add: keeps_def)
      moreover have "hf (w_h5 w4) h5fd \<noteq> None" "\<And>p d. w_heap w4 p = Some d \<Longrightarrow> d_h5fd d \<noteq> h5fd"
        using T2(2,3) [OF 3(1)] k3 k4 by (simp_all add: keeps_def)
      ultimately show ?thesis
        unfolding 3(3) using T4 f(2) 3(2) by (intro table_ok_enter)
    qed
  qed
qed

lemma sys_close_keeps_open:
  assumes "fd' \<noteq> fd" "fd_get s fd' \<noteq> None"
  shows "fd_get (snd (sys_close fd s)) fd' \<noteq> None"
  using assms sys_close_others [of fd s "fst (sys_close fd s)" "snd (sys_close fd s)" fd'] by simp

lemma close_plain_table:
  assumes T: "table_ok M hf w" and z: "find_dzfd (shm M) fd (w_fdm w) = 0"
  shows "table_ok M hf (snd (on_os (sys_close fd) w))"
proof (rule table_okI)
  let ?w = "snd (on_os (sys_close fd) w)"
  show "block_ok M hf ?w p d" if "w_heap ?w p = Some d" for p d
  proof -
    have b: "block_ok M hf w p d" using table_okD(3) [OF T] that by simp
    with z have "d_fd d \<noteq> fd" by (auto simp: block_ok_def)
    with b sys_close_keeps_open show ?thesis by (simp add: block_ok_def)
  qed
qed (use table_okD [OF T] in simp_all)

lemma dzfile_close_block:
  assumes H: "hdf5_contract (h5 M) hf hdat" and T: "table_ok M hf w"
    and p: "find_dzfd (shm M) fd (w_fdm w) = p" "p \<noteq> 0"
  obtains r w' where "dzfile_close M fd w = Some (r, w')" "table_ok M hf w'"
    "find_dzfd (shm M) fd (w_fdm w') = 0" "w_heap w' p = None"
proof -
  from table_okD(5) [OF T p] obtain d where d: "w_heap w p = Some d" "d_fd d = fd" by blast
  have b: "block_ok M hf w p d" using T d(1) by (rule table_okD)
  then obtain i where i: "hf (w_h5 w) (d_h5fd d) = Some i" by (auto simp: block_ok_def)
  obtain k s2 h2 where c: "H5Fclose (h5 M) (d_h5fd d) (w_os w) (w_h5 w) = (k, s2, h2)" by (metis prod_cases3)
  have "h5_close_law (h5 M) hf hdat" using H by (simp add: hdf5_contract_def)
  note cl = h5_close_lawD [OF this c]
  have law: "touches i (w_os w) s2" "\<And>x. x \<noteq> d_h5fd d \<Longrightarrow> hf h2 x = hf (w_h5 w) x" using cl(1,2) i by simp_all
  have "fd \<noteq> -1" using b d(2) by (auto simp: block_ok_def fd_get_def)
  with fdt.remove_ok [OF table_okD(1) [OF T], of fd] obtain m where
    m: "remove_dzfd (shm M) fd (w_fdm w) = Some (0, m)" "find_dzfd (shm M) fd m = 0"
    by (auto simp: fdm_remove_def fdm_find_def)
  obtain r s3 where s3: "sys_close fd s2 = (r, s3)" by fastforce
  let ?w = "w\<lparr>w_os := s3, w_h5 := h2, w_fdm := m, w_heap := (w_heap w)(p := None)\<rparr>"
  have run: "dzfile_close M fd w = Some (r, ?w)"
    using p d c m(1) s3 by (simp add: dzfile_close_def on_st_def hdf5_close_def on_os_def)
  have tab: "table_ok M hf ?w"
  proof (rule table_ok_leave [OF T d(1)])
    show "fd_get (w_os ?w) x \<noteq> None" if "x \<noteq> d_fd d" "fd_get (w_os w) x \<noteq> None" for x
      using sys_close_keeps_open [of x fd s2] that d(2) s3 touches_fd_get [OF law(1)] by simp
  qed (use d m(1) law(2) in simp_all)
  show ?thesis by (rule that [OF run tab]) (simp_all add: m(2))
qed

lemma dzfile_close_table:
  assumes "hdf5_contract (h5 M) hf hdat" "table_ok M hf w"
  shows "\<exists>r w'. dzfile_close M fd w = Some (r, w') \<and> table_ok M hf w'"
proof (cases "find_dzfd (shm M) fd (w_fdm w) = 0")
  case True
  then show ?thesis using close_plain_table [OF assms(2) True]
    by (cases "on_os (sys_close fd) w") (simp add: dzfile_close_def)
next
  case False
  with dzfile_close_block [OF assms refl] show ?thesis by blast
qed

text \<open>What keeps the table, in the steps of \<open>dzfile_open\<close>.\<close>

definition tabled ::
    "('h, 'm, 'd, 'q) libs \<Rightarrow> 'h h5files \<Rightarrow> ('h, 'm, 'd, 'q) world \<Rightarrow> ('a \<times> ('h, 'm, 'd, 'q) world) option \<Rightarrow> bool"
where
  "tabled M hf w r \<longleftrightarrow>
     (table_ok M hf w \<longrightarrow> (case r of None \<Rightarrow> True | Some (x, w') \<Rightarrow> table_ok M hf w'))"

lemma tabledD: "tabled M hf w r \<Longrightarrow> table_ok M hf w \<Longrightarrow> r = Some (x, w') \<Longrightarrow> table_ok M hf w'"
  by (simp add: tabled_def)

lemma tabled_kept: "kept w r \<Longrightarrow> tabled M hf w r"
  by (auto simp: tabled_def kept_def intro: table_ok_keeps split: option.splits)

lemma tabled_step: "fds_grow (w_os w) s \<Longrightarrow> tabled M hf (w\<lparr>w_os := s\<rparr>) r \<Longrightarrow> tabled M hf w r"
  by (auto simp: tabled_def intro: table_ok_keeps keeps_os)

lemma tabled_if:
  "(P \<Longrightarrow> tabled M hf w a) \<Longrightarrow> (\<not> P \<Longrightarrow> tabled M hf w b) \<Longrightarrow> tabled M hf w (if P then a else b)"
  by simp

lemma tabled_open_hidden: "hdf5_contract (h5 M) hf hdat \<Longrightarrow> tabled M hf w (open_hidden M f flags mode w)"
  by (auto simp: tabled_def split: option.split dest: open_hidden_table)

lemma tabled_sysdir:
  assumes "\<And>r s. tabled M hf (w\<lparr>w_os := s\<rparr>) (g r s)"
  shows "tabled M hf w (case match_sysdir p (w_os w) of (r, s) \<Rightarrow> g r s)"
  using assms by (auto split: prod.split intro: tabled_step dest: fds_grow_sysdir)

lemma tabled_pure: "(\<And>x. m = Some x \<Longrightarrow> tabled M hf w (f x)) \<Longrightarrow> tabled M hf w (m \<bind> f)"
  by (cases m) (simp_all add: tabled_def)

lemma tabled_find:
  assumes "w_os w = s0" "\<And>r s. tabled M hf (w\<lparr>w_os := s\<rparr>) (g (r, s))"
  shows "tabled M hf w (findhiddenFile f s0 \<bind> g)"
proof (cases "findhiddenFile f s0")
  case (Some x)
  with assms show ?thesis by (cases x) (auto intro: tabled_step dest: fds_grow_find)
qed (simp add: tabled_def)

lemma tabled_let: "tabled M hf w (f a) \<Longrightarrow> tabled M hf w (let x = a in f x)"
  by simp

lemma kept_maybe_insert: "kept w (if P then fmt_entry_insert M f w else Some (0, w))"
  by (simp add: kept_fmt_entry_insert)

lemma tabled_open:
  assumes H: "hdf5_contract (h5 M) hf hdat"
  shows "tabled M hf w (dzfile_open M p flags mode w)"
proof (cases p)
  case None
  show ?thesis unfolding None dzfile_open_def by (rule tabled_kept) simp
next
  case (Some f)
  have rest: "tabled M hf v (case on_os (sys_stat f) v of
      (st, w3) \<Rightarrow> do {
        (rc, w4) \<leftarrow> (if st = None \<and> errno (w_os w3) = ENOENT then fmt_entry_insert M f w3 else Some (0, w3));
        let w5 = snd (dz_notifymq M f w4);
        Some (on_os (sys_open f flags mode) w5) })" for v
    by (rule tabled_kept) (rule kept_notify kept_on_os kept_bind [OF kept_maybe_insert] | simp add: grows)+
  show ?thesis
    unfolding Some dzfile_open_def option.case
    by (rule tabled_sysdir tabled_if tabled_pure tabled_let tabled_open_hidden [OF H] rest tabled_find
        | rule tabled_kept, simp; fail | simp)+
qed

section \<open>Sessions\<close>

text \<open>
  A call with its arguments, and what it returns. \<open>dzfile_readdir\<close> works on the stream of
  \<open>dzfile_opendir\<close> alone and has no part in the state.
\<close>

datatype call =
    Creat string "32 word" | Open "string option" "32 word" "32 word" | Close int
  | Write int bytes | Pwrite int bytes int | Writev int "bytes list" | Pwritev int "bytes list" int
  | Read int nat | Pread int nat int | Readv int "nat list" | Preadv int "nat list" int
  | Fstat int | Stat string | Lstat string | Lseek int int nat
  | Truncate string int | Ftruncate int int | Fsync int | Fdatasync int | Fallocate int int int int
  | Statvfs string | Fstatvfs int | Statfs string | Fstatfs int | Lk int int flock "flock list"
  | Unlink string | Mkdir string "32 word" | Opendir string | Dstat string dzfile_dinfo

datatype reply =
    RInt int | RData "int \<times> bytes" | RVec "int \<times> bytes list" | RStat "stat option"
  | RFs "fsinfo option" | RDir "string list option" | RInfo "int \<times> dzfile_dinfo" | RLk "int \<times> flock"

definition replies :: "('a \<Rightarrow> reply) \<Rightarrow> ('a \<times> 'w) option \<Rightarrow> (reply \<times> 'w) option" where
  "replies f r = map_option (map_prod f id) r"

fun do_call ::
    "('h, 'm, 'd, 'q) libs \<Rightarrow> call \<Rightarrow> ('h, 'm, 'd, 'q) world \<Rightarrow> (reply \<times> ('h, 'm, 'd, 'q) world) option"
where
  "do_call M (Creat f m) w = replies RInt (dzfile_creat M f m w)"
| "do_call M (Open f fl m) w = replies RInt (dzfile_open M f fl m w)"
| "do_call M (Close fd) w = replies RInt (dzfile_close M fd w)"
| "do_call M (Write fd b) w = replies RInt (dzfile_write M fd b w)"
| "do_call M (Pwrite fd b off) w = replies RInt (dzfile_pwrite M fd b off w)"
| "do_call M (Writev fd iov) w = replies RInt (dzfile_writev M fd iov w)"
| "do_call M (Pwritev fd iov off) w = replies RInt (dzfile_pwritev M fd iov off w)"
| "do_call M (Read fd c) w = replies RData (Some (dzfile_read M fd c w))"
| "do_call M (Pread fd c off) w = replies RData (dzfile_pread M fd c off w)"
| "do_call M (Readv fd iov) w = replies RVec (Some (dzfile_readv M fd iov w))"
| "do_call M (Preadv fd iov off) w = replies RVec (dzfile_preadv M fd iov off w)"
| "do_call M (Fstat fd) w = replies RStat (Some (dzfile_fstat fd w))"
| "do_call M (Stat f) w = replies RStat (Some (dzfile_stat f w))"
| "do_call M (Lstat f) w = replies RStat (Some (dzfile_lstat f w))"
| "do_call M (Lseek fd off wh) w = replies RInt (Some (dzfile_lseek fd off wh w))"
| "do_call M (Truncate f k) w = replies RInt (dzfile_truncate f k w)"
| "do_call M (Ftruncate fd k) w = replies RInt (Some (dzfile_ftruncate fd k w))"
| "do_call M (Fsync fd) w = replies RInt (Some (dzfile_fsync fd w))"
| "do_call M (Fdatasync fd) w = replies RInt (Some (dzfile_fdatasync fd w))"
| "do_call M (Fallocate fd m off k) w = replies RInt (Some (dzfile_fallocate fd m off k w))"
| "do_call M (Statvfs f) w = replies RFs (Some (dzfile_statvfs f w))"
| "do_call M (Fstatvfs fd) w = replies RFs (Some (dzfile_fstatvfs fd w))"
| "do_call M (Statfs f) w = replies RFs (Some (dzfile_statfs f w))"
| "do_call M (Fstatfs fd) w = replies RFs (Some (dzfile_fstatfs fd w))"
| "do_call M (Lk fd c l oth) w = replies RLk (Some (on_os (dzfile_lk fd c l oth) w))"
| "do_call M (Unlink f) w = replies RInt (dzfile_unlink M f w)"
| "do_call M (Mkdir f m) w = replies RInt (Some (dzfile_mkdir f m w))"
| "do_call M (Opendir f) w = replies RDir (dzfile_opendir f w)"
| "do_call M (Dstat f d) w = replies RInfo (dzfile_dstat M f d w)"

fun session ::
    "('h, 'm, 'd, 'q) libs \<Rightarrow> call list \<Rightarrow> ('h, 'm, 'd, 'q) world
      \<Rightarrow> (reply list \<times> ('h, 'm, 'd, 'q) world) option"
where
  "session M [] w = Some ([], w)"
| "session M (c # cs) w = do {
     (r, w1) \<leftarrow> do_call M c w;
     (rs, w2) \<leftarrow> session M cs w1;
     Some (r # rs, w2) }"

lemma tabled_replies: "tabled M hf w r \<Longrightarrow> tabled M hf w (replies f r)"
  by (cases r) (auto simp: tabled_def replies_def)

lemma kept_calls [kept_intros]:
  "kept w (Some (dzfile_read M fd c w))" "kept w (Some (dzfile_readv M fd iov w))"
  "kept w (Some (dzfile_fstat fd w))" "kept w (Some (dzfile_stat f w))" "kept w (Some (dzfile_lstat f w))"
  "kept w (Some (dzfile_lseek fd off wh w))" "kept w (Some (dzfile_ftruncate fd k w))"
  "kept w (Some (dzfile_fsync fd w))" "kept w (Some (dzfile_fdatasync fd w))"
  "kept w (Some (dzfile_fallocate fd m off k w))"
  "kept w (Some (dzfile_statvfs f w))" "kept w (Some (dzfile_fstatvfs fd w))"
  "kept w (Some (dzfile_statfs f w))" "kept w (Some (dzfile_fstatfs fd w))"
  "kept w (Some (on_os (dzfile_lk fd cmd l oth) w))" "kept w (Some (dzfile_mkdir f perm w))"
  by (simp_all add: dzfile_read_def keeps_readv dzfile_fstat_def dzfile_stat_def dzfile_lstat_def
      dzfile_lseek_def dzfile_ftruncate_def dzfile_fsync_def dzfile_fdatasync_def dzfile_fallocate_def
      dzfile_statvfs_def dzfile_fstatvfs_def dzfile_statfs_def dzfile_fstatfs_def kept_mkdir grows)

lemma tabled_close: "hdf5_contract (h5 M) hf hdat \<Longrightarrow> tabled M hf w (dzfile_close M fd w)"
  using dzfile_close_table [of M hf hdat w fd] by (auto simp: tabled_def)

lemma do_call_table:
  assumes "hdf5_contract (h5 M) hf hdat" "table_ok M hf w" "do_call M c w = Some (r, w')"
  shows "table_ok M hf w'"
proof -
  have "tabled M hf w (do_call M c w)"
    by (cases c; simp only: do_call.simps; rule tabled_replies;
        rule tabled_open [OF assms(1)] tabled_close [OF assms(1)] tabled_kept; (rule kept_intros)?)
  then show ?thesis using assms(2,3) by (rule tabledD)
qed

lemma session_table:
  assumes "hdf5_contract (h5 M) hf hdat" "table_ok M hf w" "session M cs w = Some (rs, w')"
  shows "table_ok M hf w'"
  using assms(2,3)
proof (induction cs arbitrary: w rs)
  case (Cons c cs)
  then obtain r w1 rs' where "do_call M c w = Some (r, w1)" "session M cs w1 = Some (rs', w')"
    by (auto simp: bind_eq_Some_conv)
  with Cons.IH do_call_table [OF assms(1) Cons.prems(1)] show ?case by blast
qed simp

definition fresh_table :: "('h, 'm, 'd, 'q) libs \<Rightarrow> ('h, 'm, 'd, 'q) world \<Rightarrow> bool" where
  \<comment> \<open>as \<open>dzfile_init\<close> leaves it: an empty map that \<open>hashmap_init\<close> has set up, and no blocks\<close>
  "fresh_table M w \<longleftrightarrow> fdm_invar (shm M, w_fdm w) \<and> (\<forall>fd. find_dzfd (shm M) fd (w_fdm w) = 0) \<and>
     w_heap w = Map.empty \<and> 0 < w_next w"

lemma fresh_table_ok: "fresh_table M w \<Longrightarrow> table_ok M hf w"
  by (simp add: fresh_table_def table_ok_def)

text \<open>C10. The well-formedness of the table of compressed files holds in every session: whatever
  calls a program makes after \<open>dzfile_init\<close>, with whatever arguments and failures, a
  descriptor is either not in the map or leads to a block that is allocated, is its own, and has
  its descriptor and its HDF5 file open; so no call uses a freed block or a closed HDF5 file. In
  particular \<open>dzfile_close\<close> is defined for every number, and takes it out of the map.\<close>

theorem client_sessions:
  assumes "hdf5_contract (h5 M) hf hdat" "fresh_table M w0" "session M calls w0 = Some (rs, w)"
  shows "(\<forall>fd. find_dzfd (shm M) fd (w_fdm w) = 0 \<or>
      (\<exists>d. w_heap w (find_dzfd (shm M) fd (w_fdm w)) = Some d \<and> d_fd d = fd \<and>
        fd_get (w_os w) fd \<noteq> None \<and> hf (w_h5 w) (d_h5fd d) \<noteq> None))
    \<and> (\<forall>fd. \<exists>r w'. dzfile_close M fd w = Some (r, w') \<and> find_dzfd (shm M) fd (w_fdm w') = 0)"
proof (intro conjI allI)
  have T: "table_ok M hf w"
    using assms(1) fresh_table_ok [OF assms(2)] assms(3) by (rule session_table)
  fix fd
  show "find_dzfd (shm M) fd (w_fdm w) = 0 \<or>
      (\<exists>d. w_heap w (find_dzfd (shm M) fd (w_fdm w)) = Some d \<and> d_fd d = fd \<and>
        fd_get (w_os w) fd \<noteq> None \<and> hf (w_h5 w) (d_h5fd d) \<noteq> None)"
    using table_okD(3,5) [OF T] unfolding block_ok_def by metis
  show "\<exists>r w'. dzfile_close M fd w = Some (r, w') \<and> find_dzfd (shm M) fd (w_fdm w') = 0"
  proof (cases "find_dzfd (shm M) fd (w_fdm w) = 0")
    case True
    then show ?thesis by (cases "on_os (sys_close fd) w") (auto simp: dzfile_close_def on_os_def split: prod.splits)
  next
    case False
    with dzfile_close_block [OF assms(1) T refl] show ?thesis by blast
  qed
qed

lemma client_sessions_witness:
  "session sim_libs [Open (Some ''/f'') O_RDONLY 0, Fsync 1] demo_conv = Some ([RInt 1, RInt 0], demo_open) \<and>
    find_dzfd sim_shm 1 (w_fdm demo_open) = 1 \<and>
    (\<exists>r w'. dzfile_close sim_libs 1 demo_open = Some (r, w') \<and> find_dzfd sim_shm 1 (w_fdm w') = 0)"
proof -
  have run: "session sim_libs [Open (Some ''/f'') O_RDONLY 0, Fsync 1] demo_conv =
      Some ([RInt 1, RInt 0], demo_open)"
    by (simp add: replies_def demo_conv_open dzfile_fsync_def on_os_def sys_fsync_def fd_get_def
        demo_open_def demo_after_def)
  have fresh: "fresh_table sim_libs demo_conv"
    using demo_conv_simps(2,4)
    by (simp add: fresh_table_def) (simp add: demo_conv_def demo_world_def find_dzfd_def sim_shm_def)
  have "hdf5_contract (h5 sim_libs) sim_files sim_data" by (simp add: sim_hdf5_contract)
  from client_sessions [OF this fresh run] run show ?thesis
    by (simp add: find_dzfd_def sim_shm_def demo_open_def)
qed

end
