(* ===== verification/Transparency.thy ===== *)
theory Transparency
  imports Lifetime Client
begin

text \<open>
  A program and the daemon on one directory: what \<open>dzfile_open\<close> and \<open>dzfile_pread\<close> of
  \<^verbatim>\<open>src/dzfile-api.c\<close> return while the daemon of \<^verbatim>\<open>src/dzfile-walker.cc\<close> converts the files. The two
  processes share names, inodes and the contents of the HDF5 files; the descriptors, the table of
  open compressed files and the state of the HDF5 library are each process's own.
\<close>

section \<open>Two processes on one disk\<close>

definition finds_disk :: "'h h5data \<Rightarrow> 'h st \<Rightarrow> ('h, 'm, 'd, 'q) world \<Rightarrow> bool" where
  \<comment> \<open>the disk that the process \<open>w\<close> works on is as another process has left it\<close>
  "finds_disk hdat v w \<longleftrightarrow> names (w_os w) = names (fst v) \<and> inodes (w_os w) = inodes (fst v) \<and>
     hdat (w_os w) (w_h5 w) = hdat (fst v) (snd v)"

lemma finds_disk_node: "finds_disk hdat v w \<Longrightarrow> node_at (w_os w) = node_at (fst v)"
  by (rule ext) (simp add: finds_disk_def node_at_def split: option.split)

lemma finds_disk_file_ok:
  assumes "finds_disk hdat v w"
  shows "file_ok L hdat (w_os w, w_h5 w) f d \<longleftrightarrow> file_ok L hdat v f d"
  using assms finds_disk_node [OF assms] by (simp add: file_ok_def archived_def finds_disk_def)

section \<open>Opening a file that has not been converted\<close>

lemma open_plain:
  assumes p: "public_path p" "env (w_os w) = []" "node_at (w_os w) (comps (hidden_name p)) = None"
    and n: "node_at (w_os w) (comps p) = Some (i, n)"
    and run: "dzfile_open M (Some p) O_RDONLY mode w = Some (fd, w1)" "0 \<le> fd"
  shows "fd_file (w_os w1) fd = Some (\<lparr>of_ino = i, of_off = 0, of_flags = O_RDONLY\<rparr>, n) \<and>
    w_fdm w1 = w_fdm w \<and> env (w_os w1) = []"
proof -
  let ?s = "(w_os w)\<lparr>errno := ENOENT\<rparr>"
  obtain s2 where f: "findhiddenFile p (w_os w) = Some (if errno s2 = ENOENT then 0 else -1, s2)"
    and s2: "s2 = (w_os w)\<lparr>errno := missing_errno (w_os w) (comps (hidden_name p))\<rparr>"
    using p by (simp add: findhiddenFile_normal public_path_def Let_def)
  have m: "match_sysdir (Some p) (w_os w) = (0, w_os w)" "basename_illegal p = Some False"
    using p(1) by (simp_all add: match_sysdir_public public_path_def)
  have e: "errno s2 = ENOENT" using run m f by (auto simp: dzfile_open_def split: if_splits)
  with s2 have s2: "s2 = ?s" by simp
  have n2: "node_at ?s (comps p) = Some (i, n)" using n by (simp add: node_at_def)
  have st: "sys_stat p ?s = (Some (stat_of i n), ?s)" using p(2) n2 by (simp add: sys_stat_normal)
  let ?w5 = "snd (dz_notifymq M p (w\<lparr>w_os := ?s\<rparr>))"
  have w5: "w_os ?w5 = ?s" "w_fdm ?w5 = w_fdm w"
    by (simp_all add: dz_notifymq_def split: option.splits prod.splits)
  have "dzfile_open M (Some p) O_RDONLY mode w = Some (on_os (sys_open p O_RDONLY mode) ?w5)"
    using m f e st unfolding s2 by (simp add: dzfile_open_def on_os_def Let_def)
  with run(1) w5 have so: "sys_open p O_RDONLY mode ?s = (fd, w_os w1)" and w1: "w_fdm w1 = w_fdm w"
    by (auto simp: on_os_def split: prod.splits)
  from sys_open_rdonly [OF so n2] run(2) p(2) w1 show ?thesis by (auto simp: same_files_def)
qed

lemma pread_plain:
  assumes "find_dzfd (shm M) fd (w_fdm w) = 0" "env (w_os w) = []" "\<not> i_dir n"
    and "fd_file (w_os w) fd = Some (\<lparr>of_ino = i, of_off = 0, of_flags = O_RDONLY\<rparr>, n)"
  shows "dzfile_pread M fd len (int off) w =
    Some ((int (length (take len (drop off (i_data n)))), take len (drop off (i_data n))), w)"
  using assms by (simp add: dzfile_pread_def on_os_def sys_pread_def readable_def Let_def)

section \<open>Reading a file of the directory\<close>

definition archives_readable :: "'h h5data \<Rightarrow> 'h st \<Rightarrow> string \<Rightarrow> bool" where
  \<comment> \<open>the compressed blocks are shorter than the buffer of \<open>h5fd_pread\<close>\<close>
  "archives_readable hdat v f \<longleftrightarrow> (\<forall>j. map_of (names (fst v)) (comps (hidden_name f)) = Some j \<longrightarrow>
     readable_blocks (hdat (fst v) (snd v) j))"

definition reads_as :: "bytes \<Rightarrow> nat \<Rightarrow> nat \<Rightarrow> int \<times> bytes \<Rightarrow> bool" where
  \<comment> \<open>what \<^verbatim>\<open>pread\<close> returns; the return value may be -1 at the end of a multiple of 4 MiB\<close>
  "reads_as d len off r \<longleftrightarrow> snd r = take len (drop off d) \<and>
     (fst r = int (length (take len (drop off d))) \<or>
      fst r = -1 \<and> H5_BUFSIZE dvd length d \<and> length d < off + len)"

lemma file_ok_reads:
  assumes H: "hdf5_contract (h5 M) hf hdat" and Z: "zstd_contract (codec M)"
    and v: "length (ZSTD_versionString (codec M)) < 1000"
    and T: "fresh_table M w" and e: "env (w_os w) = []" and p: "public_path f"
    and ok: "file_ok (codec M) hdat (w_os w, w_h5 w) f d" "length d \<le> 2 ^ 31"
    and R: "archives_readable hdat (w_os w, w_h5 w) f"
    and run: "dzfile_open M (Some f) O_RDONLY mode w = Some (fd, w1)" "0 \<le> fd" "off \<le> length d"
  shows "\<exists>r. dzfile_pread M fd len (int off) w1 = Some (r, w1) \<and> reads_as d len off r"
proof -
  from ok(1) obtain i n where n: "node_at (w_os w) (comps f) = Some (i, n)" "\<not> i_dir n"
    and d: "node_at (w_os w) (comps (hidden_name f)) = None \<Longrightarrow> i_data n = d"
    by (auto simp: file_ok_def)
  have t: "fdm_invar (shm M, w_fdm w)" "0 < w_next w" "\<And>fd. find_dzfd (shm M) fd (w_fdm w) = 0"
    using T by (simp_all add: fresh_table_def)
  show ?thesis
  proof (cases "node_at (w_os w) (comps (hidden_name f))")
    case None
    from open_plain [OF p e None n(1) run(1,2)] t(3)
    have "fd_file (w_os w1) fd = Some (\<lparr>of_ino = i, of_off = 0, of_flags = O_RDONLY\<rparr>, n)"
      "find_dzfd (shm M) fd (w_fdm w1) = 0" "env (w_os w1) = []" by simp_all
    from pread_plain [OF this(2,3) n(2) this(1), of len off] d [OF None] show ?thesis
      by (simp add: reads_as_def)
  next
    case (Some jm)
    then obtain j m where j: "node_at (w_os w) (comps (hidden_name f)) = Some (j, m)" by (cases jm) simp
    with ok(1) obtain cs where m: "\<not> i_dir m"
      and cs: "archived (codec M) hdat (w_os w, w_h5 w) (hidden_name f) d cs" "aligned d cs"
      by (auto simp: file_ok_def)
    have A: "archive_node (codec M) hdat (w_os w, w_h5 w) j d"
      using cs j R v by (auto simp: archived_def archive_node_def archives_readable_def node_at_Some)
    have "open_hidden M f O_RDONLY mode w = Some (fd, w1)"
      using run(1) by (simp add: dzfile_open_converted [OF p e j m])
    from open_hidden_state [OF H t(1,2) p e j n(1) A this run(2)] obtain h5fd where
      st: "find_dzfd (shm M) fd (w_fdm w1) = w_next w"
      "w_heap w1 (w_next w) = Some \<lparr>d_fd = fd, d_h5fd = h5fd, d_filename = None\<rparr>"
      "archive_fd (codec M) hf hdat (w_os w1, w_h5 w1) h5fd d" "env (w_os w1) = []" by blast
    have "h5fd_pread (h5 M) (codec M) h5fd len (int off) (w_os w1, w_h5 w1) =
      Some ((if off + len \<le> length d \<or> \<not> H5_BUFSIZE dvd length d
             then int (length (take len (drop off d))) else -1, take len (drop off d)), (w_os w1, w_h5 w1))"
      using H Z st(3,4) run(3) ok(2) by (rule h5fd_pread_contents)
    with st(1,2) t(2) show ?thesis by (auto simp: dzfile_pread_def reads_as_def)
  qed
qed

text \<open>The daemon is transparent to programs that use the interface: at any moment of its run between two
  conversions, a program that opens a file of the directory for reading reads with \<open>dzfile_pread\<close> what
  the file held at the beginning, whether it has been converted, has not been yet, or could not be. The
  exceptions are those of \<open>h5fd_pread\<close>: a read to the end of a multiple of 4 MiB returns -1, with the
  bytes in the buffer.\<close>

theorem daemon_is_transparent:
  assumes "hdf5_contract (h5 M) hf hdat" "zstd_contract (codec M)"
    and "length (ZSTD_versionString (codec M)) < 1000" "flat_dir D dp"
    and "dir_ok (codec M) hf hdat D w0" "only_entries D dp (fst w0)"
    and "daemon_reach (h5 M) (codec M) pol dp threads w0 x"
    and "D f = Some d" "length d \<le> 2 ^ 31" "public_path f" "archives_readable hdat (d_disk x) f"
    and "fresh_table M w" "env (w_os w) = []" "finds_disk hdat (d_disk x) w"
    and "dzfile_open M (Some f) O_RDONLY mode w = Some (fd, w1)" "0 \<le> fd" "off \<le> length d"
  shows "\<exists>r. dzfile_pread M fd len (int off) w1 = Some (r, w1) \<and> reads_as d len off r"
proof -
  have "dir_ok (codec M) hf hdat D (d_disk x)" using assms(1,2,4-7) by (rule daemon_keeps_dir)
  then have "file_ok (codec M) hdat (d_disk x) f d" using assms(8) by (simp add: dir_ok_def)
  then have "file_ok (codec M) hdat (w_os w, w_h5 w) f d"
    using finds_disk_file_ok [OF assms(14)] by blast
  moreover have "archives_readable hdat (w_os w, w_h5 w) f"
    using assms(11,14) by (simp add: archives_readable_def finds_disk_def)
  ultimately show ?thesis using assms by (intro file_ok_reads) simp_all
qed

section \<open>A file that is open while it is converted\<close>

text \<open>C13. The daemon does not know which files are open: a program that has opened a file before its
  conversion keeps the descriptor of the source, which is not in the map of compressed files, and
  reads zeros from it from then on, although a program that opens the file anew reads its
  contents.\<close>

theorem open_file_turns_to_zeros:
  assumes "hdf5_contract (h5 M) hf hdat" "zstd_contract (codec M)" "public_path f"
    and "node_at s (comps f) = Some (i, n)" "\<not> i_dir n" "node_at s (comps (hidden_name f)) = None"
    and "\<And>q. map_of (names s) q = Some i \<Longrightarrow> q = comps f" "i \<notin> ran (hf h)"
    and "fresh_table M w" "env (w_os w) = []" "finds_disk hdat (s, h) w"
    and "dzfile_open M (Some f) O_RDONLY mode w = Some (fd, w1)" "0 \<le> fd"
    and "convert2h5 (h5 M) (codec M) junk_src junk_h5 fuel (Some f) DZ_ALG_ZSTD (s, h) = Some (0, v)"
    and "finds_disk hdat v w2" "fds (w_os w2) = fds (w_os w1)" "env (w_os w2) = []" "w_fdm w2 = w_fdm w1"
  shows "dzfile_pread M fd len (int off) w1 =
      Some ((int (length (take len (drop off (i_data n)))), take len (drop off (i_data n))), w1)
    \<and> dzfile_pread M fd len (int off) w2 =
      Some ((int (min len (length (i_data n) - off)), replicate (min len (length (i_data n) - off)) 0), w2)"
proof -
  note nd = finds_disk_node [OF assms(11)]
  have n: "node_at (w_os w) (comps f) = Some (i, n)" "node_at (w_os w) (comps (hidden_name f)) = None"
    using assms(4,6) nd by simp_all
  from open_plain [OF assms(3,10) n(2,1) assms(12,13)]
  have o: "fd_file (w_os w1) fd = Some (\<lparr>of_ino = i, of_off = 0, of_flags = O_RDONLY\<rparr>, n)"
    "w_fdm w1 = w_fdm w" "env (w_os w1) = []" by simp_all
  have t: "find_dzfd (shm M) fd (w_fdm w) = 0" using assms(9) by (simp add: fresh_table_def)
  have "cstring f" using assms(3) by (simp add: public_path_def)
  from convert2h5_contents [OF assms(1,2) this assms(4,5,7,8,14)]
  obtain m where "inodes (fst v) i = Some (n\<lparr>i_data := replicate (length (i_data n)) 0, i_mtime := m\<rparr>)"
    by (auto simp: conversion_result_def)
  then have "inodes (w_os w2) i = Some (n\<lparr>i_data := replicate (length (i_data n)) 0, i_mtime := m\<rparr>)"
    using assms(15) by (simp add: finds_disk_def)
  moreover have "fd_get (w_os w2) fd = fd_get (w_os w1) fd" using fd_get_cong [OF assms(16)] by simp
  ultimately have o2: "fd_file (w_os w2) fd = Some (\<lparr>of_ino = i, of_off = 0, of_flags = O_RDONLY\<rparr>,
      n\<lparr>i_data := replicate (length (i_data n)) 0, i_mtime := m\<rparr>)"
    using o(1) by (simp add: fd_file_Some)
  have t2: "find_dzfd (shm M) fd (w_fdm w1) = 0" "find_dzfd (shm M) fd (w_fdm w2) = 0"
    using t o(2) assms(18) by simp_all
  have "\<not> i_dir (n\<lparr>i_data := replicate (length (i_data n)) 0, i_mtime := m\<rparr>)" using assms(5) by simp
  from pread_plain [OF t2(1) o(3) assms(5) o(1)] pread_plain [OF t2(2) assms(17) this o2] show ?thesis
    by simp
qed

section \<open>On a concrete directory\<close>

definition reader :: "h5sim st \<Rightarrow> (h5sim, shm_sim, dbview, string list) world" where
  \<comment> \<open>a process that has just been initialised, on the disk of another\<close>
  "reader v = demo_world\<lparr>w_os := fst v, w_h5 := snd v\<rparr>"

lemma reader_simps:
  "fresh_table sim_libs (reader v)" "finds_disk sim_data v (reader v)" "w_os (reader v) = fst v"
  using sim_shm_contract
  by (simp_all add: fresh_table_def fdm_invar_def find_dzfd_def sim_shm_def reader_def demo_world_def finds_disk_def)

definition reader_open :: "(h5sim, shm_sim, dbview, string list) world" where
  \<comment> \<open>after it has opened the converted file\<close>
  "reader_open = (reader life_after)\<lparr>
     w_os := (fst life_after)\<lparr>fds := [Some \<lparr>of_ino = 0, of_off = 0, of_flags = 0\<rparr>,
                                   Some \<lparr>of_ino = 1, of_off = 0, of_flags = 0\<rparr>]\<rparr>,
     w_h5 := (snd life_after)\<lparr>h5_ids := [(1, 2)]\<rparr>,
     w_fdm := \<lparr>sm_map = [(1, 1)], sm_deleted = Some (-1)\<rparr>,
     w_heap := [1 \<mapsto> \<lparr>d_fd = 1, d_h5fd = 1, d_filename = None\<rparr>], w_next := 2\<rparr>"

lemma life_public: "public_path ''//f''"
  by code_simp

lemma reader_opens: "dzfile_open sim_libs (Some ''//f'') O_RDONLY 0 (reader life_after) = Some (1, reader_open)"
proof -
  have "dzfile_open sim_libs (Some ''//f'') O_RDONLY 0 (reader life_after) =
      open_hidden sim_libs ''//f'' O_RDONLY 0 (reader life_after)"
    by (rule dzfile_open_converted [OF life_public, where j = 2
          and m = "\<lparr>i_dir = False, i_perm = 0x1A4, i_data = [], i_mtime = 7\<rparr>"])
      (simp_all add: reader_def life_after_def demo_after_def life_names node_at_def)
  also have "\<dots> = Some (1, reader_open)"
    by (simp add: open_hidden_def reader_def demo_world_def life_after_def demo_after_def buildHiddenFile_normal
        on_st_def hdf5_open_def sim_eval os_eval life_names on_os_def Let_def reader_open_def add_dzfd_def
        sim_shm_def)
  finally show ?thesis .
qed

lemma daemon_is_transparent_witness:
  "\<exists>r. dzfile_pread sim_libs 1 9 (int 1) reader_open = Some (r, reader_open) \<and> reads_as [1, 2, 3] 9 1 r"
proof -
  obtain x where x: "d_disk x = life_after"
    "daemon_reach sim_hdf5 sim_codec demo_policy ''/'' 1 (life_os, demo_h5) x" using life_run by blast
  have "archives_readable sim_data life_after ''//f''"
    by (auto simp: archives_readable_def life_after_def demo_after_def life_names readable_blocks_def)
  then show ?thesis
    using life_start x reader_opens
    by (intro daemon_is_transparent [where M = sim_libs and D = life_contents and dp = "''/''" and x = x
          and f = "''//f''" and hf = sim_files and hdat = sim_data and w = "reader life_after"
          and pol = demo_policy and threads = 1 and mode = 0 and ?w0.0 = "(life_os, demo_h5)", OF _ _ _ _ _ _ _ _ _ life_public])
      (simp_all add: reader_simps sim_hdf5_contract sim_codec_zstd sim_codec_simps life_contents_def life_after_def
        demo_after_def)
qed

definition early_open :: "(h5sim, shm_sim, dbview, string list) world" where
  \<comment> \<open>a process that has opened the file before its conversion\<close>
  "early_open = (reader (demo_os [1, 2, 3], demo_h5))\<lparr>
     w_os := (demo_os [1, 2, 3])\<lparr>errno := ENOENT,
       fds := [Some \<lparr>of_ino = 0, of_off = 0, of_flags = 0\<rparr>, Some \<lparr>of_ino = 1, of_off = 0, of_flags = 0\<rparr>]\<rparr>,
     w_mq := snd (zmq_send sim_zmq ''/f'' [])\<rparr>"

definition late_read :: "(h5sim, shm_sim, dbview, string list) world" where
  \<comment> \<open>the same process when the daemon has converted the file\<close>
  "late_read = early_open\<lparr>w_os := (fst demo_after)\<lparr>fds := fds (w_os early_open)\<rparr>, w_h5 := snd demo_after\<rparr>"

lemma early_opens:
  "dzfile_open sim_libs (Some ''/f'') O_RDONLY 0 (reader (demo_os [1, 2, 3], demo_h5)) = Some (1, early_open)"
  using demo_public
  by (simp add: public_path_def dzfile_open_def match_sysdir_public findhiddenFile_normal reader_def demo_world_def
      demo_os_def comps_demo early_open_def os_eval on_os_def dz_notifymq_def sim_zmq_def)

lemma open_file_turns_to_zeros_witness:
  "dzfile_pread sim_libs 1 2 (int 1) early_open = Some ((2, [2, 3]), early_open) \<and>
    dzfile_pread sim_libs 1 2 (int 1) late_read = Some ((2, [0, 0]), late_read)"
proof -
  let ?w = "reader (demo_os [1, 2, 3], demo_h5)"
  have L: "hdf5_contract (h5 sim_libs) sim_files sim_data" "zstd_contract (codec sim_libs)"
    by (simp_all add: sim_hdf5_contract sim_codec_zstd)
  have n: "\<not> i_dir demo_inode" "node_at (demo_os [1, 2, 3]) (comps (hidden_name ''/f'')) = None"
    "1 \<notin> ran (map_of (h5_ids demo_h5))"
    by (simp_all add: demo_inode_def demo_os_def demo_h5_def node_at_def comps_demo)
  have only: "\<And>q. map_of (names (demo_os [1, 2, 3])) q = Some 1 \<Longrightarrow> q = comps ''/f''"
    by (rule demo_only_name)
  have e: "env (w_os ?w) = []" by (simp add: reader_simps demo_os_def)
  have c: "convert2h5 (h5 sim_libs) (codec sim_libs) 0 0 (Suc (Suc 0)) (Some ''/f'') DZ_ALG_ZSTD
     (demo_os [1, 2, 3], demo_h5) = Some (0, demo_after)"
    using demo_conversion by simp
  have l: "finds_disk sim_data demo_after late_read" "fds (w_os late_read) = fds (w_os early_open)"
    "env (w_os late_read) = []" "w_fdm late_read = w_fdm early_open"
    by (simp_all add: finds_disk_def late_read_def demo_after_def)
  from open_file_turns_to_zeros [OF L demo_public demo_node n(1,2) only n(3) reader_simps(1) e reader_simps(2)
      early_opens zero_le_one c l, of 2 1] show ?thesis
    by (simp add: demo_inode_def)
qed

end
