(* ===== verification/Crowd.thy ===== *)
theory Crowd
  imports Tasks Transparency
begin

text \<open>
  What the daemon keeps while its workers work at the same time: the workers that are converting are the
  workers of \<open>Parallel\<close>, and the others, the main thread and the pool leave the files alone.
\<close>

section \<open>The invariant\<close>

fun job_in :: "task option \<Rightarrow> job option" where
  "job_in (Some (Converting t)) = Some t"
| "job_in _ = None"

fun task_right :: "(string \<Rightarrow> bytes option) \<Rightarrow> task \<Rightarrow> bool" where
  \<comment> \<open>what has passed the first filter is a file of the directory\<close>
  "task_right D (StatFile f) \<longleftrightarrow> f \<in> dom D"
| "task_right D (FindHidden f) \<longleftrightarrow> f \<in> dom D"
| "task_right D t \<longleftrightarrow> True"

definition in_place :: "string pool \<Rightarrow> task option list \<Rightarrow> bool" where
  "in_place p ts \<longleftrightarrow> (\<forall>i t. i < length ts \<longrightarrow> ts ! i = Some t \<longrightarrow> worker_at p i (Running (task_path t)))"

definition crowd_inv ::
    "codec_lib \<Rightarrow> 'h h5files \<Rightarrow> 'h h5data \<Rightarrow> (string \<Rightarrow> bytes option) \<Rightarrow> string \<Rightarrow> 'h crowd \<Rightarrow> bool" where
  "crowd_inv L hf hdat D dp x \<longleftrightarrow>
     workers_ok L hf hdat D (map job_in (snd x)) (d_disk (fst x)) \<and> entries_inv D dp (fst x) \<and>
     in_place (d_pool (fst x)) (snd x) \<and>
     (\<forall>i t. i < length (snd x) \<longrightarrow> snd x ! i = Some t \<longrightarrow> task_right D t)"

lemma crowd_invD:
  assumes "crowd_inv L hf hdat D dp (x, ts)"
  shows "workers_ok L hf hdat D (map job_in ts) (d_disk x)" "entries_inv D dp x" "in_place (d_pool x) ts"
    and "i < length ts \<Longrightarrow> ts ! i = Some t \<Longrightarrow> task_right D t"
  using assms by (simp_all add: crowd_inv_def)

lemma workers_ok_quiet:
  assumes "h5_frame_law hdat" "quiet (fst w) s'" "workers_ok L hf hdat D js w"
  shows "workers_ok L hf hdat D js (s', snd w)"
proof -
  have "env s' = []" using assms(2) workers_okD(1) [OF assms(3)] by (simp add: quiet_def)
  moreover have "wf_fs s'" using workers_okD(2) [OF assms(3)] leavesD(6) [OF leaves_quiet [OF assms(1,2), of "{}" "{}"]] by simp
  ultimately show ?thesis
    using assms(3) by (simp add: workers_ok_def quiet_view [OF assms(1,2)])
qed

text \<open>The pool: what it does itself stops no worker.\<close>

lemma still_running:
  assumes "pool_step e p p'" "worker_at p i (Running f)" "e \<noteq> Finish i"
  shows "worker_at p' i (Running f)"
  using assms
  by (induction rule: pool_step.induct) (auto simp: worker_at_def set_worker_def nth_list_update)

lemma main_in_place:
  assumes "main_step pol dp x y" "in_place (d_pool x) ts"
  shows "in_place (d_pool y) ts"
proof -
  have "d_pool y = d_pool x \<or> (\<exists>e. pool_step e (d_pool x) (d_pool y) \<and> (\<forall>i. e \<noteq> Finish i))"
    using assms(1) by cases auto
  with assms(2) still_running show ?thesis unfolding in_place_def by metis
qed

lemma main_crowd_inv:
  assumes H: "hdf5_contract H hf hdat" and I: "crowd_inv L hf hdat D dp (x, ts)" and st: "main_step pol dp x y"
  shows "crowd_inv L hf hdat D dp (y, ts)"
proof -
  have fr: "h5_frame_law hdat" using H by (simp add: hdf5_contract_def)
  note i = crowd_invD [OF I]
  from main_entries_inv [OF st workers_okD(1) [OF i(1)] i(2)]
  have m: "entries_inv D dp y" "quiet (fst (d_disk x)) (fst (d_disk y))" "snd (d_disk y) = snd (d_disk x)" by simp_all
  from workers_ok_quiet [OF fr m(2) i(1)] m(3) have "workers_ok L hf hdat D (map job_in ts) (d_disk y)"
    by (metis prod.collapse)
  with m(1) main_in_place [OF st i(3)] i(4) show ?thesis by (simp add: crowd_inv_def)
qed

lemma begin_crowd_inv:
  assumes I: "crowd_inv L hf hdat D dp (x, ts)"
    and i: "worker_at (d_pool x) i (Running f)" "i < length ts" "ts ! i = None"
  shows "crowd_inv L hf hdat D dp (x, ts[i := Some (Filter f)])"
proof -
  note v = crowd_invD [OF I]
  have "(map job_in ts)[i := None] = map job_in ts" using i(2,3) by (intro nth_equalityI) (auto simp: nth_list_update)
  with v i show ?thesis
    by (auto simp: crowd_inv_def in_place_def nth_list_update map_update)
qed

lemma end_crowd_inv:
  assumes I: "crowd_inv L hf hdat D dp (x, ts)"
    and i: "i < length ts" "ts ! i = Some (Processed f)" "pool_step (Finish i) (d_pool x) p"
  shows "crowd_inv L hf hdat D dp (x\<lparr>d_pool := p\<rparr>, ts[i := None])"
proof -
  note v = crowd_invD [OF I]
  have "(map job_in ts)[i := None] = map job_in ts" using i(1,2) by (intro nth_equalityI) (auto simp: nth_list_update)
  moreover have "worker_at p j (Running (task_path t))" if "j < length ts" "ts[i := None] ! j = Some t" for j t
  proof -
    have "j \<noteq> i" using that by auto
    with that(2) have j: "j \<noteq> i" "ts ! j = Some t" by simp_all
    with v(3) that(1) have "worker_at (d_pool x) j (Running (task_path t))" by (simp add: in_place_def)
    from still_running [OF i(3) this] j(1) show ?thesis by simp
  qed
  then have "in_place p (ts[i := None])" by (simp add: in_place_def)
  moreover have "entries_inv D dp (x\<lparr>d_pool := p\<rparr>)"
    using v(2) in_hand_event [OF i(3)] by (auto simp: entries_inv_def)
  moreover have "task_right D t" if "j < length ts" "ts[i := None] ! j = Some t" for j t
    using v(4) [of j t] that by (cases "j = i") auto
  ultimately show ?thesis using v(1) by (simp add: crowd_inv_def map_update)
qed

section \<open>A step of a worker\<close>

lemma task_step_path: "task_step H L pol junk_src junk_h5 t w = Some (t', w') \<Longrightarrow> task_path t' = task_path t"
proof (cases t)
  case (Converting j)
  assume "task_step H L pol junk_src junk_h5 t w = Some (t', w')"
  with Converting show ?thesis
    by (cases j) (auto simp: bind_eq_Some_conv simp del: convert_step.simps dest!: convert_step_path)
qed (auto simp: bind_eq_Some_conv split: option.splits prod.splits if_splits)

text \<open>Before the conversion a worker only looks.\<close>

lemma filter_right:
  assumes T: "task_ok D f" and run: "task_step H L pol junk_src junk_h5 (Filter f) w = Some (t', w')"
  shows "quiet (fst w) (fst w') \<and> snd w' = snd w \<and> job_in (Some t') = None \<and> task_right D t'"
proof -
  obtain m s1 where m: "match_sysdir (Some f) (fst w) = (m, s1)" by fastforce
  with run obtain h where h: "(if m = 1 then Some 0 else match_hiddenfile (Some f)) = Some h"
    and t': "t' = (if m = 1 \<or> h = 1 then Processed f else StatFile f)" "w' = (s1, snd w)"
    by (auto simp: bind_eq_Some_conv)
  have q: "quiet (fst w) s1" using quiet_match_sysdir [of "Some f" "fst w"] m by simp
  have "f \<in> dom D" if "\<not> (m = 1 \<or> h = 1)"
  proof -
    have "''.dzs'' \<notin> set (tokens SLASH f)"
      using that m by (auto simp: match_sysdir_def sysdir_loop_iff split: if_splits)
    moreover have "\<not> is_hidden_base (after_slash f)"
      using that h by (auto simp: match_hiddenfile_eq split: if_splits)
    ultimately show ?thesis using T by (simp add: task_ok_def)
  qed
  with t' q show ?thesis by auto
qed

lemma looking_right:
  assumes "cstring f" "SLASH \<in> set f" "env (fst w) = []" "f \<in> dom D"
  shows "task_step H L pol junk_src junk_h5 (StatFile f) w = Some (t', w') \<Longrightarrow>
      quiet (fst w) (fst w') \<and> snd w' = snd w \<and> job_in (Some t') = None \<and> task_right D t'"
    and "task_step H L pol junk_src junk_h5 (FindHidden f) w = Some (t', w') \<Longrightarrow>
      quiet (fst w) (fst w') \<and> snd w' = snd w \<and> (t' = Processed f \<or> t' = Converting (Checks f))"
proof -
  assume run: "task_step H L pol junk_src junk_h5 (StatFile f) w = Some (t', w')"
  obtain st s2 where st: "sys_stat f (fst w) = (st, s2)" by fastforce
  from quiet_sys_stat [OF this] st run assms(4) show
    "quiet (fst w) (fst w') \<and> snd w' = snd w \<and> job_in (Some t') = None \<and> task_right D t'"
    by (cases st) auto
next
  assume run: "task_step H L pol junk_src junk_h5 (FindHidden f) w = Some (t', w')"
  then show "quiet (fst w) (fst w') \<and> snd w' = snd w \<and> (t' = Processed f \<or> t' = Converting (Checks f))"
    by (auto simp: findhiddenFile_normal [OF assms(1,3,2)] Let_def quiet_def split: if_splits option.splits)
qed

text \<open>A step of a worker, from its effect on the jobs and on the entries of the directory.\<close>

lemma worked:
  assumes I: "crowd_inv L hf hdat D dp (x, ts)" and i: "i < length ts" "ts ! i = Some t"
    and path: "task_path t' = task_path t" and right: "task_right D t'"
    and ok: "workers_ok L hf hdat D ((map job_in ts)[i := job_in (Some t')]) w'"
    and E: "only_entries D dp (fst w')"
  shows "crowd_inv L hf hdat D dp (x\<lparr>d_disk := w'\<rparr>, ts[i := Some t'])"
proof -
  note v = crowd_invD [OF I]
  have "in_place (d_pool x) (ts[i := Some t'])"
    using v(3) i path by (auto simp: in_place_def nth_list_update)
  moreover have "entries_inv D dp (x\<lparr>d_disk := w'\<rparr>)" using v(2) E by (simp add: entries_inv_def)
  moreover have "task_right D u" if "j < length ts" "ts[i := Some t'] ! j = Some u" for j u
    using v(4) [of j u] right that by (cases "j = i") auto
  ultimately show ?thesis using ok by (simp add: crowd_inv_def map_update)
qed

lemma looked:
  assumes H: "hdf5_contract H hf hdat" and I: "crowd_inv L hf hdat D dp (x, ts)" and i: "i < length ts" "ts ! i = Some t"
    and "task_path t' = task_path t" "task_right D t'" "job_in (Some t) = None" "job_in (Some t') = None"
    and q: "quiet (fst (d_disk x)) (fst w')" "snd w' = snd (d_disk x)"
  shows "crowd_inv L hf hdat D dp (x\<lparr>d_disk := w'\<rparr>, ts[i := Some t'])"
proof (rule worked [OF I i assms(5,6)])
  have fr: "h5_frame_law hdat" using H by (simp add: hdf5_contract_def)
  have "(map job_in ts)[i := job_in (Some t')] = map job_in ts"
    using i assms(7,8) by (intro nth_equalityI) (auto simp: nth_list_update)
  with workers_ok_quiet [OF fr q(1) crowd_invD(1) [OF I]] q(2)
  show "workers_ok L hf hdat D ((map job_in ts)[i := job_in (Some t')]) w'" by (metis prod.collapse)
  show "only_entries D dp (fst w')"
    using crowd_invD(2) [OF I] q(1) by (auto simp: entries_inv_def quiet_def intro: only_entries_cong)
qed

lemma convert_step_entries:
  assumes H: "hdf5_contract H hf hdat" and Z: "zstd_contract L" and J: "junk_src \<le> 0" "junk_h5 \<le> 0"
    and F: "flat_dir D dp" and ok: "workers_ok L hf hdat D js w" and i: "i < length js" "js ! i = Some t"
    and run: "convert_step H L DZ_ALG_ZSTD junk_src junk_h5 t w = Some (t', w')" and E: "only_entries D dp (fst w)"
  shows "only_entries D dp (fst w')"
proof -
  obtain d where d: "D (job_path t) = Some d" "holds hf t w" "job_ok L hf hdat d t w"
    using workers_okD(4) [OF ok i] by blast
  then have p: "job_path t \<in> dom D" by blast
  with F have "cstring (job_path t)" "SLASH \<in> set (job_path t)" by (auto simp: flat_dir_def good_paths_def)
  then have "sound L hdat (job_path t) d w"
    using workers_okD(1-3) [OF ok] d(1) by (simp add: sound_def)
  from convert_step_stepped [OF H Z J this d(2,3) run] have "beside hf hdat t w w'" by (simp add: stepped_def)
  from leaves_entries [OF this [unfolded beside_def, THEN conjunct1] F p E] show ?thesis .
qed

lemma begin_job_others:
  assumes I: "crowd_inv L hf hdat D dp (x, ts)" and O: "one_each (d_pool x)"
    and i: "i < length ts" "ts ! i = Some (FindHidden f)"
  shows "\<forall>t. Some t \<in> set (map job_in ts) \<longrightarrow> job_path t \<noteq> f"
proof (intro allI impI)
  fix t
  assume "Some t \<in> set (map job_in ts)"
  then obtain j where "j < length ts" "job_in (ts ! j) = Some t" by (auto simp: in_set_conv_nth)
  then have j: "j < length ts" "ts ! j = Some (Converting t)" by (auto elim: job_in.elims)
  have "j \<noteq> i" using j(2) i(2) by auto
  with O show "job_path t \<noteq> f"
    using crowd_invD(3) [OF I] i j unfolding in_place_def one_each_def by (metis task_path.simps(3,4))
qed

lemma find_crowd_inv:
  assumes H: "hdf5_contract H hf hdat" and gp: "good_paths (dom D)"
    and I: "crowd_inv L hf hdat D dp (x, ts)" and O: "one_each (d_pool x)"
    and i: "i < length ts" "ts ! i = Some (FindHidden f)"
    and run: "task_step H L pol junk_src junk_h5 (FindHidden f) (d_disk x) = Some (t', w')"
  shows "crowd_inv L hf hdat D dp (x\<lparr>d_disk := w'\<rparr>, ts[i := Some t'])"
proof -
  note v = crowd_invD [OF I]
  have fr: "h5_frame_law hdat" using H by (simp add: hdf5_contract_def)
  have f: "f \<in> dom D" using v(4) [OF i] by simp
  with gp have "cstring f" "SLASH \<in> set f" by (auto simp: good_paths_def)
  from looking_right(2) [OF this workers_okD(1) [OF v(1)] f run]
  have q: "quiet (fst (d_disk x)) (fst w')" "snd w' = snd (d_disk x)" and t': "t' = Processed f \<or> t' = Converting (Checks f)"
    by simp_all
  from task_step_path [OF run] have path: "task_path t' = task_path (FindHidden f)" .
  show ?thesis
  proof (cases "t' = Processed f")
    case True
    with q show ?thesis by (intro looked [OF H I i path]) simp_all
  next
    case False
    have "workers_ok L hf hdat D (map job_in ts) w'"
      using workers_ok_quiet [OF fr q(1) v(1)] q(2) by (metis prod.collapse)
    from begin_workers_ok [OF this gp f _ begin_job_others [OF I O i]] i(1)
    have "workers_ok L hf hdat D ((map job_in ts)[i := Some (Checks f)]) w'" by simp
    moreover have "only_entries D dp (fst w')"
      using v(2) q(1) by (auto simp: entries_inv_def quiet_def intro: only_entries_cong)
    ultimately show ?thesis using t' False by (intro worked [OF I i path]) auto
  qed
qed

lemma work_crowd_inv:
  assumes H: "hdf5_contract H hf hdat" and Z: "zstd_contract L" and J: "junk_src \<le> 0" "junk_h5 \<le> 0"
    and F: "flat_dir D dp" and I: "crowd_inv L hf hdat D dp (x, ts)" and O: "one_each (d_pool x)"
    and i: "i < length ts" "ts ! i = Some t"
    and run: "task_step H L pol junk_src junk_h5 t (d_disk x) = Some (t', w')"
  shows "crowd_inv L hf hdat D dp (x\<lparr>d_disk := w'\<rparr>, ts[i := Some t'])"
proof -
  note v = crowd_invD [OF I]
  have path: "task_path t' = task_path t" by (rule task_step_path [OF run])
  have E: "only_entries D dp (fst (d_disk x))" using v(2) by (simp add: entries_inv_def)
  have gp: "good_paths (dom D)" using F by (simp add: flat_dir_def)
  note e = workers_okD(1) [OF v(1)]
  have name: "cstring f \<and> SLASH \<in> set f" if "f \<in> dom D" for f using gp that by (auto simp: good_paths_def)
  show ?thesis
  proof (cases t)
    case (Filter f)
    have "worker_at (d_pool x) i (Running (task_path t))" using v(3) i unfolding in_place_def by blast
    with Filter have "worker_at (d_pool x) i (Running f)" by simp
    then have "task_ok D f" using worker_at_set v(2) by (fastforce simp: entries_inv_def in_hand_def)
    from filter_right [OF this run [unfolded Filter]] Filter show ?thesis
      by (intro looked [OF H I i path]) simp_all
  next
    case (StatFile f)
    with v(4) [OF i] have f: "f \<in> dom D" by simp
    from looking_right(1) [OF _ _ e f run [unfolded StatFile]] name [OF f] StatFile show ?thesis
      by (intro looked [OF H I i path]) simp_all
  next
    case (FindHidden f)
    from find_crowd_inv [OF H gp I O i(1) i(2) [unfolded FindHidden] run [unfolded FindHidden]] show ?thesis .
  next
    case (Converting j)
    have job: "i < length (map job_in ts)" "map job_in ts ! i = Some j" using i Converting by simp_all
    show ?thesis
    proof (cases "\<exists>f ret. j = Converted f ret")
      case True
      with run Converting have "t' = Processed (job_path j)" "w' = d_disk x" by auto
      with end_workers_ok [OF v(1)] E show ?thesis by (intro worked [OF I i path]) simp_all
    next
      case False
      with run Converting obtain j' where j': "t' = Converting j'"
        "convert_step H L DZ_ALG_ZSTD junk_src junk_h5 j (d_disk x) = Some (j', w')"
        by (cases j) (auto simp: bind_eq_Some_conv simp del: convert_step.simps)
      from work_workers_ok [OF H Z J gp v(1) job j'(2)] convert_step_entries [OF H Z J F v(1) job j'(2) E] j'(1)
      show ?thesis by (intro worked [OF I i path]) simp_all
    qed
  next
    case (Processed f)
    with run show ?thesis by simp
  qed
qed

lemma crowd_inv_step:
  assumes "hdf5_contract H hf hdat" "zstd_contract L" "junk_src \<le> 0" "junk_h5 \<le> 0" "flat_dir D dp"
    and st: "crowd_step H L pol dp junk_src junk_h5 x y" and I: "crowd_inv L hf hdat D dp x"
    and O: "one_each (d_pool (fst y))"
  shows "crowd_inv L hf hdat D dp y"
  using st
proof cases
  case (main_thread x' y' ts)
  with main_crowd_inv [OF assms(1) _ main_thread(3)] I show ?thesis by simp
next
  case (begin_file x' i f ts)
  with begin_crowd_inv [OF _ begin_file(4-6)] I show ?thesis by simp
next
  case (work_on_file i ts t x' t' w)
  with work_crowd_inv [OF assms(1-5) _ _ work_on_file(4-6)] I O show ?thesis by simp
next
  case (end_file i ts f x' p)
  with end_crowd_inv [OF _ end_file(4-6)] I show ?thesis by simp
qed

section \<open>All runs\<close>

lemma pool_step_length: "pool_step e p p' \<Longrightarrow> length (p_workers p') = length (p_workers p)"
  by (induction rule: pool_step.induct) simp_all

lemma crowd_step_length:
  assumes "crowd_step H L pol dp junk_src junk_h5 x y"
  shows "length (p_workers (d_pool (fst y))) = length (p_workers (d_pool (fst x)))"
  using assms by cases (auto simp: pool_step_length elim: main_step.cases)

lemma crowd_reach_length:
  assumes "crowd_reach P H L pol dp junk_src junk_h5 threads w0 x"
  shows "length (p_workers (d_pool (fst x))) = threads"
  using assms by induction (simp_all add: new_daemon_def new_pool_def crowd_step_length)

lemma one_each_single: "length (p_workers p) \<le> 1 \<Longrightarrow> one_each p"
  by (auto simp: one_each_def worker_at_def)

lemma crowd_inv_reach:
  assumes C: "hdf5_contract H hf hdat" "zstd_contract L" "junk_src \<le> 0" "junk_h5 \<le> 0" "flat_dir D dp"
    and w0: "dir_ok L hf hdat D w0" "only_entries D dp (fst w0)"
    and run: "crowd_reach P H L pol dp junk_src junk_h5 threads w0 x"
    and O: "threads \<le> 1 \<or> (\<forall>p. P p \<longrightarrow> one_each p)"
  shows "crowd_inv L hf hdat D dp x"
  using run
proof induction
  case start
  show ?case
    using w0 by (simp add: crowd_inv_def workers_ok_def dir_ok_def entries_inv_def in_hand_new in_place_def new_daemon_def)
next
  case (step x y)
  have "one_each (d_pool (fst y))"
    using O step(3) one_each_single crowd_reach_length [OF crowd_reach.step [OF step(1-3)]] by blast
  from crowd_inv_step [OF C step(2,4) this] show ?case .
qed

text \<open>No worker comes upon anything undefined.\<close>

lemma task_step_defined:
  assumes I: "crowd_inv L hf hdat D dp (x, ts)" and F: "flat_dir D dp" and i: "i < length ts" "ts ! i = Some t"
    and f: "task_path t \<in> dom D"
  shows "(\<exists>f. t = Processed f) \<or> task_step H L pol junk_src junk_h5 t (d_disk x) \<noteq> None"
proof -
  from F f have g: "cstring (task_path t)" "SLASH \<in> set (task_path t)" "\<not> reads_before_start (task_path t)"
    by (auto simp: flat_dir_def good_paths_def)
  have e: "env (fst (d_disk x)) = []" by (rule workers_okD(1) [OF crowd_invD(1) [OF I]])
  show ?thesis
  proof (cases t)
    case (Filter f)
    with g(3) show ?thesis by (auto simp: match_hiddenfile_eq split: prod.split)
  next
    case (StatFile f)
    then show ?thesis by (auto split: option.split prod.split)
  next
    case (FindHidden f)
    with g(1,2) e show ?thesis by (auto simp: findhiddenFile_normal split: prod.split)
  next
    case (Converting j)
    show ?thesis
    proof (cases "\<exists>f ret. j = Converted f ret")
      case True
      with Converting show ?thesis by auto
    next
      case False
      with convert_step_defined [of j "d_disk x" H L DZ_ALG_ZSTD junk_src junk_h5] g(1) e Converting
      obtain j' w' where "convert_step H L DZ_ALG_ZSTD junk_src junk_h5 j (d_disk x) = Some (j', w')" by fastforce
      from task_step_convert [OF this] Converting show ?thesis by simp
    qed
  qed simp
qed

text \<open>C4. The daemon keeps the contents of every file of its directory for as long as it runs, with its
  scans, its pool and its workers, all of them at work at the same time and overtaking each other after
  each of their system calls, up to its own exit. At every moment a file has its
  contents itself or, from the rename on, in its hidden file, as the blocks that a reader expects; a conversion that
  reports success has put them there; what is in the pool are entries of the directory, its files or names that
  \<open>process_file\<close> refuses; and no worker on a file comes upon anything undefined.

  The runs are those of a system whose calls do not fail (calls of the libraries may), in which the
  uninitialised variables \<^verbatim>\<open>srcfd\<close> and \<^verbatim>\<open>h5fd\<close> of \<^verbatim>\<open>convert2h5\<close> hold no positive number, and no two workers are running the
  same file, which a pool of one thread cannot do. The directory holds regular files with their own names, hidden names
  and temporary names, and no HDF5 file is open at the beginning. An archive that is not closed yet holds what the
  HDF5 library has accepted; what is left of it when the process ends is the matter of \<open>Restart\<close>
  and \<open>Exits\<close>.\<close>

theorem daemon_at_work:
  assumes "hdf5_contract H hf hdat" "zstd_contract L" "junk_src \<le> 0" "junk_h5 \<le> 0" "flat_dir D dp"
    and "dir_ok L hf hdat D w0" "only_entries D dp (fst w0)"
    and "crowd_reach P H L pol dp junk_src junk_h5 threads w0 (x, ts)"
    and "threads \<le> 1 \<or> (\<forall>p. P p \<longrightarrow> one_each p)"
  shows "(\<forall>f d. D f = Some d \<longrightarrow> file_ok L hdat (d_disk x) f d) \<and>
    (\<forall>i<length ts. \<forall>f ret. ts ! i = Some (Converting (Converted f ret)) \<longrightarrow> 0 \<le> ret \<longrightarrow>
      (\<exists>d cs. D f = Some d \<and> archived L hdat (d_disk x) (hidden_name f) d cs \<and> aligned d cs)) \<and>
    in_hand (d_pool x) \<subseteq> Collect (task_ok D) \<and>
    (\<forall>i<length ts. \<forall>t. ts ! i = Some t \<longrightarrow> task_path t \<in> dom D \<longrightarrow>
      (\<exists>f. t = Processed f) \<or> task_step H L pol junk_src junk_h5 t (d_disk x) \<noteq> None)"
proof -
  note I = crowd_inv_reach [OF assms]
  note v = crowd_invD [OF I]
  have "\<exists>d cs. D f = Some d \<and> archived L hdat (d_disk x) (hidden_name f) d cs \<and> aligned d cs"
    if "i < length ts" "ts ! i = Some (Converting (Converted f ret))" "0 \<le> ret" for i f ret
    using converted_archived [OF v(1), of i f ret] that by simp
  moreover have "in_hand (d_pool x) \<subseteq> Collect (task_ok D)" using v(2) by (auto simp: entries_inv_def)
  ultimately show ?thesis
    using workers_okD(3) [OF v(1)] task_step_defined [OF I assms(5)] by blast
qed

text \<open>C3. The daemon is transparent to programs that use the interface, at any moment of its run: a program that
  opens a file of the directory for reading that no worker is converting just then reads with
  \<open>dzfile_pread\<close>, from any offset within the file, what the file held at the beginning, whether it has been converted, has not been yet, or
  could not be, and whatever the workers are doing to other files. Where the file's size is a multiple
  of 4 MiB, a read that goes past the end returns -1, with the bytes in the buffer.

  The runs are those of \<open>daemon_at_work\<close>: no system call fails, \<^verbatim>\<open>srcfd\<close> and \<^verbatim>\<open>h5fd\<close> of \<^verbatim>\<open>convert2h5\<close> hold no positive number
  when they are not initialised, and no two workers have the same file. The file has at most 2 GiB and a path that the interface
  does not refuse, its blocks have been compressed to less than 4 MiB (\<open>archives_readable\<close>), and the program
  has no compressed file open before and makes no failing call.\<close>

theorem daemon_at_work_is_transparent:
  assumes "hdf5_contract (h5 M) hf hdat" "zstd_contract (codec M)"
    and "length (ZSTD_versionString (codec M)) < 1000" "flat_dir D dp" "junk_src \<le> 0" "junk_h5 \<le> 0"
    and "dir_ok (codec M) hf hdat D w0" "only_entries D dp (fst w0)"
    and "crowd_reach P (h5 M) (codec M) pol dp junk_src junk_h5 threads w0 (x, ts)"
    and "threads \<le> 1 \<or> (\<forall>p. P p \<longrightarrow> one_each p)"
    and "D f = Some d" "length d \<le> 2 ^ 31" "public_path f" "archives_readable hdat (d_disk x) f"
    and "\<And>t. Some (Converting t) \<in> set ts \<Longrightarrow> job_path t \<noteq> f"
    and "fresh_table M w" "env (w_os w) = []" "finds_disk hdat (d_disk x) w"
    and "dzfile_open M (Some f) O_RDONLY mode w = Some (fd, w1)" "0 \<le> fd" "off \<le> length d"
  shows "\<exists>r. dzfile_pread M fd len (int off) w1 = Some (r, w1) \<and> reads_as d len off r"
proof -
  note I = crowd_inv_reach [OF assms(1,2,5,6,4,7-10)]
  have "file_ok (codec M) hdat (d_disk x) f d" by (rule workers_okD(3) [OF crowd_invD(1) [OF I] assms(11)])
  then have "file_ok (codec M) hdat (w_os w, w_h5 w) f d"
    using finds_disk_file_ok [OF assms(18)] by blast
  moreover have "archives_readable hdat (w_os w, w_h5 w) f"
    using assms(14,18) by (simp add: archives_readable_def finds_disk_def)
  ultimately show ?thesis using assms by (intro file_ok_reads) simp_all
qed

section \<open>On a concrete directory\<close>

text \<open>Steps of the main thread, and those of a worker that is alone for a while.\<close>

lemma main_steps_crowd:
  assumes "(main_step pol dp)\<^sup>*\<^sup>* x y" "crowd_reach (\<lambda>_. True) H L pol dp junk_src junk_h5 threads w0 (x, ts)"
  shows "crowd_reach (\<lambda>_. True) H L pol dp junk_src junk_h5 threads w0 (y, ts)"
  using assms by induction (auto intro: crowd_reach.step main_thread)

lemma task_steps_crowd:
  assumes "task_steps H L pol junk_src junk_h5 v z" "i < length ts" "ts ! i = Some (fst v)" "d_disk x = snd v"
    and "crowd_reach (\<lambda>_. True) H L pol dp junk_src junk_h5 threads w0 (x, ts)" "d_exit x = None"
  shows "crowd_reach (\<lambda>_. True) H L pol dp junk_src junk_h5 threads w0 (x\<lparr>d_disk := snd z\<rparr>, ts[i := Some (fst z)])"
  using assms
proof (induction arbitrary: x ts)
  case (no_step v)
  have same: "ts[i := Some (fst v)] = ts" using no_step.prems(2) by (metis list_update_id)
  from no_step.prems(3) have "x\<lparr>d_disk := snd v\<rparr> = x" by (metis daemon.surjective daemon.update_convs(2))
  with no_step.prems(4) show ?case unfolding same by simp
next
  case (next_step t w y z)
  then have "crowd_step H L pol dp junk_src junk_h5 (x, ts) (x\<lparr>d_disk := snd y\<rparr>, ts[i := Some (fst y)])"
    by (intro work_on_file [where t = t]) simp_all
  with next_step.prems(4)
  have "crowd_reach (\<lambda>_. True) H L pol dp junk_src junk_h5 threads w0 (x\<lparr>d_disk := snd y\<rparr>, ts[i := Some (fst y)])"
    by (rule crowd_reach.step) simp
  from next_step.IH [OF _ _ _ this] next_step.prems(1,5) show ?case by simp
qed

lemma crowd_begins:
  "crowd_reach (\<lambda>_. True) sim_hdf5 sim_codec demo_policy ''/'' 0 0 1 (life_os, demo_h5)
    (life_submitted, [Some (Filter ''//f'')])"
proof -
  let ?r = "crowd_reach (\<lambda>_. True) sim_hdf5 sim_codec demo_policy ''/'' 0 0 1 (life_os, demo_h5)"
  let ?x = life_submitted
  have "?r (new_daemon 1 (life_os, demo_h5), replicate 1 None)"
    by (rule crowd_reach.start)
  from main_steps_crowd [OF life_submits this] have r: "?r (?x, [None])" by simp
  have "crowd_step sim_hdf5 sim_codec demo_policy ''/'' 0 0 (?x, [None]) (?x, [None][0 := Some (Filter ''//f'')])"
    by (rule begin_file) (simp_all add: life_submitted_def life_pool_def worker_at_def)
  from crowd_reach.step [OF r this] show ?thesis by simp
qed

lemma crowd_run:
  "\<exists>x :: h5sim daemon. d_disk x = life_after \<and>
    crowd_reach (\<lambda>_. True) sim_hdf5 sim_codec demo_policy ''/'' 0 0 1 (life_os, demo_h5)
      (x, [Some (Processed ''//f'')])"
proof -
  let ?r = "crowd_reach (\<lambda>_. True) sim_hdf5 sim_codec demo_policy ''/'' 0 0 1 (life_os, demo_h5)"
  let ?x = life_submitted
  from task_steps_crowd [OF process_file_steps [OF life_convert], of 0 "[Some (Filter ''//f'')]", OF _ _ _ crowd_begins]
  have "?r (?x\<lparr>d_disk := life_after\<rparr>, [Some (Processed ''//f'')])" by (simp add: life_submitted_def)
  then show ?thesis by (intro exI [of _ "?x\<lparr>d_disk := life_after\<rparr>"]) simp
qed

lemma daemon_at_work_witness:
  "\<exists>x :: h5sim daemon. d_disk x = life_after \<and> file_ok sim_codec sim_data life_after ''//f'' [1, 2, 3] \<and>
    crowd_reach (\<lambda>_. True) sim_hdf5 sim_codec demo_policy ''/'' 0 0 1 (life_os, demo_h5)
      (x, [Some (Processed ''//f'')])"
proof -
  obtain x :: "h5sim daemon" where x: "d_disk x = life_after"
    "crowd_reach (\<lambda>_. True) sim_hdf5 sim_codec demo_policy ''/'' 0 0 1 (life_os, demo_h5)
      (x, [Some (Processed ''//f'')])" using crowd_run by blast
  from life_start(3) have "only_entries life_contents ''/'' (fst (life_os, demo_h5))" by simp
  note r = daemon_at_work [OF sim_hdf5_contract sim_codec_zstd order_refl order_refl life_start(2,1) this x(2)
      disjI1 [OF order_refl]]
  have "life_contents ''//f'' = Some [1, 2, 3]" by (simp add: life_contents_def)
  with r [THEN conjunct1] x show ?thesis by metis
qed

lemma daemon_at_work_is_transparent_witness:
  "\<exists>r. dzfile_pread sim_libs 1 9 (int 2) reader_open = Some (r, reader_open) \<and> reads_as [1, 2, 3] 9 2 r"
proof -
  obtain x :: "h5sim daemon" where x: "d_disk x = life_after"
    "crowd_reach (\<lambda>_. True) sim_hdf5 sim_codec demo_policy ''/'' 0 0 1 (life_os, demo_h5)
      (x, [Some (Processed ''//f'')])" using crowd_run by blast
  have "archives_readable sim_data life_after ''//f''"
    by (auto simp: archives_readable_def life_after_def demo_after_def life_names readable_blocks_def)
  then show ?thesis
    using life_start x reader_opens
    by (intro daemon_at_work_is_transparent [where M = sim_libs and D = life_contents and dp = "''/''" and x = x
          and f = "''//f''" and hf = sim_files and hdat = sim_data and w = "reader life_after"
          and pol = demo_policy and threads = 1 and mode = 0 and ?w0.0 = "(life_os, demo_h5)"
          and junk_src = 0 and ?junk_h5.0 = 0 and P = "\<lambda>_. True" and ts = "[Some (Processed ''//f'')]",
          OF _ _ _ _ _ _ _ _ _ _ _ _ life_public])
      (simp_all add: reader_simps sim_hdf5_contract sim_codec_zstd sim_codec_simps life_contents_def life_after_def
        demo_after_def)
qed

end
