(* ===== verification/Overwrite.thy ===== *)
theory Overwrite
  imports Parallel
begin

text \<open>
  A program that writes to a file while the daemon converts it: \<open>convert2h5\<close> of \<^verbatim>\<open>src/dzfile-intern.cc\<close> does
  not ask again whether the file has changed before it truncates it.
\<close>

section \<open>A file that is written while it is converted\<close>

lemma convert_steps_ok:
  assumes C: "hdf5_contract H hf hdat" "zstd_contract L" "junk_src \<le> 0" "junk_h5 \<le> 0" "good_paths (dom D)"
    and D: "dir_ok L hf hdat D w0" "D f = Some d"
    and run: "convert_steps H L DZ_ALG_ZSTD junk_src junk_h5 (Checks f, w0) (t, w)"
  shows "env (fst w) = [] \<and> wf_fs (fst w) \<and> file_ok L hdat w f d \<and> holds hf t w \<and> job_ok L hf hdat d t w"
proof -
  have f: "f \<in> dom D" using D(2) by blast
  have "workers_ok L hf hdat D [None] w0" using D(1) by (simp add: workers_ok_def dir_ok_def)
  from begin_workers_ok [OF this C(5) f, of 0] have start: "workers_ok L hf hdat D [Some (Checks f)] w0" by simp
  from work_alone [OF run, of 0 "[Some (Checks f)]" "dom D"]
  have "(workers_step H L junk_src junk_h5 (dom D))\<^sup>*\<^sup>* ([Some (Checks f)], w0) ([Some t], w)" by simp
  from workers_steps_ok [OF this C] start have ok: "workers_ok L hf hdat D [Some t] w" by simp
  have "job_path t = f" using convert_steps_path [OF run] by simp
  with workers_okD(4) [OF ok, of 0 t] D(2) workers_okD(1-3) [OF ok] show ?thesis by simp
qed

text \<open>C12. What a program writes to a file while the daemon converts it can be lost. If it has made the contents
  \<open>d'\<close> when all blocks have been read and the archive is about to be renamed, and the conversion then succeeds, the archive holds the contents \<open>d\<close> of the
  beginning, and the file as many zeros as \<open>d'\<close> has bytes.\<close>

theorem write_during_conversion_is_lost:
  assumes "hdf5_contract H hf hdat" "zstd_contract L" "junk_src \<le> 0" "junk_h5 \<le> 0" "good_paths (dom D)"
    and "dir_ok L hf hdat D w0" "D f = Some d"
    and "convert_steps H L DZ_ALG_ZSTD junk_src junk_h5 (Checks f, w0) (RenameTemp f h5name srcfd h5fd, w1)"
    and "node_at (fst w1) (comps f) = Some (i, n)"
    and "convert_steps H L DZ_ALG_ZSTD junk_src junk_h5
      (RenameTemp f h5name srcfd h5fd, (set_data i n d' (fst w1), snd w1)) (Converted f 0, w2)"
  shows "(\<exists>cs. archived L hdat w2 (hidden_name f) d cs) \<and>
    (\<exists>m. node_at (fst w2) (comps f) = Some (i, n\<lparr>i_data := replicate (length d') 0, i_mtime := m\<rparr>))"
proof -
  let ?hid = "comps (hidden_name f)" and ?tmp = "comps (tmp_name (hidden_name f))"
  let ?n = "n\<lparr>i_data := d', i_mtime := now (fst w1)\<rparr>" and ?s = "set_data i n d' (fst w1)"
  have fr: "h5_frame_law hdat" using assms(1) by (simp add: hdf5_contract_def)
  have "f \<in> dom D" using assms(7) by blast
  with assms(5) have sl: "SLASH \<in> set f" by (simp add: good_paths_def)
  note nd = names_distinct [OF sl]
  from convert_steps_ok [OF assms(1-8)] have e: "env (fst w1) = []" and wf: "wf_fs (fst w1)" and ok: "file_ok L hdat w1 f d"
    and h: "holds hf (RenameTemp f h5name srcfd h5fd) w1"
    and job: "h5name = hidden_name f" "map_of (names (fst w1)) ?hid = None"
      "\<exists>cs. written L hdat f cs w1 \<and> concat cs = d \<and> aligned d cs" by auto
  from job(3) obtain cs where cs: "written L hdat f cs w1" "concat cs = d" by blast
  obtain j where j: "hf (snd w1) h5fd = Some j" "map_of (names (fst w1)) ?tmp = Some j" "regular_at (fst w1) ?tmp j"
    using temp_in_hand [OF h _ _ job(2)] by (metis job_h5.simps(3) job_path.simps(6))
  then obtain m where m: "inodes (fst w1) j = Some m" "\<not> i_dir m" by (auto simp: regular_at_def node_at_Some)
  have i: "map_of (names (fst w1)) (comps f) = Some i" "inodes (fst w1) i = Some n"
    using assms(9) by (simp_all add: node_at_Some)
  have ij: "i \<noteq> j" using wf_fs_inj [OF wf i(1)] j(2) nd(2) by metis
  have nn: "\<not> i_dir n" using ok assms(9) by (auto simp: file_ok_def)
  have p: "node_at ?s (comps f) = Some (i, ?n)" "\<not> i_dir ?n" using i nn by (simp_all add: node_at_Some set_data_def)
  have t: "node_at ?s ?tmp = Some (j, m)" using j(2) m ij by (simp add: node_at_Some set_data_def)
  obtain ret s where fin: "convert_finish f (tmp_name (hidden_name f)) (hidden_name f) ?s = (ret, s)" by fastforce
  from convert_steps_rest [OF assms(10)] fin job(1) have out: "convert_out H srcfd h5fd ret (s, snd w1) = (0, w2)"
    by (simp add: finish_rest_def)
  from convert_out_rests(1) [OF assms(1) this] have ret: "ret = 0"
    and rs: "rests hf hdat h5fd (s, snd w1) w2" by simp_all
  have "env s = []" using convert_finish_env [OF fin] e by (simp add: set_data_def)
  with rs j(1) have r: "names (fst w2) = names s" "\<And>k. k \<noteq> j \<Longrightarrow> inodes (fst w2) k = inodes s k"
    "\<And>k. hdat (fst w2) (snd w2) k = hdat s (snd w1) k" by (simp_all add: rests_def)
  from convert_finish_cases [OF fin p t nd(3) nd(1) [symmetric] nd(2) [symmetric]] ret
  have c: "converted (hidden_name f) i ?n j 0 ?s s" by simp
  have "hdat s (snd w1) j = hdat (fst w1) (snd w1) j"
    using c ij by (intro hdat_cong [OF fr]) (simp add: converted_def set_data_def)
  then have "archived L hdat w2 (hidden_name f) d cs"
    using cs j(2) c r(1,3) by (simp add: archived_def written_def converted_def)
  moreover have "leaves hdat {?hid, ?tmp} {i} (?s, snd w1) (s, snd w1)"
    using convert_finish_leaves [OF fr, of f "tmp_name (hidden_name f)" "hidden_name f" "(?s, snd w1)"] fin p t m(2)
      nd(3) nd(1,2) [symmetric] by simp
  from leavesD(1) [OF this, of "comps f"] nd(1,2) [symmetric] i(1)
  have "map_of (names s) (comps f) = Some i" by (simp add: set_data_def)
  moreover obtain m' where "inodes s i = Some (?n\<lparr>i_data := replicate (length d') 0, i_mtime := m'\<rparr>)"
    using c by (auto simp: converted_def)
  ultimately show ?thesis using r(1) r(2) [OF ij] by (simp add: node_at_Some) blast
qed

section \<open>On a concrete directory\<close>

fun run_steps ::
    "'h hdf5_lib \<Rightarrow> codec_lib \<Rightarrow> dz_alg \<Rightarrow> int \<Rightarrow> int \<Rightarrow> nat \<Rightarrow> job \<times> 'h st \<Rightarrow> (job \<times> 'h st) option" where
  "run_steps H L alg junk_src junk_h5 0 x = Some x"
| "run_steps H L alg junk_src junk_h5 (Suc k) x =
     Option.bind (convert_step H L alg junk_src junk_h5 (fst x) (snd x)) (run_steps H L alg junk_src junk_h5 k)"

lemma run_steps_convert:
  "run_steps H L alg junk_src junk_h5 k x = Some y \<Longrightarrow> convert_steps H L alg junk_src junk_h5 x y"
proof (induction k arbitrary: x)
  case 0
  then show ?case by (simp add: no_step)
next
  case (Suc k)
  then obtain z where "convert_step H L alg junk_src junk_h5 (fst x) (snd x) = Some z"
    "run_steps H L alg junk_src junk_h5 k z = Some y" by (auto simp: bind_eq_Some_conv)
  with Suc.IH next_step show ?case by (metis prod.collapse)
qed

text \<open>Six steps to the rename, then the program writes two bytes, and five more to the end.\<close>

lemma overwritten_run:
  "\<exists>w1 n w2.
     run_steps sim_hdf5 sim_codec DZ_ALG_ZSTD 0 0 (Suc (Suc (Suc (Suc (Suc (Suc 0)))))) (Checks ''/f'', (pair_os, demo_h5)) =
       Some (RenameTemp ''/f'' (hidden_name ''/f'') 1 1, w1) \<and>
     node_at (fst w1) (comps ''/f'') = Some (1, n) \<and>
     run_steps sim_hdf5 sim_codec DZ_ALG_ZSTD 0 0 (Suc (Suc (Suc (Suc (Suc 0)))))
       (RenameTemp ''/f'' (hidden_name ''/f'') 1 1, (set_data 1 n [8, 9] (fst w1), snd w1)) = Some (Converted ''/f'' 0, w2)"
  by (simp add: convert_checks_def buildHiddenFile_normal pair_os_def demo_os_def demo_h5_def
      convert_out_def os_eval sim_eval comps_demo pair_names Let_def hdf5_open_def
      alg_version_def hdf5_writestr_def compress_data_def convert_turn_def
      compressdata_zstd_def hdf5_writedata_def uninit_out_def as_int_def)

lemma write_during_conversion_is_lost_witness:
  "\<exists>w2 :: h5sim st. (\<exists>cs. archived sim_codec sim_data w2 (hidden_name ''/f'') [1, 2, 3] cs) \<and>
    (\<exists>n. node_at (fst w2) (comps ''/f'') = Some (1, n) \<and> i_data n = [0, 0])"
proof -
  obtain w1 n w2 where
    r: "run_steps sim_hdf5 sim_codec DZ_ALG_ZSTD 0 0 (Suc (Suc (Suc (Suc (Suc (Suc 0)))))) (Checks ''/f'', (pair_os, demo_h5)) =
      Some (RenameTemp ''/f'' (hidden_name ''/f'') 1 1, w1)" "node_at (fst w1) (comps ''/f'') = Some (1, n)"
      "run_steps sim_hdf5 sim_codec DZ_ALG_ZSTD 0 0 (Suc (Suc (Suc (Suc (Suc 0)))))
       (RenameTemp ''/f'' (hidden_name ''/f'') 1 1, (set_data 1 n [8, 9] (fst w1), snd w1)) = Some (Converted ''/f'' 0, w2)"
    using overwritten_run by blast
  have d: "pair_contents ''/f'' = Some [1, 2, 3]" by (simp add: pair_contents_def)
  note lost = write_during_conversion_is_lost [OF sim_hdf5_contract sim_codec_zstd order_refl order_refl pair_paths
      pair_start d run_steps_convert [OF r(1)] r(2) run_steps_convert [OF r(3)]]
  then obtain m where "node_at (fst w2) (comps ''/f'') = Some (1, n\<lparr>i_data := [0, 0], i_mtime := m\<rparr>)"
    by (auto simp: numeral_2_eq_2)
  with lost [THEN conjunct1] show ?thesis by (intro exI [of _ w2]) simp
qed

end
