(* ===== verification/Restart.thy ===== *)
theory Restart
  imports Crowd Overwrite
begin

text \<open>
  The daemon ends, because it is killed or because it exits, and is started again. A process that ends leaves its HDF5 files as they are on the disk, and
  what is in those that it had open is not known: the library writes them when it closes them.
\<close>

section \<open>What is left of a daemon\<close>

definition open_archives :: "job option list \<Rightarrow> 'h st \<Rightarrow> nat set" where
  \<comment> \<open>the inodes of the HDF5 files that the workers have open\<close>
  "open_archives js w = {k. \<exists>t. Some t \<in> set js \<and> job_h5 t \<noteq> None \<and>
     (map_of (names (fst w)) (comps (hidden_name (job_path t))) = Some k \<or>
      map_of (names (fst w)) (comps (tmp_name (hidden_name (job_path t)))) = Some k)}"

definition leaves_disk :: "'h h5files \<Rightarrow> 'h h5data \<Rightarrow> nat set \<Rightarrow> 'h st \<Rightarrow> 'h st \<Rightarrow> bool" where
  \<comment> \<open>\<open>v\<close> is the disk of \<open>w\<close> as a new process finds it, the files \<open>K\<close> with any contents\<close>
  "leaves_disk hf hdat K w v \<longleftrightarrow>
     names (fst v) = names (fst w) \<and> keeps_kinds (fst w) (fst v) \<and>
     (\<forall>k. k \<notin> K \<longrightarrow> inodes (fst v) k = inodes (fst w) k \<and> hdat (fst v) (snd v) k = hdat (fst w) (snd w) k) \<and>
     env (fst v) = [] \<and> hf (snd v) = Map.empty"

definition none_renamed :: "job option list \<Rightarrow> 'h st \<Rightarrow> bool" where
  \<comment> \<open>no worker has renamed its archive and not yet closed it\<close>
  "none_renamed js w \<longleftrightarrow> (\<forall>t. Some t \<in> set js \<longrightarrow> job_h5 t \<noteq> None \<longrightarrow>
     map_of (names (fst w)) (comps (hidden_name (job_path t))) = None)"

lemma killed_file_ok:
  assumes ok: "workers_ok L hf hdat D js w" and gp: "good_paths (dom D)"
    and v: "leaves_disk hf hdat (open_archives js w) w v" and r: "none_renamed js w" and f: "D f = Some d"
  shows "file_ok L hdat v f d"
proof -
  let ?hid = "comps (hidden_name f)"
  have wf: "wf_fs (fst w)" by (rule workers_okD(2) [OF ok])
  have fD: "f \<in> dom D" using f by blast
  with gp have sl: "SLASH \<in> set f" by (simp add: good_paths_def)
  have nm: "names (fst v) = names (fst w)" and same: "\<And>k. k \<notin> open_archives js w \<Longrightarrow>
      inodes (fst v) k = inodes (fst w) k \<and> hdat (fst v) (snd v) k = hdat (fst w) (snd w) k"
    using v by (simp_all add: leaves_disk_def)
  have job: "job_path t \<in> dom D" if "Some t \<in> set js" for t
    using that workers_okD(4) [OF ok] by (auto simp: in_set_conv_nth)
  have names: "q \<notin> {comps (hidden_name g), comps (tmp_name (hidden_name g))}"
    if "g \<in> dom D" "q = comps f \<or> q = ?hid \<and> g \<noteq> f" for g q
  proof (cases "g = f")
    case True
    with that(2) names_distinct [OF sl] show ?thesis by auto
  next
    case False
    with good_paths_apart [OF gp fD that(1)] that(2) show ?thesis by (auto simp: own_names_def)
  qed
  have kept: "k \<notin> open_archives js w"
    if k: "map_of (names (fst w)) q = Some k"
      and q: "q = comps f \<or> q = ?hid \<and> (\<forall>t. Some t \<in> set js \<longrightarrow> job_h5 t \<noteq> None \<longrightarrow> job_path t \<noteq> f)" for k q
  proof
    assume "k \<in> open_archives js w"
    then obtain t where t: "Some t \<in> set js" "job_h5 t \<noteq> None"
      "map_of (names (fst w)) (comps (hidden_name (job_path t))) = Some k \<or>
       map_of (names (fst w)) (comps (tmp_name (hidden_name (job_path t)))) = Some k" by (auto simp: open_archives_def)
    from t(3) wf_fs_inj [OF wf k] have "q \<in> {comps (hidden_name (job_path t)), comps (tmp_name (hidden_name (job_path t)))}"
      by blast
    moreover have "q = comps f \<or> q = ?hid \<and> job_path t \<noteq> f" using q t(1,2) by blast
    ultimately show False using names [OF job [OF t(1)]] by blast
  qed
  note fo = workers_okD(3) [OF ok f]
  then obtain i n where n: "node_at (fst w) (comps f) = Some (i, n)" "\<not> i_dir n"
    "node_at (fst w) ?hid = None \<longrightarrow> i_data n = d" by (auto simp: file_ok_def)
  have "node_at (fst v) (comps f) = Some (i, n)"
    using n(1) nm same [OF kept [of "comps f" i]] by (simp add: node_at_Some)
  moreover have "node_at (fst w) ?hid = None" if none: "node_at (fst v) ?hid = None"
  proof (rule ccontr)
    assume "node_at (fst w) ?hid \<noteq> None"
    then obtain j m where j: "map_of (names (fst w)) ?hid = Some j" "inodes (fst w) j = Some m"
      by (auto simp: node_at_Some)
    from v j(2) obtain m' where "inodes (fst v) j = Some m'" unfolding leaves_disk_def keeps_kinds_def by blast
    with none j(1) nm show False by (simp add: node_at_def)
  qed
  moreover have "\<not> i_dir m' \<and> (\<exists>cs. archived L hdat v (hidden_name f) d cs \<and> aligned d cs)"
    if hid: "node_at (fst v) ?hid = Some (j, m')" for j m'
  proof -
    have j: "map_of (names (fst w)) ?hid = Some j" using hid nm by (simp add: node_at_Some)
    then have "\<forall>t. Some t \<in> set js \<longrightarrow> job_h5 t \<noteq> None \<longrightarrow> job_path t \<noteq> f" using r by (auto simp: none_renamed_def)
    with same [OF kept [OF j]] have s: "inodes (fst v) j = inodes (fst w) j"
      "hdat (fst v) (snd v) j = hdat (fst w) (snd w) j" by blast+
    have "node_at (fst w) ?hid = Some (j, m')" using hid nm s(1) by (simp add: node_at_Some)
    with fo obtain cs where "\<not> i_dir m'" "archived L hdat w (hidden_name f) d cs" "aligned d cs"
      unfolding file_ok_def by blast
    with j s(2) nm show ?thesis by (auto simp: archived_def)
  qed
  ultimately show ?thesis
    using n(2,3) unfolding file_ok_def by (intro conjI exI [of _ i] exI [of _ n] allI impI) simp_all
qed

lemma killed_dir_ok:
  assumes "workers_ok L hf hdat D js w" "good_paths (dom D)"
    and v: "leaves_disk hf hdat (open_archives js w) w v" and "none_renamed js w"
  shows "dir_ok L hf hdat D v"
proof -
  have wf: "wf_fs (fst w)" by (rule workers_okD(2) [OF assms(1)])
  have "wf_fs (fst v)"
    using wf v unfolding wf_fs_def leaves_disk_def keeps_kinds_def by (metis option.exhaust option.distinct(1))
  with killed_file_ok [OF assms] v show ?thesis by (simp add: dir_ok_def leaves_disk_def)
qed

section \<open>Lives\<close>

text \<open>
  The states of a daemon that ends and is started again any number of times. A life ends in any state: the
  process is killed there, or that is a state in which it has exited.
\<close>

inductive lives ::
    "(string pool \<Rightarrow> bool) \<Rightarrow> 'h hdf5_lib \<Rightarrow> codec_lib \<Rightarrow> 'h h5files \<Rightarrow> 'h h5data \<Rightarrow> Policy \<Rightarrow> string \<Rightarrow> int \<Rightarrow> int \<Rightarrow> nat \<Rightarrow>
      'h st \<Rightarrow> 'h crowd \<Rightarrow> bool"
  for P H L hf hdat pol dp junk_src junk_h5 threads w0
where
  first_life: "crowd_reach P H L pol dp junk_src junk_h5 threads w0 x \<Longrightarrow>
    lives P H L hf hdat pol dp junk_src junk_h5 threads w0 x"
| next_life: "lives P H L hf hdat pol dp junk_src junk_h5 threads w0 (x, ts) \<Longrightarrow>
    none_renamed (map job_in ts) (d_disk x) \<Longrightarrow>
    leaves_disk hf hdat (open_archives (map job_in ts) (d_disk x)) (d_disk x) v \<Longrightarrow>
    crowd_reach P H L pol dp junk_src junk_h5 threads v y \<Longrightarrow>
    lives P H L hf hdat pol dp junk_src junk_h5 threads w0 y"

text \<open>C5. The daemon can end at any moment at which no worker is between the rename of its archive and
  the closing of it, whether it is killed or exits by itself at a scan: however often it ends and is started again, with its workers in the middle of their
  conversions, and whatever then is in the archives that they had open, every file of the directory keeps
  its contents. The runs are those of \<open>daemon_at_work\<close>: no system call fails, \<^verbatim>\<open>srcfd\<close> and \<^verbatim>\<open>h5fd\<close> of \<^verbatim>\<open>convert2h5\<close> hold no positive number
  when they are not initialised, and no two workers have the same file. That the daemon can exit in
  the excluded time, and that the contents can be lost then, is \<open>own_exit_loses_contents\<close>.\<close>

theorem daemon_survives_kills:
  assumes "hdf5_contract H hf hdat" "zstd_contract L" "junk_src \<le> 0" "junk_h5 \<le> 0" "flat_dir D dp"
    and "dir_ok L hf hdat D w0" "only_entries D dp (fst w0)"
    and "threads \<le> 1 \<or> (\<forall>p. P p \<longrightarrow> one_each p)"
    and "lives P H L hf hdat pol dp junk_src junk_h5 threads w0 (x, ts)" "D f = Some d"
  shows "file_ok L hdat (d_disk x) f d"
proof -
  have gp: "good_paths (dom D)" using assms(5) by (simp add: flat_dir_def)
  have "crowd_inv L hf hdat D dp y" if "lives P H L hf hdat pol dp junk_src junk_h5 threads w0 y" for y
    using that
  proof induction
    case (first_life x)
    with assms(1-8) show ?case by (intro crowd_inv_reach)
  next
    case (next_life x ts v y)
    note i = crowd_invD [OF next_life.IH]
    have "dir_ok L hf hdat D v" by (rule killed_dir_ok [OF i(1) gp next_life(3,2)])
    moreover have "only_entries D dp (fst v)"
      using i(2) next_life(3) by (auto simp: entries_inv_def leaves_disk_def intro: only_entries_cong)
    ultimately show ?case using assms(1-5,8) next_life(4) by (intro crowd_inv_reach)
  qed
  from workers_okD(3) [OF crowd_invD(1) [OF this [OF assms(9)]] assms(10)] show ?thesis .
qed

section \<open>On a concrete directory\<close>

text \<open>The daemon is killed when its worker has stored a block of \<^verbatim>\<open>//f\<close>; what it has stored is gone.\<close>

lemma killed_job:
  "\<exists>s h. run_steps sim_hdf5 sim_codec DZ_ALG_ZSTD 0 0 (Suc (Suc (Suc (Suc (Suc 0)))))
       (Checks ''//f'', (life_os\<lparr>errno := ENOENT\<rparr>, demo_h5)) =
       Some (NextBlock ''//f'' (hidden_name ''//f'') 1 1 (Suc 0), (s, h)) \<and>
     map_of (names s) (comps (tmp_name (hidden_name ''//f''))) = Some 2 \<and>
     map_of (names s) (comps (hidden_name ''//f'')) = None \<and> env s = [] \<and>
     (\<forall>k. k \<noteq> 2 \<longrightarrow> h5_sets h k = Map.empty)"
  by (simp add: convert_checks_def buildHiddenFile_normal life_os_def demo_os_def demo_h5_def
      convert_out_def os_eval sim_eval life_names Let_def hdf5_open_def
      alg_version_def hdf5_writestr_def compress_data_def convert_turn_def
      compressdata_zstd_def hdf5_writedata_def uninit_out_def as_int_def)

lemma life_looks:
  assumes "task_steps sim_hdf5 sim_codec demo_policy 0 0 (Converting (Checks ''//f''), (life_os\<lparr>errno := ENOENT\<rparr>, demo_h5)) z"
  shows "task_steps sim_hdf5 sim_codec demo_policy 0 0 (Filter ''//f'', (life_os, demo_h5)) z"
proof -
  let ?T = "task_step sim_hdf5 sim_codec demo_policy 0 0"
  have "?T (Filter ''//f'') (life_os, demo_h5) = Some (StatFile ''//f'', (life_os, demo_h5))"
    using life_names by (simp add: match_sysdir_def sysdir_loop_iff match_hiddenfile_eq)
  moreover have "?T (StatFile ''//f'') (life_os, demo_h5) = Some (FindHidden ''//f'', (life_os, demo_h5))"
    by (simp add: sys_stat_def life_os_def demo_os_def node_at_def life_names demo_policy_def stat_of_def)
  moreover have "?T (FindHidden ''//f'') (life_os, demo_h5) =
      Some (Converting (Checks ''//f''), (life_os\<lparr>errno := ENOENT\<rparr>, demo_h5))"
    using life_names
    by (simp add: findhiddenFile_normal life_os_def demo_os_def node_at_def missing_errno_def demo_policy_def)
  ultimately show ?thesis using assms by (blast intro: task_steps.next_step)
qed

lemma killed_life:
  "\<exists>(x :: h5sim daemon) v. lives (\<lambda>_. True) sim_hdf5 sim_codec sim_files sim_data demo_policy ''/'' 0 0 1 (life_os, demo_h5)
       (x, [None]) \<and> d_disk x = v \<and> map_of (names (fst v)) (comps (tmp_name (hidden_name ''//f''))) = Some 2 \<and>
     sim_data (fst v) (snd v) 2 = Map.empty"
proof -
  let ?r = "crowd_reach (\<lambda>_. True) sim_hdf5 sim_codec demo_policy ''/'' 0 0 1"
  let ?x = life_submitted
  let ?job = "NextBlock ''//f'' (hidden_name ''//f'') 1 1 (Suc 0)"
  obtain s h where k: "run_steps sim_hdf5 sim_codec DZ_ALG_ZSTD 0 0 (Suc (Suc (Suc (Suc (Suc 0)))))
       (Checks ''//f'', (life_os\<lparr>errno := ENOENT\<rparr>, demo_h5)) = Some (?job, (s, h))"
    and tmp: "map_of (names s) (comps (tmp_name (hidden_name ''//f''))) = Some 2"
    and hid: "map_of (names s) (comps (hidden_name ''//f'')) = None" and e: "env s = []"
    and sets: "\<forall>k. k \<noteq> 2 \<longrightarrow> h5_sets h k = Map.empty" using killed_job by blast
  have "task_steps sim_hdf5 sim_codec demo_policy 0 0 (Converting ?job, (s, h)) (Converting ?job, (s, h))"
    by (rule task_steps.no_step)
  with converting_steps [OF run_steps_convert [OF k]]
  have "task_steps sim_hdf5 sim_codec demo_policy 0 0
      (Converting (Checks ''//f''), (life_os\<lparr>errno := ENOENT\<rparr>, demo_h5)) (Converting ?job, (s, h))" by simp
  from task_steps_crowd [OF life_looks [OF this], of 0 "[Some (Filter ''//f'')]" ?x] crowd_begins
  have "?r (life_os, demo_h5) (?x\<lparr>d_disk := (s, h)\<rparr>, [Some (Converting ?job)])"
    by (simp add: life_submitted_def)
  then have first: "lives (\<lambda>_. True) sim_hdf5 sim_codec sim_files sim_data demo_policy ''/'' 0 0 1 (life_os, demo_h5)
      (?x\<lparr>d_disk := (s, h)\<rparr>, [Some (Converting ?job)])" by (rule first_life)
  let ?y = "(new_daemon 1 (s, demo_h5), replicate 1 None) :: h5sim crowd"
  have "?r (s, demo_h5) ?y" by (rule crowd_reach.start)
  moreover have "leaves_disk sim_files sim_data (open_archives [Some ?job] (s, h)) (s, h) (s, demo_h5)"
    using tmp e sets by (auto simp: leaves_disk_def open_archives_def keeps_kinds_def demo_h5_def)
  moreover have "none_renamed [Some ?job] (s, h)" using hid by (simp add: none_renamed_def)
  ultimately have "lives (\<lambda>_. True) sim_hdf5 sim_codec sim_files sim_data demo_policy ''/'' 0 0 1 (life_os, demo_h5) ?y"
    by (intro next_life [OF first]) simp_all
  then show ?thesis using tmp by (intro exI [of _ "fst ?y"] exI [of _ "(s, demo_h5)"]) (simp add: demo_h5_def new_daemon_def)
qed

lemma daemon_survives_kills_witness:
  "\<exists>v :: h5sim st. map_of (names (fst v)) (comps (tmp_name (hidden_name ''//f''))) = Some 2 \<and>
     sim_data (fst v) (snd v) 2 = Map.empty \<and> file_ok sim_codec sim_data v ''//f'' [1, 2, 3]"
proof -
  obtain x :: "h5sim daemon" and v where
    x: "lives (\<lambda>_. True) sim_hdf5 sim_codec sim_files sim_data demo_policy ''/'' 0 0 1 (life_os, demo_h5) (x, [None])"
    "d_disk x = v" "map_of (names (fst v)) (comps (tmp_name (hidden_name ''//f''))) = Some 2"
    "sim_data (fst v) (snd v) 2 = Map.empty" using killed_life by blast
  from life_start(3) have "only_entries life_contents ''/'' (fst (life_os, demo_h5))" by simp
  moreover have "life_contents ''//f'' = Some [1, 2, 3]" by (simp add: life_contents_def)
  ultimately have "file_ok sim_codec sim_data (d_disk x) ''//f'' [1, 2, 3]"
    by (rule daemon_survives_kills [OF sim_hdf5_contract sim_codec_zstd order_refl order_refl life_start(2,1) _
          disjI1 [OF order_refl] x(1)])
  with x(2-4) show ?thesis by blast
qed

end
