(* ===== verification/Exits.thy ===== *)
theory Exits
  imports Restart
begin

text \<open>
  The daemon ends itself: the scan of \<^verbatim>\<open>src/dzfile-walker.cc\<close> exits when the \<^verbatim>\<open>stat\<close> of a name that it has read
  fails, as it does for a temporary file that a worker has renamed in the meantime.
\<close>

section \<open>A scan that comes too late\<close>

lemma late_names:
  "comps ''//.f.DZF.tmp'' = [''.f.DZF.tmp'']" "entry_path ''/'' ''.f.DZF.tmp'' = ''//.f.DZF.tmp''"
  by code_simp+

text \<open>
  The worker has stored its block of \<^verbatim>\<open>//f\<close> when the directory is read, and when the scan comes to
  the temporary file it has renamed it and overwritten \<^verbatim>\<open>//f\<close>; the archive is not closed yet.
\<close>

lemma late_job:
  "\<exists>s h s2 h2. run_steps sim_hdf5 sim_codec DZ_ALG_ZSTD 0 0 (Suc (Suc (Suc (Suc (Suc 0)))))
       (Checks ''//f'', (life_os\<lparr>errno := ENOENT\<rparr>, demo_h5)) =
       Some (NextBlock ''//f'' (hidden_name ''//f'') 1 1 (Suc 0), (s, h)) \<and>
     sys_opendir ''/'' s = (Some [''.'', ''..'', ''f'', ''.f.DZF.tmp''], s) \<and>
     scan_entries demo_policy ''/'' [''.''] [] s = Some (Scanned [], s) \<and>
     scan_entries demo_policy ''/'' [''..''] [] s = Some (Scanned [], s) \<and>
     scan_entries demo_policy ''/'' [''f''] [] s = Some (Scanned [''//f''], s) \<and>
     run_steps sim_hdf5 sim_codec DZ_ALG_ZSTD 0 0 (Suc (Suc (Suc (Suc (Suc 0)))))
       (NextBlock ''//f'' (hidden_name ''//f'') 1 1 (Suc 0), (s, h)) = Some (AtOut ''//f'' 0 1 1, (s2, h2)) \<and>
     scan_entries demo_policy ''/'' [''.f.DZF.tmp''] [] s2 = Some (Exit 1, s2\<lparr>errno := ENOENT\<rparr>) \<and>
     map_of (names s2) (comps (hidden_name ''//f'')) = Some 2 \<and> env s2 = [] \<and>
     node_at s2 (comps ''//f'') = Some (1, demo_inode\<lparr>i_data := replicate 3 0, i_mtime := 7\<rparr>) \<and>
     (\<forall>k. k \<noteq> 2 \<longrightarrow> h5_sets h2 k = Map.empty)"
  by (simp add: convert_checks_def buildHiddenFile_normal life_os_def demo_os_def demo_h5_def demo_inode_def
      convert_out_def os_eval sim_eval life_names late_names Let_def hdf5_open_def sys_opendir_def dir_entries_def
      alg_version_def hdf5_writestr_def compress_data_def convert_turn_def stat_of_def demo_policy_def
      compressdata_zstd_def hdf5_writedata_def uninit_out_def as_int_def entry_path_def)

definition again_pool :: "string pool" where
  \<comment> \<open>the file has been submitted a second time\<close>
  "again_pool = life_pool\<lparr>p_tasks := [''//f''], p_submitted := [''//f'', ''//f'']\<rparr>"

lemma scan_again:
  fixes h :: h5sim
  assumes "sys_opendir ''/'' s = (Some [''.'', ''..'', ''f'', ''.f.DZF.tmp''], s)"
    and "scan_entries demo_policy ''/'' [''.''] [] s = Some (Scanned [], s)"
    and "scan_entries demo_policy ''/'' [''..''] [] s = Some (Scanned [], s)"
    and "scan_entries demo_policy ''/'' [''f''] [] s = Some (Scanned [''//f''], s)"
  shows "(main_step demo_policy ''/'')\<^sup>*\<^sup>*
    \<lparr>d_pool = life_pool, d_disk = (s, h), d_scan = Some [], d_exit = None\<rparr>
    \<lparr>d_pool = again_pool, d_disk = (s, h), d_scan = Some [''.f.DZF.tmp''], d_exit = None\<rparr>"
proof -
  let ?M = "main_step demo_policy ''/'' :: h5sim daemon \<Rightarrow> h5sim daemon \<Rightarrow> bool"
  define w p where "w = (s, h)" and "p = life_pool\<lparr>p_client := Idle\<rparr>"
  let ?x = "\<lambda>p sc. \<lparr>d_pool = p, d_disk = w, d_scan = sc, d_exit = None\<rparr> :: h5sim daemon"
  have "pool_step NotifyOne life_pool p"
    unfolding p_def by (rule notify_none) (simp_all add: life_pool_def)
  then have 0: "?M (?x life_pool (Some [])) (?x p (Some []))"
    using pool_event [of "?x life_pool (Some [])" NotifyOne p] by simp
  have 1: "?M (?x p (Some [])) (?x p None)" using close_dir [of "?x p (Some [])"] by simp
  have 2: "?M (?x p None) (?x p (Some [''.'', ''..'', ''f'', ''.f.DZF.tmp'']))"
    using open_dir [of "?x p None"] assms(1) by (simp add: w_def)
  have 3: "?M (?x p (Some [''.'', ''..'', ''f'', ''.f.DZF.tmp''])) (?x p (Some [''..'', ''f'', ''.f.DZF.tmp'']))"
    using young [of "?x p (Some [''.'', ''..'', ''f'', ''.f.DZF.tmp''])"] assms(2) by (simp add: w_def)
  have 4: "?M (?x p (Some [''..'', ''f'', ''.f.DZF.tmp''])) (?x p (Some [''f'', ''.f.DZF.tmp'']))"
    using young [of "?x p (Some [''..'', ''f'', ''.f.DZF.tmp''])"] assms(3) by (simp add: w_def)
  have ap: "again_pool = p\<lparr>p_tasks := p_tasks p @ [''//f''], p_client := Notifying, p_submitted := p_submitted p @ [''//f'']\<rparr>"
    by (simp add: again_pool_def p_def life_pool_def)
  have "pool_step (Enqueue ''//f'') p again_pool" unfolding ap by (rule pool_step.enqueue) (simp add: p_def)
  then have 5: "?M (?x p (Some [''f'', ''.f.DZF.tmp''])) (?x again_pool (Some [''.f.DZF.tmp'']))"
    using submit [of "?x p (Some [''f'', ''.f.DZF.tmp''])"] assms(4) by (simp add: w_def)
  from 0 1 2 3 4 5 have "?M\<^sup>*\<^sup>* (?x life_pool (Some [])) (?x again_pool (Some [''.f.DZF.tmp'']))"
    by (meson converse_rtranclp_into_rtranclp rtranclp.rtrancl_refl)
  then show ?thesis by (simp add: w_def)
qed

lemma run_steps_tasks:
  assumes "run_steps H L DZ_ALG_ZSTD junk_src junk_h5 k (t, w) = Some (t', w')"
  shows "task_steps H L pol junk_src junk_h5 (Converting t, w) (Converting t', w')"
  using converting_steps [OF run_steps_convert [OF assms], of pol "(Converting t', w')"]
  by (simp add: task_steps.no_step)

text \<open>C20. The daemon can lose a file by ending itself. There is a run, without any failing call, in which the scan reads
  the name of a temporary file, a worker then renames that file, and the scan exits on the \<^verbatim>\<open>stat\<close> that fails; at
  that moment the worker has overwritten the source and not yet closed the archive. If what the library
  had not flushed is lost then, which the promises assumed of it allow, the disk holds the zeros and
  an empty archive. (HDF5 may close its files in an exit handler of its own; nothing is assumed about
  that, nor about what such a handler can do while the worker uses the file.)\<close>

theorem own_exit_loses_contents:
  "\<exists>(x :: h5sim daemon) ts v.
     crowd_reach (\<lambda>_. True) sim_hdf5 sim_codec demo_policy ''/'' 0 0 1 (life_os, demo_h5) (x, ts) \<and>
     dir_ok sim_codec sim_files sim_data [''//f'' \<mapsto> [1, 2, 3]] (life_os, demo_h5) \<and>
     d_exit x = Some 1 \<and>
     leaves_disk sim_files sim_data (open_archives (map job_in ts) (d_disk x)) (d_disk x) v \<and>
     node_at (fst v) (comps ''//f'') = Some (1, demo_inode\<lparr>i_data := replicate 3 0, i_mtime := 7\<rparr>) \<and>
     (\<exists>j. map_of (names (fst v)) (comps (hidden_name ''//f'')) = Some j \<and> sim_data (fst v) (snd v) j = Map.empty)"
proof -
  let ?r = "crowd_reach (\<lambda>_. True) sim_hdf5 sim_codec demo_policy ''/'' 0 0 1 (life_os, demo_h5)"
  let ?job = "NextBlock ''//f'' (hidden_name ''//f'') 1 1 (Suc 0)" and ?out = "AtOut ''//f'' 0 1 1"
  obtain s h s2 h2 where r1: "run_steps sim_hdf5 sim_codec DZ_ALG_ZSTD 0 0 (Suc (Suc (Suc (Suc (Suc 0)))))
       (Checks ''//f'', (life_os\<lparr>errno := ENOENT\<rparr>, demo_h5)) = Some (?job, (s, h))"
    and sc: "sys_opendir ''/'' s = (Some [''.'', ''..'', ''f'', ''.f.DZF.tmp''], s)"
      "scan_entries demo_policy ''/'' [''.''] [] s = Some (Scanned [], s)"
      "scan_entries demo_policy ''/'' [''..''] [] s = Some (Scanned [], s)"
      "scan_entries demo_policy ''/'' [''f''] [] s = Some (Scanned [''//f''], s)"
    and r2: "run_steps sim_hdf5 sim_codec DZ_ALG_ZSTD 0 0 (Suc (Suc (Suc (Suc (Suc 0))))) (?job, (s, h)) = Some (?out, (s2, h2))"
    and ex: "scan_entries demo_policy ''/'' [''.f.DZF.tmp''] [] s2 = Some (Exit 1, s2\<lparr>errno := ENOENT\<rparr>)"
    and hid: "map_of (names s2) (comps (hidden_name ''//f'')) = Some 2" and e: "env s2 = []"
    and f: "node_at s2 (comps ''//f'') = Some (1, demo_inode\<lparr>i_data := replicate 3 0, i_mtime := 7\<rparr>)"
    and sets: "\<forall>k. k \<noteq> 2 \<longrightarrow> h5_sets h2 k = Map.empty" using late_job by blast
  let ?x = "\<lambda>p w sc ex. \<lparr>d_pool = p, d_disk = w, d_scan = sc, d_exit = ex\<rparr> :: h5sim daemon"
  let ?tmp = "Some [''.f.DZF.tmp'']" and ?ts = "[Some (Converting ?out)]" and ?s = "s2\<lparr>errno := ENOENT\<rparr>"
  from task_steps_crowd [OF life_looks [OF run_steps_tasks [OF r1]], of 0 "[Some (Filter ''//f'')]" life_submitted] crowd_begins
  have "?r (?x life_pool (s, h) (Some []) None, [Some (Converting ?job)])" by (simp add: life_submitted_def)
  from main_steps_crowd [OF scan_again [OF sc] this]
  have "?r (?x again_pool (s, h) ?tmp None, [Some (Converting ?job)])" .
  from task_steps_crowd [OF run_steps_tasks [OF r2] _ _ _ this, of 0]
  have "?r (?x again_pool (s2, h2) ?tmp None, ?ts)" by simp
  moreover have "main_step demo_policy ''/'' (?x again_pool (s2, h2) ?tmp None) (?x again_pool (?s, h2) ?tmp (Some 1))"
    using gone [of "?x again_pool (s2, h2) ?tmp None"] ex by simp
  ultimately have r: "?r (?x again_pool (?s, h2) ?tmp (Some 1), ?ts)"
    by (blast intro: crowd_reach.step main_thread)
  have "leaves_disk sim_files sim_data (open_archives (map job_in ?ts) (?s, h2)) (?s, h2) (?s, demo_h5)"
    using hid e sets by (auto simp: leaves_disk_def open_archives_def keeps_kinds_def demo_h5_def)
  moreover have "node_at ?s = node_at s2" by (rule node_at_cong) simp_all
  ultimately show ?thesis using r life_start(1) f hid
    by (intro exI [of _ "?x again_pool (?s, h2) ?tmp (Some 1)"] exI [of _ ?ts] exI [of _ "(?s, demo_h5)"])
      (simp add: life_contents_def demo_h5_def)
qed

end
