(* ===== verification/Isal.thy ===== *)
theory Isal
  imports Codec
begin

text \<open>
  The codec over ISA-L, \<^verbatim>\<open>src/compress-isal.c\<close>, which the build does not include and no caller
  selects. The library is a parameter, as functions on its stream states; what has been written
  to the output buffer is the list \<open>next_out\<close>, with \<open>avail_out\<close> bytes behind it.
\<close>

record isal_zstream =
  next_in :: bytes
  end_of_stream :: bool
  zlevel :: nat
  level_buf_size :: nat
  gzip_no_hdr :: bool
  next_out :: bytes
  avail_out :: nat

record inflate_state =
  i_next_in :: bytes
  i_gzip_no_hdr_ver :: bool
  i_next_out :: bytes
  i_avail_out :: nat

record isal_lib =
  isal_level_size :: "nat \<Rightarrow> nat"    \<comment> \<open>the constants \<^verbatim>\<open>ISAL_DEF_LVL0_DEFAULT\<close> to \<^verbatim>\<open>9\<close>, 0 where undefined\<close>
  isal_write_gzip_header :: "nat \<Rightarrow> isal_zstream \<Rightarrow> nat \<times> isal_zstream"   \<comment> \<open>for the \<^verbatim>\<open>os\<close> given\<close>
  isal_deflate :: "isal_zstream \<Rightarrow> int \<times> isal_zstream"
  isal_read_gzip_header :: "inflate_state \<Rightarrow> int \<times> inflate_state"
  isal_inflate :: "inflate_state \<Rightarrow> int \<times> inflate_state"

abbreviation (input) ISAL_DECOMP_OK :: int where "ISAL_DECOMP_OK \<equiv> 0"
abbreviation (input) LEVEL_DEFAULT :: nat where "LEVEL_DEFAULT \<equiv> 2"
abbreviation (input) UNIX :: nat where "UNIX \<equiv> 3"

definition ISAL_BUF_SIZE :: nat where
  "ISAL_BUF_SIZE = 4 * 1024 * 1024"

definition level_size_buf :: "isal_lib \<Rightarrow> nat \<Rightarrow> nat" where
  "level_size_buf L level = isal_level_size L level"

section \<open>The two functions\<close>

definition compressdata_isa :: "isal_lib \<Rightarrow> outp \<Rightarrow> bytes \<Rightarrow> os \<Rightarrow> (int \<times> outp) \<times> os" where
  "compressdata_isa L out srcdata s =
     (let outbuf_size = ISAL_BUF_SIZE * 2; bufsize = level_size_buf L LEVEL_DEFAULT in
      case sys_malloc s of (outbuf, s1) \<Rightarrow>
      (case sys_malloc s1 of (level_buf, s2) \<Rightarrow>
        if \<not> outbuf \<or> \<not> level_buf then ((-1, out), s2)
        else
          let stream = \<lparr>next_in = [], end_of_stream = False, zlevel = LEVEL_DEFAULT,
                level_buf_size = bufsize, gzip_no_hdr = True, next_out = [], avail_out = outbuf_size\<rparr>;
              stream1 = snd (isal_write_gzip_header L UNIX stream);
              stream2 = stream1\<lparr>next_in := srcdata, end_of_stream := True\<rparr>
          in (case isal_deflate L stream2 of (ret, stream3) \<Rightarrow>
                if ret \<noteq> ISAL_DECOMP_OK then ((-1, out), s2)
                else ((0, \<lparr>dstdata = Some (next_out stream3),
                           dstlen = Some (int (length (next_out stream3)))\<rparr>), s2))))"

text \<open>The result is copied to the buffer of the caller, however large that is.\<close>

definition decompressdata_isa :: "isal_lib \<Rightarrow> outp \<Rightarrow> bytes \<Rightarrow> os \<Rightarrow> ((int \<times> outp) \<times> os) option" where
  "decompressdata_isa L out zipdata s =
     (case sys_malloc s of
        (False, s1) \<Rightarrow> Some ((-1, out), s1)
      | (True, s1) \<Rightarrow>
          let state = \<lparr>i_next_in = zipdata, i_gzip_no_hdr_ver = True, i_next_out = [], i_avail_out = 0\<rparr> in
          (case isal_read_gzip_header L state of (ret, state1) \<Rightarrow>
             if ret \<noteq> ISAL_DECOMP_OK then Some ((-1, out), s1)
             else (case isal_inflate L (state1\<lparr>i_next_out := [], i_avail_out := ISAL_BUF_SIZE * 2\<rparr>) of
                 (ret, state2) \<Rightarrow>
                   if ret \<noteq> ISAL_DECOMP_OK then Some ((-1, out), s1)
                   else do {
                     let d = i_next_out state2;
                     dst \<leftarrow> dstdata out;
                     guard_ub (length d \<le> length dst);
                     Some ((0, \<lparr>dstdata = Some (d @ drop (length d) dst),
                                dstlen = Some (int (length d))\<rparr>), s1) })))"

section \<open>The round trip\<close>

text \<open>
  A header of fixed bytes; deflating to the end of the stream succeeds, also when the output
  does not fit, and then has written as much as fits; the reader finds the header and the data.
\<close>

definition isal_contract :: "isal_lib \<Rightarrow> bytes \<Rightarrow> (bytes \<Rightarrow> bytes) \<Rightarrow> bool" where
  "isal_contract L hdr defl \<longleftrightarrow>
     (\<forall>s. length hdr \<le> avail_out s \<longrightarrow> isal_write_gzip_header L UNIX s =
        (0, s\<lparr>next_out := next_out s @ hdr, avail_out := avail_out s - length hdr\<rparr>)) \<and>
     (\<forall>s. end_of_stream s \<and> zlevel s = LEVEL_DEFAULT \<and> level_buf_size s = isal_level_size L LEVEL_DEFAULT \<and>
          gzip_no_hdr s \<longrightarrow>
        (\<exists>s'. isal_deflate L s = (0, s') \<and>
           next_out s' = next_out s @ take (avail_out s) (defl (next_in s)))) \<and>
     (\<forall>s z. i_next_in s = hdr @ z \<longrightarrow> isal_read_gzip_header L s = (0, s\<lparr>i_next_in := z\<rparr>)) \<and>
     (\<forall>s d. i_gzip_no_hdr_ver s \<and> i_next_in s = defl d \<and> i_next_out s = [] \<and> length d \<le> i_avail_out s \<longrightarrow>
        (\<exists>s'. isal_inflate L s = (0, s') \<and> i_next_out s' = d))"

lemma isal_contractD:
  assumes "isal_contract L hdr defl"
  shows "length hdr \<le> avail_out s \<Longrightarrow> isal_write_gzip_header L UNIX s =
        (0, s\<lparr>next_out := next_out s @ hdr, avail_out := avail_out s - length hdr\<rparr>)"
    and "end_of_stream s \<Longrightarrow> zlevel s = LEVEL_DEFAULT \<Longrightarrow>
        level_buf_size s = isal_level_size L LEVEL_DEFAULT \<Longrightarrow> gzip_no_hdr s \<Longrightarrow>
        \<exists>s'. isal_deflate L s = (0, s') \<and> next_out s' = next_out s @ take (avail_out s) (defl (next_in s))"
    and "i_next_in t = hdr @ z \<Longrightarrow> isal_read_gzip_header L t = (0, t\<lparr>i_next_in := z\<rparr>)"
    and "i_gzip_no_hdr_ver t \<Longrightarrow> i_next_in t = defl d \<Longrightarrow> i_next_out t = [] \<Longrightarrow> length d \<le> i_avail_out t \<Longrightarrow>
        \<exists>s'. isal_inflate L t = (0, s') \<and> i_next_out s' = d"
  using assms unfolding isal_contract_def by blast+

text \<open>What \<open>compressdata_isa\<close> reports as a success is cut at 8 MiB. Up to there \<open>decompressdata_isa\<close>
  gives the data back.\<close>

lemma compressdata_isa_result:
  assumes L: "isal_contract L hdr defl" and hdr: "length hdr \<le> 8 * 1024 * 1024" and e: "env s = []"
  shows "compressdata_isa L out src s =
    ((0, \<lparr>dstdata = Some (take (8 * 1024 * 1024) (hdr @ defl src)),
          dstlen = Some (int (min (8 * 1024 * 1024) (length hdr + length (defl src))))\<rparr>), s)"
proof -
  let ?s0 = "\<lparr>next_in = [], end_of_stream = False, zlevel = LEVEL_DEFAULT,
      level_buf_size = isal_level_size L LEVEL_DEFAULT, gzip_no_hdr = True, next_out = [],
      avail_out = ISAL_BUF_SIZE * 2\<rparr>"
  let ?s1 = "?s0\<lparr>next_out := hdr, avail_out := ISAL_BUF_SIZE * 2 - length hdr, next_in := src, end_of_stream := True\<rparr>"
  have h: "isal_write_gzip_header L UNIX ?s0 =
      (0, ?s0\<lparr>next_out := hdr, avail_out := ISAL_BUF_SIZE * 2 - length hdr\<rparr>)"
    using isal_contractD(1) [OF L, of ?s0] hdr unfolding ISAL_BUF_SIZE_def by simp
  have t: "hdr @ take (8 * 1024 * 1024 - length hdr) (defl src) = take (8 * 1024 * 1024) (hdr @ defl src)"
    using hdr by simp
  obtain s' where s': "isal_deflate L ?s1 = (0, s')" "next_out s' = take (8 * 1024 * 1024) (hdr @ defl src)"
    using isal_contractD(2) [OF L, of ?s1] t unfolding ISAL_BUF_SIZE_def by auto
  show ?thesis using e h s'(1) by (simp add: compressdata_isa_def sys_malloc_def level_size_buf_def Let_def s'(2))
qed

theorem isal_roundtrip:
  assumes "isal_contract L hdr defl" "length hdr + length (defl src) \<le> 8 * 1024 * 1024"
    and "length src \<le> 8 * 1024 * 1024" "length src \<le> length buf" "env s = []"
  shows "\<exists>z. compressdata_isa L out src s = ((0, \<lparr>dstdata = Some z, dstlen = Some (int (length z))\<rparr>), s) \<and>
    decompressdata_isa L \<lparr>dstdata = Some buf, dstlen = n\<rparr> z s =
      Some ((0, \<lparr>dstdata = Some (src @ drop (length src) buf), dstlen = Some (int (length src))\<rparr>), s)"
proof -
  let ?t = "\<lparr>i_next_in = hdr @ defl src, i_gzip_no_hdr_ver = True, i_next_out = [], i_avail_out = 0\<rparr>"
  have b: "ISAL_BUF_SIZE * 2 = 8 * 1024 * 1024" by (simp add: ISAL_BUF_SIZE_def)
  have c: "compressdata_isa L out src s = ((0, \<lparr>dstdata = Some (hdr @ defl src),
      dstlen = Some (int (length (hdr @ defl src)))\<rparr>), s)"
    using compressdata_isa_result [OF assms(1) _ assms(5), of out src] assms(2) by simp
  have r: "isal_read_gzip_header L ?t = (0, ?t\<lparr>i_next_in := defl src\<rparr>)"
    by (rule isal_contractD(3) [OF assms(1)]) simp
  obtain s' where "isal_inflate L (?t\<lparr>i_next_in := defl src, i_next_out := [], i_avail_out := ISAL_BUF_SIZE * 2\<rparr>) = (0, s')"
    "i_next_out s' = src"
    using isal_contractD(4) [OF assms(1), of
        "?t\<lparr>i_next_in := defl src, i_next_out := [], i_avail_out := ISAL_BUF_SIZE * 2\<rparr>" src] assms(3) b
    by auto
  with c r assms(4,5) show ?thesis
    by (simp add: decompressdata_isa_def sys_malloc_def guard_ub_def Let_def)
qed

text \<open>A library that stores the data behind a header of one byte.\<close>

definition sim_isal :: isal_lib where
  "sim_isal =
     \<lparr>isal_level_size = (\<lambda>l. 0),
      isal_write_gzip_header = (\<lambda>os s. (0, s\<lparr>next_out := next_out s @ [0x1F], avail_out := avail_out s - 1\<rparr>)),
      isal_deflate = (\<lambda>s. (0, s\<lparr>next_out := next_out s @ take (avail_out s) (next_in s)\<rparr>)),
      isal_read_gzip_header = (\<lambda>s. (0, s\<lparr>i_next_in := tl (i_next_in s)\<rparr>)),
      isal_inflate = (\<lambda>s. (0, s\<lparr>i_next_out := take (i_avail_out s) (i_next_in s)\<rparr>))\<rparr>"

lemma sim_isal_contract: "isal_contract sim_isal [0x1F] (\<lambda>d. d)"
  by (simp add: isal_contract_def sim_isal_def)

lemma isal_roundtrip_witness:
  assumes "env s = []"
  shows "\<exists>z. compressdata_isa sim_isal out [1, 2] s =
      ((0, \<lparr>dstdata = Some z, dstlen = Some (int (length z))\<rparr>), s) \<and>
    decompressdata_isa sim_isal \<lparr>dstdata = Some [0, 0, 0], dstlen = n\<rparr> z s =
      Some ((0, \<lparr>dstdata = Some [1, 2, 0], dstlen = Some 2\<rparr>), s)"
proof -
  have "length [0x1F :: byte] + length [1, 2 :: byte] \<le> 8 * 1024 * 1024" "length [1, 2 :: byte] \<le> 8 * 1024 * 1024"
    "length [1, 2 :: byte] \<le> length [0, 0, 0 :: byte]" by simp_all
  from isal_roundtrip [OF sim_isal_contract this assms] show ?thesis by simp
qed

end
