(* ===== verification/Fpga.thy ===== *)
theory Fpga
  imports Codec "HOL-Library.Sublist"
begin

text \<open>
  The codec on the FPGA card (\<^verbatim>\<open>src/compress-fpga.cc\<close>) and its driver (\<^verbatim>\<open>src/srai_accel_utils.cc\<close>,
  \<^verbatim>\<open>src/include/pcie_memio.h\<close>): registers in a mapped page, two character devices for the data,
  the programming of the card, and the two threads that send and receive.

  The card is a parameter. The state of the driver is the history of what it has done to the
  card; what a register reads as and what comes from the card are functions of that history.
\<close>

unbundle bit_operations_syntax

section \<open>Registers and transfers\<close>

datatype io =
    Poke "32 word" "32 word"
  | Peek "32 word"
  | Seek int "64 word"
  | WriteCard int bytes
  | ReadCard int nat

type_synonym hist = "io list"

record device =
  node_open :: "string \<Rightarrow> int"                          \<comment> \<open>the descriptor, or -1\<close>
  node_mmap :: bool
  node_munmap :: bool
  reg_value :: "hist \<Rightarrow> 32 word \<Rightarrow> 32 word"
  card_write :: "hist \<Rightarrow> int \<Rightarrow> bytes \<Rightarrow> int"
  card_read :: "hist \<Rightarrow> int \<Rightarrow> nat \<Rightarrow> bytes option"         \<comment> \<open>\<open>None\<close> where \<^verbatim>\<open>read\<close> fails\<close>

record fpga_xDMA_linux =
  fpga_fp_user :: int
  fpga_fd_c2h :: int
  fpga_fd_h2c :: int

text \<open>\<open>Inl\<close> is the exit of the process in \<^verbatim>\<open>FAUT_CONDITION\<close>.\<close>

definition fpga_xDMA_init :: "device \<Rightarrow> int + fpga_xDMA_linux" where
  "fpga_xDMA_init D =
     (let fp = node_open D ''/dev/xdma0_bypass'' in
      if fp = -1 then Inl 1
      else if \<not> node_mmap D then Inl 1
      else let c2h = node_open D ''/dev/xdma0_c2h_0'' in
        if c2h = -1 then Inl 1
        else let h2c = node_open D ''/dev/xdma0_h2c_0'' in
          if h2c = -1 then Inl 1
          else Inr \<lparr>fpga_fp_user = fp, fpga_fd_c2h = c2h, fpga_fd_h2c = h2c\<rparr>)"

definition fpga_xDMA_clean :: "device \<Rightarrow> int + int" where
  "fpga_xDMA_clean D = (if node_munmap D then Inr 0 else Inl 1)"

definition fpga_clean :: "device \<Rightarrow> int + int" where
  "fpga_clean D = (case fpga_xDMA_clean D of Inl c \<Rightarrow> Inl c | Inr _ \<Rightarrow> Inr 0)"

definition PAGE_SIZE :: int where
  "PAGE_SIZE = 4 * 1024 * 1024"

text \<open>Four bytes at the offset must be within the mapping.\<close>

definition fpga_poke :: "32 word \<Rightarrow> 32 word \<Rightarrow> hist \<Rightarrow> hist option" where
  "fpga_poke register_offset val h = do {
     guard_ub (uint register_offset + 4 \<le> PAGE_SIZE);
     Some (h @ [Poke register_offset val]) }"

definition fpga_peek :: "device \<Rightarrow> 32 word \<Rightarrow> hist \<Rightarrow> (32 word \<times> hist) option" where
  "fpga_peek D register_offset h = do {
     guard_ub (uint register_offset + 4 \<le> PAGE_SIZE);
     Some (reg_value D h register_offset, h @ [Peek register_offset]) }"

text \<open>The result of \<^verbatim>\<open>lseek64\<close> is ignored. The buffer is written as far as \<^verbatim>\<open>read\<close> has stored bytes.\<close>

definition fpga_xDMA_write64 ::
    "device \<Rightarrow> fpga_xDMA_linux \<Rightarrow> 64 word \<Rightarrow> bytes \<Rightarrow> 32 word \<Rightarrow> hist \<Rightarrow> (int \<times> hist) option" where
  "fpga_xDMA_write64 D x AXI_addr buffer sz h = do {
     let h1 = h @ [Seek (fpga_fd_h2c x) AXI_addr];
     guard_ub (unat sz \<le> length buffer);
     let data = take (unat sz) buffer;
     Some (card_write D h1 (fpga_fd_h2c x) data, h1 @ [WriteCard (fpga_fd_h2c x) data]) }"

definition stored_read :: "device \<Rightarrow> int \<Rightarrow> nat \<Rightarrow> bytes \<Rightarrow> hist \<Rightarrow> (int \<times> bytes) option" where
  "stored_read D fd n buffer h =
     (case card_read D h fd n of
        None \<Rightarrow> Some (-1, buffer)
      | Some d \<Rightarrow> do {
          guard_ub (length d \<le> length buffer);
          Some (int (length d), d @ drop (length d) buffer) })"

definition fpga_xDMA_read64 ::
    "device \<Rightarrow> fpga_xDMA_linux \<Rightarrow> 64 word \<Rightarrow> bytes \<Rightarrow> 32 word \<Rightarrow> hist \<Rightarrow> ((int \<times> bytes) \<times> hist) option" where
  "fpga_xDMA_read64 D x AXI_addr buffer sz h = do {
     let h1 = h @ [Seek (fpga_fd_c2h x) AXI_addr];
     r \<leftarrow> stored_read D (fpga_fd_c2h x) (unat sz) buffer h1;
     Some (r, h1 @ [ReadCard (fpga_fd_c2h x) (unat sz)]) }"

definition fpga_xDMA_write ::
    "device \<Rightarrow> fpga_xDMA_linux \<Rightarrow> 32 word \<Rightarrow> bytes \<Rightarrow> 32 word \<Rightarrow> hist \<Rightarrow> (int \<times> hist) option" where
  "fpga_xDMA_write D x AXI_addr = fpga_xDMA_write64 D x (ucast AXI_addr)"

definition fpga_xDMA_read ::
    "device \<Rightarrow> fpga_xDMA_linux \<Rightarrow> 32 word \<Rightarrow> bytes \<Rightarrow> 32 word \<Rightarrow> hist \<Rightarrow> ((int \<times> bytes) \<times> hist) option" where
  "fpga_xDMA_read D x AXI_addr = fpga_xDMA_read64 D x (ucast AXI_addr)"

definition fpga_xfer_data_to_card64 ::
    "device \<Rightarrow> fpga_xDMA_linux \<Rightarrow> 64 word \<Rightarrow> bytes \<Rightarrow> 32 word \<Rightarrow> hist \<Rightarrow> hist option" where
  "fpga_xfer_data_to_card64 D x a buffer n h = map_option snd (fpga_xDMA_write64 D x a buffer n h)"

definition fpga_xfer_data_from_card64 ::
    "device \<Rightarrow> fpga_xDMA_linux \<Rightarrow> 64 word \<Rightarrow> bytes \<Rightarrow> 32 word \<Rightarrow> hist \<Rightarrow> (bytes \<times> hist) option" where
  "fpga_xfer_data_from_card64 D x a buffer n h =
     map_option (\<lambda>((count, b), h1). (b, h1)) (fpga_xDMA_read64 D x a buffer n h)"

section \<open>The registers of the card\<close>

abbreviation (input) AXI_LITE_GPIO_BASE :: "32 word" where "AXI_LITE_GPIO_BASE \<equiv> 0x00010000"
abbreviation (input) AXI_LITE_AXI_STATUS :: "32 word" where "AXI_LITE_AXI_STATUS \<equiv> 0x00080000"
abbreviation (input) ICAP_WR_FIFO_REG :: "32 word" where "ICAP_WR_FIFO_REG \<equiv> 0x00030100"
abbreviation (input) ICAP_CNTRL_REG :: "32 word" where "ICAP_CNTRL_REG \<equiv> 0x0003010C"
abbreviation (input) ICAP_STATUS_REG :: "32 word" where "ICAP_STATUS_REG \<equiv> 0x00030110"
abbreviation (input) ICAP_WR_FIFO_VACANCY_REG :: "32 word" where "ICAP_WR_FIFO_VACANCY_REG \<equiv> 0x00030114"
abbreviation (input) NORTH_CONTROL :: "32 word" where "NORTH_CONTROL \<equiv> 0x00100000"
abbreviation (input) NORTH_STATUS :: "32 word" where "NORTH_STATUS \<equiv> 0x00100004"
abbreviation (input) NORTH_INPUT_L :: "32 word" where "NORTH_INPUT_L \<equiv> 0x00100008"
abbreviation (input) NORTH_INPUT_H :: "32 word" where "NORTH_INPUT_H \<equiv> 0x0010000C"
abbreviation (input) NORTH_OUTPUT_L :: "32 word" where "NORTH_OUTPUT_L \<equiv> 0x00100010"
abbreviation (input) NORTH_OUTPUT_H :: "32 word" where "NORTH_OUTPUT_H \<equiv> 0x00100014"

definition fpga_read_status :: "device \<Rightarrow> hist \<Rightarrow> (32 word \<times> hist) option" where
  "fpga_read_status D h = fpga_peek D AXI_LITE_AXI_STATUS h"

definition low_word :: "64 word \<Rightarrow> 32 word" where
  "low_word n = ucast (0x00000000FFFFFFFF AND n)"

definition high_word :: "64 word \<Rightarrow> 32 word" where
  "high_word n = ucast (drop_bit 32 (0xFFFFFFFF00000000 AND n))"

definition fpga_run_NORTH_PR64 :: "64 word \<Rightarrow> hist \<Rightarrow> hist option" where
  "fpga_run_NORTH_PR64 num_of_data_sets h = do {
     h \<leftarrow> fpga_poke NORTH_INPUT_L (low_word num_of_data_sets) h;
     h \<leftarrow> fpga_poke NORTH_INPUT_H (high_word num_of_data_sets) h;
     h \<leftarrow> fpga_poke NORTH_CONTROL 1 h;
     fpga_poke NORTH_CONTROL 0 h }"

text \<open>The two reads of the count are operands of one \<^verbatim>\<open>|\<close>; the model takes the left one first.\<close>

definition join_words :: "32 word \<Rightarrow> 32 word \<Rightarrow> 64 word" where
  "join_words lo hi = ucast lo OR push_bit 32 (ucast hi)"

definition fpga_check_completion_bytes_NORTH_PR :: "device \<Rightarrow> hist \<Rightarrow> (64 word \<times> hist) option" where
  "fpga_check_completion_bytes_NORTH_PR D h = do {
     (lo, h) \<leftarrow> fpga_peek D NORTH_OUTPUT_L h;
     (hi, h) \<leftarrow> fpga_peek D NORTH_OUTPUT_H h;
     Some (join_words lo hi, h) }"

definition fpga_check_compute_done_NORTH_PR :: "device \<Rightarrow> hist \<Rightarrow> (bool \<times> hist) option" where
  "fpga_check_compute_done_NORTH_PR D h = do {
     (v, h) \<leftarrow> fpga_peek D NORTH_STATUS h;
     Some (v AND 1 \<noteq> 0, h) }"

lemma low_high_words: "low_word n = ucast n" "high_word n = ucast (drop_bit 32 n)"
proof -
  have m: "(0x00000000FFFFFFFF :: 64 word) = mask 32"
    "(0xFFFFFFFF00000000 :: 64 word) = push_bit 32 (mask 32)"
    by (simp_all add: mask_eq_exp_minus_1 push_bit_eq_mult)
  show "low_word n = ucast n" unfolding low_word_def m
    by (rule bit_word_eqI) (auto simp: bit_simps)
  show "high_word n = ucast (drop_bit 32 n)" unfolding high_word_def m
    by (rule bit_word_eqI) (auto simp: bit_simps)
qed

lemma join_split_words: "join_words (low_word n) (high_word n) = n"
  unfolding join_words_def low_high_words
  by (rule bit_word_eqI) (auto simp: bit_simps)

section \<open>Compression with two threads\<close>

datatype sender = SendReady | SendDone
datatype receiver = RecvStatus | RecvCount bool | RecvXfer | RecvDone

record threads =
  th_hist :: hist
  th_send :: sender
  th_recv :: receiver
  th_size :: "32 word"   \<comment> \<open>the \<^verbatim>\<open>int outbuf_size\<close> that \<^verbatim>\<open>outbuffer_size\<close> points to\<close>
  th_out :: bytes        \<comment> \<open>\<^verbatim>\<open>outbuf\<close>\<close>

text \<open>A step of a thread is a call of the driver.\<close>

fun thread_send ::
    "device \<Rightarrow> fpga_xDMA_linux \<Rightarrow> bytes \<Rightarrow> 32 word \<Rightarrow> threads \<Rightarrow> threads option" where
  "thread_send D x inbuffer inbuffer_size t =
     (case th_send t of
        SendReady \<Rightarrow>
          if 0 <s inbuffer_size then do {
            h \<leftarrow> fpga_xfer_data_to_card64 D x 0 inbuffer inbuffer_size (th_hist t);
            Some (t\<lparr>th_hist := h, th_send := SendDone\<rparr>) }
          else Some (t\<lparr>th_send := SendDone\<rparr>)
      | SendDone \<Rightarrow> Some t)"

fun thread_recv :: "device \<Rightarrow> fpga_xDMA_linux \<Rightarrow> threads \<Rightarrow> threads option" where
  "thread_recv D x t =
     (case th_recv t of
        RecvStatus \<Rightarrow> do {
          (done_flag, h) \<leftarrow> fpga_check_compute_done_NORTH_PR D (th_hist t);
          Some (t\<lparr>th_hist := h, th_recv := RecvCount done_flag\<rparr>) }
      | RecvCount done_flag \<Rightarrow> do {
          (n, h) \<leftarrow> fpga_check_completion_bytes_NORTH_PR D (th_hist t);
          Some (t\<lparr>th_hist := h, th_size := ucast n,
                  th_recv := (if done_flag then RecvXfer else RecvStatus)\<rparr>) }
      | RecvXfer \<Rightarrow> do {
          (b, h) \<leftarrow> fpga_xfer_data_from_card64 D x 0 (th_out t) (th_size t) (th_hist t);
          Some (t\<lparr>th_hist := h, th_out := b, th_recv := RecvDone\<rparr>) }
      | RecvDone \<Rightarrow> Some t)"

fun run_threads ::
    "device \<Rightarrow> fpga_xDMA_linux \<Rightarrow> bytes \<Rightarrow> 32 word \<Rightarrow> bool list \<Rightarrow> threads \<Rightarrow> threads option" where
  \<comment> \<open>a schedule says whose step is next: \<open>True\<close> the sender's, \<open>False\<close> the receiver's\<close>
  "run_threads D x src srclen [] t = Some t"
| "run_threads D x src srclen (b # bs) t = do {
     t1 \<leftarrow> (if b then thread_send D x src srclen t else thread_recv D x t);
     run_threads D x src srclen bs t1 }"

record fpga_sys =
  malloc_ok :: bool
  create_send :: int
  create_recv :: int
  join_send :: int
  join_recv :: int
  schedule :: "bool list"

datatype fpga_result = Exited int | Waiting | Returned int outp hist

abbreviation (input) F_OK :: int where "F_OK \<equiv> 0"
abbreviation (input) F_BUF_ERROR :: int where "F_BUF_ERROR \<equiv> -5"
abbreviation (input) F_THREAD_CREATE_ERROR :: int where "F_THREAD_CREATE_ERROR \<equiv> -8"
abbreviation (input) F_THREAD_JOIN_ERROR :: int where "F_THREAD_JOIN_ERROR \<equiv> -9"

definition BUF_SIZE :: nat where
  "BUF_SIZE = 4 * 1024 * 1024"

text \<open>
  An early return leaves a thread behind that works with the parameters on the stack of this
  call, which is undefined unless it has finished. \<open>Waiting\<close>: at the end of the schedule a thread
  has still to be waited for.
\<close>

definition compressdata_fpga ::
    "device \<Rightarrow> fpga_sys \<Rightarrow> bytes \<Rightarrow> outp \<Rightarrow> bytes \<Rightarrow> 32 word \<Rightarrow> fpga_result option" where
  "compressdata_fpga D sys junk out srcdata srclen =
     (case fpga_xDMA_init D of
        Inl code \<Rightarrow> Some (Exited code)
      | Inr x \<Rightarrow>
          if \<not> malloc_ok sys then Some (Returned F_BUF_ERROR out [])
          else do {
            h \<leftarrow> fpga_run_NORTH_PR64 (scast srclen) [];
            let t0 = \<lparr>th_hist = h, th_send = SendReady, th_recv = RecvStatus,
                     th_size = of_nat (BUF_SIZE * 2), th_out = take (BUF_SIZE * 2) junk\<rparr>;
            (if create_send sys \<noteq> 0 then Some (Returned F_THREAD_CREATE_ERROR out h)
             else if create_recv sys \<noteq> 0 then do {
               t \<leftarrow> run_threads D x srcdata srclen (filter id (schedule sys)) t0;
               guard_ub (th_send t = SendDone);
               Some (Returned F_THREAD_CREATE_ERROR out (th_hist t)) }
             else do {
               t \<leftarrow> run_threads D x srcdata srclen (schedule sys) t0;
               (if join_send sys \<noteq> 0 \<or> (th_send t = SendDone \<and> join_recv sys \<noteq> 0) then do {
                  guard_ub (th_send t = SendDone \<and> th_recv t = RecvDone);
                  Some (Returned F_THREAD_JOIN_ERROR out (th_hist t)) }
                else if th_send t \<noteq> SendDone \<or> th_recv t \<noteq> RecvDone then Some Waiting
                else (case fpga_clean D of
                    Inl code \<Rightarrow> Some (Exited code)
                  | Inr _ \<Rightarrow>
                      Some (Returned F_OK
                        \<lparr>dstdata = Some (th_out t), dstlen = Some (sint (th_size t))\<rparr> (th_hist t)))) }) })"

section \<open>Decompression on the host\<close>

record gzip_lib =
  inflateInit2 :: bool
  inflate :: "nat \<Rightarrow> bytes \<Rightarrow> int \<times> bytes"   \<comment> \<open>with \<^verbatim>\<open>Z_FINISH\<close>, into a buffer of the size given\<close>

abbreviation (input) Z_STREAM_END :: int where "Z_STREAM_END \<equiv> 1"

text \<open>The function has no \<^verbatim>\<open>return\<close> at its end: to reach it is undefined in C++.\<close>

definition decompressdata_fpga_gzip ::
    "gzip_lib \<Rightarrow> bytes \<Rightarrow> 64 word \<Rightarrow> bytes \<Rightarrow> 64 word \<Rightarrow> (int \<times> bytes \<times> 64 word) option" where
  "decompressdata_fpga_gzip G uncompressed_data uncompressed_size compressed_data compressed_size =
     (if \<not> inflateInit2 G then Some (-1, uncompressed_data, uncompressed_size)
      else let avail_in = ucast compressed_size :: 32 word;
               avail_out = ucast uncompressed_size :: 32 word in
        (case inflate G (unat avail_out) (take (unat avail_in) compressed_data) of
           (ret, d) \<Rightarrow> do {
             guard_ub (unat avail_in \<le> length compressed_data \<and> length d \<le> length uncompressed_data);
             (if ret \<noteq> Z_STREAM_END
              then Some (-1, d @ drop (length d) uncompressed_data, uncompressed_size)
              else None) }))"

section \<open>What the two threads have done\<close>

definition commands :: "hist \<Rightarrow> io list" where
  \<comment> \<open>what changes the state of the engine\<close>
  "commands h = filter (\<lambda>e. case e of Poke _ _ \<Rightarrow> True | WriteCard _ _ \<Rightarrow> True | _ \<Rightarrow> False) h"

lemma commands_simps [simp]:
  "commands [] = []" "commands (g @ h) = commands g @ commands h"
  "commands (Poke r v # h) = Poke r v # commands h" "commands (Peek r # h) = commands h"
  "commands (WriteCard fd d # h) = WriteCard fd d # commands h"
  "commands (ReadCard fd n # h) = commands h" "commands (Seek fd a # h) = commands h"
  by (simp_all add: commands_def)

definition start_engine :: "64 word \<Rightarrow> io list" where
  "start_engine n =
     [Poke NORTH_INPUT_L (low_word n), Poke NORTH_INPUT_H (high_word n),
      Poke NORTH_CONTROL 1, Poke NORTH_CONTROL 0]"

text \<open>
  Nothing is assumed of the card. \<open>seen_done\<close>: its status has been read as done; \<open>counted\<close>: after that, its
  two registers have been read as the count \<open>m\<close>; \<open>delivered\<close>: after that, one \<^verbatim>\<open>read\<close> of as many bytes
  has left the bytes \<open>b\<close> in the buffer, however many it has returned.
\<close>

definition seen_done :: "device \<Rightarrow> hist \<Rightarrow> bool" where
  "seen_done D h \<longleftrightarrow> (\<exists>g. prefix (g @ [Peek NORTH_STATUS]) h \<and> reg_value D g NORTH_STATUS AND 1 \<noteq> 0)"

definition counted :: "device \<Rightarrow> hist \<Rightarrow> 64 word \<Rightarrow> bool" where
  "counted D h m \<longleftrightarrow> (\<exists>g. prefix (g @ [Peek NORTH_OUTPUT_L, Peek NORTH_OUTPUT_H]) h \<and> seen_done D g \<and>
     m = join_words (reg_value D g NORTH_OUTPUT_L) (reg_value D (g @ [Peek NORTH_OUTPUT_L]) NORTH_OUTPUT_H))"

definition delivered :: "device \<Rightarrow> fpga_xDMA_linux \<Rightarrow> bytes \<Rightarrow> hist \<Rightarrow> 32 word \<Rightarrow> bytes \<Rightarrow> bool" where
  "delivered D x junk h n b \<longleftrightarrow> (\<exists>g k m. prefix (g @ [Seek (fpga_fd_c2h x) 0, ReadCard (fpga_fd_c2h x) (unat n)]) h \<and>
     counted D g m \<and> n = ucast m \<and>
     stored_read D (fpga_fd_c2h x) (unat n) junk (g @ [Seek (fpga_fd_c2h x) 0]) = Some (k, b))"

lemma later:
  "seen_done D h \<Longrightarrow> seen_done D (h @ r)" "counted D h m \<Longrightarrow> counted D (h @ r) m"
  "delivered D x junk h n b \<Longrightarrow> delivered D x junk (h @ r) n b"
  unfolding seen_done_def counted_def delivered_def by (blast intro: prefix_prefix)+

definition threads_inv :: "device \<Rightarrow> fpga_xDMA_linux \<Rightarrow> bytes \<Rightarrow> bytes \<Rightarrow> threads \<Rightarrow> bool" where
  "threads_inv D x src junk t \<longleftrightarrow>
     commands (th_hist t) = start_engine (of_nat (length src)) @
       (if th_send t = SendDone then [WriteCard (fpga_fd_h2c x) src] else []) \<and>
     (case th_recv t of
        RecvStatus \<Rightarrow> th_out t = junk
      | RecvCount d \<Rightarrow> th_out t = junk \<and> (d \<longrightarrow> seen_done D (th_hist t))
      | RecvXfer \<Rightarrow> th_out t = junk \<and> (\<exists>m. counted D (th_hist t) m \<and> th_size t = ucast m)
      | RecvDone \<Rightarrow> delivered D x junk (th_hist t) (th_size t) (th_out t))"

lemma small_word:
  "k < 2 ^ 31 \<Longrightarrow> unat (of_nat k :: 32 word) = k"
  "k < 2 ^ 31 \<Longrightarrow> sint (of_nat k :: 32 word) = int k"
proof -
  assume k: "k < 2 ^ 31"
  then show "unat (of_nat k :: 32 word) = k" by (simp add: unsigned_of_nat take_bit_nat_eq_self)
  have "sint (word_of_int (int k) :: 32 word) = int k"
    using k by (simp only: sint_sbintrunc') (simp add: signed_take_bit_int_eq_self)
  then show "sint (of_nat k :: 32 word) = int k" by simp
qed

lemma thread_send_inv:
  assumes I: "threads_inv D x src junk t" and src: "src \<noteq> []" "length src < 2 ^ 31"
    and st: "thread_send D x src (of_nat (length src)) t = Some t'"
  shows "threads_inv D x src junk t'"
proof (cases "th_send t")
  case SendDone
  with I st show ?thesis by simp
next
  case SendReady
  have "(0 :: 32 word) <s of_nat (length src)"
    using src small_word(2) [OF src(2)] by (simp add: word_sless_alt)
  with SendReady st small_word(1) [OF src(2)] have
    t': "t' = t\<lparr>th_hist := th_hist t @ [Seek (fpga_fd_h2c x) 0, WriteCard (fpga_fd_h2c x) src], th_send := SendDone\<rparr>"
    by (auto simp: fpga_xfer_data_to_card64_def fpga_xDMA_write64_def guard_ub_def Let_def)
  from I SendReady later [where D = D and h = "th_hist t"] show ?thesis unfolding t' threads_inv_def
    by (cases "th_recv t") (simp_all, blast)
qed

lemma thread_recv_inv:
  assumes I: "threads_inv D x src junk t" and st: "thread_recv D x t = Some t'"
  shows "threads_inv D x src junk t'"
proof (cases "th_recv t")
  case RecvStatus
  have "seen_done D (th_hist t @ [Peek NORTH_STATUS])" if "reg_value D (th_hist t) NORTH_STATUS AND 1 \<noteq> 0"
    using that unfolding seen_done_def by blast
  with RecvStatus I st show ?thesis
    by (auto simp: threads_inv_def fpga_check_compute_done_NORTH_PR_def fpga_peek_def PAGE_SIZE_def guard_ub_def)
next
  case (RecvCount d)
  let ?h = "th_hist t @ [Peek NORTH_OUTPUT_L]"
  let ?m = "join_words (reg_value D (th_hist t) NORTH_OUTPUT_L) (reg_value D ?h NORTH_OUTPUT_H)"
  have "counted D (th_hist t @ [Peek NORTH_OUTPUT_L, Peek NORTH_OUTPUT_H]) ?m" if "seen_done D (th_hist t)"
    using that unfolding counted_def by blast
  with RecvCount I st show ?thesis
    by (auto simp: threads_inv_def fpga_check_completion_bytes_NORTH_PR_def fpga_peek_def PAGE_SIZE_def guard_ub_def)
next
  case RecvXfer
  with st obtain k b where r: "stored_read D (fpga_fd_c2h x) (unat (th_size t)) (th_out t)
      (th_hist t @ [Seek (fpga_fd_c2h x) 0]) = Some (k, b)"
    and t': "t' = t\<lparr>th_hist := th_hist t @ [Seek (fpga_fd_c2h x) 0, ReadCard (fpga_fd_c2h x) (unat (th_size t))],
      th_out := b, th_recv := RecvDone\<rparr>"
    by (auto simp: fpga_xfer_data_from_card64_def fpga_xDMA_read64_def bind_eq_Some_conv)
  from RecvXfer I obtain m where "counted D (th_hist t) m" "th_size t = ucast m" "th_out t = junk"
    by (auto simp: threads_inv_def)
  with r t' have "delivered D x junk (th_hist t') (th_size t') (th_out t')" unfolding delivered_def by auto
  with I t' show ?thesis by (simp add: threads_inv_def)
qed (use I st in simp)

lemma run_threads_inv:
  assumes "threads_inv D x src junk t" "src \<noteq> []" "length src < 2 ^ 31"
    and "run_threads D x src (of_nat (length src)) sched t = Some t'"
  shows "threads_inv D x src junk t'"
  using assms(1,4)
proof (induction sched arbitrary: t)
  case (Cons b bs)
  from Cons.prems(2) obtain t1 where
    t1: "(if b then thread_send D x src (of_nat (length src)) t else thread_recv D x t) = Some t1"
    "run_threads D x src (of_nat (length src)) bs t1 = Some t'"
    by (auto simp: bind_eq_Some_conv simp del: thread_send.simps thread_recv.simps)
  have "threads_inv D x src junk t1"
    using t1(1) thread_send_inv [OF Cons.prems(1) assms(2,3)] thread_recv_inv [OF Cons.prems(1)]
    by (cases b) (simp_all del: thread_send.simps thread_recv.simps)
  from Cons.IH [OF this t1(2)] show ?case .
qed simp

section \<open>The codec\<close>

definition sys_works :: "device \<Rightarrow> fpga_sys \<Rightarrow> bool" where
  "sys_works D sys \<longleftrightarrow> malloc_ok sys \<and> create_send sys = 0 \<and> create_recv sys = 0 \<and>
     join_send sys = 0 \<and> join_recv sys = 0 \<and> node_munmap D"

lemma start_engine_run:
  "fpga_run_NORTH_PR64 n h = Some (h @ start_engine n)"
  by (simp add: fpga_run_NORTH_PR64_def fpga_poke_def PAGE_SIZE_def guard_ub_def start_engine_def)

lemma scast_of_nat: "k < 2 ^ 31 \<Longrightarrow> scast (of_nat k :: 32 word) = (of_nat k :: 64 word)"
  by (simp only: scast_eq small_word(2)) simp

text \<open>Where the system works, the result is that of the threads.\<close>

lemma compressdata_fpga_threads:
  assumes "fpga_xDMA_init D = Inr x" "sys_works D sys" "length junk = BUF_SIZE * 2" "length src < 2 ^ 31"
  shows "compressdata_fpga D sys junk out src (of_nat (length src)) =
    (case run_threads D x src (of_nat (length src)) (schedule sys)
        \<lparr>th_hist = start_engine (of_nat (length src)), th_send = SendReady, th_recv = RecvStatus,
         th_size = of_nat (BUF_SIZE * 2), th_out = junk\<rparr> of
       None \<Rightarrow> None
     | Some t \<Rightarrow> if th_send t \<noteq> SendDone \<or> th_recv t \<noteq> RecvDone then Some Waiting
         else Some (Returned 0 \<lparr>dstdata = Some (th_out t), dstlen = Some (sint (th_size t))\<rparr> (th_hist t)))"
proof -
  have clean: "fpga_clean D = Inr 0"
    using assms(2) by (simp add: fpga_clean_def fpga_xDMA_clean_def sys_works_def)
  show ?thesis
    using assms clean
    by (simp add: compressdata_fpga_def sys_works_def start_engine_run scast_of_nat Let_def split: option.split)
qed

text \<open>Whatever the card does and whatever the schedule of the two threads: where \<open>compressdata_fpga\<close>
  returns, the engine has been started once, with the size of the data, and has been given the data
  once; the length that is returned is a count that the card has shown after it had been done; and the
  data are what one \<^verbatim>\<open>read\<close> of that many bytes has left in the buffer. How many bytes that \<^verbatim>\<open>read\<close>
  has returned does not matter to the code.\<close>

theorem fpga_threads_deliver:
  assumes "fpga_xDMA_init D = Inr x" "sys_works D sys" "src \<noteq> []" "length src < 2 ^ 31"
    and "length junk = 8 * 1024 * 1024"
    and "compressdata_fpga D sys junk out src (of_nat (length src)) = Some (Returned ret out' h)"
  shows "ret = 0 \<and> commands h = start_engine (of_nat (length src)) @ [WriteCard (fpga_fd_h2c x) src] \<and>
    (\<exists>n b. out' = \<lparr>dstdata = Some b, dstlen = Some (sint n)\<rparr> \<and> delivered D x junk h n b)"
proof -
  let ?t = "\<lparr>th_hist = start_engine (of_nat (length src)), th_send = SendReady, th_recv = RecvStatus,
      th_size = of_nat (BUF_SIZE * 2), th_out = junk\<rparr>"
  have b: "length junk = BUF_SIZE * 2" using assms(5) by (simp add: BUF_SIZE_def)
  from assms(6) [unfolded compressdata_fpga_threads [OF assms(1,2) b assms(4)]] obtain t where
    t: "run_threads D x src (of_nat (length src)) (schedule sys) ?t = Some t"
      "th_send t = SendDone" "th_recv t = RecvDone" "ret = 0" "h = th_hist t"
      "out' = \<lparr>dstdata = Some (th_out t), dstlen = Some (sint (th_size t))\<rparr>"
    by (auto split: option.splits if_splits)
  have "threads_inv D x src junk ?t" by (simp add: threads_inv_def start_engine_def)
  from run_threads_inv [OF this assms(3,4) t(1)] t(2-6) show ?thesis by (auto simp: threads_inv_def)
qed

text \<open>A card whose engine puts a byte before the data, and a run on it.\<close>

definition sim_gz :: "bytes \<Rightarrow> bytes" where
  "sim_gz d = 0x1F # d"

definition sim_sent :: "hist \<Rightarrow> bytes option" where
  "sim_sent h = (case rev (commands h) of WriteCard fd d # es \<Rightarrow> Some d | _ \<Rightarrow> None)"

definition sim_card :: device where
  "sim_card =
     \<lparr>node_open = (\<lambda>p. if p = ''/dev/xdma0_bypass'' then 3 else if p = ''/dev/xdma0_c2h_0'' then 4 else 5),
      node_mmap = True, node_munmap = True,
      reg_value = (\<lambda>h r.
        case sim_sent h of
          None \<Rightarrow> 0
        | Some d \<Rightarrow>
            if r = NORTH_STATUS then 1
            else if r = NORTH_OUTPUT_L then low_word (of_nat (length (sim_gz d)))
            else if r = NORTH_OUTPUT_H then high_word (of_nat (length (sim_gz d)))
            else 0),
      card_write = (\<lambda>h fd d. int (length d)),
      card_read = (\<lambda>h fd n. map_option (\<lambda>d. take n (sim_gz d)) (sim_sent h))\<rparr>"

definition sim_fds :: fpga_xDMA_linux where
  "sim_fds = \<lparr>fpga_fp_user = 3, fpga_fd_c2h = 4, fpga_fd_h2c = 5\<rparr>"

lemma sim_card_simps:
  "reg_value sim_card h r = (case sim_sent h of None \<Rightarrow> 0
    | Some d \<Rightarrow> if r = NORTH_STATUS then 1
        else if r = NORTH_OUTPUT_L then low_word (of_nat (length (sim_gz d)))
        else if r = NORTH_OUTPUT_H then high_word (of_nat (length (sim_gz d))) else 0)"
  "card_read sim_card h fd n = map_option (\<lambda>d. take n (sim_gz d)) (sim_sent h)"
  "card_write sim_card h fd d = int (length d)" "node_munmap sim_card"
  by (simp_all add: sim_card_def)

lemma sim_init: "fpga_xDMA_init sim_card = Inr sim_fds"
  by (simp add: fpga_xDMA_init_def sim_card_def sim_fds_def)

definition sim_sys :: fpga_sys where
  "sim_sys = \<lparr>malloc_ok = True, create_send = 0, create_recv = 0, join_send = 0, join_recv = 0,
     schedule = [False, True, False, False, False, False]\<rparr>"

lemma fpga_threads_deliver_witness:
  "\<exists>h out'. compressdata_fpga sim_card sim_sys (replicate (8 * 1024 * 1024) 0) uninit_out [7] 1 =
      Some (Returned 0 out' h) \<and>
    (\<exists>n b. out' = \<lparr>dstdata = Some b, dstlen = Some (sint n)\<rparr> \<and>
      delivered sim_card sim_fds (replicate (8 * 1024 * 1024) 0) h n b)"
proof -
  let ?junk = "replicate (8 * 1024 * 1024) 0 :: bytes"
  have s: "sys_works sim_card sim_sys" by (simp add: sys_works_def sim_sys_def sim_card_def)
  have "\<exists>out' h. compressdata_fpga sim_card sim_sys junk uninit_out [7] 1 = Some (Returned 0 out' h)"
    if "2 \<le> length junk" for junk
    using that
    by (simp add: compressdata_fpga_def sim_init sim_sys_def start_engine_run start_engine_def
        fpga_check_compute_done_NORTH_PR_def fpga_check_completion_bytes_NORTH_PR_def fpga_peek_def
        PAGE_SIZE_def guard_ub_def fpga_xfer_data_to_card64_def fpga_xDMA_write64_def sim_fds_def
        fpga_xfer_data_from_card64_def fpga_xDMA_read64_def stored_read_def sim_card_simps sim_sent_def
        join_split_words sim_gz_def BUF_SIZE_def
        word_sless_alt fpga_clean_def fpga_xDMA_clean_def Let_def split: option.split)
  moreover have "2 \<le> length ?junk" by simp
  ultimately obtain out' h where r: "compressdata_fpga sim_card sim_sys ?junk uninit_out [7] 1 = Some (Returned 0 out' h)"
    by blast
  have "[7 :: byte] \<noteq> []" "length [7 :: byte] < 2 ^ 31" "length ?junk = 8 * 1024 * 1024" by simp_all
  from fpga_threads_deliver [OF sim_init s this, of uninit_out 0 out' h] r show ?thesis by simp
qed

end
