(* ===== verification/Icap.thy ===== *)
theory Icap
  imports Fpga
begin

text \<open>
  The programming of the card through its configuration port (\<^verbatim>\<open>ICAP_prog_PR_binfile\<close>,
  \<^verbatim>\<open>fpga_PROGRAM_NORTH_PR\<close> of \<^verbatim>\<open>src/srai_accel_utils.cc\<close>): the words of a bit stream are written
  to a FIFO, which is flushed after every sixty. No waiting is longer than its bound, so the
  functions return whatever the card does.
\<close>

section \<open>Operations\<close>

definition byte_swapped :: "32 word \<Rightarrow> 32 word" where
  "byte_swapped w =
     (drop_bit 24 w AND 0x000000ff) OR (drop_bit 8 w AND 0x0000ff00) OR
     (push_bit 8 w AND 0x00ff0000) OR (push_bit 24 w AND 0xff000000)"

definition host_word :: "byte \<Rightarrow> byte \<Rightarrow> byte \<Rightarrow> byte \<Rightarrow> 32 word" where
  \<comment> \<open>four bytes of memory as a \<^verbatim>\<open>uint32_t\<close>, on the little-endian hosts the card is for\<close>
  "host_word b0 b1 b2 b3 =
     ucast b0 OR push_bit 8 (ucast b1) OR push_bit 16 (ucast b2) OR push_bit 24 (ucast b3)"

fun host_words :: "bytes \<Rightarrow> 32 word list" where
  \<comment> \<open>the buffer through \<^verbatim>\<open>bitstream_ptr\<close>, \<^verbatim>\<open>file_size/4\<close> words\<close>
  "host_words (b0 # b1 # b2 # b3 # bs) = host_word b0 b1 b2 b3 # host_words bs"
| "host_words _ = []"

text \<open>
  The three loops that wait for a register: \<open>v\<close> is the last value, \<open>itn_count\<close> the number of
  times it has been asked for, and one more than \<open>bound\<close> times it is at most.
\<close>

function wait_for ::
    "device \<Rightarrow> 32 word \<Rightarrow> (32 word \<Rightarrow> bool) \<Rightarrow> nat \<Rightarrow> nat \<Rightarrow> 32 word \<Rightarrow> hist \<Rightarrow> (32 word \<times> hist) option" where
  "wait_for D r ready bound itn_count v h =
     (if ready v then Some (v, h)
      else do {
        (v1, h1) \<leftarrow> fpga_peek D r h;
        (if bound < itn_count + 1 then Some (v1, h1)
         else wait_for D r ready bound (itn_count + 1) v1 h1) })"
  by pat_completeness auto

termination wait_for
  by (relation "measure (\<lambda>(D, r, ready, bound, itn_count, v, h). bound + 1 - itn_count)") auto

declare wait_for.simps [simp del]

fun icap_words :: "device \<Rightarrow> nat \<Rightarrow> 32 word list \<Rightarrow> 32 word \<Rightarrow> hist \<Rightarrow> (32 word \<times> hist) option" where
  "icap_words D i [] ret_data h = Some (ret_data, h)"
| "icap_words D i (w # ws) ret_data h = do {
     h \<leftarrow> fpga_poke ICAP_WR_FIFO_REG (byte_swapped w) h;
     (if (i + 1) mod 60 = 0 then do {
        h \<leftarrow> fpga_poke ICAP_CNTRL_REG 1 h;
        (ret_data, h) \<leftarrow> wait_for D ICAP_WR_FIFO_VACANCY_REG (\<lambda>v. v = 0x3F) 10000000 0 ret_data h;
        icap_words D (i + 1) ws ret_data h }
      else icap_words D (i + 1) ws ret_data h) }"

text \<open>
  A file that cannot be opened has the size -1, for which \<^verbatim>\<open>new char [file_size]\<close> throws: the
  inner \<open>None\<close>. The count of the loop is an \<^verbatim>\<open>int\<close>.
\<close>

definition ICAP_prog_PR_binfile :: "device \<Rightarrow> bytes option \<Rightarrow> hist \<Rightarrow> hist option option" where
  "ICAP_prog_PR_binfile D file h =
     (case file of
        None \<Rightarrow> Some None
      | Some bs \<Rightarrow> do {
          h \<leftarrow> fpga_poke ICAP_CNTRL_REG 0xC h;
          h \<leftarrow> fpga_poke ICAP_CNTRL_REG 0 h;
          (ret_data, h) \<leftarrow> wait_for D ICAP_STATUS_REG (\<lambda>v. v = 5) 10000000 0 0 h;
          guard_ub (length bs div 4 < 2 ^ 31);
          (ret_data, h) \<leftarrow> icap_words D 0 (host_words bs) 0 h;
          h \<leftarrow> fpga_poke ICAP_CNTRL_REG 1 h;
          Some (Some h) })"

abbreviation (input) ISOLATE_NORTH_PR :: "32 word" where "ISOLATE_NORTH_PR \<equiv> 0"
abbreviation (input) DEISOLATE_NORTH_PR :: "32 word" where "DEISOLATE_NORTH_PR \<equiv> 0xFFFFFFFF"

definition fpga_PROGRAM_NORTH_PR :: "device \<Rightarrow> bytes option \<Rightarrow> hist \<Rightarrow> hist option option" where
  "fpga_PROGRAM_NORTH_PR D file h = do {
     h \<leftarrow> fpga_poke AXI_LITE_GPIO_BASE ISOLATE_NORTH_PR h;
     r \<leftarrow> ICAP_prog_PR_binfile D file h;
     (case r of
        None \<Rightarrow> Some None
      | Some h \<Rightarrow> do {
          h \<leftarrow> fpga_poke AXI_LITE_GPIO_BASE DEISOLATE_NORTH_PR h;
          (status_val, h) \<leftarrow> wait_for D AXI_LITE_AXI_STATUS (\<lambda>v. v AND 0x1F = 0x1F) 100000000 0 0 h;
          Some (Some h) }) }"

section \<open>Measuring the throughput\<close>

definition xDMA_througput_h2c64 ::
    "device \<Rightarrow> fpga_xDMA_linux \<Rightarrow> 64 word \<Rightarrow> bytes \<Rightarrow> 32 word \<Rightarrow> hist \<Rightarrow> hist option" where
  "xDMA_througput_h2c64 D x a data_buffer xfer_size h =
     map_option snd (fpga_xDMA_write64 D x a data_buffer xfer_size h)"

definition xDMA_througput_c2h64 ::
    "device \<Rightarrow> fpga_xDMA_linux \<Rightarrow> 64 word \<Rightarrow> bytes \<Rightarrow> 32 word \<Rightarrow> hist \<Rightarrow> (bytes \<times> hist) option" where
  "xDMA_througput_c2h64 D x a data_buffer xfer_size h =
     map_option (\<lambda>((count, b), h1). (b, h1)) (fpga_xDMA_read64 D x a data_buffer xfer_size h)"

definition fpga_PCIE_BANDWIDTH_test64 ::
    "device \<Rightarrow> fpga_xDMA_linux \<Rightarrow> 64 word \<Rightarrow> bytes \<Rightarrow> 32 word \<Rightarrow> hist \<Rightarrow> (bytes \<times> hist) option" where
  "fpga_PCIE_BANDWIDTH_test64 D x a A_IN xfer_size h = do {
     h \<leftarrow> xDMA_througput_h2c64 D x a A_IN xfer_size h;
     xDMA_througput_c2h64 D x a A_IN xfer_size h }"

section \<open>What reaches the card\<close>

definition pokes :: "hist \<Rightarrow> (32 word \<times> 32 word) list" where
  "pokes h = concat (map (\<lambda>e. case e of Poke r v \<Rightarrow> [(r, v)] | _ \<Rightarrow> []) h)"

definition asked :: "32 word \<Rightarrow> hist \<Rightarrow> nat" where
  \<comment> \<open>how often a register has been read\<close>
  "asked r h = length (filter (\<lambda>e. e = Peek r) h)"

lemma hist_simps [simp]:
  "pokes [] = []" "pokes (g @ h) = pokes g @ pokes h" "pokes (Poke r v # h) = (r, v) # pokes h"
  "pokes (Peek r # h) = pokes h"
  "asked r [] = 0" "asked r (g @ h) = asked r g + asked r h" "asked r (Poke q v # h) = asked r h"
  "asked r (Peek q # h) = (if q = r then 1 else 0) + asked r h"
  by (simp_all add: pokes_def asked_def)

definition icap_stream :: "nat \<Rightarrow> 32 word list \<Rightarrow> (32 word \<times> 32 word) list" where
  \<comment> \<open>every word, swapped, to the FIFO, and a flush after every sixtieth\<close>
  "icap_stream k ws = concat (map (\<lambda>(i, w). (ICAP_WR_FIFO_REG, byte_swapped w) #
     (if (i + 1) mod 60 = 0 then [(ICAP_CNTRL_REG, 1)] else [])) (enumerate k ws))"

definition big_endian :: "32 word \<Rightarrow> bytes" where
  "big_endian w = [ucast (drop_bit 24 w), ucast (drop_bit 16 w), ucast (drop_bit 8 w), ucast w]"

definition fifo_bytes :: "(32 word \<times> 32 word) list \<Rightarrow> bytes" where
  \<comment> \<open>what the configuration port gets\<close>
  "fifo_bytes ps = concat (map (\<lambda>(r, v). if r = ICAP_WR_FIFO_REG then big_endian v else []) ps)"

lemma big_endian_swapped: "big_endian (byte_swapped (host_word b0 b1 b2 b3)) = [b0, b1, b2, b3]"
proof -
  have m: "(0x000000ff :: 32 word) = mask 8" "(0x0000ff00 :: 32 word) = push_bit 8 (mask 8)"
    "(0x00ff0000 :: 32 word) = push_bit 16 (mask 8)" "(0xff000000 :: 32 word) = push_bit 24 (mask 8)"
    by (simp_all add: mask_eq_exp_minus_1 push_bit_eq_mult)
  show ?thesis
    unfolding big_endian_def byte_swapped_def host_word_def m
    by (simp; intro conjI; rule bit_word_eqI; auto simp: bit_simps dest: bit_imp_le_length)
qed

lemma fifo_bytes_stream: "fifo_bytes (icap_stream k ws) = concat (map (\<lambda>w. big_endian (byte_swapped w)) ws)"
  by (induction ws arbitrary: k) (simp_all add: icap_stream_def fifo_bytes_def)

lemma host_words_bytes:
  "concat (map (\<lambda>w. big_endian (byte_swapped w)) (host_words bs)) = take (length bs div 4 * 4) bs"
proof (induction bs rule: host_words.induct)
  case (1 b0 b1 b2 b3 bs)
  have "(4 + n) div 4 * 4 = Suc (Suc (Suc (Suc (n div 4 * 4))))" for n :: nat by presburger
  with 1 show ?case by (simp add: big_endian_swapped)
qed simp_all

lemma length_host_words: "length (host_words bs) = length bs div 4"
  by (induction bs rule: host_words.induct) simp_all

lemma peek_on_page: "uint r + 4 \<le> PAGE_SIZE \<Longrightarrow> fpga_peek D r h = Some (reg_value D h r, h @ [Peek r])"
  by (simp add: fpga_peek_def guard_ub_def)

lemma wait_for_returns:
  assumes "uint r + 4 \<le> PAGE_SIZE"
  shows "\<exists>v' g. wait_for D r ready bound itn v h = Some (v', h @ g) \<and> pokes g = [] \<and>
    (\<forall>q. q \<noteq> r \<longrightarrow> asked q g = 0) \<and> (ready v \<longrightarrow> v' = v \<and> g = []) \<and>
    (\<not> ready v \<and> ready (reg_value D h r) \<longrightarrow> v' = reg_value D h r \<and> g = [Peek r])"
  using assms
proof (induction D r ready bound itn v h rule: wait_for.induct)
  case (1 D r ready bound itn v h)
  note peek = peek_on_page [OF "1.prems", of D h]
  show ?case
  proof (cases "ready v \<or> bound < itn + 1")
    case True
    then show ?thesis by (subst wait_for.simps, subst peek) auto
  next
    case False
    with "1.IH" [of "(reg_value D h r, h @ [Peek r])" "reg_value D h r" "h @ [Peek r]"] "1.prems"
    obtain v' g where w: "wait_for D r ready bound (itn + 1) (reg_value D h r) (h @ [Peek r]) =
        Some (v', (h @ [Peek r]) @ g)" "pokes g = []" "\<forall>q. q \<noteq> r \<longrightarrow> asked q g = 0"
      "ready (reg_value D h r) \<longrightarrow> v' = reg_value D h r \<and> g = []" by (auto simp: peek)
    have "wait_for D r ready bound itn v h = Some (v', h @ Peek r # g)"
      using False w(1) by (subst wait_for.simps, subst peek) simp
    with False w(2-4) show ?thesis by auto
  qed
qed

lemma fifo_page: "fpga_poke ICAP_WR_FIFO_REG v h = Some (h @ [Poke ICAP_WR_FIFO_REG v])"
  "fpga_poke ICAP_CNTRL_REG v h = Some (h @ [Poke ICAP_CNTRL_REG v])"
  "fpga_poke AXI_LITE_GPIO_BASE v h = Some (h @ [Poke AXI_LITE_GPIO_BASE v])"
  by (simp_all add: fpga_poke_def PAGE_SIZE_def guard_ub_def)

text \<open>The words, with the flushes: what is poked does not depend on the card, and once the FIFO has been
  seen empty it is not asked again.\<close>

lemma icap_words_returns:
  "\<exists>v' g. icap_words D i ws v h = Some (v', h @ g) \<and> pokes g = icap_stream i ws \<and>
    (v = 0x3F \<longrightarrow> asked ICAP_WR_FIFO_VACANCY_REG g = 0) \<and>
    (v \<noteq> 0x3F \<and> (\<forall>h. reg_value D h ICAP_WR_FIFO_VACANCY_REG = 0x3F) \<longrightarrow>
       asked ICAP_WR_FIFO_VACANCY_REG g = (if 60 \<le> i mod 60 + length ws then 1 else 0))"
proof (induction ws arbitrary: i v h)
  case Nil
  have "\<not> 60 \<le> i mod 60" by (simp add: not_le)
  then show ?case by (simp add: icap_stream_def)
next
  case (Cons w ws)
  let ?h = "h @ [Poke ICAP_WR_FIFO_REG (byte_swapped w)]"
  show ?case
  proof (cases "(i + 1) mod 60 = 0")
    case True
    have pg: "uint (ICAP_WR_FIFO_VACANCY_REG) + 4 \<le> PAGE_SIZE" by (simp add: PAGE_SIZE_def)
    let ?h1 = "?h @ [Poke ICAP_CNTRL_REG 1]"
    from wait_for_returns [OF pg, of D "\<lambda>v. v = 0x3F" 10000000 0 v ?h1] obtain v1 g1 where
      w1: "wait_for D ICAP_WR_FIFO_VACANCY_REG (\<lambda>v. v = 0x3F) 10000000 0 v ?h1 = Some (v1, ?h1 @ g1)"
        "pokes g1 = []" "v = 0x3F \<longrightarrow> v1 = v \<and> g1 = []"
        "v \<noteq> 0x3F \<and> reg_value D ?h1 ICAP_WR_FIFO_VACANCY_REG = 0x3F \<longrightarrow>
          v1 = 0x3F \<and> g1 = [Peek ICAP_WR_FIFO_VACANCY_REG]" by auto
    from Cons.IH [of "i + 1" v1 "?h1 @ g1"] obtain v2 g2 where
      w2: "icap_words D (i + 1) ws v1 (?h1 @ g1) = Some (v2, (?h1 @ g1) @ g2)"
        "pokes g2 = icap_stream (i + 1) ws"
        "v1 = 0x3F \<longrightarrow> asked ICAP_WR_FIFO_VACANCY_REG g2 = 0" by blast
    from True have m: "i mod 60 = 59" using mod_Suc [of i 60] by (simp split: if_splits)
    have "icap_words D i (w # ws) v h = Some (v2, h @ (Poke ICAP_WR_FIFO_REG (byte_swapped w) #
        Poke ICAP_CNTRL_REG 1 # g1 @ g2))"
      using True w1(1) w2(1) by (simp add: fifo_page)
    moreover have "pokes (Poke ICAP_WR_FIFO_REG (byte_swapped w) # Poke ICAP_CNTRL_REG 1 # g1 @ g2) =
        icap_stream i (w # ws)"
      using True w1(2) w2(2) by (simp add: icap_stream_def)
    ultimately show ?thesis using m w1(3,4) w2(3)
      by (intro exI [of _ v2] exI [of _ "Poke ICAP_WR_FIFO_REG (byte_swapped w) # Poke ICAP_CNTRL_REG 1 # g1 @ g2"]) auto
  next
    case False
    from Cons.IH [of "i + 1" v ?h] obtain v2 g2 where
      w2: "icap_words D (i + 1) ws v ?h = Some (v2, ?h @ g2)" "pokes g2 = icap_stream (i + 1) ws"
        "v = 0x3F \<longrightarrow> asked ICAP_WR_FIFO_VACANCY_REG g2 = 0"
        "v \<noteq> 0x3F \<and> (\<forall>h. reg_value D h ICAP_WR_FIFO_VACANCY_REG = 0x3F) \<longrightarrow>
          asked ICAP_WR_FIFO_VACANCY_REG g2 = (if 60 \<le> (i + 1) mod 60 + length ws then 1 else 0)" by blast
    from False have m: "(i + 1) mod 60 = i mod 60 + 1" using mod_Suc [of i 60] by (simp split: if_splits)
    have "icap_words D i (w # ws) v h = Some (v2, h @ (Poke ICAP_WR_FIFO_REG (byte_swapped w) # g2))"
      using False w2(1) by (simp add: fifo_page)
    moreover have "pokes (Poke ICAP_WR_FIFO_REG (byte_swapped w) # g2) = icap_stream i (w # ws)"
      using False w2(2) by (simp add: icap_stream_def)
    ultimately show ?thesis using m w2(3,4)
      by (intro exI [of _ v2] exI [of _ "Poke ICAP_WR_FIFO_REG (byte_swapped w) # g2"]) auto
  qed
qed

text \<open>C39. Programming the card returns, and what it pokes does not depend on what the card answers: the
  ports are isolated, the configuration port is reset, gets the words of the file and a flush
  after every sixtieth and at the end, and the ports are connected again. The port gets the
  bytes of the file in their order, but not the last one to three of a file whose size is no
  multiple of four. A file that cannot be opened ends in an exception with the ports isolated.\<close>

theorem icap_programs_file:
  assumes "length bs div 4 < 2 ^ 31"
  shows "(\<exists>g. fpga_PROGRAM_NORTH_PR D (Some bs) h = Some (Some (h @ g)) \<and>
      pokes g = [(AXI_LITE_GPIO_BASE, ISOLATE_NORTH_PR), (ICAP_CNTRL_REG, 0xC), (ICAP_CNTRL_REG, 0)] @
        icap_stream 0 (host_words bs) @ [(ICAP_CNTRL_REG, 1), (AXI_LITE_GPIO_BASE, DEISOLATE_NORTH_PR)] \<and>
      fifo_bytes (pokes g) = take (length bs div 4 * 4) bs) \<and>
    fpga_PROGRAM_NORTH_PR D None h = Some None"
proof (rule conjI)
  let ?h1 = "h @ [Poke AXI_LITE_GPIO_BASE ISOLATE_NORTH_PR, Poke ICAP_CNTRL_REG 0xC, Poke ICAP_CNTRL_REG 0]"
  have pg: "uint (ICAP_STATUS_REG) + 4 \<le> PAGE_SIZE" "uint (AXI_LITE_AXI_STATUS) + 4 \<le> PAGE_SIZE"
    by (simp_all add: PAGE_SIZE_def)
  from wait_for_returns [OF pg(1), of D "\<lambda>v. v = 5" 10000000 0 0 ?h1] obtain v1 g1 where
    w1: "wait_for D ICAP_STATUS_REG (\<lambda>v. v = 5) 10000000 0 0 ?h1 = Some (v1, ?h1 @ g1)" "pokes g1 = []"
    by blast
  from icap_words_returns [of D 0 "host_words bs" 0 "?h1 @ g1"] obtain v2 g2 where
    w2: "icap_words D 0 (host_words bs) 0 (?h1 @ g1) = Some (v2, (?h1 @ g1) @ g2)"
      "pokes g2 = icap_stream 0 (host_words bs)" by blast
  let ?h3 = "((?h1 @ g1) @ g2) @ [Poke ICAP_CNTRL_REG 1, Poke AXI_LITE_GPIO_BASE DEISOLATE_NORTH_PR]"
  from wait_for_returns [OF pg(2), of D "\<lambda>v. v AND 0x1F = 0x1F" 100000000 0 0 ?h3] obtain v3 g3 where
    w3: "wait_for D AXI_LITE_AXI_STATUS (\<lambda>v. v AND 0x1F = 0x1F) 100000000 0 0 ?h3 = Some (v3, ?h3 @ g3)"
      "pokes g3 = []" by blast
  let ?g = "[Poke AXI_LITE_GPIO_BASE ISOLATE_NORTH_PR, Poke ICAP_CNTRL_REG 0xC, Poke ICAP_CNTRL_REG 0] @
    g1 @ g2 @ [Poke ICAP_CNTRL_REG 1, Poke AXI_LITE_GPIO_BASE DEISOLATE_NORTH_PR] @ g3"
  have "fpga_PROGRAM_NORTH_PR D (Some bs) h = Some (Some (h @ ?g))"
    using assms w1(1) w2(1) w3(1)
    by (simp add: fpga_PROGRAM_NORTH_PR_def ICAP_prog_PR_binfile_def fifo_page guard_ub_def)
  moreover have p: "pokes ?g = [(AXI_LITE_GPIO_BASE, ISOLATE_NORTH_PR), (ICAP_CNTRL_REG, 0xC), (ICAP_CNTRL_REG, 0)] @
      icap_stream 0 (host_words bs) @ [(ICAP_CNTRL_REG, 1), (AXI_LITE_GPIO_BASE, DEISOLATE_NORTH_PR)]"
    using w1(2) w2(2) w3(2) by simp
  moreover have "fifo_bytes (pokes ?g) = take (length bs div 4 * 4) bs"
    using fifo_bytes_stream [of 0 "host_words bs"] host_words_bytes [of bs]
    unfolding p by (simp add: fifo_bytes_def)
  ultimately show "\<exists>g. fpga_PROGRAM_NORTH_PR D (Some bs) h = Some (Some (h @ g)) \<and>
      pokes g = [(AXI_LITE_GPIO_BASE, ISOLATE_NORTH_PR), (ICAP_CNTRL_REG, 0xC), (ICAP_CNTRL_REG, 0)] @
        icap_stream 0 (host_words bs) @ [(ICAP_CNTRL_REG, 1), (AXI_LITE_GPIO_BASE, DEISOLATE_NORTH_PR)] \<and>
      fifo_bytes (pokes g) = take (length bs div 4 * 4) bs" by blast
  show "fpga_PROGRAM_NORTH_PR D None h = Some None"
    by (simp add: fpga_PROGRAM_NORTH_PR_def ICAP_prog_PR_binfile_def fifo_page)
qed

lemma icap_programs_file_witness:
  "\<exists>g. fpga_PROGRAM_NORTH_PR sim_card (Some [1, 2, 3, 4, 5]) [] = Some (Some g) \<and>
    pokes g = [(0x10000, 0), (0x3010C, 0xC), (0x3010C, 0), (0x30100, 0x01020304), (0x3010C, 1), (0x10000, 0xFFFFFFFF)] \<and>
    fifo_bytes (pokes g) = [1, 2, 3, 4]"
proof -
  have "length [1, 2, 3, 4, 5 :: byte] div 4 < 2 ^ 31" by simp
  from icap_programs_file [OF this, of sim_card "[]"] show ?thesis
    by (simp add: icap_stream_def byte_swapped_def host_word_def)
qed

text \<open>The loop that waits for the FIFO to drain starts from the value of the last wait: once the FIFO
  has been empty, no later flush waits. However long the file, a card that drains at once is
  asked a single time.\<close>

theorem icap_waits_once:
  assumes "\<And>h. reg_value D h ICAP_WR_FIFO_VACANCY_REG = 0x3F" "length bs div 4 < 2 ^ 31"
  shows "\<exists>g. ICAP_prog_PR_binfile D (Some bs) h = Some (Some (h @ g)) \<and>
    asked ICAP_WR_FIFO_VACANCY_REG g = (if 240 \<le> length bs then 1 else 0) \<and>
    length (filter (\<lambda>e. e = (ICAP_CNTRL_REG, 1)) (pokes g)) = length bs div 240 + 1"
proof -
  have f: "length (filter (\<lambda>e. e = (ICAP_CNTRL_REG, 1)) (icap_stream k ws)) =
      (k + length ws) div 60 - k div 60" for k ws
  proof (induction ws arbitrary: k)
    case (Cons w ws)
    have "(k + 1) mod 60 = 0 \<Longrightarrow> (k + 1) div 60 = k div 60 + 1" "(k + 1) mod 60 \<noteq> 0 \<Longrightarrow> (k + 1) div 60 = k div 60"
      using div_Suc [of k 60] by simp_all
    moreover have "(k + 1) div 60 \<le> (k + 1 + length ws) div 60" by (intro div_le_mono) simp
    ultimately show ?case using Cons.IH [of "k + 1"] by (auto simp: icap_stream_def)
  qed (simp add: icap_stream_def)
  let ?h1 = "h @ [Poke ICAP_CNTRL_REG 0xC, Poke ICAP_CNTRL_REG 0]"
  have pg: "uint (ICAP_STATUS_REG) + 4 \<le> PAGE_SIZE" by (simp add: PAGE_SIZE_def)
  from wait_for_returns [OF pg, of D "\<lambda>v. v = 5" 10000000 0 0 ?h1] obtain v1 g1 where
    w1: "wait_for D ICAP_STATUS_REG (\<lambda>v. v = 5) 10000000 0 0 ?h1 = Some (v1, ?h1 @ g1)" "pokes g1 = []"
      "asked ICAP_WR_FIFO_VACANCY_REG g1 = 0"
    by fastforce
  from icap_words_returns [of D 0 "host_words bs" 0 "?h1 @ g1"] assms(1) obtain v2 g2 where
    w2: "icap_words D 0 (host_words bs) 0 (?h1 @ g1) = Some (v2, (?h1 @ g1) @ g2)"
      "pokes g2 = icap_stream 0 (host_words bs)"
      "asked ICAP_WR_FIFO_VACANCY_REG g2 = (if 60 \<le> length (host_words bs) then 1 else 0)" by auto
  have k: "60 \<le> length bs div 4 \<longleftrightarrow> 240 \<le> length bs" by (simp add: less_eq_div_iff_mult_less_eq)
  let ?g = "[Poke ICAP_CNTRL_REG 0xC, Poke ICAP_CNTRL_REG 0] @ g1 @ g2 @ [Poke ICAP_CNTRL_REG 1]"
  have "ICAP_prog_PR_binfile D (Some bs) h = Some (Some (h @ ?g))"
    using assms w1(1) w2(1) by (simp add: ICAP_prog_PR_binfile_def fifo_page guard_ub_def)
  moreover have "asked ICAP_WR_FIFO_VACANCY_REG ?g = (if 240 \<le> length bs then 1 else 0)"
    using w1(3) w2(3) k by (simp add: length_host_words)
  moreover have "length (filter (\<lambda>e. e = (ICAP_CNTRL_REG, 1)) (pokes ?g)) = length bs div 240 + 1"
    using w1(2) w2(2) f [of 0 "host_words bs"] by (simp add: length_host_words div_mult2_eq [of _ 4 60, simplified])
  ultimately show ?thesis by blast
qed

lemma icap_waits_once_witness:
  "\<exists>g. ICAP_prog_PR_binfile (sim_card\<lparr>reg_value := \<lambda>h r. 0x3F\<rparr>) (Some (replicate 480 0)) [] = Some (Some g) \<and>
    asked 0x30114 g = 1 \<and> length (filter (\<lambda>e. e = (0x3010C, 1)) (pokes g)) = 3"
proof -
  have "length (replicate 480 0 :: bytes) div 4 < 2 ^ 31" by simp
  from icap_waits_once [OF _ this, of "sim_card\<lparr>reg_value := \<lambda>h r. 0x3F\<rparr>" "[]"] show ?thesis by simp
qed

end
