(* ===== verification/Floats.thy ===== *)
theory Floats
  imports Complex_Main "HOL-Library.Log_Nat"
begin

text \<open>
  Binary floating point as far as the code uses it: \<^verbatim>\<open>float\<close> and \<^verbatim>\<open>double\<close> arithmetic on rational
  numbers, where each operation rounds its exact result to the nearest number of 24 or 53 bits,
  ties to the even one. A division by zero gives an infinity or no number at all. The range of the
  exponents is not bounded here: no computation of the code comes near to its ends.
\<close>

section \<open>Rounding\<close>

definition round_half_even :: "rat \<Rightarrow> int" where
  "round_half_even y =
     (let f = \<lfloor>y\<rfloor>; d = y - of_int f
      in if d < 1 / 2 \<or> d = 1 / 2 \<and> even f then f else f + 1)"

definition exponent_of :: "rat \<Rightarrow> int" where
  \<comment> \<open>the power of two below a positive number\<close>
  "exponent_of x =
     (let (a, b) = quotient_of x; e = bitlen a - bitlen b
      in if 2 powi e \<le> x then e else e - 1)"

definition rnd :: "nat \<Rightarrow> rat \<Rightarrow> rat" where
  \<comment> \<open>the nearest number with a significand of \<open>p\<close> bits\<close>
  "rnd p x =
     (if x = 0 then 0
      else (let u = 2 powi (exponent_of \<bar>x\<bar> - int p + 1) in of_int (round_half_even (x / u)) * u))"

abbreviation fl32 :: "rat \<Rightarrow> rat" where "fl32 \<equiv> rnd 24"
abbreviation fl64 :: "rat \<Rightarrow> rat" where "fl64 \<equiv> rnd 53"

text \<open>The result of an operation that may divide by zero.\<close>

datatype flt = Num rat | Infinity bool | NaN

definition fl_div :: "nat \<Rightarrow> rat \<Rightarrow> rat \<Rightarrow> flt" where
  \<comment> \<open>the zero is positive\<close>
  "fl_div p a b = (if b \<noteq> 0 then Num (rnd p (a / b)) else if a = 0 then NaN else Infinity (a < 0))"

section \<open>The error of a rounding\<close>

lemma round_half_even_err: "\<bar>of_int (round_half_even y) - y\<bar> \<le> 1 / 2"
proof -
  have "of_int \<lfloor>y\<rfloor> \<le> y" "y < of_int \<lfloor>y\<rfloor> + 1" by linarith+
  then show ?thesis by (auto simp: round_half_even_def Let_def abs_le_iff)
qed

lemma round_half_even_int [simp]: "round_half_even (of_int k) = k"
  by (simp add: round_half_even_def)

lemma round_half_even_mono:
  assumes "x \<le> y"
  shows "round_half_even x \<le> round_half_even y"
proof -
  have f: "\<lfloor>x\<rfloor> \<le> \<lfloor>y\<rfloor>" using assms by (rule floor_mono)
  show ?thesis
  proof (cases "\<lfloor>x\<rfloor> = \<lfloor>y\<rfloor>")
    case True
    with assms show ?thesis by (auto simp: round_half_even_def Let_def)
  next
    case False
    with f have "\<lfloor>x\<rfloor> + 1 \<le> \<lfloor>y\<rfloor>" by simp
    then show ?thesis by (auto simp: round_half_even_def Let_def)
  qed
qed

lemma exponent_of_bounds:
  assumes "0 < x"
  shows "2 powi exponent_of x \<le> x" "x < 2 powi (exponent_of x + 1)"
proof -
  obtain a b where q: "quotient_of x = (a, b)" by fastforce
  have b: "0 < b" using q by (rule quotient_of_denom_pos)
  have x: "x = of_int a / of_int b" using q by (rule quotient_of_div)
  with assms b have a: "0 < a" by (simp add: zero_less_divide_iff)
  have pw: "(of_int (2 ^ nat k) :: rat) = 2 powi k" if "0 \<le> k" for k
    using that by (simp add: power_int_def)
  have L: "2 powi (bitlen k - 1) \<le> (of_int k :: rat)" "(of_int k :: rat) < 2 powi bitlen k" if "0 < k" for k
  proof -
    have "0 < bitlen k" using that bitlen_eq_zero_iff [of k] bitlen_nonneg [of k] by linarith
    with bitlen_bounds [OF that] show "2 powi (bitlen k - 1) \<le> (of_int k :: rat)"
      "(of_int k :: rat) < 2 powi bitlen k"
      using pw [of "bitlen k - 1"] pw [of "bitlen k"] by (metis of_int_le_iff of_int_less_iff
          bitlen_nonneg zle_diff1_eq diff_ge_0_iff_ge int_one_le_iff_zero_less)+
  qed
  let ?e = "bitlen a - bitlen b"
  have up: "x < 2 powi (?e + 1)"
  proof -
    have "(of_int a :: rat) < 2 powi bitlen a" using L(2) [OF a] .
    also have "\<dots> = 2 powi (?e + 1) * 2 powi (bitlen b - 1)"
      by (simp add: power_int_add [symmetric])
    also have "\<dots> \<le> 2 powi (?e + 1) * of_int b"
      using L(1) [OF b] by (intro mult_left_mono) simp_all
    finally show ?thesis using b by (simp add: x divide_less_eq)
  qed
  have lo: "2 powi (?e - 1) \<le> x"
  proof -
    have "2 powi (?e - 1) * of_int b \<le> 2 powi (?e - 1) * (2 powi bitlen b :: rat)"
      using L(2) [OF b] by (intro mult_left_mono) simp_all
    also have "\<dots> = 2 powi (bitlen a - 1)" by (simp add: power_int_add [symmetric])
    also have "\<dots> \<le> of_int a" using L(1) [OF a] .
    finally show ?thesis using b by (simp add: x le_divide_eq)
  qed
  show "2 powi exponent_of x \<le> x" "x < 2 powi (exponent_of x + 1)"
    using up lo by (auto simp: exponent_of_def q not_le Let_def)
qed

lemma rnd_0 [simp]: "rnd p 0 = 0"
  by (simp add: rnd_def)

text \<open>The relative error is at most half a unit in the last place.\<close>

lemma rnd_err:
  assumes "0 < p"
  shows "\<bar>rnd p x - x\<bar> \<le> \<bar>x\<bar> / 2 ^ p"
proof (cases "x = 0")
  case False
  define e where "e = exponent_of \<bar>x\<bar>"
  define u :: rat where "u = 2 powi (e - int p + 1)"
  have u: "0 < u" by (simp add: u_def)
  have e: "2 powi e \<le> \<bar>x\<bar>" using exponent_of_bounds(1) [of "\<bar>x\<bar>"] False by (simp add: e_def)
  have "rnd p x - x = (of_int (round_half_even (x / u)) - x / u) * u"
    using False u by (simp add: rnd_def u_def e_def Let_def field_simps)
  then have "\<bar>rnd p x - x\<bar> = \<bar>of_int (round_half_even (x / u)) - x / u\<bar> * u"
    using u by (simp add: abs_mult)
  also have "\<dots> \<le> 1 / 2 * u" using round_half_even_err u by (intro mult_right_mono) simp_all
  also have "\<dots> = 2 powi e / 2 ^ p"
    by (simp add: u_def power_int_add power_int_diff)
  also have "\<dots> \<le> \<bar>x\<bar> / 2 ^ p" using e by (intro divide_right_mono) simp_all
  finally show ?thesis .
qed simp

end
