(* ===== verification/Clock.thy ===== *)
theory Clock
  imports Fpga Floats
begin

text \<open>
  The two functions of \<^verbatim>\<open>src/srai_accel_utils.cc\<close> that compute in floating point: the divider of
  the clock of the partial reconfiguration module, \<open>fpga_PROGRAM_PR_CLOCK\<close>, and the temperature of
  the card, \<open>fpga_read_temprature\<close>. What they print is left out.
\<close>

section \<open>Operations\<close>

abbreviation (input) PROG_CLOCK_DIVIDE_REGISTER :: "32 word" where "PROG_CLOCK_DIVIDE_REGISTER \<equiv> 0x00020208"
abbreviation (input) PROG_CLOCK_CONTROL_REGISTER :: "32 word" where "PROG_CLOCK_CONTROL_REGISTER \<equiv> 0x0002025C"
abbreviation (input) SYSMON_Temptature_register :: "32 word" where "SYSMON_Temptature_register \<equiv> 0x00050400"
abbreviation (input) SYSMON_MAX_Temptature_register :: "32 word" where "SYSMON_MAX_Temptature_register \<equiv> 0x00051c80"
abbreviation (input) SYSMON_MIN_Temptature_register :: "32 word" where "SYSMON_MIN_Temptature_register \<equiv> 0x00051c90"

definition trunc :: "rat \<Rightarrow> int" where
  "trunc x = (if 0 \<le> x then \<lfloor>x\<rfloor> else \<lceil>x\<rceil>)"

definition to_ushort :: "rat \<Rightarrow> 16 word option" where
  \<comment> \<open>the conversion to \<^verbatim>\<open>unsigned short\<close> is undefined where the integral part does not fit\<close>
  "to_ushort x = do { guard_ub (0 \<le> trunc x \<and> trunc x < 2 ^ 16); Some (word_of_int (trunc x)) }"

definition MMCM_OUTPUT_DIV :: "rat \<Rightarrow> rat option" where
  \<comment> \<open>\<^verbatim>\<open>(float)(1550000000.0/PR_Frequency)\<close>; the conversion of an infinity further down is undefined\<close>
  "MMCM_OUTPUT_DIV f = do { guard_ub (f \<noteq> 0); Some (fl32 (fl64 (1550000000 / f))) }"

definition div_register :: "16 word \<Rightarrow> 16 word \<Rightarrow> 32 word" where
  "div_register frac_part int_part = push_bit 8 (ucast frac_part) OR ucast int_part"

definition fpga_PROGRAM_PR_CLOCK :: "rat \<Rightarrow> hist \<Rightarrow> hist option" where
  "fpga_PROGRAM_PR_CLOCK PR_Frequency h = do {
     d \<leftarrow> MMCM_OUTPUT_DIV PR_Frequency;
     let d_int = of_int (trunc d);
     let d_frac = d - d_int;
     int_reg \<leftarrow> to_ushort d_int;
     frac_reg \<leftarrow> to_ushort (fl32 (d_frac * 1000));
     h \<leftarrow> fpga_poke PROG_CLOCK_DIVIDE_REGISTER (div_register frac_reg int_reg) h;
     fpga_poke PROG_CLOCK_CONTROL_REGISTER 3 h }"

record SysMon_temp_struct =
  current_temp :: flt
  maximum_temp :: rat
  minimum_temp :: rat

definition celsius :: "rat \<Rightarrow> rat \<Rightarrow> 32 word \<Rightarrow> rat" where
  \<comment> \<open>\<^verbatim>\<open>((double)reg*factor/(65536.0))-offset\<close>; the constants of the source are rounded too\<close>
  "celsius factor offset reg =
     fl64 (fl64 (fl64 (of_nat (unat reg) * fl64 factor) / 65536) - fl64 offset)"

fun sum_temps :: "device \<Rightarrow> nat \<Rightarrow> rat \<Rightarrow> hist \<Rightarrow> (rat \<times> hist) option" where
  "sum_temps D 0 temprature_v h = Some (temprature_v, h)"
| "sum_temps D (Suc n) temprature_v h = do {
     (r, h) \<leftarrow> fpga_peek D SYSMON_Temptature_register h;
     sum_temps D n (fl64 (temprature_v + celsius (5093140064 / 10000000) (28023087870 / 100000000) r)) h }"

text \<open>
  For a number of readings that is not positive the loop does not run: the mean is \<open>0.0/0.0\<close> for
  none, and a zero for a negative number.
\<close>

definition fpga_read_temprature :: "device \<Rightarrow> int \<Rightarrow> hist \<Rightarrow> (SysMon_temp_struct \<times> hist) option" where
  "fpga_read_temprature D average_num h = do {
     (temprature_v, h) \<leftarrow> sum_temps D (nat average_num) 0 h;
     (mx, h) \<leftarrow> fpga_peek D SYSMON_MAX_Temptature_register h;
     (mn, h) \<leftarrow> fpga_peek D SYSMON_MIN_Temptature_register h;
     Some (\<lparr>current_temp = fl_div 53 temprature_v (of_int average_num),
            maximum_temp = celsius (5075921310 / 10000000) (27942657680 / 100000000) mx,
            minimum_temp = celsius (5093140064 / 10000000) (28023087870 / 100000000) mn\<rparr>, h) }"

section \<open>The divider\<close>

lemma trunc_nonneg: "0 \<le> x \<Longrightarrow> trunc x = \<lfloor>x\<rfloor>"
  by (simp add: trunc_def)

lemma to_ushort_Some: "0 \<le> x \<Longrightarrow> x < 65536 \<Longrightarrow> to_ushort x = Some (word_of_int \<lfloor>x\<rfloor>)"
  by (simp add: to_ushort_def trunc_nonneg guard_ub_def floor_less_iff)

lemma int_bits_below:
  fixes k :: int
  assumes "0 \<le> k" "k < 2 ^ m" "m \<le> n"
  shows "\<not> bit k n"
proof -
  have "take_bit m k = k" using assms(1,2) by (simp add: take_bit_int_eq_self)
  then show ?thesis using assms(3) by (metis bit_take_bit_iff not_less)
qed

lemma div_register_fields:
  assumes "0 \<le> i" "i < 256"
  shows "div_register fr (word_of_int i) AND 0xFF = word_of_int i"
    and "drop_bit 8 (div_register fr (word_of_int i)) = ucast fr"
proof -
  have m: "(0xFF :: 32 word) = mask 8" by (simp add: mask_eq_exp_minus_1)
  have hi: "\<not> bit i n" if "8 \<le> n" for n
    using int_bits_below [OF assms(1), of 8 n] assms(2) that by simp
  show "div_register fr (word_of_int i) AND 0xFF = word_of_int i"
    unfolding m div_register_def
    by (intro bit_word_eqI) (auto simp: bit_simps hi intro: ccontr [of "_ < (8 :: nat)"] dest: bit_imp_le_length)
  show "drop_bit 8 (div_register fr (word_of_int i)) = ucast fr"
    unfolding div_register_def
    by (intro bit_word_eqI) (auto simp: bit_simps hi dest: bit_imp_le_length)
qed

lemma div_register_bound:
  assumes "0 \<le> k" "k < 1024"
  shows "unat (drop_bit 8 (div_register (word_of_int k) i)) < 1024"
proof -
  have hi: "\<not> bit k n" if "10 \<le> n" for n
    using int_bits_below [OF assms(1), of 10 n] assms(2) that by simp
  have "\<not> bit i (8 + n)" if "10 \<le> n" for n using that by (auto dest: bit_imp_le_length)
  then have "drop_bit 8 (div_register (word_of_int k) i) =
      take_bit 10 (drop_bit 8 (div_register (word_of_int k) i))"
    unfolding div_register_def
    by (intro bit_word_eqI) (auto simp: bit_simps not_less hi)
  then have "unat (drop_bit 8 (div_register (word_of_int k) i)) =
      take_bit 10 (unat (drop_bit 8 (div_register (word_of_int k) i)))"
    by (metis unsigned_take_bit_eq)
  also have "\<dots> < 2 ^ 10" by (rule take_bit_nat_less_exp)
  finally show ?thesis by simp
qed

definition divider_of :: "32 word \<Rightarrow> rat" where
  \<comment> \<open>the divider that the fields of the register stand for: eight bits, and thousandths above them\<close>
  "divider_of v = of_nat (unat (v AND 0xFF)) + of_nat (unat (drop_bit 8 v)) / 1000"

lemma two_roundings:
  fixes x a d :: rat
  assumes "\<bar>a - x\<bar> \<le> x / 9007199254740992" "\<bar>d - a\<bar> \<le> \<bar>a\<bar> / 16777216" "0 < x"
  shows "\<bar>d - x\<bar> \<le> x * (6 / 100000000)"
  using assms by linarith

lemma MMCM_err:
  assumes "0 < f" "MMCM_OUTPUT_DIV f = Some d"
  shows "\<bar>d - 1550000000 / f\<bar> \<le> 1550000000 / f * (6 / 100000000)"
proof -
  let ?x = "1550000000 / f"
  have "0 < ?x" using assms(1) by simp
  moreover have "\<bar>fl64 ?x - ?x\<bar> \<le> ?x / 2 ^ 53" using rnd_err [of 53 ?x] assms(1) by simp
  moreover have "\<bar>d - fl64 ?x\<bar> \<le> \<bar>fl64 ?x\<bar> / 2 ^ 24"
    using rnd_err [of 24 "fl64 ?x"] assms by (simp add: MMCM_OUTPUT_DIV_def guard_ub_def)
  ultimately show ?thesis using two_roundings [of "fl64 ?x" ?x d] by simp
qed

lemma thousandths:
  fixes y z :: rat
  assumes "0 \<le> y" "y < 1" "z = fl32 (y * 1000)"
  shows "0 \<le> z" "\<bar>y - of_int \<lfloor>z\<rfloor> / 1000\<bar> \<le> 1001 / 1000000" "\<lfloor>z\<rfloor> \<le> 1000"
proof -
  have e: "\<bar>z - y * 1000\<bar> \<le> y * 1000 / 16777216" using rnd_err [of 24 "y * 1000"] assms by simp
  then show "0 \<le> z" using assms(1) by linarith
  have f: "of_int \<lfloor>z\<rfloor> \<le> z" "z < of_int \<lfloor>z\<rfloor> + 1" by linarith+
  from e f assms(1,2) show "\<bar>y - of_int \<lfloor>z\<rfloor> / 1000\<bar> \<le> 1001 / 1000000"
    by linarith
  have "z < 1001" using e assms(1,2) by linarith
  then show "\<lfloor>z\<rfloor> \<le> 1000" by (simp add: floor_le_iff)
qed

text \<open>What the register stands for, by the two parts of the divider.\<close>

lemma divider_of_parts:
  assumes "0 \<le> i" "i < 256" "0 \<le> k" "k \<le> 1000"
  shows "divider_of (div_register (word_of_int k) (word_of_int i)) = of_int i + of_int k / 1000"
proof -
  note fields = div_register_fields [OF assms(1,2), of "word_of_int k"]
  have "unat (word_of_int i :: 32 word) = nat i" "unat (word_of_int k :: 16 word) = nat k"
    using assms by (simp_all add: unat_eq_nat_uint uint_word_of_int_eq take_bit_int_eq_self)
  moreover have "take_bit 32 (nat k) = nat k"
  proof (rule take_bit_nat_eq_self)
    have "nat k \<le> 1000" using assms(4) by linarith
    then show "nat k < 2 ^ 32" by (rule order_le_less_trans) simp
  qed
  ultimately show ?thesis
    using assms(1,3) unfolding divider_of_def fields by (simp add: unsigned_ucast_eq)
qed

lemma divider_of_bound:
  assumes "0 \<le> k" "k \<le> 1000"
  shows "divider_of (div_register (word_of_int k) i) \<le> 25603 / 100"
proof -
  let ?v = "div_register (word_of_int k) i"
  have "unat (?v AND 0xFF) \<le> 255"
    using word_and_le1 [of ?v "0xFF"] by (simp add: word_le_nat_alt)
  moreover have "unat (drop_bit 8 ?v) < 1024" using assms by (intro div_register_bound) simp_all
  ultimately show ?thesis unfolding divider_of_def by linarith
qed

text \<open>The run: the two parts of the quotient, as they are written to the card.\<close>

lemma fpga_PROGRAM_PR_CLOCK_run:
  assumes "24000 \<le> f"
  obtains d i z where "\<bar>d - 1550000000 / f\<bar> \<le> 1550000000 / f * (6 / 100000000)"
    "0 \<le> i" "of_int i \<le> d" "d < of_int i + 1" "z = fl32 ((d - of_int i) * 1000)"
    "fpga_PROGRAM_PR_CLOCK f h =
      Some (h @ [Poke PROG_CLOCK_DIVIDE_REGISTER (div_register (word_of_int \<lfloor>z\<rfloor>) (word_of_int i)),
                 Poke PROG_CLOCK_CONTROL_REGISTER 3])"
proof -
  define x where "x = 1550000000 / f"
  have x: "0 < x" "x \<le> 64584" using assms by (simp_all add: x_def divide_le_eq)
  obtain d where d: "MMCM_OUTPUT_DIV f = Some d"
    using assms by (auto simp: MMCM_OUTPUT_DIV_def guard_ub_def)
  have e: "\<bar>d - x\<bar> \<le> x * (6 / 100000000)" unfolding x_def using assms by (intro MMCM_err [OF _ d]) simp
  then have d0: "0 \<le> d" "d < 65000" using x by linarith+
  define i where "i = \<lfloor>d\<rfloor>"
  have i: "0 \<le> i" "of_int i \<le> d" "d < of_int i + 1" "trunc d = i"
    using d0 unfolding i_def by (simp_all add: trunc_nonneg) linarith
  define z where "z = fl32 ((d - of_int i) * 1000)"
  have y: "0 \<le> d - of_int i" "d - of_int i < 1" using i by simp_all
  note th = thousandths [OF y z_def]
  have z: "fl32 (d * 1000 - of_int i * 1000) = z" by (simp add: z_def left_diff_distrib)
  have "of_int i < (65536 :: rat)" using i(2) d0(2) by linarith
  then have u1: "to_ushort (of_int i) = Some (word_of_int i)" using i(1) by (simp add: to_ushort_Some)
  have "z < 65536" using th(3) by (simp add: floor_le_iff)
  then have u2: "to_ushort z = Some (word_of_int \<lfloor>z\<rfloor>)" using th(1) by (simp add: to_ushort_Some)
  have "fpga_PROGRAM_PR_CLOCK f h =
      Some (h @ [Poke PROG_CLOCK_DIVIDE_REGISTER (div_register (word_of_int \<lfloor>z\<rfloor>) (word_of_int i)),
                 Poke PROG_CLOCK_CONTROL_REGISTER 3])"
    by (simp add: fpga_PROGRAM_PR_CLOCK_def d Let_def i(4) u1 z u2 fpga_poke_def PAGE_SIZE_def
        guard_ub_def)
  with e i(1-3) z_def show ?thesis unfolding x_def by (rule that)
qed

text \<open>C40. The register of the clock divider, for frequencies from 24 kHz on: from 6.1 MHz its two fields stand for the
  divider 1550 MHz / \<open>f\<close> up to about a thousandth. Up to 6 MHz the integral part does
  not fit into its eight bits: it runs over into the field of the thousandths, and the divider that
  is programmed is too small.\<close>

theorem pr_clock_divider:
  assumes "24000 \<le> f"
  shows "\<exists>v. fpga_PROGRAM_PR_CLOCK f h =
      Some (h @ [Poke PROG_CLOCK_DIVIDE_REGISTER v, Poke PROG_CLOCK_CONTROL_REGISTER 3]) \<and>
    (if 6100000 \<le> f then \<bar>divider_of v - 1550000000 / f\<bar> \<le> 11 / 10000
     else if f \<le> 6000000 then divider_of v + 2 \<le> 1550000000 / f else True)"
proof -
  define x where "x = 1550000000 / f"
  obtain d i z where e: "\<bar>d - x\<bar> \<le> x * (6 / 100000000)"
    and i: "0 \<le> i" "of_int i \<le> d" "d < of_int i + 1" and z: "z = fl32 ((d - of_int i) * 1000)"
    and run: "fpga_PROGRAM_PR_CLOCK f h =
      Some (h @ [Poke PROG_CLOCK_DIVIDE_REGISTER (div_register (word_of_int \<lfloor>z\<rfloor>) (word_of_int i)),
                 Poke PROG_CLOCK_CONTROL_REGISTER 3])"
    unfolding x_def using fpga_PROGRAM_PR_CLOCK_run [OF assms, of h] by blast
  let ?v = "div_register (word_of_int \<lfloor>z\<rfloor>) (word_of_int i)"
  have "0 \<le> d - of_int i" "d - of_int i < 1" using i by simp_all
  note th = thousandths [OF this z]
  have k: "0 \<le> \<lfloor>z\<rfloor>" using th(1) by simp
  have good: "\<bar>divider_of ?v - x\<bar> \<le> 11 / 10000" if "6100000 \<le> f"
  proof -
    have x: "x \<le> 2541 / 10" using that by (simp add: x_def divide_le_eq)
    with e have "d < 255" by linarith
    with i have "i < 256" by linarith
    from divider_of_parts [OF i(1) this k th(3)] th(2) e x show ?thesis by linarith
  qed
  have bad: "divider_of ?v + 2 \<le> x" if "f \<le> 6000000"
  proof -
    have "25833 / 100 \<le> x" using that assms by (simp add: x_def le_divide_eq)
    with divider_of_bound [OF k th(3), of "word_of_int i"] show ?thesis by linarith
  qed
  show ?thesis using run good bad unfolding x_def by (intro exI [of _ ?v]) simp
qed

lemma pr_clock_divider_witness:
  "\<exists>v. fpga_PROGRAM_PR_CLOCK 300000000 [] =
      Some [Poke PROG_CLOCK_DIVIDE_REGISTER v, Poke PROG_CLOCK_CONTROL_REGISTER 3] \<and>
    \<bar>divider_of v - 31 / 6\<bar> \<le> 11 / 10000"
  using pr_clock_divider [of 300000000 "[]"] by simp

section \<open>The temperature\<close>

text \<open>A reading of \<open>n\<close> samples asks the card \<open>n + 2\<close> times and never leaves the page that is mapped.\<close>

lemma sum_temps_accesses:
  "\<exists>t. sum_temps D n t0 h = Some (t, h @ replicate n (Peek SYSMON_Temptature_register))"
proof (induction n arbitrary: t0 h)
  case (Suc n)
  obtain t1 where e: "sum_temps D (Suc n) t0 h = sum_temps D n t1 (h @ [Peek SYSMON_Temptature_register])"
    by (simp add: fpga_peek_def PAGE_SIZE_def guard_ub_def)
  from Suc.IH [of t1 "h @ [Peek SYSMON_Temptature_register]"] e show ?case by simp
qed simp

lemma fpga_read_temprature_accesses:
  "\<exists>t h'. fpga_read_temprature D n h = Some (t, h') \<and>
     h' = h @ replicate (nat n) (Peek SYSMON_Temptature_register) @
       [Peek SYSMON_MAX_Temptature_register, Peek SYSMON_MIN_Temptature_register] \<and>
     (n = 0 \<longrightarrow> current_temp t = NaN)"
proof -
  obtain v where "sum_temps D (nat n) 0 h = Some (v, h @ replicate (nat n) (Peek SYSMON_Temptature_register))"
    using sum_temps_accesses by blast
  then show ?thesis
    by (auto simp: fpga_read_temprature_def fpga_peek_def PAGE_SIZE_def guard_ub_def fl_div_def)
qed

end
