(* ===== verification/PerfMon.thy ===== *)
theory PerfMon
  imports Floats DZ_Prelude "HOL-Library.Word"
begin

text \<open>
  The thread that prints the progress of a copy with the option \<^verbatim>\<open>-v\<close>: \<open>computelapse\<close> and
  \<open>perf_mon\<close> of \<^verbatim>\<open>src/dzfile-put.c\<close> and, line for line the same, of \<^verbatim>\<open>src/dzfile-get.c\<close>. It shares
  \<^verbatim>\<open>total_bytes\<close>, \<^verbatim>\<open>last_bytes\<close> and \<^verbatim>\<open>stopflg\<close> with the copying thread and takes no lock, so each
  access to a shared variable is a step of its own here. An access sees the last write.
\<close>

section \<open>Operations\<close>

record timeval =
  tv_sec :: int
  tv_usec :: int

definition computelapse :: "timeval \<Rightarrow> timeval \<Rightarrow> rat" where
  "computelapse ftime etime =
     (let start = tv_sec ftime * 1000000 + tv_usec ftime;
          end_time = tv_sec etime * 1000000 + tv_usec etime
      in fl32 (fl32 (of_int (end_time - start)) / 1000000))"

definition MB_per_second :: "64 word \<Rightarrow> rat \<Rightarrow> flt" where
  \<comment> \<open>\<^verbatim>\<open>(float)bytes / (seconds * 1024 * 1024)\<close>\<close>
  "MB_per_second count seconds =
     fl_div 24 (fl32 (of_nat (unat count))) (fl32 (fl32 (seconds * 1024) * 1024))"

record report =
  r_total :: "64 word"
  r_transferred :: "64 word"
  r_avg :: flt
  r_inst :: flt

text \<open>Where the monitor is, with its local variables.\<close>

datatype phase =
    While                                  \<comment> \<open>before \<^verbatim>\<open>while (stopflg == 0)\<close>\<close>
  | IfZero                                 \<comment> \<open>before \<^verbatim>\<open>if (total_bytes == 0)\<close>\<close>
  | GetTime
  | Transferred timeval                    \<comment> \<open>before \<^verbatim>\<open>transferred = total_bytes - last_bytes\<close>\<close>
  | Avg timeval "64 word"                  \<comment> \<open>before \<^verbatim>\<open>avg = ...\<close>, which reads \<^verbatim>\<open>total_bytes\<close> again\<close>
  | Print timeval "64 word" flt            \<comment> \<open>before the \<^verbatim>\<open>fprintf\<close>, which reads it again\<close>
  | SaveLast timeval                       \<comment> \<open>before \<^verbatim>\<open>last_bytes = total_bytes\<close>\<close>
  | SleepAt nat                            \<comment> \<open>in the \<^verbatim>\<open>for\<close> loop\<close>
  | Exited

record progress =
  total_bytes :: "64 word"
  last_bytes :: "64 word"
  last_time :: timeval
  stopflg :: bool
  copies :: "nat list"                     \<comment> \<open>the sizes of the pieces still to be copied\<close>
  mon :: phase
  printed :: "report list"                 \<comment> \<open>in the order of printing\<close>

inductive perf_mon_step :: "timeval \<Rightarrow> progress \<Rightarrow> progress \<Rightarrow> bool" for first_time where
  copy: "copies s = n # r \<Longrightarrow>
    perf_mon_step first_time s (s\<lparr>total_bytes := total_bytes s + of_nat n, copies := r\<rparr>)"
| finish: "copies s = [] \<Longrightarrow> \<not> stopflg s \<Longrightarrow> perf_mon_step first_time s (s\<lparr>stopflg := True\<rparr>)"
| give_up: "\<not> stopflg s \<Longrightarrow> perf_mon_step first_time s (s\<lparr>stopflg := True, copies := []\<rparr>)"
    \<comment> \<open>a failed read, lock or write: the rest is not copied\<close>
| while_test: "mon s = While \<Longrightarrow>
    perf_mon_step first_time s (s\<lparr>mon := (if stopflg s then Exited else IfZero)\<rparr>)"
| if_zero: "mon s = IfZero \<Longrightarrow>
    perf_mon_step first_time s (s\<lparr>mon := (if total_bytes s = 0 then While else GetTime)\<rparr>)"
| get_time: "mon s = GetTime \<Longrightarrow> perf_mon_step first_time s (s\<lparr>mon := Transferred curtime\<rparr>)"
| transferred: "mon s = Transferred t \<Longrightarrow>
    perf_mon_step first_time s (s\<lparr>mon := Avg t (total_bytes s - last_bytes s)\<rparr>)"
| average: "mon s = Avg t n \<Longrightarrow>
    perf_mon_step first_time s
      (s\<lparr>mon := Print t n (MB_per_second (total_bytes s) (computelapse first_time t))\<rparr>)"
| print_line: "mon s = Print t n a \<Longrightarrow>
    perf_mon_step first_time s
      (s\<lparr>mon := SaveLast t,
         printed := printed s @ [\<lparr>r_total = total_bytes s, r_transferred = n, r_avg = a,
           r_inst = MB_per_second n (computelapse (last_time s) t)\<rparr>]\<rparr>)"
| save_last: "mon s = SaveLast t \<Longrightarrow>
    perf_mon_step first_time s (s\<lparr>last_bytes := total_bytes s, last_time := t, mon := SleepAt 0\<rparr>)"
| sleep: "mon s = SleepAt i \<Longrightarrow>
    perf_mon_step first_time s (s\<lparr>mon := (if i < 100 then SleepAt (Suc i) else While)\<rparr>)"

definition start_progress :: "timeval \<Rightarrow> nat list \<Rightarrow> progress" where
  "start_progress t cs = \<lparr>total_bytes = 0, last_bytes = 0, last_time = t, stopflg = False, copies = cs,
     mon = While, printed = []\<rparr>"

section \<open>What the reports add up to\<close>

text \<open>
  The bytes of a report are those between two reads of \<^verbatim>\<open>total_bytes\<close>: \<open>seen\<close> is the number of
  bytes that the reports so far have covered, the one under way included.
\<close>

definition under_way :: "progress \<Rightarrow> nat" where
  "under_way s = (case mon s of Avg t n \<Rightarrow> unat n | Print t n a \<Rightarrow> unat n | _ \<Rightarrow> 0)"

definition reported :: "progress \<Rightarrow> nat" where
  "reported s = sum_list (map (\<lambda>r. unat (r_transferred r)) (printed s))"

definition totals :: "progress \<Rightarrow> nat list" where
  "totals s = map (\<lambda>r. unat (r_total r)) (printed s)"

definition progress_inv :: "nat \<Rightarrow> progress \<Rightarrow> bool" where
  "progress_inv N s \<longleftrightarrow>
     unat (total_bytes s) + sum_list (copies s) \<le> N \<and> N < 2 ^ 64 \<and>
     unat (last_bytes s) \<le> unat (total_bytes s) \<and>
     (case mon s of SaveLast t \<Rightarrow> reported s \<le> unat (total_bytes s)
      | _ \<Rightarrow> reported s \<le> unat (last_bytes s) \<and> reported s + under_way s \<le> unat (total_bytes s)) \<and>
     sorted (totals s) \<and> (\<forall>k \<in> set (totals s). k \<le> unat (total_bytes s)) \<and>
     (stopflg s \<longrightarrow> copies s = [])"

lemma progress_inv_start: "sum_list cs < 2 ^ 64 \<Longrightarrow> progress_inv (sum_list cs) (start_progress t cs)"
  by (simp add: progress_inv_def start_progress_def reported_def totals_def under_way_def)

lemma unat_plus_small: "unat a + n < 2 ^ 64 \<Longrightarrow> unat (a + of_nat n) = unat a + n" for a :: "64 word"
  by (simp add: unat_word_ariths unat_of_nat take_bit_eq_mod)

lemma progress_inv_step:
  assumes "perf_mon_step t0 s s'" "progress_inv N s"
  shows "progress_inv N s'"
  using assms
proof cases
  case (copy n r)
  have t: "unat (total_bytes s + of_nat n) = unat (total_bytes s) + n"
    using assms(2) copy(2) by (intro unat_plus_small) (simp add: progress_inv_def)
  show ?thesis
    using assms(2) copy t
    by (auto simp: progress_inv_def reported_def totals_def under_way_def split: phase.splits)
next
  case (transferred t)
  have "unat (total_bytes s - last_bytes s) = unat (total_bytes s) - unat (last_bytes s)"
    using assms(2) by (simp add: progress_inv_def unat_sub word_le_nat_alt)
  with assms(2) transferred show ?thesis
    by (auto simp: progress_inv_def reported_def totals_def under_way_def)
next
  case (print_line t n a)
  with assms(2) show ?thesis
    by (simp add: progress_inv_def reported_def totals_def under_way_def sorted_append)
qed (use assms(2) in \<open>auto simp: progress_inv_def reported_def totals_def under_way_def split: phase.splits\<close>)

lemma progress_inv_reach:
  assumes "rtranclp (perf_mon_step t0) (start_progress t cs) s" "sum_list cs < 2 ^ 64"
  shows "progress_inv (sum_list cs) s"
  using assms(1)
  by (induction rule: rtranclp_induct) (auto intro: progress_inv_start assms(2) progress_inv_step)

text \<open>A piece that is copied between the two reads of one report belongs to no interval.\<close>

definition missed_progress :: "timeval \<Rightarrow> progress" where
  "missed_progress t0 = (start_progress t0 [])\<lparr>total_bytes := 2, last_bytes := 2, mon := SleepAt 0,
     printed := [\<lparr>r_total = 2, r_transferred = 1, r_avg = MB_per_second 2 (computelapse t0 t0),
                  r_inst = MB_per_second 1 (computelapse t0 t0)\<rparr>]\<rparr>"

lemma missed_progress_run: "rtranclp (perf_mon_step t0) (start_progress t0 [1, 1]) (missed_progress t0)"
proof -
  note step = converse_rtranclp_into_rtranclp
  show ?thesis
    unfolding start_progress_def missed_progress_def
    apply (rule step, rule copy, simp)
    apply (rule step, rule while_test, simp)
    apply (rule step, rule if_zero, simp)
    apply (rule step, rule get_time [where curtime = t0], simp)
    apply (rule step, rule transferred, simp)
    apply (rule step, rule copy, simp)
    apply (rule step, rule average, simp)
    apply (rule step, rule print_line, simp)
    apply (rule step, rule save_last, simp)
    apply simp
    done
qed

lemma missed_progress_counts:
  "reported (missed_progress t0) = 1" "last_bytes (missed_progress t0) = 2" "total_bytes (missed_progress t0) = 2"
  "totals (missed_progress t0) = [2]"
  by (simp_all add: missed_progress_def start_progress_def reported_def totals_def)

text \<open>C37. The progress that \<open>perf_mon\<close> prints with \<^verbatim>\<open>-v\<close>: the totals never decrease and never exceed what has been
  copied, and the bytes of all intervals together are at most the last total. They may be fewer:
  what is copied between the two reads of \<^verbatim>\<open>total_bytes\<close> in a report is in no interval.\<close>

theorem perf_mon_reports:
  assumes "rtranclp (perf_mon_step t0) (start_progress t0 cs) s" "sum_list cs < 2 ^ 64"
  shows "sorted (totals s) \<and> Ball (set (totals s)) (\<lambda>k. k \<le> unat (total_bytes s)) \<and>
      reported s \<le> unat (total_bytes s) \<and> unat (total_bytes s) \<le> sum_list cs \<and>
    (\<exists>s'. rtranclp (perf_mon_step t0) (start_progress t0 [1, 1]) s' \<and> reported s' < unat (last_bytes s'))"
proof -
  have "reported (missed_progress t0) < unat (last_bytes (missed_progress t0))"
    by (simp add: missed_progress_counts)
  with missed_progress_run show ?thesis
    using progress_inv_reach [OF assms] by (auto simp: progress_inv_def split: phase.splits)
qed

lemma perf_mon_reports_witness:
  "sorted (totals (missed_progress \<lparr>tv_sec = 7, tv_usec = 0\<rparr>)) \<and>
    reported (missed_progress \<lparr>tv_sec = 7, tv_usec = 0\<rparr>) = 1 \<and>
    unat (total_bytes (missed_progress \<lparr>tv_sec = 7, tv_usec = 0\<rparr>)) \<le> 2"
  using perf_mon_reports [OF missed_progress_run [of "\<lparr>tv_sec = 7, tv_usec = 0\<rparr>"]]
  by (simp add: missed_progress_counts)

section \<open>The end of the thread\<close>

fun steps_left :: "phase \<Rightarrow> nat" where
  "steps_left Exited = 0"
| "steps_left While = 1"
| "steps_left (SleepAt i) = 102 - min i 100"
| "steps_left (SaveLast t) = 103"
| "steps_left (Print t n a) = 104"
| "steps_left (Avg t n) = 105"
| "steps_left (Transferred t) = 106"
| "steps_left GetTime = 107"
| "steps_left IfZero = 108"

lemma stopped_step:
  assumes "perf_mon_step t0 s s'" "stopflg s" "copies s = []"
  shows "stopflg s' \<and> copies s' = [] \<and> steps_left (mon s') < steps_left (mon s)"
  using assms by cases auto

lemma stopped_steps:
  assumes "(perf_mon_step t0 ^^ n) s s'" "stopflg s" "copies s = []"
  shows "stopflg s' \<and> copies s' = [] \<and> n + steps_left (mon s') \<le> steps_left (mon s)"
  using assms
proof (induction n arbitrary: s')
  case (Suc n)
  then obtain u where "(perf_mon_step t0 ^^ n) s u" "perf_mon_step t0 u s'" by auto
  with Suc.IH [of u] Suc.prems stopped_step [of t0 u s'] show ?case by fastforce
qed simp

lemma monitor_goes_on: "mon s \<noteq> Exited \<Longrightarrow> \<exists>s'. perf_mon_step t0 s s'"
  by (cases "mon s") (blast intro: perf_mon_step.intros)+

text \<open>Once the copying thread has set \<^verbatim>\<open>stopflg\<close>, \<^verbatim>\<open>pthread_join\<close> returns: the monitor makes at most 108 more
  steps, a hundred of them in its waiting loop, which does not sleep any more, and stops nowhere before
  its end.\<close>

theorem perf_mon_ends:
  assumes "(perf_mon_step t0 ^^ n) s s'" "stopflg s" "copies s = []"
  shows "n \<le> 108 \<and> (mon s' = Exited \<or> (\<exists>s''. perf_mon_step t0 s' s''))"
proof -
  have "steps_left (mon s) \<le> 108" by (cases "mon s") auto
  with stopped_steps [OF assms] monitor_goes_on [of s' t0] show ?thesis by auto
qed

lemma stopped_run:
  "(perf_mon_step t ^^ 1) (start_progress t []\<lparr>stopflg := True\<rparr>)
    (start_progress t []\<lparr>stopflg := True, mon := Exited\<rparr>)"
  using while_test [of "start_progress t []\<lparr>stopflg := True\<rparr>" t]
  by (simp add: start_progress_def relpowp_1 del: One_nat_def)

lemma perf_mon_ends_witness:
  "mon (start_progress \<lparr>tv_sec = 7, tv_usec = 0\<rparr> []\<lparr>stopflg := True, mon := Exited\<rparr>) = Exited \<and> (1 :: nat) \<le> 108"
  using perf_mon_ends [OF stopped_run [of "\<lparr>tv_sec = 7, tv_usec = 0\<rparr>"]] by (simp add: start_progress_def)

end
