(* ===== verification/BitVector.thy ===== *)
theory BitVector
  imports DZ_Prelude "HOL-Library.Word"
begin

text \<open>
  The bit vectors of \<^verbatim>\<open>src/include/common.h\<close>: the macros \<open>BIT_SET\<close>, \<open>BIT_CLR\<close> and \<open>BIT_ISSET\<close>, for bits
  that are not negative. The first bit of a byte is its most significant one. Nothing uses them yet, and \<^verbatim>\<open>bitalloc\<close>,
  which needs a \<^verbatim>\<open>BITSOFBYTE\<close> that is defined nowhere, is not modelled.
\<close>

unbundle bit_operations_syntax

section \<open>Operations\<close>

definition bit_mask :: "nat \<Rightarrow> 8 word" where
  \<comment> \<open>\<^verbatim>\<open>1 << (7 - (bit) % 8)\<close>\<close>
  "bit_mask b = push_bit (7 - b mod 8) 1"

definition BIT_SET :: "8 word list \<Rightarrow> nat \<Rightarrow> 8 word list option" where
  "BIT_SET bs b = do {
     guard_ub (b div 8 < length bs);
     Some (bs[b div 8 := (bs ! (b div 8)) OR bit_mask b]) }"

definition BIT_CLR :: "8 word list \<Rightarrow> nat \<Rightarrow> 8 word list option" where
  "BIT_CLR bs b = do {
     guard_ub (b div 8 < length bs);
     Some (bs[b div 8 := (bs ! (b div 8)) AND NOT (bit_mask b)]) }"

definition BIT_ISSET :: "8 word list \<Rightarrow> nat \<Rightarrow> int option" where
  \<comment> \<open>an \<^verbatim>\<open>int\<close>, the mask or zero: the sign of \<^verbatim>\<open>char\<close> does not reach the mask\<close>
  "BIT_ISSET bs b = do {
     guard_ub (b div 8 < length bs);
     Some (uint ((bs ! (b div 8)) AND bit_mask b)) }"

section \<open>A vector of bytes as a set of numbers\<close>

definition members :: "8 word list \<Rightarrow> nat set" where
  "members bs = {b. b div 8 < length bs \<and> bit (bs ! (b div 8)) (7 - b mod 8)}"

lemma bit_mask_iff: "bit (bit_mask b) n \<longleftrightarrow> n = 7 - b mod 8"
  by (auto simp: bit_mask_def bit_simps)

lemma AND_bit_mask: "x AND bit_mask b = (if bit x (7 - b mod 8) then bit_mask b else 0)"
  by (intro bit_word_eqI) (auto simp: bit_simps bit_mask_iff)

lemma same_bit: "b div 8 = c div 8 \<Longrightarrow> 7 - c mod 8 = 7 - b mod 8 \<longleftrightarrow> c = b" for b c :: nat
proof
  assume a: "b div 8 = c div 8" "7 - c mod 8 = 7 - b mod 8"
  have "b mod 8 < 8" "c mod 8 < 8" by simp_all
  with a(2) have "b mod 8 = c mod 8" by linarith
  with a(1) show "c = b" by (metis div_mult_mod_eq)
qed simp

lemma bit_below: "7 - b mod 8 < (8 :: nat)"
  by simp

lemma BIT_SET_members:
  assumes "BIT_SET bs b = Some bs'"
  shows "members bs' = insert b (members bs) \<and> length bs' = length bs"
  using assms
  by (auto simp: BIT_SET_def guard_ub_def members_def nth_list_update bit_or_iff bit_mask_iff same_bit
      split: if_splits)

lemma BIT_CLR_members:
  assumes "BIT_CLR bs b = Some bs'"
  shows "members bs' = members bs - {b} \<and> length bs' = length bs"
  using assms
  by (auto simp: BIT_CLR_def guard_ub_def members_def nth_list_update bit_and_iff bit_not_iff bit_below
      bit_mask_iff same_bit split: if_splits)

lemma BIT_ISSET_members:
  assumes "BIT_ISSET bs b = Some v"
  shows "v \<noteq> 0 \<longleftrightarrow> b \<in> members bs"
proof -
  have "bit_mask b \<noteq> 0" using bit_mask_iff [of b "7 - b mod 8"] by auto
  then have "uint (bit_mask b) \<noteq> 0" by (simp add: uint_0_iff)
  with assms show ?thesis
    by (auto simp: BIT_ISSET_def guard_ub_def members_def AND_bit_mask split: if_splits)
qed

end
