(* ===== verification/Spec2Isabelle.thy ===== *)
theory Spec2Isabelle
  imports Logging Restore ListTools Exits Isal Icap Clock PerfMon BitVector
begin

text \<open>
  A verification development for DZFIL, a library that compresses files behind the back of the
  programs that use them. This theory only collects the others; each of them opens with what it
  holds.

  \<^bold>\<open>The program.\<close> Programs call \<^verbatim>\<open>dzfile_open\<close>, \<^verbatim>\<open>dzfile_pread\<close> and their like
  (\<^verbatim>\<open>src/dzfile-api.c\<close>) on the files of a data directory. A daemon (\<^verbatim>\<open>src/dzfile-walker.cc\<close>)
  scans that directory and hands files that have not changed for some time to a pool of threads
  (\<^verbatim>\<open>src/threadPool.hh\<close>); a thread runs \<^verbatim>\<open>convert2h5\<close> (\<^verbatim>\<open>src/dzfile-intern.cc\<close>), which compresses
  the blocks of 4 MiB of a file into the datasets of a hidden HDF5 file \<^verbatim>\<open>.name.DZF\<close> beside it and
  then replaces the contents of the file by a hole of the same size. Opening such a file opens
  both, and a map from descriptors (\<^verbatim>\<open>src/sparsehash-map.cc\<close>) leads \<^verbatim>\<open>dzfile_pread\<close> to the
  compressed blocks. A database (\<^verbatim>\<open>src/dz-sqlite-ifce.c\<close>) keeps counters of bytes and files, and a
  message queue (\<^verbatim>\<open>src/dz-mq.c\<close>) is told of new and removed files.

  \<^bold>\<open>The theories.\<close>
  \<^item> \<open>DZ_Prelude\<close>, \<open>CStrings\<close>, \<open>Posix\<close>: undefined behaviour as \<open>None\<close>, C strings and buffers, and the
    system calls over a state of names, inodes and descriptors. The list \<open>env\<close> of that state
    decides which calls fail or transfer less; the empty list is a system that works.
  \<^item> \<open>Common\<close>: the names of \<^verbatim>\<open>src/dz-common.c\<close> (hidden names, system paths, parents).
  \<^item> \<open>Codec\<close>, \<open>Hdf5\<close>: the compressors and the wrappers of HDF5, over the libraries as parameters.
  \<^item> \<open>Convert\<close>, \<open>Pread\<close>: \<open>convert2h5\<close> and \<open>h5fd_pread\<close>, and the round trip between them.
  \<^item> \<open>World\<close>, \<open>FdMap\<close>, \<open>Space\<close>: the state of a process, its map of descriptors, its database and its
    message queue.
  \<^item> \<open>Api\<close>: the interface, one definition for each function of \<^verbatim>\<open>src/dzfile-api.c\<close>.
  \<^item> \<open>ThreadPool\<close>, \<open>Walker\<close>: the pool as a step relation, and the scan and the tasks of the daemon.
  \<^item> \<open>Frame\<close>: what a conversion leaves alone, what a second one does, and what a failed close of the
    archive does. \<open>Daemon\<close>: the start of the
    daemon, and that a sequence of its tasks keeps the contents of every file of a directory.
  \<^item> \<open>Lifetime\<close>: the daemon at work, as one step relation over the scans, the pool and the disk.
    \<open>Transparency\<close>: a program and the daemon on one directory.
  \<^item> \<open>Workers\<close>: \<open>convert2h5\<close> cut into the steps between which another worker may run, and the step
    relation of any number of workers; \<open>JobSteps\<close>: what one step does to its own file and leaves to
    the others; \<open>Parallel\<close>: the invariant of all workers. \<open>Tasks\<close>: \<open>process_file\<close> in steps, and the
    daemon with its scans, its pool and its workers, each somewhere in its task, as one step relation;
    \<open>Crowd\<close>: its invariant, and what a program sees that reads the same directory. \<open>Overwrite\<close>: a
    program that writes to a file while it is converted. \<open>Restart\<close>: the daemon is killed, or exits, and is
    started again. \<open>Exits\<close>: the daemon ends itself while a worker has an archive open.
  \<^item> \<open>Logging\<close>: \<^verbatim>\<open>dz_msg\<close> and \<^verbatim>\<open>dz_msg_backtrace\<close> with the macros of \<^verbatim>\<open>src/include/common.h\<close>.
  \<^item> \<open>Getopt\<close>, \<open>CopyTools\<close>, \<open>Restore\<close>, \<open>ListTools\<close>: the options of the command line tools, the tools that
    copy (\<^verbatim>\<open>dzfile-put\<close>, \<^verbatim>\<open>dzfile-get\<close>, \<^verbatim>\<open>dzfile-cat\<close>, \<^verbatim>\<open>dzfile-convert\<close>), what they copy, and the tools
    that show (\<^verbatim>\<open>dzfile-ls\<close>, \<^verbatim>\<open>dzfile-info\<close>, \<^verbatim>\<open>dzfile\<close>). \<open>PerfMon\<close>: the thread of \<^verbatim>\<open>dzfile-put\<close> and
    \<^verbatim>\<open>dzfile-get\<close> that prints the progress, as a step relation with the thread that copies.
  \<^item> \<open>Client\<close>: sessions of a program that makes any calls of the interface, and the well-formed
    table of open compressed files that all of them keep.
  \<^item> \<open>Isal\<close>: the codec of \<^verbatim>\<open>src/compress-isal.c\<close>. \<open>Fpga\<close>, \<open>Icap\<close>: the codec on the card
    (\<^verbatim>\<open>src/compress-fpga.cc\<close>) with its two threads, and the programming of the card
    (\<^verbatim>\<open>src/srai_accel_utils.cc\<close>); the state is the history of the accesses to the card. \<open>Clock\<close>: the
    clock divider and the temperature of the card. \<open>Floats\<close>: the floating-point operations of C as
    rational operations rounded to nearest, ties to even, at 24 or 53 bits.
  \<^item> \<open>BitVector\<close>: the macros for bits of \<^verbatim>\<open>src/include/common.h\<close>, as operations on a set of numbers.
  \<^item> \<open>SimLibs\<close>: instances of the parameters, on which the witnesses evaluate; they model no code.

  \<^bold>\<open>What the theorems show.\<close> A conversion keeps the contents of its file whatever fails but the last call,
  the \<^verbatim>\<open>H5Fclose\<close> of the archive, whose result the code ignores: if that fails, they can be lost
  (\<open>failed_close_loses_contents\<close>). It touches no other file, and what it has made reads as the file
  did, through the interface and through \<^verbatim>\<open>dzfile-get\<close>, if the file has at most 2 GiB and each block
  has been compressed to less than 4 MiB; other files cannot be read back. The daemon, with all its
  workers at work at the same time and their system calls interleaved, loses nothing as long as no
  system call fails, the variables \<^verbatim>\<open>srcfd\<close> and \<^verbatim>\<open>h5fd\<close> of \<^verbatim>\<open>convert2h5\<close> hold no positive number when
  they are not initialised, and no two workers have the same file, which one thread cannot do. It can be
  killed, or exit, and be started again, but for the moment between the rename of an archive and its
  closing, and its own exit can fall into that moment (\<open>own_exit_loses_contents\<close>). It is transparent to
  programs that open a file while no worker has it; those that have a file open while it is
  converted read zeros, and can lose what they write. No session of calls reaches a freed block or a
  closed HDF5 file. Two workers on one file, or a failing \<^verbatim>\<open>stat\<close> on a converted one, lose the
  contents. The pool loses no task and no wakeup. The monitor of a copy reports no byte twice, and may
  miss some. Most other theorems say what an operation does on every branch, the errors of the code
  included.

  \<^bold>\<open>Parameters.\<close> zlib, zstd, ISA-L, HDF5, the sparse hash map, SQLite, ZeroMQ, JsonCpp and the card
  are records of functions. What the code relies on is stated in \<open>zstd_contract\<close>, \<open>zlib_contract\<close>,
  \<open>isal_contract\<close>, \<open>hdf5_contract\<close>, \<open>shm_contract\<close> and \<open>sqlite_contract\<close>, which are hypotheses of
  the theorems that need them and are proved for the instances. A failed \<^verbatim>\<open>H5Fclose\<close> promises nothing about
  the datasets of its file. What the accounts need of the database, that it executes the updates of
  one counter from a state on, is \<open>counting\<close>. Nothing is assumed of the card.

  \<^bold>\<open>Interfaces inside the program\<close> are locales: \<open>fd_table\<close> (the map of descriptors), \<open>counter\<close> (the
  accounts) and \<open>executor\<close> (the pool), each interpreted on the model's definitions.

  \<^bold>\<open>Bounds and fuel.\<close> \<open>convert2h5\<close> takes one unit of fuel for each block; \<open>convert2h5_returns\<close> shows
  that one more than the bytes of the file is enough. \<open>make_parent_dir\<close> takes one for each
  directory it makes; \<open>make_parent_dir_terminates\<close> says how many are enough. The loops of \<^verbatim>\<open>dzfile-put\<close>
  and \<^verbatim>\<open>dzfile-get\<close> take one for each piece; \<open>put_copies\<close> and \<open>get_restores\<close> hold, and return, for any
  fuel beyond the length of the file. \<open>h5fd_pread\<close> recurses on the bytes still wanted and the loops
  that wait for the card on the questions left; they need none. Machine arithmetic is kept where
  it matters: the 32-bit block number and offset of \<open>h5fd_pread\<close>, the 64-bit counters, the
  registers of the card, the buffers of fixed size. Floating-point numbers have their precision
  but no smallest exponent: the values of the program stay far from underflow and overflow.

  \<^bold>\<open>Not modelled.\<close> The texts that the programs print, apart from the results of \<^verbatim>\<open>dzfile-cat\<close>,
  \<^verbatim>\<open>dzfile-ls\<close>, \<^verbatim>\<open>dzfile-info\<close> and the numbers of a progress report; \<^verbatim>\<open>SRAI_dbg_wait\<close>, which waits for
  the keyboard; tests, benchmarks and scripts. In the runs of \<open>Crowd\<close> the reading,
  compressing and storing of one block is one step and calls of the HDF5 library do not overlap; two
  conversions of one file interleave in one place only, between the checks of \<open>convert2h5\<close> and the
  rest. While an archive is open its datasets are those that the HDF5 library has accepted, whether or not they are
  on the disk; what is left of them when the process ends before the close, killed or by its own exit,
  is not known (\<open>Restart\<close>, \<open>Exits\<close>), and nothing says what is left on the disk when the machine stops.
  Exit handlers are not modelled.
\<close>

end
